(* ===== verification/Prelude.thy ===== *)
theory Prelude
  imports Main "HOL-Library.AList" "HOL-Library.Char_ord" "HOL-Library.List_Lexorder"
    "HOL-Library.Product_Lexorder" "HOL-Library.Multiset"
begin

text \<open>
  Shared vocabulary of the development: fallible state-passing actions (the model of an
  \<open>async fn\<close> that returns a \<open>Result\<close> and talks to the store), hash maps as association
  lists, decimal rendering of integers, and the generic lemmas the component theories use.
\<close>

named_theorems act_simps \<open>unfolding of the action combinators\<close>
named_theorems hm_simps \<open>lookups after hash map updates\<close>

section \<open>Fallible actions\<close>

text \<open>
  An action reads and writes a state and returns an error (\<open>Inl\<close>) or a value (\<open>Inr\<close>).
  \<open>act_bind\<close> is Rust's \<open>let x = m.await?; k(x)\<close>: an error returns early, and the
  state changes made before it stay.
\<close>

type_synonym ('s, 'e, 'a) act = "'s \<Rightarrow> ('e + 'a) \<times> 's"

definition act_return :: "'a \<Rightarrow> ('s, 'e, 'a) act" where
  "act_return x s = (Inr x, s)"

definition act_fail :: "'e \<Rightarrow> ('s, 'e, 'a) act" where
  "act_fail e s = (Inl e, s)"

definition act_lift :: "'e + 'a \<Rightarrow> ('s, 'e, 'a) act" where
  "act_lift r s = (r, s)"

definition act_bind :: "('s, 'e, 'a) act \<Rightarrow> ('a \<Rightarrow> ('s, 'e, 'b) act) \<Rightarrow> ('s, 'e, 'b) act" where
  "act_bind m k s = (case m s of (Inl e, s') \<Rightarrow> (Inl e, s') | (Inr x, s') \<Rightarrow> k x s')"

text \<open>\<open>for x in xs { f(x).await?; }\<close>, and the same loop collecting the results.\<close>

fun act_for :: "('a \<Rightarrow> ('s, 'e, unit) act) \<Rightarrow> 'a list \<Rightarrow> ('s, 'e, unit) act" where
  "act_for f [] = act_return ()"
| "act_for f (x # xs) = act_bind (f x) (\<lambda>_. act_for f xs)"

fun act_map :: "('a \<Rightarrow> ('s, 'e, 'b) act) \<Rightarrow> 'a list \<Rightarrow> ('s, 'e, 'b list) act" where
  "act_map f [] = act_return []"
| "act_map f (x # xs) = act_bind (f x) (\<lambda>y. act_bind (act_map f xs) (\<lambda>ys. act_return (y # ys)))"

text \<open>\<open>option.ok_or_else(|| e)\<close> and \<open>result.map(f)\<close>.\<close>

definition ok_or :: "'e \<Rightarrow> 'a option \<Rightarrow> 'e + 'a" where
  "ok_or e x = (case x of None \<Rightarrow> Inl e | Some y \<Rightarrow> Inr y)"

definition res_map :: "('a \<Rightarrow> 'b) \<Rightarrow> 'e + 'a \<Rightarrow> 'e + 'b" where
  "res_map f r = (case r of Inl e \<Rightarrow> Inl e | Inr x \<Rightarrow> Inr (f x))"

definition res_bind :: "'e + 'a \<Rightarrow> ('a \<Rightarrow> 'e + 'b) \<Rightarrow> 'e + 'b" where
  "res_bind r k = (case r of Inl e \<Rightarrow> Inl e | Inr x \<Rightarrow> k x)"

lemma act_return_simp [simp, act_simps]: "act_return x s = (Inr x, s)"
  by (simp add: act_return_def)

lemma act_fail_simp [simp, act_simps]: "act_fail e s = (Inl e, s)"
  by (simp add: act_fail_def)

lemma act_lift_simp [simp, act_simps]: "act_lift r s = (r, s)"
  by (simp add: act_lift_def)

lemma act_bind_Inr: "m s = (Inr x, s') \<Longrightarrow> act_bind m k s = k x s'"
  by (simp add: act_bind_def)

lemma act_bind_Inl: "m s = (Inl e, s') \<Longrightarrow> act_bind m k s = (Inl e, s')"
  by (simp add: act_bind_def)

lemmas act_binds = act_bind_Inr act_bind_Inl

lemma ok_or_simps [simp]: "ok_or e None = Inl e" "ok_or e (Some x) = Inr x"
  by (simp_all add: ok_or_def)

lemma res_map_simps [simp]: "res_map f (Inl e) = Inl e" "res_map f (Inr x) = Inr (f x)"
  by (simp_all add: res_map_def)

lemma res_bind_simps [simp]: "res_bind (Inl e) k = Inl e" "res_bind (Inr x) k = k x"
  by (simp_all add: res_bind_def)

lemma res_map_eq_Inr: "res_map f r = Inr y \<longleftrightarrow> (\<exists>x. r = Inr x \<and> y = f x)"
  by (cases r) auto

text \<open>A predicate that every iteration keeps is kept by the loop.\<close>

lemma act_for_invariant:
  assumes "\<And>x s r s'. x \<in> set xs \<Longrightarrow> P s \<Longrightarrow> f x s = (r, s') \<Longrightarrow> P s'"
    and "P s" and "act_for f xs s = (r, s')"
  shows "P s'"
  using assms
proof (induction xs arbitrary: s)
  case Nil
  then show ?case by simp
next
  case (Cons x xs)
  obtain q t where q: "f x s = (q, t)" by (cases "f x s")
  with Cons.prems have "P t" by (meson list.set_intros(1))
  show ?case
  proof (cases q)
    case (Inl e)
    with q \<open>P t\<close> Cons.prems show ?thesis by (simp add: act_bind_def)
  next
    case (Inr u)
    with q Cons.prems have "act_for f xs t = (r, s')" by (simp add: act_bind_def)
    from Cons.IH [OF _ \<open>P t\<close> this] Cons.prems(1) show ?thesis by (meson list.set_intros(2))
  qed
qed

section \<open>Hash maps\<close>

text \<open>
  A \<open>HashMap\<close> is an association list with distinct keys (\<open>hm_ok\<close>). The list order stands
  for the iteration order, which Rust leaves unspecified: every theorem about an iteration
  is stated for an arbitrary list, so for every order.
\<close>

type_synonym ('k, 'v) hashmap = "('k \<times> 'v) list"

definition hm_ok :: "('k, 'v) hashmap \<Rightarrow> bool" where
  "hm_ok m \<longleftrightarrow> distinct (map fst m)"

definition hm_get :: "('k, 'v) hashmap \<Rightarrow> 'k \<Rightarrow> 'v option" where
  "hm_get m k = map_of m k"

definition hm_insert :: "'k \<Rightarrow> 'v \<Rightarrow> ('k, 'v) hashmap \<Rightarrow> ('k, 'v) hashmap" where
  "hm_insert k v m = AList.update k v m"

definition hm_remove :: "'k \<Rightarrow> ('k, 'v) hashmap \<Rightarrow> ('k, 'v) hashmap" where
  "hm_remove k m = AList.delete k m"

definition hm_retain :: "('k \<Rightarrow> bool) \<Rightarrow> ('k, 'v) hashmap \<Rightarrow> ('k, 'v) hashmap" where
  "hm_retain P m = filter (\<lambda>kv. P (fst kv)) m"

definition hm_values :: "('k, 'v) hashmap \<Rightarrow> 'v list" where
  "hm_values m = map snd m"

lemma hm_ok_Nil [simp]: "hm_ok []"
  by (simp add: hm_ok_def)

lemma hm_ok_insert [simp]: "hm_ok m \<Longrightarrow> hm_ok (hm_insert k v m)"
  by (simp add: hm_ok_def hm_insert_def distinct_update)

lemma hm_ok_remove [simp]: "hm_ok m \<Longrightarrow> hm_ok (hm_remove k m)"
  by (simp add: hm_ok_def hm_remove_def distinct_delete)

lemma hm_ok_retain [simp]: "hm_ok m \<Longrightarrow> hm_ok (hm_retain P m)"
  unfolding hm_ok_def hm_retain_def by (metis distinct_map_filter)

lemma hm_get_Nil [simp]: "hm_get [] k = None"
  by (simp add: hm_get_def)

lemma hm_get_insert [simp, hm_simps]:
  "hm_get (hm_insert k v m) = (hm_get m)(k \<mapsto> v)"
  by (simp add: hm_get_def hm_insert_def update_conv' fun_eq_iff)

lemma hm_get_remove [simp, hm_simps]: "hm_get (hm_remove k m) = (hm_get m)(k := None)"
  by (simp add: hm_get_def hm_remove_def delete_conv' fun_eq_iff)

lemma hm_get_retain [simp, hm_simps]:
  "hm_get (hm_retain P m) k = (if P k then hm_get m k else None)"
  unfolding hm_get_def hm_retain_def by (induction m) auto

lemma hm_get_in_values: "hm_get m k = Some v \<Longrightarrow> v \<in> set (hm_values m)"
  unfolding hm_get_def hm_values_def by (force dest: map_of_SomeD)

lemma hm_values_get: "hm_ok m \<Longrightarrow> v \<in> set (hm_values m) \<Longrightarrow> \<exists>k. hm_get m k = Some v"
  unfolding hm_get_def hm_values_def hm_ok_def by (auto intro: map_of_is_SomeI)

text \<open>
  \<open>hm_keyed f m\<close>: every entry is stored under the key its value names. The stores keep it,
  because each insert takes the key from the value.
\<close>

definition hm_keyed :: "('v \<Rightarrow> 'k) \<Rightarrow> ('k, 'v) hashmap \<Rightarrow> bool" where
  "hm_keyed f m \<longleftrightarrow> (\<forall>k v. hm_get m k = Some v \<longrightarrow> f v = k)"

lemma hm_keyed_Nil [simp]: "hm_keyed f []"
  by (simp add: hm_keyed_def)

lemma hm_keyed_insert [simp]: "hm_keyed f m \<Longrightarrow> hm_keyed f (hm_insert (f v) v m)"
  by (simp add: hm_keyed_def)

lemma hm_keyed_remove [simp]: "hm_keyed f m \<Longrightarrow> hm_keyed f (hm_remove k m)"
  by (simp add: hm_keyed_def)

lemma hm_keyed_retain [simp]: "hm_keyed f m \<Longrightarrow> hm_keyed f (hm_retain P m)"
  by (simp add: hm_keyed_def)

lemma hm_keyed_values:
  assumes "hm_ok m" "hm_keyed f m"
  shows "v \<in> set (hm_values m) \<longleftrightarrow> hm_get m (f v) = Some v"
  using assms by (metis hm_get_in_values hm_keyed_def hm_values_get)

lemma hm_values_distinct:
  assumes "hm_ok m" "hm_keyed f m"
  shows "distinct (map f (hm_values m))"
proof -
  have "map f (hm_values m) = map fst m"
    using assms unfolding hm_values_def hm_ok_def hm_keyed_def hm_get_def
    by (auto simp: map_of_eq_Some_iff)
  with assms(1) show ?thesis by (simp add: hm_ok_def)
qed

section \<open>Decimal rendering\<close>

text \<open>\<open>Display\<close> of unsigned and signed integers.\<close>

fun show_nat :: "nat \<Rightarrow> string" where
  "show_nat n = (if n < 10 then [char_of (48 + n)] else show_nat (n div 10) @ [char_of (48 + n mod 10)])"

declare show_nat.simps [simp del]

definition show_int :: "int \<Rightarrow> string" where
  "show_int i = (if i < 0 then CHR ''-'' # show_nat (nat (- i)) else show_nat (nat i))"

definition is_digit :: "char \<Rightarrow> bool" where
  "is_digit c \<longleftrightarrow> 48 \<le> (of_char c :: nat) \<and> (of_char c :: nat) \<le> 57"

text \<open>Reading the decimal rendering back, the inverse used to show that it is injective.\<close>

definition digits_value :: "string \<Rightarrow> nat" where
  "digits_value cs = foldl (\<lambda>a c. 10 * a + (of_char c - 48)) 0 cs"

lemma digit_char: "d < 10 \<Longrightarrow> (of_char (char_of (48 + d) :: char) :: nat) = 48 + d"
  by simp

lemma show_nat_digits: "\<forall>c \<in> set (show_nat n). is_digit c"
proof (induction n rule: show_nat.induct)
  case (1 n)
  show ?case
    by (subst show_nat.simps) (use 1 in \<open>auto simp: is_digit_def\<close>)
qed

lemma show_nat_nonempty [simp]: "show_nat n \<noteq> []"
  by (subst show_nat.simps) simp

lemma digits_value_show_nat: "digits_value (show_nat n) = n"
proof (induction n rule: show_nat.induct)
  case (1 n)
  show ?case
  proof (cases "n < 10")
    case True
    then show ?thesis by (subst show_nat.simps) (simp add: digits_value_def)
  next
    case False
    have "digits_value (show_nat n) = 10 * digits_value (show_nat (n div 10)) + n mod 10"
      using False by (subst show_nat.simps) (simp add: digits_value_def)
    with False 1 show ?thesis by simp
  qed
qed

lemma show_nat_inj: "show_nat m = show_nat n \<longleftrightarrow> m = n"
  by (metis digits_value_show_nat)

lemma minus_not_digit: "\<not> is_digit (CHR ''-'')"
  by (simp add: is_digit_def)

lemma colon_not_digit: "\<not> is_digit (CHR '':'')"
  by (simp add: is_digit_def)

lemma show_int_inj: "show_int i = show_int j \<longleftrightarrow> i = j"
proof
  assume eq: "show_int i = show_int j"
  have hd: "show_nat n \<noteq> CHR ''-'' # xs" for n xs
    using show_nat_digits [of n] minus_not_digit by auto
  from eq show "i = j"
    by (auto simp: show_int_def show_nat_inj hd hd [symmetric] split: if_splits)
qed simp

lemma show_int_no_colon: "CHR '':'' \<notin> set (show_int i)"
  using show_nat_digits colon_not_digit by (auto simp: show_int_def)

section \<open>Strings\<close>

text \<open>\<open>str::starts_with\<close> and \<open>str::strip_prefix\<close>.\<close>

fun starts_with :: "string \<Rightarrow> string \<Rightarrow> bool" where
  "starts_with s [] = True"
| "starts_with [] (p # ps) = False"
| "starts_with (c # s) (p # ps) = (c = p \<and> starts_with s ps)"

fun strip_prefix :: "string \<Rightarrow> string \<Rightarrow> string option" where
  "strip_prefix [] s = Some s"
| "strip_prefix (p # ps) [] = None"
| "strip_prefix (p # ps) (c # s) = (if p = c then strip_prefix ps s else None)"

lemma starts_with_append: "starts_with s p \<longleftrightarrow> (\<exists>r. s = p @ r)"
  by (induction s p rule: starts_with.induct) auto

lemma strip_prefix_Some: "strip_prefix p s = Some r \<longleftrightarrow> s = p @ r"
  by (induction p s rule: strip_prefix.induct) auto

text \<open>\<open>to_ascii_uppercase\<close> works byte by byte; other bytes stay.\<close>

definition ascii_upper_char :: "char \<Rightarrow> char" where
  "ascii_upper_char c =
     (let n = (of_char c :: nat) in if 97 \<le> n \<and> n \<le> 122 then char_of (n - 32) else c)"

definition to_ascii_uppercase :: "string \<Rightarrow> string" where
  "to_ascii_uppercase s = map ascii_upper_char s"

definition eq_ignore_ascii_case :: "string \<Rightarrow> string \<Rightarrow> bool" where
  "eq_ignore_ascii_case a b \<longleftrightarrow> to_ascii_uppercase a = to_ascii_uppercase b"

text \<open>\<open>str::split(sep)\<close> on one character: always at least one piece.\<close>

fun split_on :: "char \<Rightarrow> string \<Rightarrow> string list" where
  "split_on sep [] = [[]]"
| "split_on sep (c # s) =
     (if c = sep then [] # split_on sep s
      else (case split_on sep s of [] \<Rightarrow> [[c]] | p # ps \<Rightarrow> (c # p) # ps))"

text \<open>\<open>str::split_once(sep)\<close>.\<close>

fun split_once :: "char \<Rightarrow> string \<Rightarrow> (string \<times> string) option" where
  "split_once sep [] = None"
| "split_once sep (c # s) =
     (if c = sep then Some ([], s)
      else map_option (\<lambda>(a, b). (c # a, b)) (split_once sep s))"

lemma split_on_no_sep: "\<forall>p \<in> set (split_on sep s). sep \<notin> set p"
  by (induction s) (auto split: list.splits)

lemma split_once_append: "sep \<notin> set a \<Longrightarrow> split_once sep (a @ sep # b) = Some (a, b)"
  by (induction a) auto

lemma split_once_SomeD: "split_once sep s = Some (a, b) \<Longrightarrow> s = a @ sep # b \<and> sep \<notin> set a"
proof (induction s arbitrary: a)
  case Nil
  then show ?case by simp
next
  case (Cons c s)
  show ?case
  proof (cases "c = sep")
    case True
    with Cons.prems show ?thesis by simp
  next
    case False
    with Cons.prems obtain a' where "split_once sep s = Some (a', b)" "a = c # a'" by auto
    with Cons.IH False show ?thesis by simp
  qed
qed

text \<open>Two strings that agree up to a separator occurring in neither suffix (or prefix).\<close>

lemma takeWhile_separator: "sep \<notin> set a \<Longrightarrow> takeWhile (\<lambda>x. x \<noteq> sep) (a @ sep # b) = a"
  by (induction a) auto

lemma first_separator_unique:
  assumes "a @ sep # b = c @ sep # d" "sep \<notin> set a" "sep \<notin> set c"
  shows "a = c \<and> b = d"
proof -
  have "a = c" using assms by (metis takeWhile_separator)
  with assms(1) show ?thesis by simp
qed

lemma last_separator_unique:
  assumes "a @ sep # b = c @ sep # d" "sep \<notin> set b" "sep \<notin> set d"
  shows "a = c \<and> b = d"
proof -
  from assms(1) have "rev b @ sep # rev a = rev d @ sep # rev c"
    by (metis append_assoc append_Cons append_Nil rev.simps(2) rev_append)
  from first_separator_unique [OF this] assms(2,3) show ?thesis by simp
qed

section \<open>Stable sorting and paging\<close>

text \<open>
  \<open>sort_by_key\<close> and \<open>sort_by\<close> of the standard library are stable, as \<open>sort_key\<close> is.
  A page drops the first \<open>offset\<close> rows (at most all of them) and keeps at most \<open>limit\<close>.
\<close>

definition page_rows :: "nat option \<Rightarrow> nat option \<Rightarrow> 'a list \<Rightarrow> 'a list" where
  "page_rows off lim rows =
     (let k = min (case off of None \<Rightarrow> 0 | Some k \<Rightarrow> k) (length rows);
          rows' = (if k > 0 then drop k rows else rows)
      in case lim of None \<Rightarrow> rows' | Some l \<Rightarrow> if length rows' > l then take l rows' else rows')"

lemma page_rows_eq:
  "page_rows off lim rows =
     (case lim of None \<Rightarrow> id | Some l \<Rightarrow> take l) (drop (case off of None \<Rightarrow> 0 | Some k \<Rightarrow> k) rows)"
  by (auto simp: page_rows_def Let_def min_def split: option.splits)

lemma set_page_rows: "set (page_rows off lim rows) \<subseteq> set rows"
  by (auto simp: page_rows_eq split: option.splits dest: in_set_takeD in_set_dropD)

lemma length_page_rows: "lim = Some l \<Longrightarrow> length (page_rows off lim rows) \<le> l"
  by (auto simp: page_rows_eq)

lemma sorted_page_rows: "sorted (map f rows) \<Longrightarrow> sorted (map f (page_rows off lim rows))"
  by (auto simp: page_rows_eq drop_map [symmetric] take_map [symmetric]
      intro: sorted_wrt_take sorted_wrt_drop split: option.splits)

text \<open>Sorting forgets the order of the input when the keys are distinct.\<close>

lemma sort_key_mset_eq:
  assumes "mset xs = mset ys" "inj_on f (set xs)"
  shows "sort_key f xs = sort_key f ys"
  by (rule sort_key_inj_key_eq) (use assms in simp_all)

section \<open>Ordered maps\<close>

text \<open>
  A \<open>BTreeMap\<close> is an association list with strictly increasing keys, so its iteration order is
  the list. \<open>bt_update k f m\<close> is the entry API: \<open>f\<close> sees the old value, if any.
\<close>

type_synonym ('k, 'v) btreemap = "('k \<times> 'v) list"

fun bt_update :: "'k::linorder \<Rightarrow> ('v option \<Rightarrow> 'v) \<Rightarrow> ('k, 'v) btreemap \<Rightarrow> ('k, 'v) btreemap" where
  "bt_update k f [] = [(k, f None)]"
| "bt_update k f ((k', v) # m) =
     (if k < k' then (k, f None) # (k', v) # m
      else if k = k' then (k, f (Some v)) # m
      else (k', v) # bt_update k f m)"

definition bt_insert :: "'k::linorder \<Rightarrow> 'v \<Rightarrow> ('k, 'v) btreemap \<Rightarrow> ('k, 'v) btreemap" where
  "bt_insert k v m = bt_update k (\<lambda>_. v) m"

definition bt_ok :: "('k::linorder, 'v) btreemap \<Rightarrow> bool" where
  "bt_ok m \<longleftrightarrow> sorted_wrt (<) (map fst m)"

lemma bt_ok_simps [simp]:
  "bt_ok []"
  "bt_ok ((k, v) # m) \<longleftrightarrow> (\<forall>k' \<in> fst ` set m. k < k') \<and> bt_ok m"
  by (simp_all add: bt_ok_def)

lemma keys_bt_update: "fst ` set (bt_update k f m) = insert k (fst ` set m)"
  by (induction k f m rule: bt_update.induct) auto

lemma bt_ok_update [simp]: "bt_ok m \<Longrightarrow> bt_ok (bt_update k f m)"
  by (induction k f m rule: bt_update.induct) (auto simp: keys_bt_update)

lemma bt_ok_insert [simp]: "bt_ok m \<Longrightarrow> bt_ok (bt_insert k v m)"
  by (simp add: bt_insert_def)

lemma map_of_less_None: "\<forall>k' \<in> fst ` set m. k < k' \<Longrightarrow> map_of m (k::'k::linorder) = None"
  by (metis map_of_eq_None_iff order_less_irrefl)

lemma map_of_bt_update [hm_simps]:
  "bt_ok m \<Longrightarrow> map_of (bt_update k f m) = (map_of m)(k \<mapsto> f (map_of m k))"
proof (induction k f m rule: bt_update.induct)
  case (1 k f)
  then show ?case by simp
next
  case (2 k f k' v m)
  have "map_of m k = None" if "k < k'"
    using "2.prems" that by (intro map_of_less_None) (auto dest: less_trans)
  with 2 show ?case by (auto simp: fun_eq_iff)
qed

lemma map_of_bt_insert [hm_simps]: "bt_ok m \<Longrightarrow> map_of (bt_insert k v m) = (map_of m)(k \<mapsto> v)"
  by (simp add: bt_insert_def map_of_bt_update)

end
