(* ===== verification/Errors.thy ===== *)
theory Errors
  imports Prelude
begin

text \<open>
  \<open>src/src/error.rs\<close>: the error codes with their discriminants, the structured error and
  its constructors, and the conversions from the errors of other crates. The boxed source
  error is kept as its text.
\<close>

datatype dbos_error_code =
    ConflictingId
  | Initialization
  | NonExistentWorkflow
  | ConflictingWorkflow
  | WorkflowCancelled
  | UnexpectedStep
  | AwaitedWorkflowCancelled
  | ConflictingRegistration
  | WorkflowUnexpectedType
  | WorkflowExecution
  | StepExecution
  | DeadLetterQueue
  | MaxStepRetriesExceeded
  | QueueDeduplicated
  | PatchingNotEnabled
  | Timeout
  | NoApplicationVersions
  | Database
  | Serialization
  | InvalidArgument
  | Unsupported

text \<open>The \<open>#[repr(i32)]\<close> discriminants.\<close>

fun code_num :: "dbos_error_code \<Rightarrow> int" where
  "code_num ConflictingId = 1"
| "code_num Initialization = 2"
| "code_num NonExistentWorkflow = 3"
| "code_num ConflictingWorkflow = 4"
| "code_num WorkflowCancelled = 5"
| "code_num UnexpectedStep = 6"
| "code_num AwaitedWorkflowCancelled = 7"
| "code_num ConflictingRegistration = 8"
| "code_num WorkflowUnexpectedType = 9"
| "code_num WorkflowExecution = 10"
| "code_num StepExecution = 11"
| "code_num DeadLetterQueue = 12"
| "code_num MaxStepRetriesExceeded = 13"
| "code_num QueueDeduplicated = 14"
| "code_num PatchingNotEnabled = 15"
| "code_num Timeout = 16"
| "code_num NoApplicationVersions = 17"
| "code_num Database = 18"
| "code_num Serialization = 19"
| "code_num InvalidArgument = 20"
| "code_num Unsupported = 21"

lemma code_num_inj: "code_num c = code_num d \<longleftrightarrow> c = d"
  by (cases c; cases d) simp_all

text \<open>The codes are ordered by discriminant.\<close>

instantiation dbos_error_code :: linorder
begin

definition less_eq_dbos_error_code :: "dbos_error_code \<Rightarrow> dbos_error_code \<Rightarrow> bool" where
  "less_eq_dbos_error_code c d \<longleftrightarrow> code_num c \<le> code_num d"

definition less_dbos_error_code :: "dbos_error_code \<Rightarrow> dbos_error_code \<Rightarrow> bool" where
  "less_dbos_error_code c d \<longleftrightarrow> code_num c < code_num d"

instance
  by standard
    (auto simp: less_eq_dbos_error_code_def less_dbos_error_code_def code_num_inj [symmetric])

end

text \<open>The \<open>Debug\<close> rendering of a code, used by \<open>Display\<close> of the error.\<close>

fun code_debug :: "dbos_error_code \<Rightarrow> string" where
  "code_debug ConflictingId = ''ConflictingId''"
| "code_debug Initialization = ''Initialization''"
| "code_debug NonExistentWorkflow = ''NonExistentWorkflow''"
| "code_debug ConflictingWorkflow = ''ConflictingWorkflow''"
| "code_debug WorkflowCancelled = ''WorkflowCancelled''"
| "code_debug UnexpectedStep = ''UnexpectedStep''"
| "code_debug AwaitedWorkflowCancelled = ''AwaitedWorkflowCancelled''"
| "code_debug ConflictingRegistration = ''ConflictingRegistration''"
| "code_debug WorkflowUnexpectedType = ''WorkflowUnexpectedType''"
| "code_debug WorkflowExecution = ''WorkflowExecution''"
| "code_debug StepExecution = ''StepExecution''"
| "code_debug DeadLetterQueue = ''DeadLetterQueue''"
| "code_debug MaxStepRetriesExceeded = ''MaxStepRetriesExceeded''"
| "code_debug QueueDeduplicated = ''QueueDeduplicated''"
| "code_debug PatchingNotEnabled = ''PatchingNotEnabled''"
| "code_debug Timeout = ''Timeout''"
| "code_debug NoApplicationVersions = ''NoApplicationVersions''"
| "code_debug Database = ''Database''"
| "code_debug Serialization = ''Serialization''"
| "code_debug InvalidArgument = ''InvalidArgument''"
| "code_debug Unsupported = ''Unsupported''"

record dbos_error =
  err_code :: dbos_error_code
  err_message :: string
  err_workflow_id :: "string option"
  err_destination_id :: "string option"
  err_step_name :: "string option"
  err_queue_name :: "string option"
  err_deduplication_id :: "string option"
  err_step_id :: "int option"
  err_expected_name :: "string option"
  err_recorded_name :: "string option"
  err_max_retries :: "nat option"
  err_source :: "string option"

type_synonym 'a res = "dbos_error + 'a"

definition new_error :: "dbos_error_code \<Rightarrow> string \<Rightarrow> dbos_error" where
  "new_error code message =
     \<lparr>err_code = code, err_message = message, err_workflow_id = None, err_destination_id = None,
      err_step_name = None, err_queue_name = None, err_deduplication_id = None,
      err_step_id = None, err_expected_name = None, err_recorded_name = None,
      err_max_retries = None, err_source = None\<rparr>"

definition with_source :: "dbos_error_code \<Rightarrow> string \<Rightarrow> string \<Rightarrow> dbos_error" where
  "with_source code message source = (new_error code message)\<lparr>err_source := Some source\<rparr>"

definition initialization_error :: "string \<Rightarrow> dbos_error" where
  "initialization_error message = new_error Initialization message"

definition database_error :: "string \<Rightarrow> dbos_error" where
  "database_error message = new_error Database message"

definition serialization_error :: "string \<Rightarrow> dbos_error" where
  "serialization_error message = new_error Serialization message"

definition invalid_argument :: "string \<Rightarrow> dbos_error" where
  "invalid_argument message = new_error InvalidArgument message"

definition unsupported :: "string \<Rightarrow> dbos_error" where
  "unsupported message = new_error Unsupported message"

definition timeout_error :: "string \<Rightarrow> dbos_error" where
  "timeout_error message = new_error Timeout message"

definition workflow_execution_error :: "string \<Rightarrow> string \<Rightarrow> dbos_error" where
  "workflow_execution_error workflow_id message =
     (new_error WorkflowExecution
        (''workflow '' @ workflow_id @ '' execution error: '' @ message))
       \<lparr>err_workflow_id := Some workflow_id\<rparr>"

definition step_execution_error :: "string \<Rightarrow> string \<Rightarrow> string \<Rightarrow> dbos_error" where
  "step_execution_error workflow_id step_name message =
     (new_error StepExecution
        (''step '' @ step_name @ '' in workflow '' @ workflow_id @ '' execution error: '' @ message))
       \<lparr>err_workflow_id := Some workflow_id, err_step_name := Some step_name\<rparr>"

definition unexpected_step_error :: "string \<Rightarrow> int \<Rightarrow> string \<Rightarrow> string \<Rightarrow> dbos_error" where
  "unexpected_step_error workflow_id step_id expected recorded =
     (new_error UnexpectedStep
        (''during execution of workflow '' @ workflow_id @ '' step '' @ show_int step_id
         @ '', function '' @ recorded @ '' was recorded when '' @ expected
         @ '' was expected; workflow code must be deterministic''))
       \<lparr>err_workflow_id := Some workflow_id, err_step_id := Some step_id,
        err_expected_name := Some expected, err_recorded_name := Some recorded\<rparr>"

definition non_existent_workflow :: "string \<Rightarrow> dbos_error" where
  "non_existent_workflow workflow_id =
     (new_error NonExistentWorkflow (''workflow '' @ workflow_id @ '' does not exist''))
       \<lparr>err_workflow_id := Some workflow_id, err_destination_id := Some workflow_id\<rparr>"

text \<open>\<open>From<serde_json::Error>\<close>, \<open>From<tokio_postgres::Error>\<close>, \<open>From<turso::Error>\<close>.\<close>

definition from_serde_error :: "string \<Rightarrow> dbos_error" where
  "from_serde_error e = with_source Serialization ''serialization failed'' e"

definition from_postgres_error :: "string \<Rightarrow> dbos_error" where
  "from_postgres_error e = with_source Database ''postgres operation failed'' e"

definition from_turso_error :: "string \<Rightarrow> dbos_error" where
  "from_turso_error e = with_source Database ''turso operation failed'' e"

text \<open>\<open>Display\<close>: \<open>"DBOS error {code:?}: {message}"\<close>.\<close>

definition error_to_string :: "dbos_error \<Rightarrow> string" where
  "error_to_string e = ''DBOS error '' @ code_debug (err_code e) @ '': '' @ err_message e"

lemmas error_defs = new_error_def with_source_def initialization_error_def database_error_def
  serialization_error_def invalid_argument_def unsupported_def timeout_error_def
  workflow_execution_error_def step_execution_error_def unexpected_step_error_def
  non_existent_workflow_def from_serde_error_def from_postgres_error_def from_turso_error_def

lemma error_codes [simp]:
  "err_code (new_error c m) = c"
  "err_code (with_source c m s) = c"
  "err_code (initialization_error m) = Initialization"
  "err_code (database_error m) = Database"
  "err_code (serialization_error m) = Serialization"
  "err_code (invalid_argument m) = InvalidArgument"
  "err_code (unsupported m) = Unsupported"
  "err_code (timeout_error m) = Timeout"
  "err_code (workflow_execution_error w m) = WorkflowExecution"
  "err_code (step_execution_error w n m) = StepExecution"
  "err_code (unexpected_step_error w i x r) = UnexpectedStep"
  "err_code (non_existent_workflow w) = NonExistentWorkflow"
  "err_code (from_serde_error s) = Serialization"
  "err_code (from_postgres_error s) = Database"
  "err_code (from_turso_error s) = Database"
  by (simp_all add: error_defs)

end
