(* ===== verification/Types.thy ===== *)
theory Types
  imports Errors
begin

text \<open>
  The data model of \<open>src/src/types.rs\<close>: enums as datatypes, structs as records with the
  source's field names behind a short prefix, option structs with their \<open>Default\<close> values.
  A \<open>Duration\<close> is its number of nanoseconds, a \<open>DateTime<Utc>\<close> its nanoseconds since the
  epoch; a \<open>String\<close> is its list of bytes. \<open>json\<close> is \<open>serde_json::Value\<close>, with a float kept
  as its text and an object as its key-sorted list of members.
\<close>

type_synonym duration = nat
type_synonym datetime = int

datatype json_number = NInt int | NFloat string

datatype json =
    JNull
  | JBool bool
  | JNumber json_number
  | JString string
  | JArray "json list"
  | JObject "(string \<times> json) list"

text \<open>\<open>Value::get(field)\<close> on an object, \<open>as_str\<close>, \<open>is_null\<close>.\<close>

definition json_get :: "json \<Rightarrow> string \<Rightarrow> json option" where
  "json_get v field = (case v of JObject members \<Rightarrow> map_of members field | _ \<Rightarrow> None)"

definition json_as_str :: "json \<Rightarrow> string option" where
  "json_as_str v = (case v of JString s \<Rightarrow> Some s | _ \<Rightarrow> None)"

definition json_is_null :: "json \<Rightarrow> bool" where
  "json_is_null v \<longleftrightarrow> v = JNull"

definition nanos_per_milli :: nat where
  "nanos_per_milli = 1000000"

definition from_millis :: "nat \<Rightarrow> duration" where
  "from_millis ms = ms * nanos_per_milli"

definition from_secs :: "nat \<Rightarrow> duration" where
  "from_secs s = s * 1000000000"

definition as_millis :: "duration \<Rightarrow> nat" where
  "as_millis d = d div nanos_per_milli"

text \<open>
  \<open>Debug\<close> of a \<open>Duration\<close>, as in an error message: the largest unit not above it, and the fraction
  without trailing zeros. The sign of microseconds is two bytes of UTF-8.
\<close>

definition debug_decimal :: "nat \<Rightarrow> nat \<Rightarrow> nat \<Rightarrow> string" where
  "debug_decimal whole fraction digits =
     (let shown = show_nat fraction; padded = replicate (digits - length shown) CHR ''0'' @ shown
      in show_nat whole @ (if fraction = 0 then [] else
           CHR ''.'' # rev (dropWhile (\<lambda>c. c = CHR ''0'') (rev padded))))"

definition debug_duration :: "duration \<Rightarrow> string" where
  "debug_duration d =
     (if 10 ^ 9 \<le> d then debug_decimal (d div 10 ^ 9) (d mod 10 ^ 9) 9 @ ''s''
      else if 10 ^ 6 \<le> d then debug_decimal (d div 10 ^ 6) (d mod 10 ^ 6) 6 @ ''ms''
      else if 10 ^ 3 \<le> d then debug_decimal (d div 10 ^ 3) (d mod 10 ^ 3) 3 @ [char_of (194::nat), char_of (181::nat), CHR ''s'']
      else show_nat d @ ''ns'')"

text \<open>
  \<open>Debug\<close> of a \<open>str\<close>, as in an error message: quoted, with Rust's escapes. Bytes above 127 belong to
  printable characters here.
\<close>

definition hex_digit :: "nat \<Rightarrow> char" where
  "hex_digit n = char_of (if n < 10 then 48 + n else 87 + n)"

definition debug_char :: "char \<Rightarrow> string" where
  "debug_char c =
     (let n = of_char c :: nat; escaped = (\<lambda>x. [CHR 0x5C, x]) in
      if n = 0 then escaped CHR ''0'' else if n = 9 then escaped CHR ''t''
      else if n = 10 then escaped CHR ''n'' else if n = 13 then escaped CHR ''r''
      else if n = 34 \<or> n = 92 then escaped c
      else if n < 16 then escaped CHR ''u'' @ ''{'' @ [hex_digit n] @ ''}''
      else if n < 32 \<or> n = 127 then escaped CHR ''u'' @ ''{'' @ [hex_digit (n div 16), hex_digit (n mod 16)] @ ''}''
      else [c])"

definition debug_str :: "string \<Rightarrow> string" where
  "debug_str s = [CHR 0x22] @ concat (map debug_char s) @ [CHR 0x22]"

text \<open>\<open>chrono::Duration::from_std\<close> fails above \<open>i64::MAX\<close> milliseconds.\<close>

definition chrono_from_std :: "duration \<Rightarrow> int option" where
  "chrono_from_std d = (if d \<le> (2 ^ 63 - 1) * nanos_per_milli then Some (int d) else None)"

section \<open>Durations on the wire\<close>

text \<open>
  The \<open>duration_millis\<close> serde modules: a duration is written as whole milliseconds, clamped
  to \<open>u64\<close>, and read back from them.
\<close>

definition duration_millis_serialize :: "duration \<Rightarrow> nat" where
  "duration_millis_serialize d = min (as_millis d) (2 ^ 64 - 1)"

definition duration_millis_deserialize :: "nat \<Rightarrow> duration" where
  "duration_millis_deserialize ms = from_millis ms"

definition duration_millis_option_serialize :: "duration option \<Rightarrow> nat option" where
  "duration_millis_option_serialize d = map_option (\<lambda>d. min (as_millis d) (2 ^ 64 - 1)) d"

definition duration_millis_option_deserialize :: "nat option \<Rightarrow> duration option" where
  "duration_millis_option_deserialize ms = map_option from_millis ms"

section \<open>Workflows and steps\<close>

datatype workflow_status_type =
    Pending
  | Enqueued
  | Delayed
  | Success
  | Error
  | Cancelled
  | MaxRecoveryAttemptsExceeded

fun is_terminal :: "workflow_status_type \<Rightarrow> bool" where
  "is_terminal Success = True"
| "is_terminal Error = True"
| "is_terminal Cancelled = True"
| "is_terminal MaxRecoveryAttemptsExceeded = True"
| "is_terminal _ = False"

record workflow_status =
  wf_workflow_uuid :: string
  wf_status :: workflow_status_type
  wf_name :: string
  wf_authenticated_user :: "string option"
  wf_assumed_role :: "string option"
  wf_authenticated_roles :: "string list"
  wf_output :: "json option"
  wf_error :: "string option"
  wf_executor_id :: "string option"
  wf_execution_id :: "string option"
  wf_created_at :: datetime
  wf_updated_at :: datetime
  wf_application_version :: string
  wf_application_id :: "string option"
  wf_attempts :: nat
  wf_queue_name :: "string option"
  wf_timeout :: "duration option"
  wf_deadline :: "datetime option"
  wf_started_at :: "datetime option"
  wf_completed_at :: "datetime option"
  wf_deduplication_id :: "string option"
  wf_input :: "json option"
  wf_priority :: "int option"
  wf_queue_partition_key :: "string option"
  wf_forked_from :: "string option"
  wf_was_forked_from :: bool
  wf_parent_workflow_id :: "string option"
  wf_class_name :: "string option"
  wf_config_name :: "string option"
  wf_serialization :: string
  wf_delay_until :: "datetime option"

definition new_workflow_status ::
    "string \<Rightarrow> string \<Rightarrow> string \<Rightarrow> string \<Rightarrow> datetime \<Rightarrow> workflow_status" where
  "new_workflow_status workflow_uuid name application_version serialization now =
     \<lparr>wf_workflow_uuid = workflow_uuid, wf_status = Pending, wf_name = name,
      wf_authenticated_user = None, wf_assumed_role = None, wf_authenticated_roles = [],
      wf_output = None, wf_error = None, wf_executor_id = None, wf_execution_id = None,
      wf_created_at = now, wf_updated_at = now, wf_application_version = application_version,
      wf_application_id = None, wf_attempts = 0, wf_queue_name = None, wf_timeout = None,
      wf_deadline = None, wf_started_at = None, wf_completed_at = None,
      wf_deduplication_id = None, wf_input = None, wf_priority = None,
      wf_queue_partition_key = None, wf_forked_from = None, wf_was_forked_from = False,
      wf_parent_workflow_id = None, wf_class_name = None, wf_config_name = None,
      wf_serialization = serialization, wf_delay_until = None\<rparr>"

record step_info =
  step_workflow_uuid :: string
  step_id :: int
  step_name :: string
  step_output :: "json option"
  step_error :: "string option"
  step_child_workflow_id :: "string option"
  step_serialization :: string
  step_started_at :: datetime
  step_completed_at :: datetime

section \<open>Queues and schedules\<close>

record rate_limiter =
  rl_limit :: nat
  rl_period :: duration

datatype queue_conflict_resolution = UpdateIfLatestVersion | AlwaysUpdate | NeverUpdate

record workflow_queue =
  q_name :: string
  q_worker_concurrency :: "nat option"
  q_global_concurrency :: "nat option"
  q_priority_enabled :: bool
  q_rate_limit :: "rate_limiter option"
  q_max_tasks_per_iteration :: nat
  q_partition_queue :: bool
  q_polling_interval :: duration
  q_max_polling_interval :: duration
  q_on_conflict :: queue_conflict_resolution

definition default_queue_max_polling_interval :: duration where
  "default_queue_max_polling_interval = from_secs 30"

definition new_queue :: "string \<Rightarrow> workflow_queue" where
  "new_queue name =
     \<lparr>q_name = name, q_worker_concurrency = None, q_global_concurrency = None,
      q_priority_enabled = False, q_rate_limit = None, q_max_tasks_per_iteration = 100,
      q_partition_queue = False, q_polling_interval = from_secs 1,
      q_max_polling_interval = default_queue_max_polling_interval,
      q_on_conflict = UpdateIfLatestVersion\<rparr>"

datatype schedule_status = Active | Paused

record workflow_schedule =
  sch_schedule_id :: string
  sch_schedule_name :: string
  sch_workflow_name :: string
  sch_workflow_class_name :: "string option"
  sch_schedule :: string
  sch_status :: schedule_status
  sch_context :: "json option"
  sch_last_fired_at :: "datetime option"
  sch_automatic_backfill :: bool
  sch_cron_timezone :: "string option"
  sch_queue_name :: "string option"

record scheduled_workflow_input =
  swi_scheduled_time :: datetime
  swi_context :: "json option"

record create_schedule_request =
  csr_schedule_name :: string
  csr_schedule :: string
  csr_workflow_name :: string
  csr_context :: "json option"
  csr_automatic_backfill :: bool
  csr_cron_timezone :: "string option"
  csr_queue_name :: "string option"
  csr_workflow_class_name :: "string option"

section \<open>Options\<close>

record workflow_options =
  wo_workflow_id :: "string option"
  wo_queue_name :: "string option"
  wo_application_version :: "string option"
  wo_deduplication_id :: "string option"
  wo_priority :: "int option"
  wo_timeout :: "duration option"
  wo_delay :: "duration option"
  wo_authenticated_user :: "string option"
  wo_assumed_role :: "string option"
  wo_authenticated_roles :: "string list"
  wo_queue_partition_key :: "string option"
  wo_class_name :: "string option"
  wo_config_name :: "string option"
  wo_parent_workflow_id :: "string option"
  wo_max_retries :: "nat option"
  wo_portable :: bool

definition default_workflow_options :: workflow_options where
  "default_workflow_options =
     \<lparr>wo_workflow_id = None, wo_queue_name = None, wo_application_version = None,
      wo_deduplication_id = None, wo_priority = None, wo_timeout = None, wo_delay = None,
      wo_authenticated_user = None, wo_assumed_role = None, wo_authenticated_roles = [],
      wo_queue_partition_key = None, wo_class_name = None, wo_config_name = None,
      wo_parent_workflow_id = None, wo_max_retries = None, wo_portable = False\<rparr>"

datatype deduplication_policy = Reject | ReturnExisting

record enqueue_options =
  eo_workflow_id :: "string option"
  eo_application_version :: "string option"
  eo_deduplication_id :: "string option"
  eo_deduplication_policy :: deduplication_policy
  eo_priority :: "int option"
  eo_timeout :: "duration option"
  eo_queue_partition_key :: "string option"
  eo_class_name :: "string option"
  eo_config_name :: "string option"
  eo_delay :: "duration option"
  eo_authenticated_user :: "string option"
  eo_assumed_role :: "string option"
  eo_authenticated_roles :: "string list"
  eo_portable :: bool

record resume_workflow_options =
  ro_queue_name :: "string option"

record delete_workflow_options =
  do_force :: bool

record set_workflow_delay_options =
  sd_delay :: "duration option"
  sd_delay_until :: "datetime option"

record list_workflows_options =
  lo_workflow_ids :: "string list"
  lo_authenticated_user :: "string option"
  lo_authenticated_users :: "string list"
  lo_start_time :: "datetime option"
  lo_end_time :: "datetime option"
  lo_status :: "workflow_status_type list"
  lo_application_version :: "string option"
  lo_application_versions :: "string list"
  lo_workflow_name :: "string option"
  lo_workflow_names :: "string list"
  lo_limit :: "nat option"
  lo_offset :: "nat option"
  lo_sort_desc :: bool
  lo_workflow_id_prefix :: "string option"
  lo_workflow_id_prefixes :: "string list"
  lo_load_input :: bool
  lo_load_output :: bool
  lo_queue_name :: "string option"
  lo_queue_names :: "string list"
  lo_queues_only :: bool
  lo_deduplication_id :: "string option"
  lo_deduplication_ids :: "string list"
  lo_executor_ids :: "string list"
  lo_forked_from :: "string list"
  lo_parent_workflow_ids :: "string list"
  lo_completed_after :: "datetime option"
  lo_completed_before :: "datetime option"
  lo_dequeued_after :: "datetime option"
  lo_dequeued_before :: "datetime option"
  lo_was_forked_from :: "bool option"
  lo_has_parent :: "bool option"

definition default_list_options :: list_workflows_options where
  "default_list_options =
     \<lparr>lo_workflow_ids = [], lo_authenticated_user = None, lo_authenticated_users = [],
      lo_start_time = None, lo_end_time = None, lo_status = [], lo_application_version = None,
      lo_application_versions = [], lo_workflow_name = None, lo_workflow_names = [],
      lo_limit = None, lo_offset = None, lo_sort_desc = False, lo_workflow_id_prefix = None,
      lo_workflow_id_prefixes = [], lo_load_input = False, lo_load_output = False,
      lo_queue_name = None, lo_queue_names = [], lo_queues_only = False,
      lo_deduplication_id = None, lo_deduplication_ids = [], lo_executor_ids = [],
      lo_forked_from = [], lo_parent_workflow_ids = [], lo_completed_after = None,
      lo_completed_before = None, lo_dequeued_after = None, lo_dequeued_before = None,
      lo_was_forked_from = None, lo_has_parent = None\<rparr>"

record list_schedules_options =
  ls_statuses :: "schedule_status list"
  ls_workflow_names :: "string list"
  ls_schedule_name_prefixes :: "string list"

definition default_list_schedules_options :: list_schedules_options where
  "default_list_schedules_options =
     \<lparr>ls_statuses = [], ls_workflow_names = [], ls_schedule_name_prefixes = []\<rparr>"

record get_result_options =
  gr_timeout :: "duration option"
  gr_polling_interval :: duration

definition default_get_result_options :: get_result_options where
  "default_get_result_options = \<lparr>gr_timeout = None, gr_polling_interval = from_millis 250\<rparr>"

definition with_polling_interval :: "get_result_options \<Rightarrow> duration \<Rightarrow> get_result_options" where
  "with_polling_interval opts d =
     (if d \<noteq> 0 then opts\<lparr>gr_polling_interval := d\<rparr> else opts)"

record get_workflow_steps_options =
  gs_load_output :: "bool option"
  gs_limit :: "nat option"
  gs_offset :: "nat option"

definition default_get_workflow_steps_options :: get_workflow_steps_options where
  "default_get_workflow_steps_options = \<lparr>gs_load_output = None, gs_limit = None, gs_offset = None\<rparr>"

record read_stream_options =
  rs_snapshot :: bool
  rs_from_offset :: int

record fork_workflow_input =
  fi_original_workflow_id :: string
  fi_start_step :: "nat option"
  fi_forked_workflow_id :: "string option"
  fi_application_version :: "string option"

section \<open>Messages, events, streams, versions, exports\<close>

record version_info =
  ver_name :: string
  ver_created_at :: datetime
  ver_updated_at :: datetime

record stream_entry =
  se_workflow_uuid :: string
  se_key :: string
  se_offset :: int
  se_value :: "json option"
  se_serialization :: string
  se_closed :: bool
  se_created_at :: datetime

record workflow_message =
  msg_destination_id :: string
  msg_topic :: string
  msg_message :: json
  msg_serialization :: string
  msg_created_at :: datetime
  msg_consumed :: bool

record workflow_event =
  ev_workflow_uuid :: string
  ev_key :: string
  ev_value :: json
  ev_serialization :: string
  ev_created_at :: datetime

datatype workflow_export = WorkflowExport
  (ex_workflow: workflow_status)
  (ex_steps: "step_info list")
  (ex_events: "workflow_event list")
  (ex_messages: "workflow_message list")
  (ex_streams: "stream_entry list")
  (ex_children: "workflow_export list")

record workflow_aggregate_row =
  wa_bucket :: "(string \<times> json) list"
  wa_count :: nat

record step_aggregate_row =
  sa_bucket :: "(string \<times> json) list"
  sa_count :: nat
  sa_max_duration_ms :: "int option"

section \<open>Lemmas\<close>

lemma is_terminal_iff:
  "is_terminal st \<longleftrightarrow> st \<in> {Success, Error, Cancelled, MaxRecoveryAttemptsExceeded}"
  by (cases st) auto

lemma not_terminal_iff: "\<not> is_terminal st \<longleftrightarrow> st \<in> {Pending, Enqueued, Delayed}"
  by (cases st) auto

text \<open>
  What a store that keeps a workflow as JSON returns: the timeout in whole milliseconds. A
  second trip changes nothing.
\<close>

definition wire_duration :: "duration \<Rightarrow> duration" where
  "wire_duration d = duration_millis_deserialize (duration_millis_serialize d)"

lemma wire_duration_idem [simp]: "wire_duration (wire_duration d) = wire_duration d"
  by (simp add: wire_duration_def duration_millis_serialize_def duration_millis_deserialize_def
      as_millis_def from_millis_def nanos_per_milli_def)

lemma wire_duration_le: "wire_duration d \<le> d"
  unfolding wire_duration_def duration_millis_serialize_def duration_millis_deserialize_def
    as_millis_def from_millis_def nanos_per_milli_def
  by (metis div_times_less_eq_dividend le_trans min.cobounded1 mult_le_mono1)

lemma duration_millis_roundtrip:
  assumes "d = from_millis ms" "ms < 2 ^ 64"
  shows "wire_duration d = d"
  using assms by (simp add: wire_duration_def duration_millis_serialize_def
      duration_millis_deserialize_def as_millis_def from_millis_def nanos_per_milli_def)

end
