(* ===== verification/Store_Filters.thy ===== *)
theory Store_Filters
  imports Types
begin

text \<open>
  The free functions of \<open>src/src/store.rs\<close> that every store shares: the identity check of an
  idempotent insert, the filters of the list calls, sorting and paging, the load options, and
  the two counting aggregates.
\<close>

datatype workflow_insert_result = Inserted | ExistingExact

definition ensure_workflow_identity_matches ::
    "workflow_status \<Rightarrow> workflow_status \<Rightarrow> workflow_insert_result res" where
  "ensure_workflow_identity_matches existing requested =
     (if wf_name existing = wf_name requested \<and> wf_input existing = wf_input requested
      then Inr ExistingExact
      else Inl (new_error ConflictingWorkflow
                 (''conflicting workflow invocation with the same ID (''
                  @ wf_workflow_uuid requested @ '')'')))"

section \<open>Filters\<close>

definition matches_string_filter :: "string \<Rightarrow> string option \<Rightarrow> string list \<Rightarrow> bool" where
  "matches_string_filter value single many \<longleftrightarrow>
     single = None \<and> many = [] \<or> single = Some value \<or> value \<in> set many"

definition matches_optional_string_filter ::
    "string option \<Rightarrow> string option \<Rightarrow> string list \<Rightarrow> bool" where
  "matches_optional_string_filter value single many =
     (if single = None \<and> many = [] then True
      else case value of None \<Rightarrow> False | Some v \<Rightarrow> matches_string_filter v single many)"

definition matches_prefix_filter :: "string \<Rightarrow> string option \<Rightarrow> string list \<Rightarrow> bool" where
  "matches_prefix_filter value single many \<longleftrightarrow>
     single = None \<and> many = []
     \<or> (case single of None \<Rightarrow> False | Some prefix \<Rightarrow> starts_with value prefix)
     \<or> list_ex (\<lambda>prefix. starts_with value prefix) many"

text \<open>\<open>opt.is_none_or(|x| P x)\<close> and \<open>if let Some(b) = bound && P b { return false; }\<close>.\<close>

definition is_none_or :: "('a \<Rightarrow> bool) \<Rightarrow> 'a option \<Rightarrow> bool" where
  "is_none_or P x = (case x of None \<Rightarrow> True | Some y \<Rightarrow> P y)"

definition excluded_by :: "'a option \<Rightarrow> ('a \<Rightarrow> bool) \<Rightarrow> bool" where
  "excluded_by bound P = (case bound of None \<Rightarrow> False | Some b \<Rightarrow> P b)"

definition workflow_matches :: "workflow_status \<Rightarrow> list_workflows_options \<Rightarrow> bool" where
  "workflow_matches workflow opts =
     (if lo_workflow_ids opts \<noteq> [] \<and> wf_workflow_uuid workflow \<notin> set (lo_workflow_ids opts) then False
      else if \<not> matches_optional_string_filter (wf_authenticated_user workflow)
                  (lo_authenticated_user opts) (lo_authenticated_users opts) then False
      else if excluded_by (lo_start_time opts) (\<lambda>start. wf_created_at workflow < start) then False
      else if excluded_by (lo_end_time opts) (\<lambda>stop. wf_created_at workflow > stop) then False
      else if lo_status opts \<noteq> [] \<and> wf_status workflow \<notin> set (lo_status opts) then False
      else if \<not> matches_string_filter (wf_application_version workflow)
                  (lo_application_version opts) (lo_application_versions opts) then False
      else if \<not> matches_string_filter (wf_name workflow)
                  (lo_workflow_name opts) (lo_workflow_names opts) then False
      else if \<not> matches_prefix_filter (wf_workflow_uuid workflow)
                  (lo_workflow_id_prefix opts) (lo_workflow_id_prefixes opts) then False
      else if \<not> matches_optional_string_filter (wf_queue_name workflow)
                  (lo_queue_name opts) (lo_queue_names opts) then False
      else if lo_queues_only opts \<and> wf_queue_name workflow = None then False
      else if \<not> matches_optional_string_filter (wf_deduplication_id workflow)
                  (lo_deduplication_id opts) (lo_deduplication_ids opts) then False
      else if \<not> matches_optional_string_filter (wf_executor_id workflow) None (lo_executor_ids opts) then False
      else if \<not> matches_optional_string_filter (wf_forked_from workflow) None (lo_forked_from opts) then False
      else if \<not> matches_optional_string_filter (wf_parent_workflow_id workflow) None
                  (lo_parent_workflow_ids opts) then False
      else if excluded_by (lo_completed_after opts)
                (\<lambda>b. is_none_or (\<lambda>t. t < b) (wf_completed_at workflow)) then False
      else if excluded_by (lo_completed_before opts)
                (\<lambda>b. is_none_or (\<lambda>t. t > b) (wf_completed_at workflow)) then False
      else if excluded_by (lo_dequeued_after opts)
                (\<lambda>b. is_none_or (\<lambda>t. t < b) (wf_started_at workflow)) then False
      else if excluded_by (lo_dequeued_before opts)
                (\<lambda>b. is_none_or (\<lambda>t. t > b) (wf_started_at workflow)) then False
      else if excluded_by (lo_was_forked_from opts)
                (\<lambda>b. wf_was_forked_from workflow \<noteq> b) then False
      else if excluded_by (lo_has_parent opts)
                (\<lambda>b. (wf_parent_workflow_id workflow \<noteq> None) \<noteq> b) then False
      else True)"

definition schedule_matches :: "workflow_schedule \<Rightarrow> list_schedules_options \<Rightarrow> bool" where
  "schedule_matches schedule opts =
     (if ls_statuses opts \<noteq> [] \<and> sch_status schedule \<notin> set (ls_statuses opts) then False
      else if ls_workflow_names opts \<noteq> [] \<and> sch_workflow_name schedule \<notin> set (ls_workflow_names opts)
        then False
      else if ls_schedule_name_prefixes opts \<noteq> []
              \<and> \<not> list_ex (\<lambda>prefix. starts_with (sch_schedule_name schedule) prefix)
                    (ls_schedule_name_prefixes opts) then False
      else True)"

section \<open>Sorting, paging, loading\<close>

definition sort_and_page_workflows ::
    "workflow_status list \<Rightarrow> list_workflows_options \<Rightarrow> workflow_status list" where
  "sort_and_page_workflows rows opts =
     page_rows (lo_offset opts) (lo_limit opts)
       (if lo_sort_desc opts then sort_key (\<lambda>w. - wf_created_at w) rows
        else sort_key wf_created_at rows)"

definition apply_workflow_load_option ::
    "list_workflows_options \<Rightarrow> workflow_status \<Rightarrow> workflow_status" where
  "apply_workflow_load_option opts workflow =
     (let w1 = (if lo_load_input opts then workflow else workflow\<lparr>wf_input := None\<rparr>)
      in if lo_load_output opts then w1 else w1\<lparr>wf_output := None, wf_error := None\<rparr>)"

definition apply_workflow_load_options ::
    "workflow_status list \<Rightarrow> list_workflows_options \<Rightarrow> workflow_status list" where
  "apply_workflow_load_options rows opts = map (apply_workflow_load_option opts) rows"

text \<open>The body every store's \<open>list_workflows\<close> runs over the rows it holds, in some order.\<close>

definition select_workflows ::
    "list_workflows_options \<Rightarrow> workflow_status list \<Rightarrow> workflow_status list" where
  "select_workflows opts stored =
     apply_workflow_load_options
       (sort_and_page_workflows (filter (\<lambda>w. workflow_matches w opts) stored) opts) opts"

section \<open>Counting aggregates\<close>

fun status_debug :: "workflow_status_type \<Rightarrow> string" where
  "status_debug Pending = ''Pending''"
| "status_debug Enqueued = ''Enqueued''"
| "status_debug Delayed = ''Delayed''"
| "status_debug Success = ''Success''"
| "status_debug Error = ''Error''"
| "status_debug Cancelled = ''Cancelled''"
| "status_debug MaxRecoveryAttemptsExceeded = ''MaxRecoveryAttemptsExceeded''"

definition bump_count :: "nat option \<Rightarrow> nat" where
  "bump_count c = (case c of None \<Rightarrow> 0 | Some n \<Rightarrow> n) + 1"

definition count_by :: "('a \<Rightarrow> 'k::linorder) \<Rightarrow> 'a list \<Rightarrow> ('k, nat) btreemap" where
  "count_by key rows = fold (\<lambda>row counts. bt_update (key row) bump_count counts) rows []"

definition workflow_counts_by_status :: "workflow_status list \<Rightarrow> workflow_aggregate_row list" where
  "workflow_counts_by_status rows =
     map (\<lambda>(st, count). \<lparr>wa_bucket = [(''status'', JString st)], wa_count = count\<rparr>)
       (count_by (\<lambda>row. status_debug (wf_status row)) rows)"

text \<open>\<open>(end - start).num_milliseconds()\<close> truncates towards zero.\<close>

definition num_milliseconds :: "int \<Rightarrow> int" where
  "num_milliseconds d = sgn d * (\<bar>d\<bar> div 1000000)"

definition step_duration_ms :: "step_info \<Rightarrow> int" where
  "step_duration_ms row = num_milliseconds (step_completed_at row - step_started_at row)"

definition bump_step :: "int \<Rightarrow> (nat \<times> int option) option \<Rightarrow> nat \<times> int option" where
  "bump_step duration entry =
     (case (case entry of None \<Rightarrow> (0, None) | Some e \<Rightarrow> e) of (n, longest) \<Rightarrow>
       (n + 1, Some (case longest of None \<Rightarrow> duration | Some current \<Rightarrow> max current duration)))"

definition step_counts_by_name :: "step_info list \<Rightarrow> step_aggregate_row list" where
  "step_counts_by_name rows =
     map (\<lambda>(name, count, longest).
            \<lparr>sa_bucket = [(''function_name'', JString name)], sa_count = count,
             sa_max_duration_ms = longest\<rparr>)
       (fold (\<lambda>row counts. bt_update (step_name row) (bump_step (step_duration_ms row)) counts) rows [])"

section \<open>Closing a stream\<close>

text \<open>The offset of the closing entry is \<open>i64::try_from(entries.len())\<close>.\<close>

definition stream_offset :: "nat \<Rightarrow> int res" where
  "stream_offset n =
     (if n < 2 ^ 63 then Inr (int n) else Inl (invalid_argument ''stream offset overflow''))"

definition closing_entry :: "datetime \<Rightarrow> string \<Rightarrow> string \<Rightarrow> int \<Rightarrow> stream_entry" where
  "closing_entry now workflow_id key offset =
     \<lparr>se_workflow_uuid = workflow_id, se_key = key, se_offset = offset, se_value = None,
      se_serialization = ''DBOS_JSON'', se_closed = True, se_created_at = now\<rparr>"

section \<open>Lemmas\<close>

lemma set_sort_and_page: "set (sort_and_page_workflows rows opts) \<subseteq> set rows"
  by (auto simp: sort_and_page_workflows_def dest!: subsetD [OF set_page_rows])

lemma wf_uuid_load [simp]:
  "wf_workflow_uuid (apply_workflow_load_option opts w) = wf_workflow_uuid w"
  "wf_created_at (apply_workflow_load_option opts w) = wf_created_at w"
  "wf_status (apply_workflow_load_option opts w) = wf_status w"
  "wf_executor_id (apply_workflow_load_option opts w) = wf_executor_id w"
  "wf_delay_until (apply_workflow_load_option opts w) = wf_delay_until w"
  "wf_parent_workflow_id (apply_workflow_load_option opts w) = wf_parent_workflow_id w"
  by (simp_all add: apply_workflow_load_option_def Let_def)

lemma select_workflows_sound:
  assumes "w \<in> set (select_workflows opts stored)"
  obtains v where "v \<in> set stored" "workflow_matches v opts" "w = apply_workflow_load_option opts v"
proof -
  from assms obtain v where
    "v \<in> set (sort_and_page_workflows (filter (\<lambda>w. workflow_matches w opts) stored) opts)"
    "w = apply_workflow_load_option opts v"
    by (auto simp: select_workflows_def apply_workflow_load_options_def)
  moreover from this(1) have "v \<in> set stored \<and> workflow_matches v opts"
    by (auto dest: subsetD [OF set_sort_and_page])
  ultimately show ?thesis using that by blast
qed

lemma select_workflows_complete:
  assumes "v \<in> set stored" "workflow_matches v opts" "lo_limit opts = None" "lo_offset opts = None"
  shows "apply_workflow_load_option opts v \<in> set (select_workflows opts stored)"
  using assms by (auto simp: select_workflows_def apply_workflow_load_options_def
      sort_and_page_workflows_def page_rows_eq)

text \<open>The order of the rows the store hands over does not show when the creation times differ.\<close>

lemma select_workflows_order_independent:
  assumes "mset stored = mset stored'" "inj_on wf_created_at (set stored)"
  shows "select_workflows opts stored = select_workflows opts stored'"
proof -
  let ?f = "filter (\<lambda>w. workflow_matches w opts)"
  have m: "mset (?f stored) = mset (?f stored')" using assms(1) by simp
  have i: "inj_on wf_created_at (set (?f stored))"
    using assms(2) by (rule inj_on_subset) auto
  then have i': "inj_on (\<lambda>w. - wf_created_at w) (set (?f stored))"
    by (auto simp: inj_on_def)
  show ?thesis
    unfolding select_workflows_def sort_and_page_workflows_def
    using sort_key_mset_eq [OF m i] sort_key_mset_eq [OF m i'] by simp
qed

lemma status_debug_inj: "status_debug a = status_debug b \<longleftrightarrow> a = b"
  by (cases a; cases b) simp_all

lemma count_by_fold:
  assumes "bt_ok m"
  shows "bt_ok (fold (\<lambda>row counts. bt_update (key row) bump_count counts) rows m) \<and>
    map_of (fold (\<lambda>row counts. bt_update (key row) bump_count counts) rows m) k =
      (let n = (case map_of m k of None \<Rightarrow> 0 | Some n \<Rightarrow> n) + length (filter (\<lambda>row. key row = k) rows)
       in if n = 0 \<and> map_of m k = None then None else Some n)"
  using assms
proof (induction rows arbitrary: m)
  case Nil
  then show ?case by (auto simp: Let_def split: option.splits)
next
  case (Cons row rows)
  then show ?case by (auto simp: Let_def map_of_bt_update bump_count_def split: option.splits)
qed

lemma bt_ok_count_by: "bt_ok (count_by key rows)"
  unfolding count_by_def using count_by_fold [of "[]" key rows] by simp

lemma map_of_count_by:
  "map_of (count_by key rows) k =
     (let n = length (filter (\<lambda>row. key row = k) rows) in if n = 0 then None else Some n)"
  unfolding count_by_def using count_by_fold [of "[]" key rows k] by simp

lemma sum_bt_update_bump:
  "bt_ok m \<Longrightarrow> sum_list (map snd (bt_update k bump_count m)) = Suc (sum_list (map snd m))"
  by (induction m) (auto simp: bump_count_def)

lemma sum_count_by: "sum_list (map snd (count_by key rows)) = length rows"
proof -
  have "bt_ok m \<Longrightarrow>
      sum_list (map snd (fold (\<lambda>row counts. bt_update (key row) bump_count counts) rows m)) =
      length rows + sum_list (map snd m)" for m
    by (induction rows arbitrary: m) (auto simp: sum_bt_update_bump)
  from this [of "[]"] show ?thesis by (simp add: count_by_def)
qed

end
