(* ===== verification/Store_Interface.thy ===== *)
theory Store_Interface
  imports Store_Filters
begin

text \<open>
  The \<open>SystemDatabase\<close> trait of \<open>src/src/store.rs\<close>. A trait object is the record of its methods
  over a state type (\<open>system_database\<close>); a method that reads the clock takes the reading as its
  first argument. The default bodies of the trait are definitions; the contract the callers
  rely on is a hierarchy of locales over an abstract database of maps.
\<close>

type_synonym ('s, 'a) dbact = "('s, dbos_error, 'a) act"

record 's system_database =
  db_migrate :: "('s, unit) dbact"
  db_insert_workflow :: "workflow_status \<Rightarrow> ('s, unit) dbact"
  db_insert_workflow_with_result :: "workflow_status \<Rightarrow> ('s, workflow_insert_result) dbact"
  db_claim_workflow_execution :: "datetime \<Rightarrow> string \<Rightarrow> string \<Rightarrow> string \<Rightarrow> ('s, bool) dbact"
  db_supports_workflow_execution_claims :: bool
  db_save_workflow :: "workflow_status \<Rightarrow> ('s, unit) dbact"
  db_get_workflow :: "string \<Rightarrow> ('s, workflow_status option) dbact"
  db_list_workflows :: "list_workflows_options \<Rightarrow> ('s, workflow_status list) dbact"
  db_delete_workflows :: "string list \<Rightarrow> delete_workflow_options \<Rightarrow> ('s, unit) dbact"
  db_record_step :: "step_info \<Rightarrow> ('s, unit) dbact"
  db_get_step :: "string \<Rightarrow> int \<Rightarrow> ('s, step_info option) dbact"
  db_list_steps :: "string \<Rightarrow> ('s, step_info list) dbact"
  db_upsert_queue :: "workflow_queue \<Rightarrow> ('s, unit) dbact"
  db_get_queue :: "string \<Rightarrow> ('s, workflow_queue option) dbact"
  db_list_queues :: "('s, workflow_queue list) dbact"
  db_delete_queue :: "string \<Rightarrow> ('s, unit) dbact"
  db_upsert_schedule :: "workflow_schedule \<Rightarrow> ('s, unit) dbact"
  db_get_schedule :: "string \<Rightarrow> ('s, workflow_schedule option) dbact"
  db_list_schedules :: "list_schedules_options \<Rightarrow> ('s, workflow_schedule list) dbact"
  db_delete_schedule :: "string \<Rightarrow> ('s, unit) dbact"
  db_send_message :: "workflow_message \<Rightarrow> ('s, unit) dbact"
  db_recv_message :: "string \<Rightarrow> string \<Rightarrow> ('s, workflow_message option) dbact"
  db_list_messages :: "string \<Rightarrow> ('s, workflow_message list) dbact"
  db_set_event :: "workflow_event \<Rightarrow> ('s, unit) dbact"
  db_get_event :: "string \<Rightarrow> string \<Rightarrow> ('s, workflow_event option) dbact"
  db_list_events :: "string \<Rightarrow> ('s, workflow_event list) dbact"
  db_write_stream :: "stream_entry \<Rightarrow> ('s, unit) dbact"
  db_read_stream :: "string \<Rightarrow> string \<Rightarrow> ('s, stream_entry list) dbact"
  db_list_streams :: "string \<Rightarrow> ('s, stream_entry list) dbact"
  db_close_stream :: "datetime \<Rightarrow> string \<Rightarrow> string \<Rightarrow> ('s, unit) dbact"
  db_create_application_version :: "version_info \<Rightarrow> ('s, unit) dbact"
  db_list_application_versions :: "('s, version_info list) dbact"
  db_set_latest_application_version :: "datetime \<Rightarrow> string \<Rightarrow> ('s, unit) dbact"
  db_set_patch :: "string \<Rightarrow> bool \<Rightarrow> ('s, unit) dbact"
  db_get_patch :: "string \<Rightarrow> ('s, bool option) dbact"

text \<open>The default method bodies: a store that does not override them fails closed.\<close>

definition default_insert_workflow_with_result ::
    "workflow_status \<Rightarrow> ('s, workflow_insert_result) dbact" where
  "default_insert_workflow_with_result workflow =
     act_fail (unsupported ''system database does not support reporting workflow insertion outcomes'')"

definition default_claim_workflow_execution ::
    "datetime \<Rightarrow> string \<Rightarrow> string \<Rightarrow> string \<Rightarrow> ('s, bool) dbact" where
  "default_claim_workflow_execution now workflow_id executor_id execution_id =
     act_fail (unsupported ''system database does not support atomic workflow execution claims'')"

definition default_supports_workflow_execution_claims :: bool where
  "default_supports_workflow_execution_claims = False"

section \<open>The abstract database\<close>

record abstract_db =
  a_workflows :: "string \<rightharpoonup> workflow_status"
  a_steps :: "string \<times> int \<rightharpoonup> step_info"
  a_queues :: "string \<rightharpoonup> workflow_queue"
  a_schedules :: "string \<rightharpoonup> workflow_schedule"
  a_versions :: "string \<rightharpoonup> version_info"
  a_patches :: "string \<rightharpoonup> bool"

text \<open>
  What a claim does to the row: it is granted again to the execution that holds it, and
  otherwise only to an unclaimed pending or enqueued workflow, which becomes pending.
\<close>

definition claim_spec ::
    "datetime \<Rightarrow> string \<Rightarrow> string \<Rightarrow> workflow_status option \<Rightarrow> bool \<times> workflow_status option" where
  "claim_spec now executor_id execution_id row =
     (case row of
        None \<Rightarrow> (False, None)
      | Some w \<Rightarrow>
          if wf_execution_id w = Some execution_id then (True, Some w)
          else if wf_status w \<notin> {Pending, Enqueued} \<or> wf_executor_id w \<noteq> None then (False, Some w)
          else (True, Some (w\<lparr>wf_status := Pending, wf_executor_id := Some executor_id,
                               wf_execution_id := Some execution_id, wf_updated_at := now\<rparr>)))"

text \<open>A claim is recorded as a pair: the execution id is set only with the executor id.\<close>

definition claim_consistent :: "workflow_status \<Rightarrow> bool" where
  "claim_consistent w \<longleftrightarrow> (wf_executor_id w = None \<longrightarrow> wf_execution_id w = None)"

definition set_row :: "'k \<Rightarrow> 'v option \<Rightarrow> ('k \<rightharpoonup> 'v) \<Rightarrow> ('k \<rightharpoonup> 'v)" where
  "set_row k v m = m(k := v)"

lemma claim_spec_claimed:
  assumes "claim_spec now ex xid row = (True, row')"
  shows "\<exists>w. row' = Some w \<and> wf_execution_id w = Some xid"
  using assms by (auto simp: claim_spec_def split: option.splits if_splits)

lemma claim_spec_once:
  assumes "claim_spec now ex xid row = (True, row')" "xid' \<noteq> xid"
    "\<forall>w. row = Some w \<longrightarrow> claim_consistent w"
  shows "claim_spec now' ex' xid' row' = (False, row')"
  using assms
  by (auto simp: claim_spec_def claim_consistent_def split: option.splits if_splits)

lemma claim_spec_idempotent:
  assumes "claim_spec now ex xid row = (True, row')"
  shows "claim_spec now' ex' xid row' = (True, row')"
  using assms by (auto simp: claim_spec_def split: option.splits if_splits)

lemma claim_spec_keeps_consistent:
  assumes "\<forall>w. row = Some w \<longrightarrow> claim_consistent w"
  shows "\<forall>w. snd (claim_spec now ex xid row) = Some w \<longrightarrow> claim_consistent w"
  using assms by (auto simp: claim_spec_def claim_consistent_def split: option.splits if_splits)

text \<open>
  Claims of one workflow, in the order the store serializes them; the result lists the
  executions that were told they hold the claim.
\<close>

fun granted_claims ::
    "'s system_database \<Rightarrow> string \<Rightarrow> (datetime \<times> string \<times> string) list \<Rightarrow> 's \<Rightarrow> string list \<times> 's" where
  "granted_claims db workflow_id [] s = ([], s)"
| "granted_claims db workflow_id ((now, executor_id, execution_id) # claims) s =
     (case db_claim_workflow_execution db now workflow_id executor_id execution_id s of
        (r, s') \<Rightarrow>
          (case granted_claims db workflow_id claims s' of
             (granted, s'') \<Rightarrow> (if r = Inr True then execution_id # granted else granted, s'')))"

section \<open>The contracts\<close>

text \<open>
  \<open>abs\<close> reads the abstract database off a store state, \<open>inv\<close> is the store's invariant,
  \<open>nd\<close> is what storing does to a timeout, and \<open>dedup\<close> is the store's queue deduplication
  test. A law describes one call that returned \<open>r\<close> and left \<open>s'\<close>.
\<close>

locale store_view =
  fixes db :: "'s system_database"
    and inv :: "'s \<Rightarrow> bool"
    and abs :: "'s \<Rightarrow> abstract_db"

locale workflow_store = store_view db inv abs
  for db :: "'s system_database" and inv :: "'s \<Rightarrow> bool" and abs :: "'s \<Rightarrow> abstract_db" +
  fixes nd :: "duration \<Rightarrow> duration"
    and dedup :: "'s \<Rightarrow> workflow_status \<Rightarrow> bool"
  assumes supports: "db_supports_workflow_execution_claims db"
    and keyed: "inv s \<Longrightarrow> a_workflows (abs s) i = Some w \<Longrightarrow> wf_workflow_uuid w = i"
    and get: "inv s \<Longrightarrow> db_get_workflow db i s = (rg, s') \<Longrightarrow>
      rg = Inr (a_workflows (abs s) i) \<and> inv s' \<and> abs s' = abs s"
    and save: "inv s \<Longrightarrow> db_save_workflow db w s = (ru, s') \<Longrightarrow>
      ru = Inr () \<and> inv s' \<and>
      abs s' = (abs s)\<lparr>a_workflows := (a_workflows (abs s))
        (wf_workflow_uuid w \<mapsto> w\<lparr>wf_timeout := map_option nd (wf_timeout w)\<rparr>)\<rparr>"
    and insert_existing: "inv s \<Longrightarrow> a_workflows (abs s) (wf_workflow_uuid w) = Some e \<Longrightarrow>
      db_insert_workflow_with_result db w s = (ri, s') \<Longrightarrow>
      ri = ensure_workflow_identity_matches e w \<and> inv s' \<and> abs s' = abs s"
    and insert_new: "inv s \<Longrightarrow> a_workflows (abs s) (wf_workflow_uuid w) = None \<Longrightarrow> \<not> dedup s w \<Longrightarrow>
      db_insert_workflow_with_result db w s = (ri, s') \<Longrightarrow>
      ri = Inr Inserted \<and> inv s' \<and>
      abs s' = (abs s)\<lparr>a_workflows := (a_workflows (abs s))
        (wf_workflow_uuid w \<mapsto> w\<lparr>wf_timeout := map_option nd (wf_timeout w)\<rparr>)\<rparr>"
    and insert_dedup: "inv s \<Longrightarrow> a_workflows (abs s) (wf_workflow_uuid w) = None \<Longrightarrow> dedup s w \<Longrightarrow>
      db_insert_workflow_with_result db w s = (ri, s') \<Longrightarrow>
      (\<exists>e. ri = Inl e \<and> err_code e = QueueDeduplicated) \<and> inv s' \<and> abs s' = abs s"
    and insert_unit: "db_insert_workflow db w s =
      (case db_insert_workflow_with_result db w s of (r, s') \<Rightarrow> (res_map (\<lambda>_. ()) r, s'))"
    and claim: "inv s \<Longrightarrow> (\<And>w. a_workflows (abs s) i = Some w \<Longrightarrow> claim_consistent w) \<Longrightarrow>
      db_claim_workflow_execution db now i ex xid s = (rb, s') \<Longrightarrow>
      rb = Inr (fst (claim_spec now ex xid (a_workflows (abs s) i))) \<and> inv s' \<and>
      abs s' = (abs s)\<lparr>a_workflows :=
        set_row i (snd (claim_spec now ex xid (a_workflows (abs s) i))) (a_workflows (abs s))\<rparr>"
    and list_rows: "inv s \<Longrightarrow> db_list_workflows db opts s = (rl, s') \<Longrightarrow>
      \<exists>stored. distinct (map wf_workflow_uuid stored) \<and> set stored = ran (a_workflows (abs s)) \<and>
        rl = Inr (select_workflows opts stored) \<and> inv s' \<and> abs s' = abs s"

context workflow_store
begin

lemma claim_row:
  assumes "inv s" "\<And>w. a_workflows (abs s) i = Some w \<Longrightarrow> claim_consistent w"
    and "db_claim_workflow_execution db now i ex xid s = (r, s')"
  shows "r = Inr (fst (claim_spec now ex xid (a_workflows (abs s) i)))"
    and "a_workflows (abs s') i = snd (claim_spec now ex xid (a_workflows (abs s) i))"
    and "inv s'"
  using claim [OF assms] by (simp_all add: set_row_def)

lemma claim_unchanged:
  assumes "inv s" "\<And>w. a_workflows (abs s) i = Some w \<Longrightarrow> claim_consistent w"
    and "db_claim_workflow_execution db now i ex xid s = (r, s')"
    and "snd (claim_spec now ex xid (a_workflows (abs s) i)) = a_workflows (abs s) i"
  shows "abs s' = abs s"
  using claim [OF assms(1-3)] assms(4) by (simp add: set_row_def)

text \<open>Once an execution holds the claim, exactly its own later claims are granted.\<close>

lemma claims_after_grant:
  assumes "inv s" "a_workflows (abs s) i = Some w" "claim_consistent w"
    and "wf_execution_id w = Some xid"
    and "granted_claims db i claims s = (granted, s')"
  shows "granted = filter (\<lambda>x. x = xid) (map (\<lambda>(_, _, x). x) claims)"
  using assms
proof (induction claims arbitrary: s granted s')
  case Nil
  then show ?case by simp
next
  case (Cons c claims)
  obtain now ex x where c: "c = (now, ex, x)" by (cases c)
  obtain r t where r: "db_claim_workflow_execution db now i ex x s = (r, t)" by fastforce
  obtain g t' where g: "granted_claims db i claims t = (g, t')" by fastforce
  have cons: "\<And>w. a_workflows (abs s) i = Some w \<Longrightarrow> claim_consistent w" using Cons.prems by simp
  have ex: "wf_executor_id w \<noteq> None" using Cons.prems by (auto simp: claim_consistent_def)
  have spec: "claim_spec now ex x (Some w) = (x = xid, Some w)"
    using Cons.prems ex by (auto simp: claim_spec_def)
  from claim_row [OF Cons.prems(1) cons r] spec Cons.prems(2)
  have t: "inv t" "a_workflows (abs t) i = Some w" "r = Inr (x = xid)" by simp_all
  from Cons.IH [OF t(1,2) Cons.prems(3,4) g] Cons.prems(5) c r g t(3)
  show ?case by auto
qed

text \<open>All the grants of a run of claims go to one execution.\<close>

lemma claims_exclusive:
  assumes "inv s" "\<And>w. a_workflows (abs s) i = Some w \<Longrightarrow> claim_consistent w"
    and "granted_claims db i claims s = (granted, s')"
    and "x \<in> set granted" "y \<in> set granted"
  shows "x = y"
  using assms
proof (induction claims arbitrary: s granted s')
  case Nil
  then show ?case by simp
next
  case (Cons c claims)
  obtain now ex z where c: "c = (now, ex, z)" by (cases c)
  obtain r t where r: "db_claim_workflow_execution db now i ex z s = (r, t)" by fastforce
  obtain g t' where g: "granted_claims db i claims t = (g, t')" by fastforce
  note row = claim_row [OF Cons.prems(1,2) r]
  let ?spec = "claim_spec now ex z (a_workflows (abs s) i)"
  have cons: "claim_consistent w" if "a_workflows (abs t) i = Some w" for w
    using claim_spec_keeps_consistent [of "a_workflows (abs s) i"] Cons.prems(2) row(2) that by auto
  show ?case
  proof (cases "fst ?spec")
    case False
    with row(1) Cons.prems(3) c r g have "granted = g" by auto
    with Cons.IH [OF row(3) cons g] Cons.prems(4,5) show ?thesis by simp
  next
    case True
    then obtain w where w: "snd ?spec = Some w" "wf_execution_id w = Some z"
      using claim_spec_claimed [of now ex z _ "snd ?spec"] by (metis prod.collapse)
    with row(2) have "a_workflows (abs t) i = Some w" by simp
    from claims_after_grant [OF row(3) this cons [OF this] w(2) g]
    have "set g \<subseteq> {z}" by auto
    moreover have "granted = z # g" using True row(1) Cons.prems(3) c r g by auto
    ultimately show ?thesis using Cons.prems(4,5) by auto
  qed
qed

text \<open>Repeating an insert changes nothing and reports the existing row.\<close>

lemma insert_twice:
  assumes "inv s" "db_insert_workflow_with_result db w s = (Inr Inserted, s')"
    and "a_workflows (abs s) (wf_workflow_uuid w) = None"
    and "db_insert_workflow_with_result db w s' = (r, s'')"
  shows "r = Inr ExistingExact \<and> abs s'' = abs s'"
proof -
  have "\<not> dedup s w" using insert_dedup [OF assms(1,3) _ assms(2)] by auto
  from insert_new [OF assms(1,3) this assms(2)]
  have "inv s'" "a_workflows (abs s') (wf_workflow_uuid w)
      = Some (w\<lparr>wf_timeout := map_option nd (wf_timeout w)\<rparr>)" by simp_all
  from insert_existing [OF this assms(4)] show ?thesis
    by (simp add: ensure_workflow_identity_matches_def)
qed

end

locale step_store = store_view db inv abs
  for db :: "'s system_database" and inv :: "'s \<Rightarrow> bool" and abs :: "'s \<Rightarrow> abstract_db" +
  assumes step_keyed: "inv s \<Longrightarrow> a_steps (abs s) (i, n) = Some st \<Longrightarrow>
      step_workflow_uuid st = i \<and> step_id st = n"
    and get_step: "inv s \<Longrightarrow> db_get_step db i n s = (rg, s') \<Longrightarrow>
      rg = Inr (a_steps (abs s) (i, n)) \<and> inv s' \<and> abs s' = abs s"
    and record_step: "inv s \<Longrightarrow> db_record_step db st s = (ru, s') \<Longrightarrow>
      ru = Inr () \<and> inv s' \<and>
      abs s' = (abs s)\<lparr>a_steps := (a_steps (abs s))((step_workflow_uuid st, step_id st) \<mapsto> st)\<rparr>"
    and list_steps: "inv s \<Longrightarrow> db_list_steps db i s = (rl, s') \<Longrightarrow>
      \<exists>sts. rl = Inr sts \<and> sorted (map step_id sts) \<and> distinct (map step_id sts) \<and>
        set sts = {st \<in> ran (a_steps (abs s)). step_workflow_uuid st = i} \<and>
        inv s' \<and> abs s' = abs s"

text \<open>Queues, schedules, versions and patches are read and written by name.\<close>

locale config_store = store_view db inv abs
  for db :: "'s system_database" and inv :: "'s \<Rightarrow> bool" and abs :: "'s \<Rightarrow> abstract_db" +
  assumes get_queue: "inv s \<Longrightarrow> db_get_queue db n s = (rg, s') \<Longrightarrow>
      rg = Inr (a_queues (abs s) n) \<and> inv s' \<and> abs s' = abs s"
    and upsert_queue: "inv s \<Longrightarrow> db_upsert_queue db q s = (ru, s') \<Longrightarrow>
      ru = Inr () \<and> inv s' \<and> (\<exists>q'. abs s' = (abs s)\<lparr>a_queues := (a_queues (abs s))(q_name q \<mapsto> q')\<rparr> \<and>
        q_name q' = q_name q)"
    and delete_queue: "inv s \<Longrightarrow> db_delete_queue db n s = (ru, s') \<Longrightarrow>
      ru = Inr () \<and> inv s' \<and> abs s' = (abs s)\<lparr>a_queues := (a_queues (abs s))(n := None)\<rparr>"
    and get_schedule: "inv s \<Longrightarrow> db_get_schedule db n s = (rh, s') \<Longrightarrow>
      rh = Inr (a_schedules (abs s) n) \<and> inv s' \<and> abs s' = abs s"
    and upsert_schedule: "inv s \<Longrightarrow> db_upsert_schedule db sc s = (ru, s') \<Longrightarrow>
      ru = Inr () \<and> inv s' \<and>
      abs s' = (abs s)\<lparr>a_schedules := (a_schedules (abs s))(sch_schedule_name sc \<mapsto> sc)\<rparr>"
    and delete_schedule: "inv s \<Longrightarrow> db_delete_schedule db n s = (ru, s') \<Longrightarrow>
      ru = Inr () \<and> inv s' \<and> abs s' = (abs s)\<lparr>a_schedules := (a_schedules (abs s))(n := None)\<rparr>"
    and create_version: "inv s \<Longrightarrow> db_create_application_version db v s = (ru, s') \<Longrightarrow>
      ru = Inr () \<and> inv s' \<and>
      abs s' = (abs s)\<lparr>a_versions := (if a_versions (abs s) (ver_name v) = None
        then (a_versions (abs s))(ver_name v \<mapsto> v) else a_versions (abs s))\<rparr>"
    and set_latest_version: "inv s \<Longrightarrow> db_set_latest_application_version db now n s = (ru, s') \<Longrightarrow>
      ru = Inr () \<and> inv s' \<and>
      abs s' = (abs s)\<lparr>a_versions := (a_versions (abs s))(n \<mapsto>
        (case a_versions (abs s) n of
           None \<Rightarrow> \<lparr>ver_name = n, ver_created_at = now, ver_updated_at = now\<rparr>
         | Some v \<Rightarrow> v\<lparr>ver_updated_at := now\<rparr>))\<rparr>"
    and set_patch: "inv s \<Longrightarrow> db_set_patch db n b s = (ru, s') \<Longrightarrow>
      ru = Inr () \<and> inv s' \<and> abs s' = (abs s)\<lparr>a_patches := (a_patches (abs s))(n \<mapsto> b)\<rparr>"
    and get_patch: "inv s \<Longrightarrow> db_get_patch db n s = (rp, s') \<Longrightarrow>
      rp = Inr (a_patches (abs s) n) \<and> inv s' \<and> abs s' = abs s"

locale durable_store = workflow_store db inv abs nd dedup + step_store db inv abs + config_store db inv abs
  for db :: "'s system_database" and inv :: "'s \<Rightarrow> bool" and abs :: "'s \<Rightarrow> abstract_db"
    and nd :: "duration \<Rightarrow> duration" and dedup :: "'s \<Rightarrow> workflow_status \<Rightarrow> bool" +
  assumes delete_workflows: "inv s \<Longrightarrow> db_delete_workflows db ids opts s = (ru, s') \<Longrightarrow>
      ru = Inr () \<and> inv s' \<and>
      abs s' = (abs s)\<lparr>a_workflows := a_workflows (abs s) |` (- set ids),
                       a_steps := a_steps (abs s) |` {(i, n). i \<notin> set ids}\<rparr>"

end
