(* ===== verification/Memory_Store.thy ===== *)
theory Memory_Store
  imports Store_Interface
begin

text \<open>
  \<open>MemoryStore\<close> of \<open>src/src/store.rs\<close>: one record of hash maps behind a lock. Every method takes
  the lock once, so it is one atomic step on the record. The theory ends with the store's
  invariant and the interpretation of the store contract.
\<close>

record memory_data =
  md_workflows :: "(string, workflow_status) hashmap"
  md_steps :: "(string \<times> int, step_info) hashmap"
  md_queues :: "(string, workflow_queue) hashmap"
  md_schedules :: "(string, workflow_schedule) hashmap"
  md_messages :: "workflow_message list"
  md_events :: "(string \<times> string, workflow_event) hashmap"
  md_streams :: "(string \<times> string, stream_entry list) hashmap"
  md_application_versions :: "(string, version_info) hashmap"
  md_patches :: "(string, bool) hashmap"

definition empty_memory :: memory_data where
  "empty_memory =
     \<lparr>md_workflows = [], md_steps = [], md_queues = [], md_schedules = [], md_messages = [],
      md_events = [], md_streams = [], md_application_versions = [], md_patches = []\<rparr>"

section \<open>Workflows\<close>

definition mem_migrate :: "(memory_data, unit) dbact" where
  "mem_migrate = act_return ()"

definition mem_duplicate :: "memory_data \<Rightarrow> string \<Rightarrow> string \<Rightarrow> bool" where
  "mem_duplicate data queue dedup =
     list_ex (\<lambda>item. wf_queue_name item = Some queue \<and> wf_deduplication_id item = Some dedup
                     \<and> \<not> is_terminal (wf_status item))
       (hm_values (md_workflows data))"

definition queue_deduplicated_error :: "string \<Rightarrow> string \<Rightarrow> dbos_error" where
  "queue_deduplicated_error queue dedup =
     (new_error QueueDeduplicated (''workflow was deduplicated in queue '' @ queue))
       \<lparr>err_queue_name := Some queue, err_deduplication_id := Some dedup\<rparr>"

definition mem_insert_workflow_with_result ::
    "workflow_status \<Rightarrow> (memory_data, workflow_insert_result) dbact" where
  "mem_insert_workflow_with_result workflow data =
     (case hm_get (md_workflows data) (wf_workflow_uuid workflow) of
        Some existing \<Rightarrow> (ensure_workflow_identity_matches existing workflow, data)
      | None \<Rightarrow>
          (case (wf_queue_name workflow, wf_deduplication_id workflow) of
             (Some queue, Some dedup) \<Rightarrow>
               if mem_duplicate data queue dedup
               then (Inl (queue_deduplicated_error queue dedup), data)
               else (Inr Inserted,
                     data\<lparr>md_workflows := hm_insert (wf_workflow_uuid workflow) workflow (md_workflows data)\<rparr>)
           | _ \<Rightarrow> (Inr Inserted,
                   data\<lparr>md_workflows := hm_insert (wf_workflow_uuid workflow) workflow (md_workflows data)\<rparr>)))"

definition mem_insert_workflow :: "workflow_status \<Rightarrow> (memory_data, unit) dbact" where
  "mem_insert_workflow workflow data =
     (case mem_insert_workflow_with_result workflow data of (r, data') \<Rightarrow> (res_map (\<lambda>_. ()) r, data'))"

definition mem_claim_workflow_execution ::
    "datetime \<Rightarrow> string \<Rightarrow> string \<Rightarrow> string \<Rightarrow> (memory_data, bool) dbact" where
  "mem_claim_workflow_execution now workflow_id executor_id execution_id data =
     (case hm_get (md_workflows data) workflow_id of
        None \<Rightarrow> (Inr False, data)
      | Some workflow \<Rightarrow>
          if wf_execution_id workflow = Some execution_id then (Inr True, data)
          else if wf_status workflow \<notin> {Pending, Enqueued} \<or> wf_executor_id workflow \<noteq> None
          then (Inr False, data)
          else (Inr True,
                data\<lparr>md_workflows := hm_insert workflow_id
                  (workflow\<lparr>wf_status := Pending, wf_executor_id := Some executor_id,
                            wf_execution_id := Some execution_id, wf_updated_at := now\<rparr>)
                  (md_workflows data)\<rparr>))"

definition mem_save_workflow :: "workflow_status \<Rightarrow> (memory_data, unit) dbact" where
  "mem_save_workflow workflow data =
     (Inr (), data\<lparr>md_workflows := hm_insert (wf_workflow_uuid workflow) workflow (md_workflows data)\<rparr>)"

definition mem_get_workflow :: "string \<Rightarrow> (memory_data, workflow_status option) dbact" where
  "mem_get_workflow workflow_id data = (Inr (hm_get (md_workflows data) workflow_id), data)"

definition mem_list_workflows ::
    "list_workflows_options \<Rightarrow> (memory_data, workflow_status list) dbact" where
  "mem_list_workflows opts data = (Inr (select_workflows opts (hm_values (md_workflows data))), data)"

definition mem_delete_workflows ::
    "string list \<Rightarrow> delete_workflow_options \<Rightarrow> (memory_data, unit) dbact" where
  "mem_delete_workflows workflow_ids opts data =
     (Inr (),
      data\<lparr>md_workflows := fold hm_remove workflow_ids (md_workflows data),
           md_steps := hm_retain (\<lambda>(workflow_id, _). workflow_id \<notin> set workflow_ids) (md_steps data),
           md_events := hm_retain (\<lambda>(workflow_id, _). workflow_id \<notin> set workflow_ids) (md_events data),
           md_streams := hm_retain (\<lambda>(workflow_id, _). workflow_id \<notin> set workflow_ids) (md_streams data),
           md_messages := filter (\<lambda>message. msg_destination_id message \<notin> set workflow_ids)
                            (md_messages data)\<rparr>)"

section \<open>Steps\<close>

definition mem_record_step :: "step_info \<Rightarrow> (memory_data, unit) dbact" where
  "mem_record_step st data =
     (Inr (), data\<lparr>md_steps := hm_insert (step_workflow_uuid st, step_id st) st (md_steps data)\<rparr>)"

definition mem_get_step :: "string \<Rightarrow> int \<Rightarrow> (memory_data, step_info option) dbact" where
  "mem_get_step workflow_id sid data = (Inr (hm_get (md_steps data) (workflow_id, sid)), data)"

definition mem_list_steps :: "string \<Rightarrow> (memory_data, step_info list) dbact" where
  "mem_list_steps workflow_id data =
     (Inr (sort_key step_id
             (filter (\<lambda>st. step_workflow_uuid st = workflow_id) (hm_values (md_steps data)))), data)"

section \<open>Queues and schedules\<close>

definition mem_upsert_queue :: "workflow_queue \<Rightarrow> (memory_data, unit) dbact" where
  "mem_upsert_queue queue data =
     (Inr (), data\<lparr>md_queues := hm_insert (q_name queue) queue (md_queues data)\<rparr>)"

definition mem_get_queue :: "string \<Rightarrow> (memory_data, workflow_queue option) dbact" where
  "mem_get_queue name data = (Inr (hm_get (md_queues data) name), data)"

definition mem_list_queues :: "(memory_data, workflow_queue list) dbact" where
  "mem_list_queues data = (Inr (hm_values (md_queues data)), data)"

definition mem_delete_queue :: "string \<Rightarrow> (memory_data, unit) dbact" where
  "mem_delete_queue name data = (Inr (), data\<lparr>md_queues := hm_remove name (md_queues data)\<rparr>)"

definition mem_upsert_schedule :: "workflow_schedule \<Rightarrow> (memory_data, unit) dbact" where
  "mem_upsert_schedule schedule data =
     (Inr (), data\<lparr>md_schedules := hm_insert (sch_schedule_name schedule) schedule (md_schedules data)\<rparr>)"

definition mem_get_schedule :: "string \<Rightarrow> (memory_data, workflow_schedule option) dbact" where
  "mem_get_schedule name data = (Inr (hm_get (md_schedules data) name), data)"

definition mem_list_schedules ::
    "list_schedules_options \<Rightarrow> (memory_data, workflow_schedule list) dbact" where
  "mem_list_schedules opts data =
     (Inr (filter (\<lambda>schedule. schedule_matches schedule opts) (hm_values (md_schedules data))), data)"

definition mem_delete_schedule :: "string \<Rightarrow> (memory_data, unit) dbact" where
  "mem_delete_schedule name data =
     (Inr (), data\<lparr>md_schedules := hm_remove name (md_schedules data)\<rparr>)"

section \<open>Messages\<close>

definition mem_send_message :: "workflow_message \<Rightarrow> (memory_data, unit) dbact" where
  "mem_send_message message data = (Inr (), data\<lparr>md_messages := md_messages data @ [message]\<rparr>)"

text \<open>
  \<open>recv_message\<close> marks the first unconsumed message for the destination and topic and returns
  the marked copy; \<open>consume_first\<close> is that search with the update in place.
\<close>

definition awaits :: "string \<Rightarrow> string \<Rightarrow> workflow_message \<Rightarrow> bool" where
  "awaits destination_id topic message \<longleftrightarrow>
     \<not> msg_consumed message \<and> msg_destination_id message = destination_id \<and> msg_topic message = topic"

fun consume_first ::
    "(workflow_message \<Rightarrow> bool) \<Rightarrow> workflow_message list \<Rightarrow> (workflow_message \<times> workflow_message list) option" where
  "consume_first P [] = None"
| "consume_first P (m # ms) =
     (if P m then Some (m\<lparr>msg_consumed := True\<rparr>, m\<lparr>msg_consumed := True\<rparr> # ms)
      else map_option (\<lambda>(x, ms'). (x, m # ms')) (consume_first P ms))"

definition mem_recv_message :: "string \<Rightarrow> string \<Rightarrow> (memory_data, workflow_message option) dbact" where
  "mem_recv_message destination_id topic data =
     (case consume_first (awaits destination_id topic) (md_messages data) of
        None \<Rightarrow> (Inr None, data)
      | Some (message, messages) \<Rightarrow> (Inr (Some message), data\<lparr>md_messages := messages\<rparr>))"

definition mem_list_messages :: "string \<Rightarrow> (memory_data, workflow_message list) dbact" where
  "mem_list_messages workflow_id data =
     (Inr (sort_key msg_created_at
             (filter (\<lambda>message. msg_destination_id message = workflow_id) (md_messages data))), data)"

section \<open>Events and streams\<close>

definition mem_set_event :: "workflow_event \<Rightarrow> (memory_data, unit) dbact" where
  "mem_set_event event data =
     (Inr (), data\<lparr>md_events := hm_insert (ev_workflow_uuid event, ev_key event) event (md_events data)\<rparr>)"

definition mem_get_event :: "string \<Rightarrow> string \<Rightarrow> (memory_data, workflow_event option) dbact" where
  "mem_get_event workflow_id key data = (Inr (hm_get (md_events data) (workflow_id, key)), data)"

definition mem_list_events :: "string \<Rightarrow> (memory_data, workflow_event list) dbact" where
  "mem_list_events workflow_id data =
     (Inr (sort_key ev_created_at
             (filter (\<lambda>event. ev_workflow_uuid event = workflow_id) (hm_values (md_events data)))), data)"

definition stream_entries :: "memory_data \<Rightarrow> string \<times> string \<Rightarrow> stream_entry list" where
  "stream_entries data k = (case hm_get (md_streams data) k of None \<Rightarrow> [] | Some es \<Rightarrow> es)"

definition mem_write_stream :: "stream_entry \<Rightarrow> (memory_data, unit) dbact" where
  "mem_write_stream entry data =
     (let k = (se_workflow_uuid entry, se_key entry)
      in (Inr (), data\<lparr>md_streams := hm_insert k (stream_entries data k @ [entry]) (md_streams data)\<rparr>))"

definition mem_read_stream :: "string \<Rightarrow> string \<Rightarrow> (memory_data, stream_entry list) dbact" where
  "mem_read_stream workflow_id key data = (Inr (stream_entries data (workflow_id, key)), data)"

definition mem_list_streams :: "string \<Rightarrow> (memory_data, stream_entry list) dbact" where
  "mem_list_streams workflow_id data =
     (Inr (sort_key (\<lambda>entry. (se_key entry, se_offset entry))
             (filter (\<lambda>entry. se_workflow_uuid entry = workflow_id)
               (concat (hm_values (md_streams data))))), data)"

text \<open>The entry API creates the stream before the offset is computed, even when that fails.\<close>

definition mem_close_stream :: "datetime \<Rightarrow> string \<Rightarrow> string \<Rightarrow> (memory_data, unit) dbact" where
  "mem_close_stream now workflow_id key data =
     (let k = (workflow_id, key); entries = stream_entries data k
      in case stream_offset (length entries) of
           Inl e \<Rightarrow> (Inl e, data\<lparr>md_streams := hm_insert k entries (md_streams data)\<rparr>)
         | Inr offset \<Rightarrow>
             (Inr (), data\<lparr>md_streams :=
                hm_insert k (entries @ [closing_entry now workflow_id key offset]) (md_streams data)\<rparr>))"

section \<open>Application versions and patches\<close>

definition mem_create_application_version :: "version_info \<Rightarrow> (memory_data, unit) dbact" where
  "mem_create_application_version version data =
     (case hm_get (md_application_versions data) (ver_name version) of
        Some _ \<Rightarrow> (Inr (), data)
      | None \<Rightarrow> (Inr (), data\<lparr>md_application_versions :=
                   hm_insert (ver_name version) version (md_application_versions data)\<rparr>))"

definition mem_list_application_versions :: "(memory_data, version_info list) dbact" where
  "mem_list_application_versions data =
     (Inr (sort_key (\<lambda>v. - ver_updated_at v) (hm_values (md_application_versions data))), data)"

definition mem_set_latest_application_version :: "datetime \<Rightarrow> string \<Rightarrow> (memory_data, unit) dbact" where
  "mem_set_latest_application_version now name data =
     (let version = (case hm_get (md_application_versions data) name of
                       Some v \<Rightarrow> v
                     | None \<Rightarrow> \<lparr>ver_name = name, ver_created_at = now, ver_updated_at = now\<rparr>)
      in (Inr (), data\<lparr>md_application_versions :=
            hm_insert name (version\<lparr>ver_updated_at := now\<rparr>) (md_application_versions data)\<rparr>))"

definition mem_set_patch :: "string \<Rightarrow> bool \<Rightarrow> (memory_data, unit) dbact" where
  "mem_set_patch patch_name active data =
     (Inr (), data\<lparr>md_patches := hm_insert patch_name active (md_patches data)\<rparr>)"

definition mem_get_patch :: "string \<Rightarrow> (memory_data, bool option) dbact" where
  "mem_get_patch patch_name data = (Inr (hm_get (md_patches data) patch_name), data)"

section \<open>The store\<close>

definition memory_store :: "memory_data system_database" where
  "memory_store =
     \<lparr>db_migrate = mem_migrate,
      db_insert_workflow = mem_insert_workflow,
      db_insert_workflow_with_result = mem_insert_workflow_with_result,
      db_claim_workflow_execution = mem_claim_workflow_execution,
      db_supports_workflow_execution_claims = True,
      db_save_workflow = mem_save_workflow,
      db_get_workflow = mem_get_workflow,
      db_list_workflows = mem_list_workflows,
      db_delete_workflows = mem_delete_workflows,
      db_record_step = mem_record_step,
      db_get_step = mem_get_step,
      db_list_steps = mem_list_steps,
      db_upsert_queue = mem_upsert_queue,
      db_get_queue = mem_get_queue,
      db_list_queues = mem_list_queues,
      db_delete_queue = mem_delete_queue,
      db_upsert_schedule = mem_upsert_schedule,
      db_get_schedule = mem_get_schedule,
      db_list_schedules = mem_list_schedules,
      db_delete_schedule = mem_delete_schedule,
      db_send_message = mem_send_message,
      db_recv_message = mem_recv_message,
      db_list_messages = mem_list_messages,
      db_set_event = mem_set_event,
      db_get_event = mem_get_event,
      db_list_events = mem_list_events,
      db_write_stream = mem_write_stream,
      db_read_stream = mem_read_stream,
      db_list_streams = mem_list_streams,
      db_close_stream = mem_close_stream,
      db_create_application_version = mem_create_application_version,
      db_list_application_versions = mem_list_application_versions,
      db_set_latest_application_version = mem_set_latest_application_version,
      db_set_patch = mem_set_patch,
      db_get_patch = mem_get_patch\<rparr>"

lemmas mem_op_defs =
  mem_migrate_def mem_insert_workflow_def mem_save_workflow_def
  mem_get_workflow_def mem_list_workflows_def mem_delete_workflows_def mem_record_step_def
  mem_get_step_def mem_list_steps_def mem_upsert_queue_def mem_get_queue_def mem_list_queues_def
  mem_delete_queue_def mem_upsert_schedule_def mem_get_schedule_def mem_list_schedules_def
  mem_delete_schedule_def mem_send_message_def mem_list_messages_def
  mem_set_event_def mem_get_event_def mem_list_events_def mem_write_stream_def mem_read_stream_def
  mem_list_streams_def mem_create_application_version_def
  mem_list_application_versions_def mem_set_latest_application_version_def mem_set_patch_def
  mem_get_patch_def

text \<open>The invariant: distinct keys, every row under its own key, unclaimed rows without execution.\<close>

definition mem_inv :: "memory_data \<Rightarrow> bool" where
  "mem_inv d \<longleftrightarrow>
     hm_ok (md_workflows d) \<and> hm_keyed wf_workflow_uuid (md_workflows d) \<and>
     hm_ok (md_steps d) \<and> hm_keyed (\<lambda>st. (step_workflow_uuid st, step_id st)) (md_steps d) \<and>
     hm_ok (md_queues d) \<and> hm_ok (md_schedules d) \<and>
     hm_ok (md_events d) \<and> hm_keyed (\<lambda>e. (ev_workflow_uuid e, ev_key e)) (md_events d) \<and>
     hm_ok (md_streams d) \<and> hm_ok (md_application_versions d) \<and> hm_ok (md_patches d)"

definition mem_abs :: "memory_data \<Rightarrow> abstract_db" where
  "mem_abs d =
     \<lparr>a_workflows = hm_get (md_workflows d), a_steps = hm_get (md_steps d),
      a_queues = hm_get (md_queues d), a_schedules = hm_get (md_schedules d),
      a_versions = hm_get (md_application_versions d), a_patches = hm_get (md_patches d)\<rparr>"

definition mem_dedup :: "memory_data \<Rightarrow> workflow_status \<Rightarrow> bool" where
  "mem_dedup d w \<longleftrightarrow>
     (\<exists>queue dedup. wf_queue_name w = Some queue \<and> wf_deduplication_id w = Some dedup \<and>
        mem_duplicate d queue dedup)"

lemma mem_inv_empty [simp]: "mem_inv empty_memory"
  by (simp add: mem_inv_def empty_memory_def)

lemma mem_abs_simps [simp]:
  "a_workflows (mem_abs d) = hm_get (md_workflows d)"
  "a_steps (mem_abs d) = hm_get (md_steps d)"
  "a_queues (mem_abs d) = hm_get (md_queues d)"
  "a_schedules (mem_abs d) = hm_get (md_schedules d)"
  "a_versions (mem_abs d) = hm_get (md_application_versions d)"
  "a_patches (mem_abs d) = hm_get (md_patches d)"
  by (simp_all add: mem_abs_def)

lemma hm_get_fold_remove: "hm_get (fold hm_remove ks m) = hm_get m |` (- set ks)"
  by (induction ks arbitrary: m) (auto simp: fun_eq_iff restrict_map_def)

lemma hm_ok_fold_remove: "hm_ok m \<Longrightarrow> hm_ok (fold hm_remove ks m)"
  by (induction ks arbitrary: m) auto

lemma hm_keyed_fold_remove: "hm_keyed f m \<Longrightarrow> hm_keyed f (fold hm_remove ks m)"
  by (induction ks arbitrary: m) auto

lemma hm_values_ran: "hm_ok m \<Longrightarrow> set (hm_values m) = ran (hm_get m)"
  by (auto simp: ran_def intro: hm_get_in_values dest: hm_values_get)

lemma mem_step_keys_distinct:
  assumes "mem_inv d"
  shows "distinct (map step_id (filter (\<lambda>st. step_workflow_uuid st = i) (hm_values (md_steps d))))"
proof -
  have "distinct (map (\<lambda>st. (step_workflow_uuid st, step_id st)) (hm_values (md_steps d)))"
    using assms by (auto simp: mem_inv_def intro!: hm_values_distinct)
  then show ?thesis by (auto simp: distinct_map inj_on_def distinct_filter)
qed

lemma mem_insert_cases:
  "mem_insert_workflow_with_result w d =
     (case hm_get (md_workflows d) (wf_workflow_uuid w) of
        Some e \<Rightarrow> (ensure_workflow_identity_matches e w, d)
      | None \<Rightarrow>
          if mem_dedup d w
          then (Inl (queue_deduplicated_error (the (wf_queue_name w)) (the (wf_deduplication_id w))), d)
          else (Inr Inserted, d\<lparr>md_workflows := hm_insert (wf_workflow_uuid w) w (md_workflows d)\<rparr>))"
  by (auto simp: mem_insert_workflow_with_result_def mem_dedup_def split: option.splits)

lemma set_row_triv: "m k = v \<Longrightarrow> set_row k v m = m"
  by (auto simp: set_row_def)

lemma mem_claim_spec:
  assumes "mem_claim_workflow_execution now i ex xid d = (r, d')"
  shows "r = Inr (fst (claim_spec now ex xid (hm_get (md_workflows d) i)))
    \<and> hm_get (md_workflows d') =
        set_row i (snd (claim_spec now ex xid (hm_get (md_workflows d) i))) (hm_get (md_workflows d))
    \<and> d' = d\<lparr>md_workflows := md_workflows d'\<rparr>"
  using assms
  by (auto simp: mem_claim_workflow_execution_def claim_spec_def set_row_def fun_eq_iff
      split: option.splits if_splits)

lemma mem_claim_inv:
  assumes "mem_inv d" "mem_claim_workflow_execution now i ex xid d = (r, d')"
  shows "mem_inv d'"
proof -
  have "hm_keyed wf_workflow_uuid (hm_insert i (w\<lparr>wf_status := Pending, wf_executor_id := Some ex,
      wf_execution_id := Some xid, wf_updated_at := now\<rparr>) (md_workflows d))"
    if "hm_get (md_workflows d) i = Some w" for w
    using assms(1) that by (auto simp: mem_inv_def hm_keyed_def)
  with assms show ?thesis
    by (auto simp: mem_claim_workflow_execution_def mem_inv_def split: option.splits if_splits)
qed

lemma mem_insert_inv:
  assumes "mem_inv d" "mem_insert_workflow_with_result w d = (r, d')"
  shows "mem_inv d'"
  using assms by (auto simp: mem_insert_cases mem_inv_def split: option.splits if_splits)

lemma mem_list_workflows_values:
  assumes "mem_inv d"
  shows "distinct (map wf_workflow_uuid (hm_values (md_workflows d)))
    \<and> set (hm_values (md_workflows d)) = ran (hm_get (md_workflows d))"
  using assms by (simp add: mem_inv_def hm_values_distinct hm_values_ran)

lemma mem_list_steps_spec:
  assumes "mem_inv d" "mem_list_steps i d = (r, d')"
  shows "\<exists>sts. r = Inr sts \<and> sorted (map step_id sts) \<and> distinct (map step_id sts)
    \<and> set sts = {st \<in> ran (hm_get (md_steps d)). step_workflow_uuid st = i} \<and> d' = d"
proof -
  let ?rows = "filter (\<lambda>st. step_workflow_uuid st = i) (hm_values (md_steps d))"
  have "distinct (map step_id ?rows)" using assms(1) by (rule mem_step_keys_distinct)
  then have "distinct (map step_id (sort_key step_id ?rows))"
    using mset_eq_imp_distinct_iff [of "map step_id (sort_key step_id ?rows)" "map step_id ?rows"]
    by simp
  moreover have "set ?rows = {st \<in> ran (hm_get (md_steps d)). step_workflow_uuid st = i}"
    using assms(1) by (auto simp: mem_inv_def hm_values_ran)
  ultimately show ?thesis
    using assms(2) by (auto simp: mem_list_steps_def)
qed

lemma mem_delete_spec:
  assumes "mem_inv d" "mem_delete_workflows ids opts d = (r, d')"
  shows "r = Inr () \<and> mem_inv d'
    \<and> hm_get (md_workflows d') = hm_get (md_workflows d) |` (- set ids)
    \<and> hm_get (md_steps d') = hm_get (md_steps d) |` {(i, n). i \<notin> set ids}"
  using assms
  by (auto simp: mem_delete_workflows_def mem_inv_def hm_get_fold_remove hm_ok_fold_remove
      hm_keyed_fold_remove restrict_map_def fun_eq_iff)

lemma mem_keyed_laws:
  "mem_inv d \<Longrightarrow> hm_get (md_workflows d) i = Some w \<Longrightarrow> wf_workflow_uuid w = i"
  "mem_inv d \<Longrightarrow> hm_get (md_steps d) (i, n) = Some st \<Longrightarrow> step_workflow_uuid st = i \<and> step_id st = n"
  by (auto simp: mem_inv_def hm_keyed_def)

lemma mem_save_law:
  assumes "mem_inv d" "mem_save_workflow w d = (r, d')"
  shows "r = Inr () \<and> mem_inv d' \<and>
    mem_abs d' = mem_abs d\<lparr>a_workflows := (hm_get (md_workflows d))(wf_workflow_uuid w \<mapsto> w)\<rparr>"
  using assms by (auto simp: mem_save_workflow_def mem_inv_def mem_abs_def)

lemma mem_record_step_law:
  assumes "mem_inv d" "mem_record_step st d = (r, d')"
  shows "r = Inr () \<and> mem_inv d' \<and>
    mem_abs d' = mem_abs d\<lparr>a_steps := (hm_get (md_steps d))((step_workflow_uuid st, step_id st) \<mapsto> st)\<rparr>"
proof -
  have "hm_keyed (\<lambda>st. (step_workflow_uuid st, step_id st))
      (hm_insert (step_workflow_uuid st, step_id st) st (md_steps d))"
    using hm_keyed_insert [of "\<lambda>st. (step_workflow_uuid st, step_id st)" "md_steps d" st] assms(1)
    by (simp add: mem_inv_def)
  with assms show ?thesis by (auto simp: mem_record_step_def mem_inv_def mem_abs_def)
qed

lemma mem_config_laws:
  "mem_inv d \<Longrightarrow> mem_upsert_queue q d = (ru, d') \<Longrightarrow>
    ru = Inr () \<and> mem_inv d' \<and>
    mem_abs d' = mem_abs d\<lparr>a_queues := (hm_get (md_queues d))(q_name q \<mapsto> q)\<rparr>"
  "mem_inv d \<Longrightarrow> mem_delete_queue n d = (ru, d') \<Longrightarrow>
    ru = Inr () \<and> mem_inv d' \<and>
    mem_abs d' = mem_abs d\<lparr>a_queues := (hm_get (md_queues d))(n := None)\<rparr>"
  "mem_inv d \<Longrightarrow> mem_upsert_schedule sc d = (ru, d') \<Longrightarrow>
    ru = Inr () \<and> mem_inv d' \<and>
    mem_abs d' = mem_abs d\<lparr>a_schedules := (hm_get (md_schedules d))(sch_schedule_name sc \<mapsto> sc)\<rparr>"
  "mem_inv d \<Longrightarrow> mem_delete_schedule n d = (ru, d') \<Longrightarrow>
    ru = Inr () \<and> mem_inv d' \<and>
    mem_abs d' = mem_abs d\<lparr>a_schedules := (hm_get (md_schedules d))(n := None)\<rparr>"
  "mem_inv d \<Longrightarrow> mem_set_patch n b d = (ru, d') \<Longrightarrow>
    ru = Inr () \<and> mem_inv d' \<and>
    mem_abs d' = mem_abs d\<lparr>a_patches := (hm_get (md_patches d))(n \<mapsto> b)\<rparr>"
  by (auto simp: mem_upsert_queue_def mem_delete_queue_def mem_upsert_schedule_def
      mem_delete_schedule_def mem_set_patch_def mem_inv_def mem_abs_def)

lemma mem_version_laws:
  "mem_inv d \<Longrightarrow> mem_create_application_version v d = (ru, d') \<Longrightarrow>
    ru = Inr () \<and> mem_inv d' \<and>
    mem_abs d' = mem_abs d\<lparr>a_versions :=
      (if hm_get (md_application_versions d) (ver_name v) = None
       then (hm_get (md_application_versions d))(ver_name v \<mapsto> v)
       else hm_get (md_application_versions d))\<rparr>"
  "mem_inv d \<Longrightarrow> mem_set_latest_application_version now n d = (ru, d') \<Longrightarrow>
    ru = Inr () \<and> mem_inv d' \<and>
    mem_abs d' = mem_abs d\<lparr>a_versions := (hm_get (md_application_versions d))(n \<mapsto>
      (case hm_get (md_application_versions d) n of
         None \<Rightarrow> \<lparr>ver_name = n, ver_created_at = now, ver_updated_at = now\<rparr>
       | Some v \<Rightarrow> v\<lparr>ver_updated_at := now\<rparr>))\<rparr>"
  by (auto simp: mem_create_application_version_def mem_set_latest_application_version_def
      mem_inv_def mem_abs_def Let_def split: option.splits)

lemma mem_read_laws:
  "mem_get_workflow i d = (Inr (hm_get (md_workflows d) i), d)"
  "mem_get_step i n d = (Inr (hm_get (md_steps d) (i, n)), d)"
  "mem_get_queue q d = (Inr (hm_get (md_queues d) q), d)"
  "mem_get_schedule q d = (Inr (hm_get (md_schedules d) q), d)"
  "mem_get_patch q d = (Inr (hm_get (md_patches d) q), d)"
  "mem_list_workflows opts d = (Inr (select_workflows opts (hm_values (md_workflows d))), d)"
  by (simp_all add: mem_get_workflow_def mem_get_step_def mem_get_queue_def mem_get_schedule_def
      mem_get_patch_def mem_list_workflows_def)

lemma mem_claim_law:
  assumes "mem_inv d" "mem_claim_workflow_execution now i ex xid d = (r, d')"
  shows "r = Inr (fst (claim_spec now ex xid (hm_get (md_workflows d) i))) \<and> mem_inv d' \<and>
    mem_abs d' = mem_abs d\<lparr>a_workflows :=
      set_row i (snd (claim_spec now ex xid (hm_get (md_workflows d) i))) (hm_get (md_workflows d))\<rparr>"
proof -
  note c = mem_claim_spec [OF assms(2)]
  then obtain x where d': "d' = d\<lparr>md_workflows := x\<rparr>" by blast
  with c have "hm_get x =
      set_row i (snd (claim_spec now ex xid (hm_get (md_workflows d) i))) (hm_get (md_workflows d))"
    by simp
  with c d' mem_claim_inv [OF assms] show ?thesis by (simp add: mem_abs_def)
qed

lemma mem_insert_laws:
  assumes "mem_inv d" "mem_insert_workflow_with_result w d = (r, d')"
  shows "hm_get (md_workflows d) (wf_workflow_uuid w) = Some e \<Longrightarrow>
      r = ensure_workflow_identity_matches e w \<and> mem_inv d' \<and> mem_abs d' = mem_abs d"
    and "hm_get (md_workflows d) (wf_workflow_uuid w) = None \<Longrightarrow> \<not> mem_dedup d w \<Longrightarrow>
      r = Inr Inserted \<and> mem_inv d' \<and>
      mem_abs d' = mem_abs d\<lparr>a_workflows := (hm_get (md_workflows d))(wf_workflow_uuid w \<mapsto> w)\<rparr>"
    and "hm_get (md_workflows d) (wf_workflow_uuid w) = None \<Longrightarrow> mem_dedup d w \<Longrightarrow>
      (\<exists>e. r = Inl e \<and> err_code e = QueueDeduplicated) \<and> mem_inv d' \<and> mem_abs d' = mem_abs d"
  using assms mem_insert_inv [OF assms]
  by (auto simp: mem_insert_cases queue_deduplicated_error_def mem_abs_def)

lemma mem_delete_law:
  assumes "mem_inv d" "mem_delete_workflows ids opts d = (r, d')"
  shows "r = Inr () \<and> mem_inv d' \<and>
    mem_abs d' = mem_abs d\<lparr>a_workflows := hm_get (md_workflows d) |` (- set ids),
                            a_steps := hm_get (md_steps d) |` {(i, n). i \<notin> set ids}\<rparr>"
  using mem_delete_spec [OF assms] assms(2) by (auto simp: mem_delete_workflows_def mem_abs_def)

interpretation mem: durable_store memory_store mem_inv mem_abs "\<lambda>d. d" mem_dedup
proof (unfold_locales, simp_all only: memory_store_def system_database.simps mem_abs_simps
    option.map_ident, goal_cases)
  case (1 s i w)
  then show ?case by (rule mem_keyed_laws)
next
  case 2
  then show ?case by (auto simp: mem_read_laws)
next
  case 3
  from mem_save_law [OF 3] show ?case by simp
next
  case 4
  from mem_insert_laws(1) [OF 4(1,3,2)] show ?case .
next
  case 5
  from mem_insert_laws(2) [OF 5(1,4,2,3)] show ?case by simp
next
  case 6
  from mem_insert_laws(3) [OF 6(1,4,2,3)] show ?case .
next
  case 7
  then show ?case by (simp add: mem_insert_workflow_def fun_eq_iff)
next
  case 8
  from mem_claim_law [OF 8(1,3)] show ?case .
next
  case 9
  then show ?case using mem_list_workflows_values by (auto simp: mem_read_laws)
next
  case 10
  then show ?case by (rule mem_keyed_laws)
next
  case 11
  then show ?case by (auto simp: mem_read_laws)
next
  case 12
  from mem_record_step_law [OF 12] show ?case .
next
  case 13
  from mem_list_steps_spec [OF 13] 13(1) show ?case by blast
next
  case 14
  then show ?case by (auto simp: mem_read_laws)
next
  case (15 s q ru s')
  note l = mem_config_laws(1) [OF 15]
  have "\<exists>q'. mem_abs s' = mem_abs s\<lparr>a_queues := (hm_get (md_queues s))(q_name q \<mapsto> q')\<rparr>
      \<and> q_name q' = q_name q"
    by (rule exI [of _ q]) (use l in blast)
  with l show ?case by blast
next
  case 16
  from mem_config_laws(2) [OF 16] show ?case .
next
  case 17
  then show ?case by (auto simp: mem_read_laws)
next
  case 18
  from mem_config_laws(3) [OF 18] show ?case .
next
  case 19
  from mem_config_laws(4) [OF 19] show ?case .
next
  case 20
  from mem_version_laws(1) [OF 20] show ?case .
next
  case 21
  from mem_version_laws(2) [OF 21] show ?case .
next
  case 22
  from mem_config_laws(5) [OF 22] show ?case .
next
  case 23
  then show ?case by (auto simp: mem_read_laws)
next
  case 24
  from mem_delete_law [OF 24] show ?case .
qed

end
