(* ===== verification/Sql_Kv.thy ===== *)
theory Sql_Kv
  imports Store_Interface
begin

text \<open>
  The table layer of the two SQL stores of \<open>src/src/store.rs\<close>: the \<open>dbos_state\<close> table of JSON
  payloads keyed by kind and id, and \<open>put\<close>, \<open>get\<close>, \<open>list\<close>, \<open>delete\<close>, the idempotent insert and
  the atomic claim of \<open>PostgresStore\<close> and \<open>TursoStore\<close>, each with its retry loop. The driver and
  the network are a script of faults: a failed statement may or may not have been applied.
  The column \<open>updated_at\<close> is written and never read, so it is left out.
\<close>

section \<open>Payloads and keys\<close>

text \<open>
  A payload is what \<open>serde_json\<close> writes for a value: every field as it is, a duration in whole
  milliseconds. Reading a payload of another type is a serialization error.
\<close>

datatype payload =
    PWorkflow workflow_status
  | PStep step_info
  | PQueue workflow_queue
  | PSchedule workflow_schedule
  | PMessage workflow_message
  | PEvent workflow_event
  | PStream stream_entry
  | PVersion version_info
  | PPatch bool

definition wire_workflow :: "workflow_status \<Rightarrow> workflow_status" where
  "wire_workflow w = w\<lparr>wf_timeout := map_option wire_duration (wf_timeout w)\<rparr>"

definition wire_queue :: "workflow_queue \<Rightarrow> workflow_queue" where
  "wire_queue q = q\<lparr>
     q_rate_limit := map_option (\<lambda>l. l\<lparr>rl_period := wire_duration (rl_period l)\<rparr>) (q_rate_limit q),
     q_polling_interval := wire_duration (q_polling_interval q),
     q_max_polling_interval := wire_duration (q_max_polling_interval q)\<rparr>"

definition wrong_payload :: dbos_error where
  "wrong_payload = from_serde_error ''invalid type''"

definition as_workflow :: "payload \<Rightarrow> workflow_status res" where
  "as_workflow p = (case p of PWorkflow w \<Rightarrow> Inr w | _ \<Rightarrow> Inl wrong_payload)"

definition as_step :: "payload \<Rightarrow> step_info res" where
  "as_step p = (case p of PStep st \<Rightarrow> Inr st | _ \<Rightarrow> Inl wrong_payload)"

definition as_queue :: "payload \<Rightarrow> workflow_queue res" where
  "as_queue p = (case p of PQueue q \<Rightarrow> Inr q | _ \<Rightarrow> Inl wrong_payload)"

definition as_schedule :: "payload \<Rightarrow> workflow_schedule res" where
  "as_schedule p = (case p of PSchedule sc \<Rightarrow> Inr sc | _ \<Rightarrow> Inl wrong_payload)"

definition as_message :: "payload \<Rightarrow> workflow_message res" where
  "as_message p = (case p of PMessage m \<Rightarrow> Inr m | _ \<Rightarrow> Inl wrong_payload)"

definition as_event :: "payload \<Rightarrow> workflow_event res" where
  "as_event p = (case p of PEvent e \<Rightarrow> Inr e | _ \<Rightarrow> Inl wrong_payload)"

definition as_stream :: "payload \<Rightarrow> stream_entry res" where
  "as_stream p = (case p of PStream e \<Rightarrow> Inr e | _ \<Rightarrow> Inl wrong_payload)"

definition as_version :: "payload \<Rightarrow> version_info res" where
  "as_version p = (case p of PVersion v \<Rightarrow> Inr v | _ \<Rightarrow> Inl wrong_payload)"

definition as_patch :: "payload \<Rightarrow> bool res" where
  "as_patch p = (case p of PPatch b \<Rightarrow> Inr b | _ \<Rightarrow> Inl wrong_payload)"

definition step_key :: "string \<Rightarrow> int \<Rightarrow> string" where
  "step_key workflow_id sid = workflow_id @ '':'' @ show_int sid"

definition event_key :: "string \<Rightarrow> string \<Rightarrow> string" where
  "event_key workflow_id key = workflow_id @ '':'' @ key"

definition stream_key :: "string \<Rightarrow> string \<Rightarrow> int \<Rightarrow> string" where
  "stream_key workflow_id key offset = workflow_id @ '':'' @ key @ '':'' @ show_int offset"

text \<open>\<open>timestamp_nanos_opt\<close> is \<open>None\<close> outside the range of \<open>i64\<close>, and the key then says 0.\<close>

definition timestamp_nanos :: "datetime \<Rightarrow> int" where
  "timestamp_nanos t = (if - (2 ^ 63) \<le> t \<and> t < 2 ^ 63 then t else 0)"

definition message_key :: "workflow_message \<Rightarrow> string" where
  "message_key message =
     msg_destination_id message @ '':'' @ msg_topic message @ '':''
     @ show_int (timestamp_nanos (msg_created_at message))"

definition ascii_alphanumeric :: "char \<Rightarrow> bool" where
  "ascii_alphanumeric c \<longleftrightarrow>
     is_digit c \<or> (65 \<le> (of_char c :: nat) \<and> (of_char c :: nat) \<le> 90)
     \<or> (97 \<le> (of_char c :: nat) \<and> (of_char c :: nat) \<le> 122)"

definition validate_schema_name :: "string \<Rightarrow> unit res" where
  "validate_schema_name schema =
     (if schema = [] \<or> \<not> list_all (\<lambda>ch. ascii_alphanumeric ch \<or> ch = CHR ''_'') schema
      then Inl (invalid_argument (''invalid postgres schema name '' @ debug_str schema))
      else Inr ())"

section \<open>The connection\<close>

text \<open>
  \<open>sql_faults\<close> is what happens to the coming statements: \<open>None\<close> is acknowledged, \<open>Some f\<close>
  fails, having been applied or not; an exhausted script acknowledges. \<open>flt_busy\<close> and
  \<open>flt_late\<close> are what the Turso loop looks at: the error is \<open>Busy\<close>, and the deadline of the
  loop has passed. \<open>sql_opens\<close> has one list for each coming reconnection: the instants the
  clock reads after its failed attempts; the attempt after the last one connects.
\<close>

type_synonym table = "(string \<times> string, payload) hashmap"

record fault =
  flt_applied :: bool
  flt_busy :: bool
  flt_late :: bool
  flt_message :: string

record sql_state =
  sql_table :: table
  sql_faults :: "fault option list"
  sql_connected :: bool
  sql_opens :: "nat list list"
  sql_now :: nat

definition statement :: "(table \<Rightarrow> 'a \<times> table) \<Rightarrow> (sql_state, fault, 'a) act" where
  "statement f s =
     (case sql_faults s of
        [] \<Rightarrow> (case f (sql_table s) of (x, t) \<Rightarrow> (Inr x, s\<lparr>sql_table := t\<rparr>))
      | None # fs \<Rightarrow> (case f (sql_table s) of (x, t) \<Rightarrow> (Inr x, s\<lparr>sql_table := t, sql_faults := fs\<rparr>))
      | Some e # fs \<Rightarrow>
          (Inl e, s\<lparr>sql_table := (if flt_applied e then snd (f (sql_table s)) else sql_table s),
                    sql_faults := fs\<rparr>))"

text \<open>The statements themselves.\<close>

definition sql_upsert :: "string \<Rightarrow> string \<Rightarrow> payload \<Rightarrow> table \<Rightarrow> unit \<times> table" where
  "sql_upsert kind i p t = ((), hm_insert (kind, i) p t)"

definition sql_select :: "string \<Rightarrow> string \<Rightarrow> table \<Rightarrow> payload option \<times> table" where
  "sql_select kind i t = (hm_get t (kind, i), t)"

definition rows_of :: "string \<Rightarrow> table \<Rightarrow> payload list" where
  "rows_of kind t = map snd (filter (\<lambda>row. fst (fst row) = kind) t)"

definition sql_select_kind :: "string \<Rightarrow> table \<Rightarrow> payload list \<times> table" where
  "sql_select_kind kind t = (rows_of kind t, t)"

definition sql_delete :: "string \<Rightarrow> string \<Rightarrow> table \<Rightarrow> unit \<times> table" where
  "sql_delete kind i t = ((), hm_remove (kind, i) t)"

text \<open>\<open>INSERT ... ON CONFLICT DO NOTHING\<close>: was a row inserted?\<close>

definition sql_insert_if_absent :: "string \<Rightarrow> string \<Rightarrow> payload \<Rightarrow> table \<Rightarrow> bool \<times> table" where
  "sql_insert_if_absent kind i p t =
     (case hm_get t (kind, i) of None \<Rightarrow> (True, hm_insert (kind, i) p t) | Some _ \<Rightarrow> (False, t))"

text \<open>The conditional \<open>UPDATE\<close> of a claim: was a row updated?\<close>

definition sql_claim_update :: "datetime \<Rightarrow> string \<Rightarrow> string \<Rightarrow> string \<Rightarrow> table \<Rightarrow> bool \<times> table" where
  "sql_claim_update now workflow_id executor_id execution_id t =
     (case hm_get t (''workflow'', workflow_id) of
        Some (PWorkflow w) \<Rightarrow>
          if wf_status w \<in> {Pending, Enqueued} \<and> wf_executor_id w = None
          then (True, hm_insert (''workflow'', workflow_id)
                  (PWorkflow (w\<lparr>wf_status := Pending, wf_executor_id := Some executor_id,
                                wf_execution_id := Some execution_id, wf_updated_at := now\<rparr>)) t)
          else (False, t)
      | _ \<Rightarrow> (False, t))"

section \<open>Postgres\<close>

text \<open>
  \<open>ensure_connected_locked\<close>: attempts to connect until the deadline, sleeping 50 ms doubled
  up to 500 ms between attempts. The list gives the clock after each failed attempt. The result
  carries the delays slept.
\<close>

fun reconnect_loop :: "nat \<Rightarrow> nat \<Rightarrow> nat list \<Rightarrow> bool \<times> nat list" where
  "reconnect_loop deadline delay [] = (True, [])"
| "reconnect_loop deadline delay (t # ts) =
     (if t < deadline
      then (case reconnect_loop deadline (min (delay * 2) (from_millis 500)) ts of
              (ok, slept) \<Rightarrow> (ok, delay # slept))
      else (False, []))"

definition pg_reconnect_timeout :: "nat option \<Rightarrow> duration" where
  "pg_reconnect_timeout configured =
     (case configured of Some ms \<Rightarrow> from_millis ms | None \<Rightarrow> from_secs 5)"

text \<open>The loop on the state: each call that has to connect takes the next list of attempts.\<close>

definition ensure_connected_locked :: "duration \<Rightarrow> (sql_state, unit) dbact" where
  "ensure_connected_locked reconnect_timeout s =
     (if sql_connected s then (Inr (), s)
      else case sql_opens s of
        [] \<Rightarrow> (Inr (), s\<lparr>sql_connected := True\<rparr>)
      | ts # rest \<Rightarrow>
          if fst (reconnect_loop (sql_now s + reconnect_timeout) (from_millis 50) ts)
          then (Inr (), s\<lparr>sql_connected := True, sql_opens := rest\<rparr>)
          else (Inl (from_postgres_error ''connection failed''), s\<lparr>sql_opens := rest\<rparr>))"

text \<open>
  \<open>for attempt in 0..2\<close> around a body of statements: connect, run, and on the first failure
  drop the client and try once more.
\<close>

fun pg_attempts :: "nat \<Rightarrow> nat \<Rightarrow> duration \<Rightarrow> string \<Rightarrow> (sql_state, fault, 'a) act \<Rightarrow> (sql_state, 'a) dbact" where
  "pg_attempts 0 attempt timeout what body s =
     (Inl (database_error (''postgres '' @ what @ '' retry loop exited unexpectedly'')), s)"
| "pg_attempts (Suc left) attempt timeout what body s =
     (case ensure_connected_locked timeout s of
        (Inl e, s1) \<Rightarrow> (Inl e, s1)
      | (Inr _, s1) \<Rightarrow>
          (case body s1 of
             (Inr x, s2) \<Rightarrow> (Inr x, s2)
           | (Inl e, s2) \<Rightarrow>
               if attempt = 0
               then pg_attempts left (Suc attempt) timeout what body (s2\<lparr>sql_connected := False\<rparr>)
               else (Inl (from_postgres_error (flt_message e)), s2)))"

definition pg_put :: "duration \<Rightarrow> string \<Rightarrow> string \<Rightarrow> payload \<Rightarrow> (sql_state, unit) dbact" where
  "pg_put timeout kind i value = pg_attempts 2 0 timeout ''put'' (statement (sql_upsert kind i value))"

definition pg_get :: "duration \<Rightarrow> string \<Rightarrow> string \<Rightarrow> (sql_state, payload option) dbact" where
  "pg_get timeout kind i = pg_attempts 2 0 timeout ''get'' (statement (sql_select kind i))"

definition pg_list :: "duration \<Rightarrow> string \<Rightarrow> (sql_state, payload list) dbact" where
  "pg_list timeout kind = pg_attempts 2 0 timeout ''list'' (statement (sql_select_kind kind))"

definition pg_delete :: "duration \<Rightarrow> string \<Rightarrow> string \<Rightarrow> (sql_state, unit) dbact" where
  "pg_delete timeout kind i = pg_attempts 2 0 timeout ''delete'' (statement (sql_delete kind i))"

text \<open>Five data definition statements that leave the rows alone.\<close>

definition pg_migrate :: "duration \<Rightarrow> (sql_state, unit) dbact" where
  "pg_migrate timeout =
     pg_attempts 2 0 timeout ''migration''
       (act_for (\<lambda>_. statement (\<lambda>t. ((), t)))
          [''create_schema'', ''create_migrations'', ''create_state'', ''create_index'', ''insert_migration''])"

definition insert_body :: "workflow_status \<Rightarrow> (sql_state, fault, bool \<times> payload option) act" where
  "insert_body workflow =
     act_bind (statement (sql_insert_if_absent ''workflow'' (wf_workflow_uuid workflow)
                            (PWorkflow (wire_workflow workflow)))) (\<lambda>inserted.
     if inserted then act_return (True, None)
     else act_bind (statement (sql_select ''workflow'' (wf_workflow_uuid workflow)))
            (\<lambda>existing. act_return (False, existing)))"

definition insert_outcome ::
    "string \<Rightarrow> workflow_status \<Rightarrow> bool \<times> payload option \<Rightarrow> workflow_insert_result res" where
  "insert_outcome db_name workflow result =
     (case result of
        (True, _) \<Rightarrow> Inr Inserted
      | (False, Some existing_payload) \<Rightarrow>
          res_bind (as_workflow existing_payload)
            (\<lambda>existing. ensure_workflow_identity_matches existing workflow)
      | (False, None) \<Rightarrow>
          Inl (database_error (''workflow '' @ wf_workflow_uuid workflow @ '' disappeared after a ''
                 @ db_name @ '' insert conflict'')))"

definition pg_insert_workflow_with_result ::
    "duration \<Rightarrow> workflow_status \<Rightarrow> (sql_state, workflow_insert_result) dbact" where
  "pg_insert_workflow_with_result timeout workflow =
     act_bind (pg_attempts 2 0 timeout ''workflow insert'' (insert_body workflow))
       (\<lambda>result. act_lift (insert_outcome ''postgres'' workflow result))"

text \<open>
  The claim loop ends in three ways: a row was updated, no row was updated, or the second
  attempt failed too; the last two are resolved by reading the row.
\<close>

fun pg_claim_attempts ::
    "nat \<Rightarrow> nat \<Rightarrow> duration \<Rightarrow> (table \<Rightarrow> bool \<times> table) \<Rightarrow> (sql_state, bool) dbact" where
  "pg_claim_attempts 0 attempt timeout update s = (Inr False, s)"
| "pg_claim_attempts (Suc left) attempt timeout update s =
     (case ensure_connected_locked timeout s of
        (Inl e, s1) \<Rightarrow> (Inl e, s1)
      | (Inr _, s1) \<Rightarrow>
          (case statement update s1 of
             (Inr updated, s2) \<Rightarrow> (Inr updated, s2)
           | (Inl e, s2) \<Rightarrow>
               if attempt = 0
               then pg_claim_attempts left (Suc attempt) timeout update (s2\<lparr>sql_connected := False\<rparr>)
               else (Inr False, s2\<lparr>sql_connected := False\<rparr>)))"

definition pg_claim_workflow_execution ::
    "duration \<Rightarrow> datetime \<Rightarrow> string \<Rightarrow> string \<Rightarrow> string \<Rightarrow> (sql_state, bool) dbact" where
  "pg_claim_workflow_execution timeout now workflow_id executor_id execution_id =
     act_bind (pg_claim_attempts 2 0 timeout
                 (sql_claim_update now workflow_id executor_id execution_id)) (\<lambda>updated.
     if updated then act_return True
     else act_bind (ensure_connected_locked timeout) (\<lambda>_ s.
       (case statement (sql_select ''workflow'' workflow_id) s of
          (Inl e, s') \<Rightarrow> (Inl (from_postgres_error (flt_message e)), s')
        | (Inr None, s') \<Rightarrow> (Inr False, s')
        | (Inr (Some existing), s') \<Rightarrow>
            (res_map (\<lambda>workflow. wf_execution_id workflow = Some execution_id) (as_workflow existing), s'))))"

section \<open>Turso\<close>

text \<open>
  The Turso loops retry a busy database until a deadline of five seconds, without a bound on
  the attempts. \<open>turso_attempts\<close> takes fuel; \<open>turso_retry\<close> gives it one round more than there are
  scripted faults, which is enough because every failed round uses one up.
\<close>

fun turso_attempts :: "nat \<Rightarrow> (sql_state, fault, 'a) act \<Rightarrow> sql_state \<Rightarrow> ((dbos_error + 'a) \<times> sql_state) option" where
  "turso_attempts 0 body s = None"
| "turso_attempts (Suc fuel) body s =
     (case body s of
        (Inr x, s') \<Rightarrow> Some (Inr x, s')
      | (Inl e, s') \<Rightarrow>
          if flt_busy e \<and> \<not> flt_late e then turso_attempts fuel body s'
          else Some (Inl (from_turso_error (flt_message e)), s'))"

definition turso_retry :: "(sql_state, fault, 'a) act \<Rightarrow> (sql_state, 'a) dbact" where
  "turso_retry body s =
     (case turso_attempts (Suc (length (sql_faults s))) body s of
        Some r \<Rightarrow> r
      | None \<Rightarrow> (Inl (from_turso_error ''busy''), s))"

text \<open>A single statement whose error is returned as it is.\<close>

definition turso_once :: "(sql_state, fault, 'a) act \<Rightarrow> (sql_state, 'a) dbact" where
  "turso_once body s =
     (case body s of (Inr x, s') \<Rightarrow> (Inr x, s') | (Inl e, s') \<Rightarrow> (Inl (from_turso_error (flt_message e)), s'))"

definition turso_put :: "string \<Rightarrow> string \<Rightarrow> payload \<Rightarrow> (sql_state, unit) dbact" where
  "turso_put kind i value = turso_retry (statement (sql_upsert kind i value))"

definition turso_get :: "string \<Rightarrow> string \<Rightarrow> (sql_state, payload option) dbact" where
  "turso_get kind i = turso_once (statement (sql_select kind i))"

definition turso_list :: "string \<Rightarrow> (sql_state, payload list) dbact" where
  "turso_list kind = turso_once (statement (sql_select_kind kind))"

definition turso_delete :: "string \<Rightarrow> string \<Rightarrow> (sql_state, unit) dbact" where
  "turso_delete kind i = turso_once (statement (sql_delete kind i))"

definition turso_migrate :: "(sql_state, unit) dbact" where
  "turso_migrate =
     act_for (\<lambda>_. turso_once (statement (\<lambda>t. ((), t)))) [''execute_batch'', ''insert_migration'']"

definition turso_insert_workflow_with_result ::
    "workflow_status \<Rightarrow> (sql_state, workflow_insert_result) dbact" where
  "turso_insert_workflow_with_result workflow =
     act_bind (turso_retry (insert_body workflow))
       (\<lambda>result. act_lift (insert_outcome ''turso'' workflow result))"

definition turso_claim_workflow_execution ::
    "datetime \<Rightarrow> string \<Rightarrow> string \<Rightarrow> string \<Rightarrow> (sql_state, bool) dbact" where
  "turso_claim_workflow_execution now workflow_id executor_id execution_id =
     act_bind (turso_retry (statement (sql_claim_update now workflow_id executor_id execution_id)))
       (\<lambda>updated.
     if updated then act_return True
     else act_bind (turso_get ''workflow'' workflow_id) (\<lambda>row.
       case row of
         None \<Rightarrow> act_return False
       | Some p \<Rightarrow> act_lift (res_map (\<lambda>workflow. wf_execution_id workflow = Some execution_id) (as_workflow p))))"

end
