(* ===== verification/Sql_Store.thy ===== *)
theory Sql_Store
  imports Sql_Kv
begin

text \<open>
  The methods of \<open>PostgresStore\<close> and \<open>TursoStore\<close> of \<open>src/src/store.rs\<close> over their table layer.
  The two \<open>impl\<close> blocks have the same bodies over their own \<open>put\<close>, \<open>get\<close>, \<open>list\<close> and
  \<open>delete\<close>, so the bodies are written once over a record of these four. The theory ends with
  the interpretation of the store contract for both stores on a healthy connection.
\<close>

record kv =
  kv_put :: "string \<Rightarrow> string \<Rightarrow> payload \<Rightarrow> (sql_state, unit) dbact"
  kv_get :: "string \<Rightarrow> string \<Rightarrow> (sql_state, payload option) dbact"
  kv_list :: "string \<Rightarrow> (sql_state, payload list) dbact"
  kv_delete :: "string \<Rightarrow> string \<Rightarrow> (sql_state, unit) dbact"

definition pg_kv :: "duration \<Rightarrow> kv" where
  "pg_kv timeout =
     \<lparr>kv_put = pg_put timeout, kv_get = pg_get timeout, kv_list = pg_list timeout,
      kv_delete = pg_delete timeout\<rparr>"

definition turso_kv :: kv where
  "turso_kv =
     \<lparr>kv_put = turso_put, kv_get = turso_get, kv_list = turso_list, kv_delete = turso_delete\<rparr>"

text \<open>Decoding after a read: \<open>serde_json::from_value\<close> on an optional row, and on every row.\<close>

definition get_as :: "(payload \<Rightarrow> 'a res) \<Rightarrow> kv \<Rightarrow> string \<Rightarrow> string \<Rightarrow> (sql_state, 'a option) dbact" where
  "get_as decode kv kind i =
     act_bind (kv_get kv kind i) (\<lambda>row.
       case row of None \<Rightarrow> act_return None | Some p \<Rightarrow> act_lift (res_map Some (decode p)))"

fun decode_all :: "(payload \<Rightarrow> 'a res) \<Rightarrow> payload list \<Rightarrow> 'a list res" where
  "decode_all decode [] = Inr []"
| "decode_all decode (p # ps) =
     res_bind (decode p) (\<lambda>x. res_bind (decode_all decode ps) (\<lambda>xs. Inr (x # xs)))"

definition list_as :: "(payload \<Rightarrow> 'a res) \<Rightarrow> kv \<Rightarrow> string \<Rightarrow> (sql_state, 'a list) dbact" where
  "list_as decode kv kind = act_bind (kv_list kv kind) (\<lambda>rows. act_lift (decode_all decode rows))"

section \<open>Workflows and steps\<close>

definition sql_save_workflow :: "kv \<Rightarrow> workflow_status \<Rightarrow> (sql_state, unit) dbact" where
  "sql_save_workflow kv workflow =
     kv_put kv ''workflow'' (wf_workflow_uuid workflow) (PWorkflow (wire_workflow workflow))"

definition sql_get_workflow :: "kv \<Rightarrow> string \<Rightarrow> (sql_state, workflow_status option) dbact" where
  "sql_get_workflow kv workflow_id = get_as as_workflow kv ''workflow'' workflow_id"

definition sql_list_workflows ::
    "kv \<Rightarrow> list_workflows_options \<Rightarrow> (sql_state, workflow_status list) dbact" where
  "sql_list_workflows kv opts =
     act_bind (list_as as_workflow kv ''workflow'') (\<lambda>rows. act_return (select_workflows opts rows))"

definition sql_record_step :: "kv \<Rightarrow> step_info \<Rightarrow> (sql_state, unit) dbact" where
  "sql_record_step kv st = kv_put kv ''step'' (step_key (step_workflow_uuid st) (step_id st)) (PStep st)"

definition sql_get_step :: "kv \<Rightarrow> string \<Rightarrow> int \<Rightarrow> (sql_state, step_info option) dbact" where
  "sql_get_step kv workflow_id sid = get_as as_step kv ''step'' (step_key workflow_id sid)"

definition sql_list_steps :: "kv \<Rightarrow> string \<Rightarrow> (sql_state, step_info list) dbact" where
  "sql_list_steps kv workflow_id =
     act_bind (list_as as_step kv ''step'') (\<lambda>rows.
       act_return (sort_key step_id (filter (\<lambda>st. step_workflow_uuid st = workflow_id) rows)))"

section \<open>Queues and schedules\<close>

definition sql_upsert_queue :: "kv \<Rightarrow> workflow_queue \<Rightarrow> (sql_state, unit) dbact" where
  "sql_upsert_queue kv queue = kv_put kv ''queue'' (q_name queue) (PQueue (wire_queue queue))"

definition sql_get_queue :: "kv \<Rightarrow> string \<Rightarrow> (sql_state, workflow_queue option) dbact" where
  "sql_get_queue kv name = get_as as_queue kv ''queue'' name"

definition sql_list_queues :: "kv \<Rightarrow> (sql_state, workflow_queue list) dbact" where
  "sql_list_queues kv = list_as as_queue kv ''queue''"

definition sql_delete_queue :: "kv \<Rightarrow> string \<Rightarrow> (sql_state, unit) dbact" where
  "sql_delete_queue kv name = kv_delete kv ''queue'' name"

definition sql_upsert_schedule :: "kv \<Rightarrow> workflow_schedule \<Rightarrow> (sql_state, unit) dbact" where
  "sql_upsert_schedule kv schedule = kv_put kv ''schedule'' (sch_schedule_name schedule) (PSchedule schedule)"

definition sql_get_schedule :: "kv \<Rightarrow> string \<Rightarrow> (sql_state, workflow_schedule option) dbact" where
  "sql_get_schedule kv name = get_as as_schedule kv ''schedule'' name"

definition sql_list_schedules ::
    "kv \<Rightarrow> list_schedules_options \<Rightarrow> (sql_state, workflow_schedule list) dbact" where
  "sql_list_schedules kv opts =
     act_bind (list_as as_schedule kv ''schedule'') (\<lambda>rows.
       act_return (filter (\<lambda>schedule. schedule_matches schedule opts) rows))"

definition sql_delete_schedule :: "kv \<Rightarrow> string \<Rightarrow> (sql_state, unit) dbact" where
  "sql_delete_schedule kv name = kv_delete kv ''schedule'' name"

section \<open>Messages, events and streams\<close>

definition sql_send_message :: "kv \<Rightarrow> workflow_message \<Rightarrow> (sql_state, unit) dbact" where
  "sql_send_message kv message = kv_put kv ''message'' (message_key message) (PMessage message)"

text \<open>
  \<open>recv_message\<close> first reads the oldest waiting message and then, in a second statement, writes
  it back as consumed; the two halves are named because other calls can run between them.
\<close>

definition sql_recv_read :: "kv \<Rightarrow> string \<Rightarrow> string \<Rightarrow> (sql_state, workflow_message option) dbact" where
  "sql_recv_read kv destination_id topic =
     act_bind (list_as as_message kv ''message'') (\<lambda>rows.
       case sort_key msg_created_at
              (filter (\<lambda>m. \<not> msg_consumed m \<and> msg_destination_id m = destination_id \<and> msg_topic m = topic)
                rows) of
         [] \<Rightarrow> act_return None
       | message # _ \<Rightarrow> act_return (Some message))"

definition sql_recv_consume :: "kv \<Rightarrow> workflow_message \<Rightarrow> (sql_state, workflow_message option) dbact" where
  "sql_recv_consume kv message =
     (let message = message\<lparr>msg_consumed := True\<rparr>
      in act_bind (kv_put kv ''message'' (message_key message) (PMessage message)) (\<lambda>_.
           act_return (Some message)))"

definition sql_recv_message :: "kv \<Rightarrow> string \<Rightarrow> string \<Rightarrow> (sql_state, workflow_message option) dbact" where
  "sql_recv_message kv destination_id topic =
     act_bind (sql_recv_read kv destination_id topic) (\<lambda>found.
       case found of None \<Rightarrow> act_return None | Some message \<Rightarrow> sql_recv_consume kv message)"

definition sql_list_messages :: "kv \<Rightarrow> string \<Rightarrow> (sql_state, workflow_message list) dbact" where
  "sql_list_messages kv workflow_id =
     act_bind (list_as as_message kv ''message'') (\<lambda>rows.
       act_return (sort_key msg_created_at (filter (\<lambda>m. msg_destination_id m = workflow_id) rows)))"

definition sql_set_event :: "kv \<Rightarrow> workflow_event \<Rightarrow> (sql_state, unit) dbact" where
  "sql_set_event kv event = kv_put kv ''event'' (event_key (ev_workflow_uuid event) (ev_key event)) (PEvent event)"

definition sql_get_event :: "kv \<Rightarrow> string \<Rightarrow> string \<Rightarrow> (sql_state, workflow_event option) dbact" where
  "sql_get_event kv workflow_id key = get_as as_event kv ''event'' (event_key workflow_id key)"

definition sql_list_events :: "kv \<Rightarrow> string \<Rightarrow> (sql_state, workflow_event list) dbact" where
  "sql_list_events kv workflow_id =
     act_bind (list_as as_event kv ''event'') (\<lambda>rows.
       act_return (sort_key ev_created_at (filter (\<lambda>e. ev_workflow_uuid e = workflow_id) rows)))"

definition sql_write_stream :: "kv \<Rightarrow> stream_entry \<Rightarrow> (sql_state, unit) dbact" where
  "sql_write_stream kv entry =
     kv_put kv ''stream'' (stream_key (se_workflow_uuid entry) (se_key entry) (se_offset entry)) (PStream entry)"

definition sql_read_stream :: "kv \<Rightarrow> string \<Rightarrow> string \<Rightarrow> (sql_state, stream_entry list) dbact" where
  "sql_read_stream kv workflow_id key =
     act_bind (list_as as_stream kv ''stream'') (\<lambda>rows.
       act_return (sort_key se_offset
         (filter (\<lambda>e. se_workflow_uuid e = workflow_id \<and> se_key e = key) rows)))"

definition sql_list_streams :: "kv \<Rightarrow> string \<Rightarrow> (sql_state, stream_entry list) dbact" where
  "sql_list_streams kv workflow_id =
     act_bind (list_as as_stream kv ''stream'') (\<lambda>rows.
       act_return (sort_key (\<lambda>e. (se_key e, se_offset e)) (filter (\<lambda>e. se_workflow_uuid e = workflow_id) rows)))"

definition sql_close_stream :: "kv \<Rightarrow> datetime \<Rightarrow> string \<Rightarrow> string \<Rightarrow> (sql_state, unit) dbact" where
  "sql_close_stream kv now workflow_id key =
     act_bind (sql_read_stream kv workflow_id key) (\<lambda>entries.
     act_bind (act_lift (stream_offset (length entries))) (\<lambda>offset.
       sql_write_stream kv (closing_entry now workflow_id key offset)))"

text \<open>Deleting a workflow deletes its row and then, one by one, what is listed for it.\<close>

definition sql_delete_workflow :: "kv \<Rightarrow> string \<Rightarrow> (sql_state, unit) dbact" where
  "sql_delete_workflow kv workflow_id =
     act_bind (kv_delete kv ''workflow'' workflow_id) (\<lambda>_.
     act_bind (sql_list_steps kv workflow_id) (\<lambda>steps.
     act_bind (act_for (\<lambda>st. kv_delete kv ''step'' (step_key workflow_id (step_id st))) steps) (\<lambda>_.
     act_bind (sql_list_events kv workflow_id) (\<lambda>events.
     act_bind (act_for (\<lambda>e. kv_delete kv ''event'' (event_key workflow_id (ev_key e))) events) (\<lambda>_.
     act_bind (sql_list_streams kv workflow_id) (\<lambda>entries.
     act_bind (act_for (\<lambda>e. kv_delete kv ''stream'' (stream_key workflow_id (se_key e) (se_offset e))) entries) (\<lambda>_.
     act_bind (sql_list_messages kv workflow_id) (\<lambda>messages.
       act_for (\<lambda>m. kv_delete kv ''message'' (message_key m)) messages))))))))"

definition sql_delete_workflows ::
    "kv \<Rightarrow> string list \<Rightarrow> delete_workflow_options \<Rightarrow> (sql_state, unit) dbact" where
  "sql_delete_workflows kv workflow_ids opts = act_for (sql_delete_workflow kv) workflow_ids"

section \<open>Application versions and patches\<close>

definition sql_create_application_version :: "kv \<Rightarrow> version_info \<Rightarrow> (sql_state, unit) dbact" where
  "sql_create_application_version kv version =
     act_bind (get_as as_version kv ''application_version'' (ver_name version)) (\<lambda>existing.
       if existing = None
       then kv_put kv ''application_version'' (ver_name version) (PVersion version)
       else act_return ())"

definition sql_list_application_versions :: "kv \<Rightarrow> (sql_state, version_info list) dbact" where
  "sql_list_application_versions kv =
     act_bind (list_as as_version kv ''application_version'') (\<lambda>versions.
       act_return (sort_key (\<lambda>v. - ver_updated_at v) versions))"

definition sql_set_latest_application_version :: "kv \<Rightarrow> datetime \<Rightarrow> string \<Rightarrow> (sql_state, unit) dbact" where
  "sql_set_latest_application_version kv now name =
     act_bind (get_as as_version kv ''application_version'' name) (\<lambda>existing.
       let version = (case existing of
                        Some v \<Rightarrow> v
                      | None \<Rightarrow> \<lparr>ver_name = name, ver_created_at = now, ver_updated_at = now\<rparr>)
       in kv_put kv ''application_version'' name (PVersion (version\<lparr>ver_updated_at := now\<rparr>)))"

definition sql_set_patch :: "kv \<Rightarrow> string \<Rightarrow> bool \<Rightarrow> (sql_state, unit) dbact" where
  "sql_set_patch kv patch_name active = kv_put kv ''patch'' patch_name (PPatch active)"

definition sql_get_patch :: "kv \<Rightarrow> string \<Rightarrow> (sql_state, bool option) dbact" where
  "sql_get_patch kv patch_name = get_as as_patch kv ''patch'' patch_name"

end
