(* ===== verification/Sql_Faults.thy ===== *)
theory Sql_Faults
  imports Sql_Kv
begin

text \<open>
  What the retry loops of the SQL stores guarantee whatever the driver and the network do. The
  vehicle is a small Hoare-style predicate: \<open>keeps P E Q m\<close> says that \<open>m\<close>, started on a table
  where \<open>P\<close> holds, leaves a table where \<open>Q\<close> holds of its result, or fails with \<open>E\<close>.
\<close>

definition keeps ::
    "(table \<Rightarrow> bool) \<Rightarrow> (table \<Rightarrow> bool) \<Rightarrow> ('a \<Rightarrow> table \<Rightarrow> bool) \<Rightarrow> (sql_state, 'e, 'a) act \<Rightarrow> bool" where
  "keeps P E Q m \<longleftrightarrow>
     (\<forall>s r s'. P (sql_table s) \<longrightarrow> m s = (r, s') \<longrightarrow>
        (case r of Inl _ \<Rightarrow> E (sql_table s') | Inr x \<Rightarrow> Q x (sql_table s')))"

lemma keepsD:
  "keeps P E Q m \<Longrightarrow> P (sql_table s) \<Longrightarrow> m s = (Inl e, s') \<Longrightarrow> E (sql_table s')"
  "keeps P E Q m \<Longrightarrow> P (sql_table s) \<Longrightarrow> m s = (Inr x, s') \<Longrightarrow> Q x (sql_table s')"
  unfolding keeps_def by force+

lemma keeps_weaken:
  "keeps P E Q m \<Longrightarrow> (\<And>t. P' t \<Longrightarrow> P t) \<Longrightarrow> (\<And>t. E t \<Longrightarrow> E' t) \<Longrightarrow> (\<And>x t. Q x t \<Longrightarrow> Q' x t) \<Longrightarrow>
    keeps P' E' Q' m"
  unfolding keeps_def by (metis (mono_tags, lifting) old.sum.exhaust old.sum.simps(5,6))

lemma keeps_return: "(\<And>t. P t \<Longrightarrow> Q x t) \<Longrightarrow> keeps P E Q (act_return x)"
  unfolding keeps_def by auto

lemma keeps_lift:
  "(\<And>e t. r = Inl e \<Longrightarrow> P t \<Longrightarrow> E t) \<Longrightarrow> (\<And>x t. r = Inr x \<Longrightarrow> P t \<Longrightarrow> Q x t) \<Longrightarrow> keeps P E Q (act_lift r)"
  unfolding keeps_def by (auto split: sum.splits)

lemma keeps_bind:
  assumes "keeps P E Q m" and "\<And>x. keeps (Q x) E R (k x)"
  shows "keeps P E R (act_bind m k)"
  unfolding keeps_def
proof (intro allI impI)
  fix s r s'
  assume P: "P (sql_table s)" and m: "act_bind m k s = (r, s')"
  obtain q t where q: "m s = (q, t)" by (cases "m s")
  show "case r of Inl _ \<Rightarrow> E (sql_table s') | Inr x \<Rightarrow> R x (sql_table s')"
  proof (cases q)
    case (Inl e)
    with keepsD(1) [OF assms(1) P] q m show ?thesis by (auto simp: act_bind_def)
  next
    case (Inr x)
    with q m have "k x t = (r, s')" by (simp add: act_bind_def)
    moreover have "Q x (sql_table t)" using keepsD(2) [OF assms(1) P] q Inr by simp
    ultimately show ?thesis using assms(2) [of x] unfolding keeps_def by blast
  qed
qed

lemma statement_cases:
  assumes "statement f s = (r, s')"
  obtains (acked) "r = Inr (fst (f (sql_table s)))" "sql_table s' = snd (f (sql_table s))"
      "sql_connected s' = sql_connected s" "sql_faults s = [] \<longrightarrow> sql_faults s' = []"
  | (lost) e where "r = Inl e" "flt_applied e" "sql_table s' = snd (f (sql_table s))"
      "length (sql_faults s) = Suc (length (sql_faults s'))"
  | (failed) e where "r = Inl e" "\<not> flt_applied e" "sql_table s' = sql_table s"
      "length (sql_faults s) = Suc (length (sql_faults s'))"
  using assms unfolding statement_def
  by (auto split: list.splits option.splits prod.splits if_splits)

lemma keeps_statement:
  assumes "\<And>t. P t \<Longrightarrow> E t \<and> E (snd (f t)) \<and> Q (fst (f t)) (snd (f t))"
  shows "keeps P E Q (statement f)"
  unfolding keeps_def
proof (intro allI impI)
  fix s r s'
  assume P: "P (sql_table s)" and "statement f s = (r, s')"
  from this(2) show "case r of Inl _ \<Rightarrow> E (sql_table s') | Inr x \<Rightarrow> Q x (sql_table s')"
    by (cases rule: statement_cases) (use assms [OF P] in simp_all)
qed

lemma ensure_connected_table:
  "ensure_connected_locked timeout s = (r, s') \<Longrightarrow> sql_table s' = sql_table s"
  by (auto simp: ensure_connected_locked_def split: if_splits list.splits)

lemma keeps_ensure_connected: "keeps P P (\<lambda>_. P) (ensure_connected_locked timeout)"
  unfolding keeps_def by (auto dest: ensure_connected_table split: sum.splits)

lemma keeps_pg_attempts:
  assumes "keeps P P Q body"
  shows "keeps P P Q (pg_attempts left attempt timeout what body)"
proof -
  have "P (sql_table s) \<Longrightarrow> pg_attempts left attempt timeout what body s = (r, s') \<Longrightarrow>
      (case r of Inl _ \<Rightarrow> P (sql_table s') | Inr x \<Rightarrow> Q x (sql_table s'))" for s r s'
  proof (induction left arbitrary: attempt s)
    case 0
    then show ?case by auto
  next
    case (Suc left)
    obtain c s1 where c: "ensure_connected_locked timeout s = (c, s1)" by fastforce
    have P1: "P (sql_table s1)" using ensure_connected_table [OF c] Suc.prems(1) by simp
    obtain q s2 where q: "body s1 = (q, s2)" by fastforce
    show ?case
    proof (cases c)
      case (Inl e)
      with c P1 Suc.prems(2) show ?thesis by auto
    next
      case (Inr u)
      show ?thesis
      proof (cases q)
        case (Inr x)
        with c \<open>c = Inr u\<close> q keepsD(2) [OF assms P1] Suc.prems(2) show ?thesis by auto
      next
        case (Inl e)
        with q keepsD(1) [OF assms P1] have P2: "P (sql_table (s2\<lparr>sql_connected := False\<rparr>))" by simp
        from Inl c \<open>c = Inr u\<close> q Suc.prems(2) P2 Suc.IH [OF P2] show ?thesis
          by (auto split: if_splits)
      qed
    qed
  qed
  then show ?thesis by (simp add: keeps_def)
qed

lemma keeps_pg_claim_attempts:
  assumes "keeps P P Q (statement update)" "\<And>t. P t \<Longrightarrow> Q False t"
  shows "keeps P P Q (pg_claim_attempts left attempt timeout update)"
proof -
  have "P (sql_table s) \<Longrightarrow> pg_claim_attempts left attempt timeout update s = (r, s') \<Longrightarrow>
      (case r of Inl _ \<Rightarrow> P (sql_table s') | Inr x \<Rightarrow> Q x (sql_table s'))" for s r s'
  proof (induction left arbitrary: attempt s)
    case 0
    then show ?case using assms(2) by auto
  next
    case (Suc left)
    obtain c s1 where c: "ensure_connected_locked timeout s = (c, s1)" by fastforce
    have P1: "P (sql_table s1)" using ensure_connected_table [OF c] Suc.prems(1) by simp
    obtain q s2 where q: "statement update s1 = (q, s2)" by fastforce
    show ?case
    proof (cases c)
      case (Inl e)
      with c P1 Suc.prems(2) show ?thesis by auto
    next
      case (Inr u)
      show ?thesis
      proof (cases q)
        case (Inr x)
        with c \<open>c = Inr u\<close> q keepsD(2) [OF assms(1) P1] Suc.prems(2) show ?thesis by auto
      next
        case (Inl e)
        with q keepsD(1) [OF assms(1) P1] have P2: "P (sql_table (s2\<lparr>sql_connected := False\<rparr>))" by simp
        from Inl c \<open>c = Inr u\<close> q Suc.prems(2) P2 Suc.IH [OF P2] assms(2) show ?thesis
          by (auto split: if_splits)
      qed
    qed
  qed
  then show ?thesis by (simp add: keeps_def)
qed

text \<open>A body all of whose failures use up a scripted fault; the fuel of \<open>turso_retry\<close> then suffices.\<close>

definition consumes :: "(sql_state, fault, 'a) act \<Rightarrow> bool" where
  "consumes body \<longleftrightarrow>
     (\<forall>s r s'. body s = (r, s') \<longrightarrow>
        length (sql_faults s') \<le> length (sql_faults s) \<and>
        (\<forall>e. r = Inl e \<longrightarrow> length (sql_faults s') < length (sql_faults s)))"

lemma consumes_statement [simp]: "consumes (statement f)"
  unfolding consumes_def statement_def by (auto split: list.splits option.splits prod.splits)

lemma consumes_return [simp]: "consumes (act_return x)"
  by (simp add: consumes_def)

lemma consumes_bind:
  assumes "consumes m" "\<And>x. consumes (k x)"
  shows "consumes (act_bind m k)"
  unfolding consumes_def
proof (intro allI impI)
  fix s r s'
  assume b: "act_bind m k s = (r, s')"
  obtain q t where q: "m s = (q, t)" by (cases "m s")
  show "length (sql_faults s') \<le> length (sql_faults s) \<and>
      (\<forall>e. r = Inl e \<longrightarrow> length (sql_faults s') < length (sql_faults s))"
  proof (cases q)
    case (Inl e)
    with q b assms(1) show ?thesis by (auto simp: act_bind_def consumes_def)
  next
    case (Inr x)
    with q b have "k x t = (r, s')" by (simp add: act_bind_def)
    with assms(2) [of x] assms(1) q show ?thesis unfolding consumes_def by fastforce
  qed
qed

lemma consumes_insert_body [simp]: "consumes (insert_body w)"
  unfolding insert_body_def by (intro consumes_bind consumes_statement) (auto intro: consumes_bind)

lemma turso_attempts_enough:
  assumes "consumes body" "length (sql_faults s) < fuel"
  shows "\<exists>r. turso_attempts fuel body s = Some r"
  using assms(2)
proof (induction fuel arbitrary: s)
  case 0
  then show ?case by simp
next
  case (Suc fuel)
  obtain q s' where q: "body s = (q, s')" by (cases "body s")
  show ?case
  proof (cases q)
    case (Inl e)
    with q assms(1) Suc.prems have "length (sql_faults s') < fuel" by (fastforce simp: consumes_def)
    with Suc.IH q Inl show ?thesis by auto
  next
    case (Inr x)
    with q show ?thesis by simp
  qed
qed

lemma keeps_turso_retry:
  assumes "keeps P P Q body"
  shows "keeps P P Q (turso_retry body)"
proof -
  have "P (sql_table s) \<Longrightarrow> turso_attempts fuel body s = Some (r, s') \<Longrightarrow>
      (case r of Inl _ \<Rightarrow> P (sql_table s') | Inr x \<Rightarrow> Q x (sql_table s'))" for s fuel r s'
  proof (induction fuel arbitrary: s)
    case 0
    then show ?case by simp
  next
    case (Suc fuel)
    obtain q t where q: "body s = (q, t)" by fastforce
    show ?case
    proof (cases q)
      case (Inl e)
      from keepsD(1) [OF assms Suc.prems(1)] q Inl have "P (sql_table t)" by simp
      with Suc.IH [OF this] q Inl Suc.prems(2) show ?thesis by (auto split: if_splits)
    next
      case (Inr x)
      with q Suc.prems keepsD(2) [OF assms] show ?thesis by auto
    qed
  qed
  note attempts = this
  show ?thesis
    unfolding keeps_def
  proof (intro allI impI)
    fix s r s'
    assume P: "P (sql_table s)" and "turso_retry body s = (r, s')"
    then consider "turso_attempts (Suc (length (sql_faults s))) body s = Some (r, s')"
      | "\<exists>e. r = Inl e \<and> s' = s"
      unfolding turso_retry_def by (auto simp del: turso_attempts.simps split: option.splits)
    then show "case r of Inl _ \<Rightarrow> P (sql_table s') | Inr x \<Rightarrow> Q x (sql_table s')"
      by cases (use attempts [OF P] P in \<open>auto simp del: turso_attempts.simps\<close>)
  qed
qed

lemma keeps_turso_once: "keeps P E Q body \<Longrightarrow> keeps P E Q (turso_once body)"
  unfolding keeps_def turso_once_def by (fastforce split: sum.splits prod.splits)


section \<open>What the operations guarantee\<close>

lemma hm_insert_idem [simp]: "hm_insert k v (hm_insert k v t) = hm_insert k v t"
  unfolding hm_insert_def by (induction t) auto

text \<open>A table after a put that may have been applied: the old one or the one with the row.\<close>

definition put_or_not :: "string \<Rightarrow> string \<Rightarrow> payload \<Rightarrow> table \<Rightarrow> table \<Rightarrow> bool" where
  "put_or_not kind i p t0 t \<longleftrightarrow> t = t0 \<or> t = hm_insert (kind, i) p t0"

lemma keeps_upsert:
  "keeps (put_or_not kind i p t0) (put_or_not kind i p t0) (\<lambda>_ t. t = hm_insert (kind, i) p t0)
     (statement (sql_upsert kind i p))"
  by (rule keeps_statement) (auto simp: put_or_not_def sql_upsert_def)

definition remove_or_not :: "string \<Rightarrow> string \<Rightarrow> table \<Rightarrow> table \<Rightarrow> bool" where
  "remove_or_not kind i t0 t \<longleftrightarrow> t = t0 \<or> t = hm_remove (kind, i) t0"

lemma keeps_delete:
  "keeps (remove_or_not kind i t0) (remove_or_not kind i t0) (\<lambda>_ t. t = hm_remove (kind, i) t0)
     (statement (sql_delete kind i))"
  by (rule keeps_statement) (auto simp: remove_or_not_def sql_delete_def hm_remove_def delete_idem)

lemma keeps_select:
  "keeps (\<lambda>t. t = t0) (\<lambda>t. t = t0) (\<lambda>x t. t = t0 \<and> x = hm_get t0 (kind, i)) (statement (sql_select kind i))"
  by (rule keeps_statement) (auto simp: sql_select_def)

text \<open>A claimed row keeps every later conditional update away.\<close>

lemma claim_update_stays:
  assumes "sql_claim_update now i ex xid t = (u, t')"
  shows "sql_claim_update now' i ex' xid' t' = (fst (sql_claim_update now' i ex' xid' t'), t')
      \<and> \<not> fst (sql_claim_update now' i ex' xid' t') \<or> \<not> u"
  using assms
  by (auto simp: sql_claim_update_def split: option.splits payload.splits if_splits)

definition sql_row :: "table \<Rightarrow> string \<Rightarrow> workflow_status option" where
  "sql_row t i = (case hm_get t (''workflow'', i) of Some (PWorkflow w) \<Rightarrow> Some w | _ \<Rightarrow> None)"

definition holds_claim :: "table \<Rightarrow> string \<Rightarrow> string \<Rightarrow> bool" where
  "holds_claim t i xid \<longleftrightarrow> (\<exists>w. sql_row t i = Some w \<and> wf_execution_id w = Some xid)"

definition claimed_or_not :: "datetime \<Rightarrow> string \<Rightarrow> string \<Rightarrow> string \<Rightarrow> table \<Rightarrow> table \<Rightarrow> bool" where
  "claimed_or_not now i ex xid t0 t \<longleftrightarrow> t = t0 \<or> t = snd (sql_claim_update now i ex xid t0)"

lemma claim_update_holds:
  "fst (sql_claim_update now i ex xid t) \<Longrightarrow> holds_claim (snd (sql_claim_update now i ex xid t)) i xid"
  by (auto simp: sql_claim_update_def holds_claim_def sql_row_def split: option.splits payload.splits if_splits)

lemma claim_update_again:
  "snd (sql_claim_update now i ex xid (snd (sql_claim_update now i ex xid t)))
     = snd (sql_claim_update now i ex xid t)"
  by (auto simp: sql_claim_update_def split: option.splits payload.splits)

lemma keeps_claim_update:
  "keeps (claimed_or_not now i ex xid t0) (claimed_or_not now i ex xid t0)
     (\<lambda>b t. claimed_or_not now i ex xid t0 t \<and> (b \<longrightarrow> holds_claim t i xid))
     (statement (sql_claim_update now i ex xid))"
  by (rule keeps_statement) (auto simp: claimed_or_not_def claim_update_again claim_update_holds)

text \<open>The answer of a claim is read off the row it leaves, whatever failed on the way.\<close>

definition claim_answer ::
    "datetime \<Rightarrow> string \<Rightarrow> string \<Rightarrow> string \<Rightarrow> table \<Rightarrow> bool \<Rightarrow> table \<Rightarrow> bool" where
  "claim_answer now i ex xid t0 b t \<longleftrightarrow>
     claimed_or_not now i ex xid t0 t \<and> b = holds_claim t i xid"

lemma keeps_pg_claim:
  "keeps (claimed_or_not now i ex xid t0) (claimed_or_not now i ex xid t0) (claim_answer now i ex xid t0)
     (pg_claim_workflow_execution timeout now i ex xid)"
  unfolding pg_claim_workflow_execution_def
proof (rule keeps_bind)
  let ?I = "claimed_or_not now i ex xid t0"
  let ?U = "\<lambda>b t. ?I t \<and> (b \<longrightarrow> holds_claim t i xid)"
  show "keeps ?I ?I ?U (pg_claim_attempts 2 0 timeout (sql_claim_update now i ex xid))"
    by (rule keeps_pg_claim_attempts) (simp_all add: keeps_claim_update)
  fix updated
  show "keeps (?U updated) ?I (claim_answer now i ex xid t0)
     (if updated then act_return True
     else act_bind (ensure_connected_locked timeout) (\<lambda>_ s.
       (case statement (sql_select ''workflow'' i) s of
          (Inl e, s') \<Rightarrow> (Inl (from_postgres_error (flt_message e)), s')
        | (Inr None, s') \<Rightarrow> (Inr False, s')
        | (Inr (Some existing), s') \<Rightarrow>
            (res_map (\<lambda>workflow. wf_execution_id workflow = Some xid) (as_workflow existing), s'))))"
  proof (cases updated)
    case True
    then show ?thesis by (auto intro!: keeps_return simp: claim_answer_def)
  next
    case False
    have "keeps ?I ?I (claim_answer now i ex xid t0) (\<lambda>s.
       (case statement (sql_select ''workflow'' i) s of
          (Inl e, s') \<Rightarrow> (Inl (from_postgres_error (flt_message e)), s')
        | (Inr None, s') \<Rightarrow> (Inr False, s')
        | (Inr (Some existing), s') \<Rightarrow>
            (res_map (\<lambda>workflow. wf_execution_id workflow = Some xid) (as_workflow existing), s')))"
      unfolding keeps_def
      by (auto simp: statement_def sql_select_def claim_answer_def holds_claim_def sql_row_def
          as_workflow_def split: list.splits option.splits if_splits payload.splits sum.splits)
    then have "keeps ?I ?I (claim_answer now i ex xid t0) (act_bind (ensure_connected_locked timeout) (\<lambda>_ s.
       (case statement (sql_select ''workflow'' i) s of
          (Inl e, s') \<Rightarrow> (Inl (from_postgres_error (flt_message e)), s')
        | (Inr None, s') \<Rightarrow> (Inr False, s')
        | (Inr (Some existing), s') \<Rightarrow>
            (res_map (\<lambda>workflow. wf_execution_id workflow = Some xid) (as_workflow existing), s'))))"
      by (rule keeps_bind [OF keeps_ensure_connected])
    with False show ?thesis by (auto intro: keeps_weaken)
  qed
qed

lemma keeps_turso_claim:
  "keeps (claimed_or_not now i ex xid t0) (claimed_or_not now i ex xid t0) (claim_answer now i ex xid t0)
     (turso_claim_workflow_execution now i ex xid)"
  unfolding turso_claim_workflow_execution_def
proof (rule keeps_bind)
  let ?I = "claimed_or_not now i ex xid t0"
  let ?U = "\<lambda>b t. ?I t \<and> (b \<longrightarrow> holds_claim t i xid)"
  show "keeps ?I ?I ?U (turso_retry (statement (sql_claim_update now i ex xid)))"
    by (rule keeps_turso_retry) (rule keeps_claim_update)
  fix updated
  have get: "keeps ?I ?I (\<lambda>x t. ?I t \<and> x = hm_get t (''workflow'', i)) (turso_get ''workflow'' i)"
    unfolding turso_get_def
    by (intro keeps_turso_once keeps_statement) (auto simp: sql_select_def)
  have "keeps ?I ?I (claim_answer now i ex xid t0) (act_bind (turso_get ''workflow'' i) (\<lambda>row.
       case row of
         None \<Rightarrow> act_return False
       | Some p \<Rightarrow> act_lift (res_map (\<lambda>workflow. wf_execution_id workflow = Some xid) (as_workflow p))))"
    by (rule keeps_bind [OF get])
      (auto intro!: keeps_return keeps_lift simp: claim_answer_def holds_claim_def sql_row_def
        as_workflow_def split: option.splits payload.splits)
  then show "keeps (?U updated) ?I (claim_answer now i ex xid t0)
     (if updated then act_return True
     else act_bind (turso_get ''workflow'' i) (\<lambda>row.
       case row of
         None \<Rightarrow> act_return False
       | Some p \<Rightarrow> act_lift (res_map (\<lambda>workflow. wf_execution_id workflow = Some xid) (as_workflow p))))"
    by (auto intro: keeps_weaken intro!: keeps_return simp: claim_answer_def)
qed

text \<open>An insert changes the table only by adding the row where there was none.\<close>

definition inserted_or_not :: "workflow_status \<Rightarrow> table \<Rightarrow> table \<Rightarrow> bool" where
  "inserted_or_not w t0 t \<longleftrightarrow>
     t = t0 \<or> hm_get t0 (''workflow'', wf_workflow_uuid w) = None \<and>
       t = hm_insert (''workflow'', wf_workflow_uuid w) (PWorkflow (wire_workflow w)) t0"

definition insert_answer ::
    "workflow_status \<Rightarrow> table \<Rightarrow> workflow_insert_result \<Rightarrow> table \<Rightarrow> bool" where
  "insert_answer w t0 r t \<longleftrightarrow>
     inserted_or_not w t0 t \<and>
     (r = Inserted \<longrightarrow> hm_get t0 (''workflow'', wf_workflow_uuid w) = None) \<and>
     (\<exists>row. sql_row t (wf_workflow_uuid w) = Some row \<and> wf_name row = wf_name w \<and> wf_input row = wf_input w)"

lemma wire_workflow_simps [simp]:
  "wf_name (wire_workflow w) = wf_name w" "wf_input (wire_workflow w) = wf_input w"
  "wf_workflow_uuid (wire_workflow w) = wf_workflow_uuid w"
  "wf_executor_id (wire_workflow w) = wf_executor_id w"
  "wf_execution_id (wire_workflow w) = wf_execution_id w"
  "wf_status (wire_workflow w) = wf_status w"
  by (simp_all add: wire_workflow_def)

lemma keeps_insert_body:
  "keeps (inserted_or_not w t0) (inserted_or_not w t0)
     (\<lambda>(b, row) t. inserted_or_not w t0 t \<and>
        (b \<longrightarrow> hm_get t0 (''workflow'', wf_workflow_uuid w) = None \<and>
               hm_get t (''workflow'', wf_workflow_uuid w) = Some (PWorkflow (wire_workflow w))) \<and>
        (\<not> b \<longrightarrow> row = hm_get t (''workflow'', wf_workflow_uuid w)))
     (insert_body w)"
  unfolding insert_body_def
proof (rule keeps_bind)
  let ?I = "inserted_or_not w t0" and ?k = "(''workflow'', wf_workflow_uuid w)"
  let ?R = "\<lambda>(b, row) t. ?I t \<and> (b \<longrightarrow> hm_get t0 ?k = None \<and> hm_get t ?k = Some (PWorkflow (wire_workflow w)))
      \<and> (\<not> b \<longrightarrow> row = hm_get t ?k)"
  show "keeps ?I ?I (\<lambda>b t. ?I t \<and> (b \<longrightarrow> hm_get t0 ?k = None \<and> hm_get t ?k = Some (PWorkflow (wire_workflow w))))
      (statement (sql_insert_if_absent ''workflow'' (wf_workflow_uuid w) (PWorkflow (wire_workflow w))))"
    by (rule keeps_statement) (auto simp: inserted_or_not_def sql_insert_if_absent_def split: option.splits)
  fix inserted
  have "keeps ?I ?I ?R (act_bind (statement (sql_select ''workflow'' (wf_workflow_uuid w)))
      (\<lambda>existing. act_return (False, existing)))"
    by (rule keeps_bind [of _ _ "\<lambda>x t. ?I t \<and> x = hm_get t ?k"])
      (auto intro!: keeps_statement keeps_return simp: sql_select_def)
  then show "keeps (\<lambda>t. ?I t \<and> (inserted \<longrightarrow> hm_get t0 ?k = None \<and> hm_get t ?k = Some (PWorkflow (wire_workflow w))))
      ?I ?R (if inserted then act_return (True, None)
        else act_bind (statement (sql_select ''workflow'' (wf_workflow_uuid w)))
          (\<lambda>existing. act_return (False, existing)))"
    by (auto intro: keeps_weaken intro!: keeps_return)
qed

lemma insert_outcome_answer:
  assumes "insert_outcome db_name w (b, row) = Inr r" "inserted_or_not w t0 t"
    and "b \<Longrightarrow> hm_get t0 (''workflow'', wf_workflow_uuid w) = None \<and>
               hm_get t (''workflow'', wf_workflow_uuid w) = Some (PWorkflow (wire_workflow w))"
    and "\<not> b \<Longrightarrow> row = hm_get t (''workflow'', wf_workflow_uuid w)"
  shows "insert_answer w t0 r t"
  using assms
  by (cases b)
    (auto simp: insert_outcome_def insert_answer_def sql_row_def as_workflow_def
      ensure_workflow_identity_matches_def split: option.splits payload.splits if_splits)

lemma keeps_insert:
  assumes "keeps (inserted_or_not w t0) (inserted_or_not w t0)
     (\<lambda>(b, row) t. inserted_or_not w t0 t \<and>
        (b \<longrightarrow> hm_get t0 (''workflow'', wf_workflow_uuid w) = None \<and>
               hm_get t (''workflow'', wf_workflow_uuid w) = Some (PWorkflow (wire_workflow w))) \<and>
        (\<not> b \<longrightarrow> row = hm_get t (''workflow'', wf_workflow_uuid w))) m"
  shows "keeps (inserted_or_not w t0) (inserted_or_not w t0) (insert_answer w t0)
     (act_bind m (\<lambda>result. act_lift (insert_outcome db_name w result)))"
  by (rule keeps_bind [OF assms]) (auto intro!: keeps_lift intro: insert_outcome_answer)

lemma keeps_pg_insert:
  "keeps (inserted_or_not w t0) (inserted_or_not w t0) (insert_answer w t0)
     (pg_insert_workflow_with_result timeout w)"
  unfolding pg_insert_workflow_with_result_def
  by (rule keeps_insert [OF keeps_pg_attempts [OF keeps_insert_body]])

lemma keeps_turso_insert:
  "keeps (inserted_or_not w t0) (inserted_or_not w t0) (insert_answer w t0)
     (turso_insert_workflow_with_result w)"
  unfolding turso_insert_workflow_with_result_def
  by (rule keeps_insert [OF keeps_turso_retry [OF keeps_insert_body]])

section \<open>Reconnecting\<close>

text \<open>The delays of the reconnect loop double from the first one and stop at 500 ms.\<close>

lemma min_double: "min (min (d * 2) M * 2 ^ j) M = min (d * 2 ^ Suc j) (M :: nat)"
proof (cases "d * 2 \<le> M")
  case True
  then show ?thesis by (simp add: mult.assoc)
next
  case False
  have "d * 2 \<le> d * 2 ^ Suc j" by simp
  with False have "M \<le> d * 2 ^ Suc j" by linarith
  moreover have "M \<le> M * 2 ^ j" by simp
  moreover have "min (d * 2) M = M" using False by simp
  ultimately show ?thesis by (simp only: min_absorb2)
qed

lemma reconnect_delays:
  "delay \<le> from_millis 500 \<Longrightarrow> k < length (snd (reconnect_loop deadline delay ts)) \<Longrightarrow>
     snd (reconnect_loop deadline delay ts) ! k = min (delay * 2 ^ k) (from_millis 500)"
proof (induction ts arbitrary: delay k)
  case Nil
  then show ?case by simp
next
  case (Cons t ts)
  show ?case
  proof (cases k)
    case 0
    with Cons.prems show ?thesis by (auto split: prod.splits if_splits)
  next
    case (Suc j)
    let ?d = "min (delay * 2) (from_millis 500)"
    from Cons.prems(2) Suc have t: "t < deadline" and
      j: "j < length (snd (reconnect_loop deadline ?d ts))"
      by (auto split: prod.splits if_splits)
    have "snd (reconnect_loop deadline ?d ts) ! j = min (?d * 2 ^ j) (from_millis 500)"
      by (rule Cons.IH [OF _ j]) simp
    also have "\<dots> = min (delay * 2 ^ Suc j) (from_millis 500)"
      by (rule min_double)
    finally show ?thesis using Suc t by (auto split: prod.splits)
  qed
qed

lemma reconnect_gives_up_late:
  "\<not> fst (reconnect_loop deadline delay ts) \<Longrightarrow> \<exists>t \<in> set ts. deadline \<le> t"
  by (induction deadline delay ts rule: reconnect_loop.induct)
    (auto split: if_splits prod.splits)

lemma reconnect_succeeds:
  "\<forall>t \<in> set ts. t < deadline \<Longrightarrow> fst (reconnect_loop deadline delay ts)"
  using reconnect_gives_up_late by fastforce

text \<open>
  When the clock moves by at least the delay slept between attempts, the loop has ended after
  as many attempts as there are first delays in the time it was given.
\<close>

fun clock_runs :: "nat \<Rightarrow> nat \<Rightarrow> nat list \<Rightarrow> bool" where
  "clock_runs now delay [] = True"
| "clock_runs now delay (t # ts) = (now + delay \<le> t \<and> clock_runs t delay ts)"

lemma reconnect_attempts_bounded:
  assumes "clock_runs now delay ts" "0 < delay" "fst (reconnect_loop deadline d ts)"
    and "now \<le> deadline"
  shows "length ts * delay \<le> deadline - now"
  using assms
proof (induction ts arbitrary: now d)
  case Nil
  then show ?case by simp
next
  case (Cons t ts)
  from Cons.prems have t: "now + delay \<le> t" "clock_runs t delay ts" "t < deadline"
    and r: "fst (reconnect_loop deadline (min (d * 2) (from_millis 500)) ts)"
    by (auto split: if_splits prod.splits)
  from Cons.IH [OF t(2) Cons.prems(2) r] t have "length ts * delay \<le> deadline - t" by simp
  with t show ?case by simp
qed

end
