(* ===== verification/Sql_Refinement.thy ===== *)
theory Sql_Refinement
  imports Sql_Store Sql_Faults
begin

text \<open>
  The trait objects of \<open>PostgresStore\<close> and \<open>TursoStore\<close>, and the proof that both meet the
  store contract while the connection is healthy: the table of JSON payloads implements the
  abstract database.
\<close>

definition sql_methods ::
    "kv \<Rightarrow> (sql_state, unit) dbact \<Rightarrow> (workflow_status \<Rightarrow> (sql_state, workflow_insert_result) dbact) \<Rightarrow>
     (datetime \<Rightarrow> string \<Rightarrow> string \<Rightarrow> string \<Rightarrow> (sql_state, bool) dbact) \<Rightarrow> sql_state system_database" where
  "sql_methods kv migrate insertion claim =
     \<lparr>db_migrate = migrate,
      db_insert_workflow = (\<lambda>workflow s.
        case insertion workflow s of (r, s') \<Rightarrow> (res_map (\<lambda>_. ()) r, s')),
      db_insert_workflow_with_result = insertion,
      db_claim_workflow_execution = claim,
      db_supports_workflow_execution_claims = True,
      db_save_workflow = sql_save_workflow kv,
      db_get_workflow = sql_get_workflow kv,
      db_list_workflows = sql_list_workflows kv,
      db_delete_workflows = sql_delete_workflows kv,
      db_record_step = sql_record_step kv,
      db_get_step = sql_get_step kv,
      db_list_steps = sql_list_steps kv,
      db_upsert_queue = sql_upsert_queue kv,
      db_get_queue = sql_get_queue kv,
      db_list_queues = sql_list_queues kv,
      db_delete_queue = sql_delete_queue kv,
      db_upsert_schedule = sql_upsert_schedule kv,
      db_get_schedule = sql_get_schedule kv,
      db_list_schedules = sql_list_schedules kv,
      db_delete_schedule = sql_delete_schedule kv,
      db_send_message = sql_send_message kv,
      db_recv_message = sql_recv_message kv,
      db_list_messages = sql_list_messages kv,
      db_set_event = sql_set_event kv,
      db_get_event = sql_get_event kv,
      db_list_events = sql_list_events kv,
      db_write_stream = sql_write_stream kv,
      db_read_stream = sql_read_stream kv,
      db_list_streams = sql_list_streams kv,
      db_close_stream = sql_close_stream kv,
      db_create_application_version = sql_create_application_version kv,
      db_list_application_versions = sql_list_application_versions kv,
      db_set_latest_application_version = sql_set_latest_application_version kv,
      db_set_patch = sql_set_patch kv,
      db_get_patch = sql_get_patch kv\<rparr>"

definition pg_store :: "duration \<Rightarrow> sql_state system_database" where
  "pg_store timeout =
     sql_methods (pg_kv timeout) (pg_migrate timeout) (pg_insert_workflow_with_result timeout)
       (pg_claim_workflow_execution timeout)"

definition turso_store :: "sql_state system_database" where
  "turso_store =
     sql_methods turso_kv turso_migrate turso_insert_workflow_with_result turso_claim_workflow_execution"

section \<open>The invariant and the abstraction\<close>

definition healthy :: "sql_state \<Rightarrow> bool" where
  "healthy s \<longleftrightarrow> sql_faults s = [] \<and> sql_connected s"

text \<open>Every payload is stored under the kind of its type and the key it names.\<close>

definition row_ok :: "string \<Rightarrow> string \<Rightarrow> payload \<Rightarrow> bool" where
  "row_ok kind i p \<longleftrightarrow>
     (case p of
        PWorkflow w \<Rightarrow> kind = ''workflow'' \<and> i = wf_workflow_uuid w
      | PStep st \<Rightarrow> kind = ''step'' \<and> i = step_key (step_workflow_uuid st) (step_id st)
      | PQueue q \<Rightarrow> kind = ''queue'' \<and> i = q_name q
      | PSchedule sc \<Rightarrow> kind = ''schedule'' \<and> i = sch_schedule_name sc
      | PMessage m \<Rightarrow> kind = ''message'' \<and> i = message_key m
      | PEvent e \<Rightarrow> kind = ''event'' \<and> i = event_key (ev_workflow_uuid e) (ev_key e)
      | PStream e \<Rightarrow> kind = ''stream'' \<and> i = stream_key (se_workflow_uuid e) (se_key e) (se_offset e)
      | PVersion v \<Rightarrow> kind = ''application_version'' \<and> i = ver_name v
      | PPatch b \<Rightarrow> kind = ''patch'')"

definition table_ok :: "table \<Rightarrow> bool" where
  "table_ok t \<longleftrightarrow> hm_ok t \<and> (\<forall>kind i p. hm_get t (kind, i) = Some p \<longrightarrow> row_ok kind i p)"

definition sql_inv :: "sql_state \<Rightarrow> bool" where
  "sql_inv s \<longleftrightarrow> healthy s \<and> table_ok (sql_table s)"

definition empty_sql :: sql_state where
  "empty_sql = \<lparr>sql_table = [], sql_faults = [], sql_connected = True, sql_opens = [], sql_now = 0\<rparr>"

definition sql_abs :: "sql_state \<Rightarrow> abstract_db" where
  "sql_abs s =
     (let t = sql_table s in
      \<lparr>a_workflows = sql_row t,
       a_steps = (\<lambda>(i, n). case hm_get t (''step'', step_key i n) of Some (PStep st) \<Rightarrow> Some st | _ \<Rightarrow> None),
       a_queues = (\<lambda>i. case hm_get t (''queue'', i) of Some (PQueue q) \<Rightarrow> Some q | _ \<Rightarrow> None),
       a_schedules = (\<lambda>i. case hm_get t (''schedule'', i) of Some (PSchedule sc) \<Rightarrow> Some sc | _ \<Rightarrow> None),
       a_versions = (\<lambda>i. case hm_get t (''application_version'', i) of Some (PVersion v) \<Rightarrow> Some v | _ \<Rightarrow> None),
       a_patches = (\<lambda>i. case hm_get t (''patch'', i) of Some (PPatch b) \<Rightarrow> Some b | _ \<Rightarrow> None)\<rparr>)"

lemma sql_abs_simps:
  "a_workflows (sql_abs s) = sql_row (sql_table s)"
  "a_steps (sql_abs s) (i, n) =
     (case hm_get (sql_table s) (''step'', step_key i n) of Some (PStep st) \<Rightarrow> Some st | _ \<Rightarrow> None)"
  "a_queues (sql_abs s) i = (case hm_get (sql_table s) (''queue'', i) of Some (PQueue q) \<Rightarrow> Some q | _ \<Rightarrow> None)"
  "a_schedules (sql_abs s) i =
     (case hm_get (sql_table s) (''schedule'', i) of Some (PSchedule sc) \<Rightarrow> Some sc | _ \<Rightarrow> None)"
  "a_versions (sql_abs s) i =
     (case hm_get (sql_table s) (''application_version'', i) of Some (PVersion v) \<Rightarrow> Some v | _ \<Rightarrow> None)"
  "a_patches (sql_abs s) i = (case hm_get (sql_table s) (''patch'', i) of Some (PPatch b) \<Rightarrow> Some b | _ \<Rightarrow> None)"
  by (simp_all add: sql_abs_def Let_def)

lemma step_key_inj: "step_key i n = step_key i' n' \<longleftrightarrow> i = i' \<and> n = n'"
proof
  assume "step_key i n = step_key i' n'"
  then have "i @ CHR '':'' # show_int n = i' @ CHR '':'' # show_int n'" by (simp add: step_key_def)
  from last_separator_unique [OF this show_int_no_colon show_int_no_colon]
  show "i = i' \<and> n = n'" by (simp add: show_int_inj)
qed simp

lemma sql_inv_empty [simp]: "sql_inv empty_sql"
  by (simp add: sql_inv_def empty_sql_def healthy_def table_ok_def)

lemma table_ok_insert: "table_ok t \<Longrightarrow> row_ok kind i p \<Longrightarrow> table_ok (hm_insert (kind, i) p t)"
  by (simp add: table_ok_def)

lemma table_ok_remove: "table_ok t \<Longrightarrow> table_ok (hm_remove k t)"
  by (simp add: table_ok_def)

lemma table_okD: "table_ok t \<Longrightarrow> hm_get t (kind, i) = Some p \<Longrightarrow> row_ok kind i p"
  by (simp add: table_ok_def)

text \<open>The kind of a row gives the type of its payload.\<close>

lemma row_ok_kind:
  "row_ok ''workflow'' i p \<longleftrightarrow> (\<exists>w. p = PWorkflow w \<and> i = wf_workflow_uuid w)"
  "row_ok ''step'' i p \<longleftrightarrow> (\<exists>st. p = PStep st \<and> i = step_key (step_workflow_uuid st) (step_id st))"
  "row_ok ''queue'' i p \<longleftrightarrow> (\<exists>q. p = PQueue q \<and> i = q_name q)"
  "row_ok ''schedule'' i p \<longleftrightarrow> (\<exists>sc. p = PSchedule sc \<and> i = sch_schedule_name sc)"
  "row_ok ''message'' i p \<longleftrightarrow> (\<exists>m. p = PMessage m \<and> i = message_key m)"
  "row_ok ''event'' i p \<longleftrightarrow> (\<exists>e. p = PEvent e \<and> i = event_key (ev_workflow_uuid e) (ev_key e))"
  "row_ok ''stream'' i p \<longleftrightarrow>
     (\<exists>e. p = PStream e \<and> i = stream_key (se_workflow_uuid e) (se_key e) (se_offset e))"
  "row_ok ''application_version'' i p \<longleftrightarrow> (\<exists>v. p = PVersion v \<and> i = ver_name v)"
  "row_ok ''patch'' i p \<longleftrightarrow> (\<exists>b. p = PPatch b)"
  by (cases p; simp add: row_ok_def)+

lemma act_bind_return: "act_bind m act_return = m"
  by (auto simp: act_bind_def fun_eq_iff split: sum.splits prod.splits)

section \<open>The table operations on a healthy connection\<close>

text \<open>The contract of the four table operations the methods are written over.\<close>

locale healthy_kv =
  fixes kv :: kv
  assumes kv_put: "healthy s \<Longrightarrow>
      kv_put kv kind i p s = (Inr (), s\<lparr>sql_table := hm_insert (kind, i) p (sql_table s)\<rparr>)"
    and kv_get: "healthy s \<Longrightarrow> kv_get kv kind i s = (Inr (hm_get (sql_table s) (kind, i)), s)"
    and kv_list: "healthy s \<Longrightarrow> kv_list kv kind s = (Inr (rows_of kind (sql_table s)), s)"
    and kv_delete: "healthy s \<Longrightarrow>
      kv_delete kv kind i s = (Inr (), s\<lparr>sql_table := hm_remove (kind, i) (sql_table s)\<rparr>)"

lemma healthy_statement:
  "healthy s \<Longrightarrow> statement f s = (Inr (fst (f (sql_table s))), s\<lparr>sql_table := snd (f (sql_table s))\<rparr>)"
  by (simp add: healthy_def statement_def split: prod.splits)

lemma healthy_table [simp]: "healthy (s\<lparr>sql_table := t\<rparr>) = healthy s"
  by (simp add: healthy_def)

lemma healthy_pg_attempts:
  assumes "healthy s" "body s = (Inr x, s')"
  shows "pg_attempts 2 0 timeout what body s = (Inr x, s')"
  using assms by (simp add: numeral_2_eq_2 healthy_def ensure_connected_locked_def)

lemma healthy_turso:
  assumes "body s = (Inr x, s')"
  shows "turso_retry body s = (Inr x, s')" and "turso_once body s = (Inr x, s')"
  using assms by (simp_all add: turso_retry_def turso_once_def)

lemma sql_state_table_id [simp]: "s\<lparr>sql_table := sql_table s\<rparr> = s"
  by simp

interpretation pg_kv: healthy_kv "pg_kv timeout"
  by unfold_locales
    (simp_all add: pg_kv_def pg_put_def pg_get_def pg_list_def pg_delete_def healthy_statement
      sql_upsert_def sql_select_def sql_select_kind_def sql_delete_def
      healthy_pg_attempts [OF _ healthy_statement])

interpretation turso_kv: healthy_kv turso_kv
  by unfold_locales
    (simp_all add: turso_kv_def turso_put_def turso_get_def turso_list_def turso_delete_def
      sql_upsert_def sql_select_def sql_select_kind_def sql_delete_def
      healthy_turso [OF healthy_statement])

section \<open>The contract of the methods\<close>

text \<open>Reading rows of one kind back.\<close>

lemma hm_values_rows_of: "set (rows_of kind t) = {p. \<exists>i. ((kind, i), p) \<in> set t}"
  by (force simp: rows_of_def)

lemma rows_of_get:
  assumes "table_ok t"
  shows "p \<in> set (rows_of kind t) \<longleftrightarrow> (\<exists>i. hm_get t (kind, i) = Some p)"
  using assms by (auto simp: hm_values_rows_of table_ok_def hm_ok_def hm_get_def map_of_eq_Some_iff
      intro: map_of_is_SomeI)

lemma rows_of_distinct:
  assumes "table_ok t" "\<And>i p. ((kind, i), p) \<in> set t \<Longrightarrow> key p = i"
  shows "distinct (map key (rows_of kind t))"
proof -
  let ?rows = "filter (\<lambda>row. fst (fst row) = kind) t"
  have "map key (rows_of kind t) = map (snd \<circ> fst) ?rows"
    using assms(2) by (auto simp: rows_of_def)
  moreover have "distinct (map fst ?rows)"
    using assms(1) by (auto simp: table_ok_def hm_ok_def distinct_map_filter)
  then have "distinct (map (snd \<circ> fst) ?rows)"
    by (auto simp: distinct_map inj_on_def)
  ultimately show ?thesis by simp
qed

lemma decode_all_map:
  assumes "\<And>p. p \<in> set ps \<Longrightarrow> decode p = Inr (f p)"
  shows "decode_all decode ps = Inr (map f ps)"
  using assms by (induction ps) auto

lemma table_ok_in: "table_ok t \<Longrightarrow> ((kind, i), p) \<in> set t \<Longrightarrow> row_ok kind i p"
  by (auto simp: table_ok_def hm_ok_def hm_get_def map_of_is_SomeI)

text \<open>\<open>decode_all\<close> succeeds on the rows of a kind, with the typed rows stored under that kind.\<close>

lemma decode_rows:
  assumes t: "table_ok t"
    and kind: "\<And>i p. row_ok kind i p \<Longrightarrow> \<exists>x. p = con x \<and> i = key x"
    and dec: "\<And>x. decode (con x) = Inr x"
  shows "\<exists>xs. decode_all decode (rows_of kind t) = Inr xs
    \<and> set xs = {x. hm_get t (kind, key x) = Some (con x)} \<and> distinct (map key xs)"
proof -
  define f where "f p = (THE x. p = con x)" for p
  have f: "f (con x) = x" for x
    unfolding f_def using dec by (metis (mono_tags, lifting) Inr_inject the_equality)
  have con: "\<exists>x. p = con x \<and> i = key x" if "((kind, i), p) \<in> set t" for i p
    using kind [OF table_ok_in [OF t that]] .
  have dec': "decode p = Inr (f p)" if "p \<in> set (rows_of kind t)" for p
    using that con dec f by (force simp: hm_values_rows_of)
  have "set (map f (rows_of kind t)) = {x. hm_get t (kind, key x) = Some (con x)}"
  proof (intro equalityI subsetI)
    fix x assume "x \<in> set (map f (rows_of kind t))"
    then obtain p i where p: "((kind, i), p) \<in> set t" "x = f p" by (auto simp: hm_values_rows_of)
    with con f obtain y where "p = con y" "i = key y" "x = y" by blast
    with p t show "x \<in> {x. hm_get t (kind, key x) = Some (con x)}"
      by (auto simp: table_ok_def hm_ok_def hm_get_def map_of_is_SomeI)
  next
    fix x assume "x \<in> {x. hm_get t (kind, key x) = Some (con x)}"
    then have "con x \<in> set (rows_of kind t)" using rows_of_get [OF t] by auto
    then show "x \<in> set (map f (rows_of kind t))" using f by (metis image_eqI list.set_map)
  qed
  moreover have "distinct (map (key \<circ> f) (rows_of kind t))"
    by (rule rows_of_distinct [OF t]) (use con f in fastforce)
  ultimately show ?thesis
    using decode_all_map [of "rows_of kind t" decode f] dec' by auto
qed

text \<open>Who a row belongs to, and the table without the rows of a workflow.\<close>

definition row_owner :: "payload \<Rightarrow> string option" where
  "row_owner p =
     (case p of
        PWorkflow w \<Rightarrow> Some (wf_workflow_uuid w)
      | PStep st \<Rightarrow> Some (step_workflow_uuid st)
      | PEvent e \<Rightarrow> Some (ev_workflow_uuid e)
      | PStream e \<Rightarrow> Some (se_workflow_uuid e)
      | PMessage m \<Rightarrow> Some (msg_destination_id m)
      | _ \<Rightarrow> None)"

definition without_owner :: "string \<Rightarrow> (string \<times> string \<rightharpoonup> payload) \<Rightarrow> (string \<times> string \<rightharpoonup> payload)" where
  "without_owner i m = (\<lambda>k. case m k of None \<Rightarrow> None | Some p \<Rightarrow> if row_owner p = Some i then None else Some p)"

definition without_kind :: "string \<Rightarrow> string \<Rightarrow> (string \<times> string \<rightharpoonup> payload) \<Rightarrow> (string \<times> string \<rightharpoonup> payload)" where
  "without_kind kind i m = (\<lambda>(k, j). if k = kind then without_owner i m (k, j) else m (k, j))"

lemma hm_get_fold_delete:
  "hm_get (fold (\<lambda>x. hm_remove (kind, f x)) xs t) =
     (\<lambda>(k, j). if k = kind \<and> j \<in> f ` set xs then None else hm_get t (k, j))"
  by (induction xs arbitrary: t) (auto simp: fun_eq_iff)

lemma table_ok_fold_delete:
  "table_ok t \<Longrightarrow> table_ok (fold (\<lambda>x. hm_remove (kind, f x)) xs t)"
  by (induction xs arbitrary: t) (auto intro: table_ok_remove)

text \<open>Deleting the listed rows of a kind that belong to a workflow.\<close>

lemma delete_listed:
  assumes t: "table_ok t"
    and kind: "\<And>j p. row_ok kind j p \<longleftrightarrow> (\<exists>x. p = con x \<and> j = key x)"
    and owner: "\<And>x. row_owner (con x) = Some (who x)"
    and xs: "set xs = {x. hm_get t (kind, key x) = Some (con x) \<and> who x = i}"
  shows "hm_get (fold (\<lambda>x. hm_remove (kind, key x)) xs t) = without_kind kind i (hm_get t)"
proof -
  have "(j \<in> key ` set xs) = (\<exists>p. hm_get t (kind, j) = Some p \<and> row_owner p = Some i)" for j
  proof
    assume "j \<in> key ` set xs"
    then show "\<exists>p. hm_get t (kind, j) = Some p \<and> row_owner p = Some i" using xs owner by auto
  next
    assume "\<exists>p. hm_get t (kind, j) = Some p \<and> row_owner p = Some i"
    then obtain p where p: "hm_get t (kind, j) = Some p" "row_owner p = Some i" by blast
    with kind table_okD [OF t] obtain x where "p = con x" "j = key x" by blast
    with p owner xs show "j \<in> key ` set xs" by auto
  qed
  then show ?thesis
    by (auto simp: hm_get_fold_delete without_kind_def without_owner_def fun_eq_iff split: option.splits)
qed

lemma sql_row_Some: "sql_row t i = Some w \<longleftrightarrow> hm_get t (''workflow'', i) = Some (PWorkflow w)"
  by (auto simp: sql_row_def split: option.splits payload.splits)

lemma sql_row_None:
  "table_ok t \<Longrightarrow> sql_row t i = None \<longleftrightarrow> hm_get t (''workflow'', i) = None"
  using table_okD [of t "''workflow''" i] by (auto simp: sql_row_def row_ok_kind split: option.splits payload.splits)

lemma sql_row_uuid: "table_ok t \<Longrightarrow> sql_row t i = Some w \<Longrightarrow> wf_workflow_uuid w = i"
  using table_okD [of t "''workflow''" i] by (auto simp: sql_row_Some row_ok_kind)

context healthy_kv
begin

lemma get_as_healthy:
  "healthy s \<Longrightarrow> get_as decode kv kind i s =
     (case hm_get (sql_table s) (kind, i) of None \<Rightarrow> (Inr None, s) | Some p \<Rightarrow> (res_map Some (decode p), s))"
  by (simp add: get_as_def act_bind_def kv_get split: option.splits)

lemma list_as_healthy:
  "healthy s \<Longrightarrow> list_as decode kv kind s = (decode_all decode (rows_of kind (sql_table s)), s)"
  by (simp add: list_as_def act_bind_def kv_list)

lemma get_workflow_law:
  assumes "sql_inv s"
  shows "sql_get_workflow kv i s = (Inr (sql_row (sql_table s) i), s)"
  using assms table_okD [of "sql_table s" "''workflow''" i]
  by (auto simp: sql_get_workflow_def get_as_healthy sql_inv_def sql_row_def row_ok_kind as_workflow_def
      split: option.splits)

lemma save_workflow_law:
  assumes "sql_inv s"
  shows "\<exists>s'. sql_save_workflow kv w s = (Inr (), s') \<and> sql_inv s' \<and>
    sql_abs s' = (sql_abs s)\<lparr>a_workflows := (sql_row (sql_table s))(wf_workflow_uuid w \<mapsto> wire_workflow w)\<rparr>"
  using assms
  by (auto simp: sql_save_workflow_def kv_put sql_inv_def row_ok_kind sql_abs_def Let_def sql_row_def fun_eq_iff
      intro!: table_ok_insert)

lemma decode_workflows:
  assumes t: "table_ok t"
  shows "\<exists>ws. decode_all as_workflow (rows_of ''workflow'' t) = Inr ws
    \<and> set ws = ran (sql_row t) \<and> distinct (map wf_workflow_uuid ws)"
proof -
  have "{x. hm_get t (''workflow'', wf_workflow_uuid x) = Some (PWorkflow x)} = ran (sql_row t)"
    using sql_row_uuid [OF t] by (auto simp: ran_def sql_row_Some)
  with decode_rows [OF t, of "''workflow''" PWorkflow wf_workflow_uuid as_workflow]
  show ?thesis by (auto simp: row_ok_kind as_workflow_def)
qed

lemma list_workflows_law:
  assumes "sql_inv s"
  shows "\<exists>ws. sql_list_workflows kv opts s = (Inr (select_workflows opts ws), s)
    \<and> distinct (map wf_workflow_uuid ws) \<and> set ws = ran (sql_row (sql_table s))"
proof -
  from assms obtain ws where "decode_all as_workflow (rows_of ''workflow'' (sql_table s)) = Inr ws"
    "set ws = ran (sql_row (sql_table s))" "distinct (map wf_workflow_uuid ws)"
    using decode_workflows by (auto simp: sql_inv_def)
  with assms show ?thesis
    by (auto simp: sql_list_workflows_def list_as_healthy sql_inv_def act_bind_def)
qed

lemma get_step_law:
  assumes "sql_inv s"
  shows "sql_get_step kv i n s = (Inr (a_steps (sql_abs s) (i, n)), s)"
  using assms table_okD [of "sql_table s" "''step''" "step_key i n"]
  by (auto simp: sql_get_step_def get_as_healthy sql_inv_def sql_abs_simps row_ok_kind as_step_def
      split: option.splits)

lemma record_step_law:
  assumes "sql_inv s"
  shows "\<exists>s'. sql_record_step kv st s = (Inr (), s') \<and> sql_inv s' \<and>
    sql_abs s' = (sql_abs s)\<lparr>a_steps := (a_steps (sql_abs s))((step_workflow_uuid st, step_id st) \<mapsto> st)\<rparr>"
  using assms
  by (auto simp: sql_record_step_def kv_put sql_inv_def row_ok_kind sql_abs_def Let_def sql_row_def
      fun_eq_iff step_key_inj intro!: table_ok_insert)

lemma decode_steps:
  assumes t: "table_ok t"
  shows "\<exists>sts. decode_all as_step (rows_of ''step'' t) = Inr sts
    \<and> set sts = {st. hm_get t (''step'', step_key (step_workflow_uuid st) (step_id st)) = Some (PStep st)}
    \<and> distinct (map (\<lambda>st. (step_workflow_uuid st, step_id st)) sts)"
proof -
  from decode_rows [OF t, of "''step''" PStep "\<lambda>st. step_key (step_workflow_uuid st) (step_id st)" as_step]
  obtain sts where "decode_all as_step (rows_of ''step'' t) = Inr sts"
    "set sts = {st. hm_get t (''step'', step_key (step_workflow_uuid st) (step_id st)) = Some (PStep st)}"
    "distinct (map (\<lambda>st. step_key (step_workflow_uuid st) (step_id st)) sts)"
    by (auto simp: row_ok_kind as_step_def)
  then show ?thesis by (auto simp: distinct_map inj_on_def step_key_inj)
qed

lemma list_steps_law:
  assumes "sql_inv s"
  shows "\<exists>sts. sql_list_steps kv i s = (Inr sts, s) \<and> sorted (map step_id sts) \<and> distinct (map step_id sts)
    \<and> set sts = {st. hm_get (sql_table s) (''step'', step_key (step_workflow_uuid st) (step_id st)) = Some (PStep st)
        \<and> step_workflow_uuid st = i}"
proof -
  let ?t = "sql_table s"
  from assms obtain sts where sts: "decode_all as_step (rows_of ''step'' ?t) = Inr sts"
    "set sts = {st. hm_get ?t (''step'', step_key (step_workflow_uuid st) (step_id st)) = Some (PStep st)}"
    "distinct (map (\<lambda>st. (step_workflow_uuid st, step_id st)) sts)"
    using decode_steps by (auto simp: sql_inv_def)
  let ?mine = "filter (\<lambda>st. step_workflow_uuid st = i) sts"
  have "distinct (map step_id ?mine)"
    using sts(3) by (auto simp: distinct_map inj_on_def distinct_filter)
  then have "distinct (map step_id (sort_key step_id ?mine))"
    using mset_eq_imp_distinct_iff [of "map step_id (sort_key step_id ?mine)" "map step_id ?mine"] by simp
  moreover have "sql_list_steps kv i s = (Inr (sort_key step_id ?mine), s)"
    using assms sts(1) by (simp add: sql_list_steps_def list_as_healthy sql_inv_def act_bind_def)
  ultimately show ?thesis using sts(2) by auto
qed

lemma step_rows:
  assumes "table_ok (sql_table s)"
  shows "{st. hm_get (sql_table s) (''step'', step_key (step_workflow_uuid st) (step_id st)) = Some (PStep st)
        \<and> step_workflow_uuid st = i} = {st \<in> ran (a_steps (sql_abs s)). step_workflow_uuid st = i}"
proof -
  have "hm_get (sql_table s) (''step'', step_key (step_workflow_uuid st) (step_id st)) = Some (PStep st) \<longleftrightarrow>
      st \<in> ran (a_steps (sql_abs s))" for st
  proof
    assume "hm_get (sql_table s) (''step'', step_key (step_workflow_uuid st) (step_id st)) = Some (PStep st)"
    then have "a_steps (sql_abs s) (step_workflow_uuid st, step_id st) = Some st" by (simp add: sql_abs_simps)
    then show "st \<in> ran (a_steps (sql_abs s))" by (rule ranI)
  next
    assume "st \<in> ran (a_steps (sql_abs s))"
    then obtain j n where "a_steps (sql_abs s) (j, n) = Some st" by (auto simp: ran_def)
    then have row: "hm_get (sql_table s) (''step'', step_key j n) = Some (PStep st)"
      by (simp add: sql_abs_simps split: option.splits payload.splits)
    from table_okD [OF assms row] row
    show "hm_get (sql_table s) (''step'', step_key (step_workflow_uuid st) (step_id st)) = Some (PStep st)"
      by (simp add: row_ok_kind)
  qed
  then show ?thesis by simp
qed

lemma config_laws:
  assumes "sql_inv s"
  shows "sql_get_queue kv n s = (Inr (a_queues (sql_abs s) n), s)"
    and "sql_get_schedule kv n s = (Inr (a_schedules (sql_abs s) n), s)"
    and "sql_get_patch kv n s = (Inr (a_patches (sql_abs s) n), s)"
    and "get_as as_version kv ''application_version'' n s = (Inr (a_versions (sql_abs s) n), s)"
  using assms table_okD [of "sql_table s" "''queue''" n] table_okD [of "sql_table s" "''schedule''" n]
    table_okD [of "sql_table s" "''patch''" n] table_okD [of "sql_table s" "''application_version''" n]
  by (auto simp: sql_get_queue_def sql_get_schedule_def sql_get_patch_def get_as_healthy sql_inv_def
      sql_abs_simps row_ok_kind as_queue_def as_schedule_def as_patch_def as_version_def
      split: option.splits)

text \<open>Writing a configuration row touches one component of the abstract database.\<close>

lemma put_laws:
  assumes "sql_inv s"
  shows "\<exists>s'. sql_upsert_queue kv q s = (Inr (), s') \<and> sql_inv s' \<and>
      sql_abs s' = (sql_abs s)\<lparr>a_queues := (a_queues (sql_abs s))(q_name q \<mapsto> wire_queue q)\<rparr>"
    and "\<exists>s'. sql_upsert_schedule kv sc s = (Inr (), s') \<and> sql_inv s' \<and>
      sql_abs s' = (sql_abs s)\<lparr>a_schedules := (a_schedules (sql_abs s))(sch_schedule_name sc \<mapsto> sc)\<rparr>"
    and "\<exists>s'. sql_set_patch kv n b s = (Inr (), s') \<and> sql_inv s' \<and>
      sql_abs s' = (sql_abs s)\<lparr>a_patches := (a_patches (sql_abs s))(n \<mapsto> b)\<rparr>"
    and "\<exists>s'. kv_put kv ''application_version'' (ver_name v) (PVersion v) s = (Inr (), s') \<and> sql_inv s' \<and>
      sql_abs s' = (sql_abs s)\<lparr>a_versions := (a_versions (sql_abs s))(ver_name v \<mapsto> v)\<rparr>"
  using assms
  by (auto simp: sql_upsert_queue_def sql_upsert_schedule_def sql_set_patch_def kv_put sql_inv_def row_ok_kind
      wire_queue_def sql_abs_def Let_def sql_row_def fun_eq_iff intro!: table_ok_insert)

lemma remove_laws:
  assumes "sql_inv s"
  shows "\<exists>s'. sql_delete_queue kv n s = (Inr (), s') \<and> sql_inv s' \<and>
      sql_abs s' = (sql_abs s)\<lparr>a_queues := (a_queues (sql_abs s))(n := None)\<rparr>"
    and "\<exists>s'. sql_delete_schedule kv n s = (Inr (), s') \<and> sql_inv s' \<and>
      sql_abs s' = (sql_abs s)\<lparr>a_schedules := (a_schedules (sql_abs s))(n := None)\<rparr>"
  using assms
  by (auto simp: sql_delete_queue_def sql_delete_schedule_def kv_delete sql_inv_def
      sql_abs_def Let_def sql_row_def fun_eq_iff intro!: table_ok_remove)

lemma create_version_law:
  assumes "sql_inv s"
  shows "\<exists>s'. sql_create_application_version kv v s = (Inr (), s') \<and> sql_inv s' \<and>
      sql_abs s' = (sql_abs s)\<lparr>a_versions := (if a_versions (sql_abs s) (ver_name v) = None
        then (a_versions (sql_abs s))(ver_name v \<mapsto> v) else a_versions (sql_abs s))\<rparr>"
  using config_laws(4) [OF assms, of "ver_name v"] put_laws(4) [OF assms, of v] assms
  by (auto simp: sql_create_application_version_def act_bind_def)

lemma set_latest_law:
  assumes "sql_inv s"
  shows "\<exists>s'. sql_set_latest_application_version kv now n s = (Inr (), s') \<and> sql_inv s' \<and>
      sql_abs s' = (sql_abs s)\<lparr>a_versions := (a_versions (sql_abs s))(n \<mapsto>
        (case a_versions (sql_abs s) n of
           None \<Rightarrow> \<lparr>ver_name = n, ver_created_at = now, ver_updated_at = now\<rparr>
         | Some v \<Rightarrow> v\<lparr>ver_updated_at := now\<rparr>))\<rparr>"
proof -
  let ?v = "case a_versions (sql_abs s) n of
           None \<Rightarrow> \<lparr>ver_name = n, ver_created_at = now, ver_updated_at = now\<rparr>
         | Some v \<Rightarrow> v\<lparr>ver_updated_at := now\<rparr>"
  have "ver_name ?v = n"
    using assms table_okD [of "sql_table s" "''application_version''" n]
    by (auto simp: sql_inv_def sql_abs_simps row_ok_kind split: option.splits payload.splits)
  with put_laws(4) [OF assms, of ?v] config_laws(4) [OF assms, of n] show ?thesis
    by (auto simp: sql_set_latest_application_version_def act_bind_def Let_def split: option.splits)
qed

text \<open>Deleting a workflow removes exactly the rows that belong to it.\<close>

lemma act_for_delete:
  "healthy s \<Longrightarrow> act_for (\<lambda>x. kv_delete kv kind (f x)) xs s =
     (Inr (), s\<lparr>sql_table := fold (\<lambda>x. hm_remove (kind, f x)) xs (sql_table s)\<rparr>)"
proof (induction xs arbitrary: s)
  case Nil
  then show ?case by simp
next
  case (Cons x xs)
  from Cons.IH [of "s\<lparr>sql_table := hm_remove (kind, f x) (sql_table s)\<rparr>"] Cons.prems
  show ?case by (simp add: act_bind_def kv_delete)
qed

lemma delete_kind:
  assumes s: "sql_inv s" and listed: "lister s = (Inr xs, s)"
    and kind: "\<And>j p. row_ok kind j p \<longleftrightarrow> (\<exists>x. p = con x \<and> j = key x)"
    and owner: "\<And>x. row_owner (con x) = Some (who x)"
    and xs: "set xs = {x. hm_get (sql_table s) (kind, key x) = Some (con x) \<and> who x = i}"
    and key: "\<And>x. who x = i \<Longrightarrow> key' x = key x"
  shows "\<exists>s'. act_bind lister (\<lambda>xs. act_bind (act_for (\<lambda>x. kv_delete kv kind (key' x)) xs) k) s = k () s'
    \<and> sql_inv s' \<and> hm_get (sql_table s') = without_kind kind i (hm_get (sql_table s))"
proof -
  let ?t = "fold (\<lambda>x. hm_remove (kind, key x)) xs (sql_table s)"
  have fold: "fold (\<lambda>x. hm_remove (kind, key' x)) xs (sql_table s) = ?t"
    by (rule fold_cong) (use xs key in auto)
  have "hm_get ?t = without_kind kind i (hm_get (sql_table s))"
    by (rule delete_listed [of "sql_table s" kind con key who]) (use s kind owner xs in \<open>auto simp: sql_inv_def\<close>)
  moreover have "sql_inv (s\<lparr>sql_table := ?t\<rparr>)"
    using s table_ok_fold_delete by (auto simp: sql_inv_def)
  moreover have "act_bind lister (\<lambda>xs. act_bind (act_for (\<lambda>x. kv_delete kv kind (key' x)) xs) k) s
      = k () (s\<lparr>sql_table := ?t\<rparr>)"
    using s listed act_for_delete [of s kind key' xs] fold by (simp add: sql_inv_def act_bind_def)
  ultimately show ?thesis by auto
qed

lemma listed_rows:
  assumes "sql_inv s"
    and kind: "\<And>j p. row_ok kind j p \<longleftrightarrow> (\<exists>x. p = con x \<and> j = key x)"
    and dec: "\<And>x. decode (con x) = Inr x"
  shows "\<exists>xs. list_as decode kv kind s = (Inr xs, s)
    \<and> set xs = {x. hm_get (sql_table s) (kind, key x) = Some (con x)}"
proof -
  have s: "healthy s" "table_ok (sql_table s)" using assms(1) by (simp_all add: sql_inv_def)
  from decode_rows [of "sql_table s" kind con key decode, OF s(2) _ dec] kind
  obtain xs where "decode_all decode (rows_of kind (sql_table s)) = Inr xs"
    "set xs = {x. hm_get (sql_table s) (kind, key x) = Some (con x)}" by blast
  then show ?thesis by (intro exI [of _ xs]) (simp add: list_as_healthy [OF s(1)])
qed

lemma lister_rows:
  assumes "sql_inv s"
  shows "\<exists>xs. sql_list_steps kv i s = (Inr xs, s) \<and> set xs =
      {x. hm_get (sql_table s) (''step'', step_key (step_workflow_uuid x) (step_id x)) = Some (PStep x)
          \<and> step_workflow_uuid x = i}"
    and "\<exists>xs. sql_list_events kv i s = (Inr xs, s) \<and> set xs =
      {x. hm_get (sql_table s) (''event'', event_key (ev_workflow_uuid x) (ev_key x)) = Some (PEvent x)
          \<and> ev_workflow_uuid x = i}"
    and "\<exists>xs. sql_list_streams kv i s = (Inr xs, s) \<and> set xs =
      {x. hm_get (sql_table s) (''stream'', stream_key (se_workflow_uuid x) (se_key x) (se_offset x)) = Some (PStream x)
          \<and> se_workflow_uuid x = i}"
    and "\<exists>xs. sql_list_messages kv i s = (Inr xs, s) \<and> set xs =
      {x. hm_get (sql_table s) (''message'', message_key x) = Some (PMessage x) \<and> msg_destination_id x = i}"
  using listed_rows [OF assms, of "''step''" PStep "\<lambda>x. step_key (step_workflow_uuid x) (step_id x)" as_step]
    listed_rows [OF assms, of "''event''" PEvent "\<lambda>x. event_key (ev_workflow_uuid x) (ev_key x)" as_event]
    listed_rows [OF assms, of "''stream''" PStream
      "\<lambda>x. stream_key (se_workflow_uuid x) (se_key x) (se_offset x)" as_stream]
    listed_rows [OF assms, of "''message''" PMessage message_key as_message]
  by (auto simp: row_ok_kind as_step_def as_event_def as_stream_def as_message_def sql_list_steps_def
      sql_list_events_def sql_list_streams_def sql_list_messages_def act_bind_def)

end

lemma without_kind_same: "without_kind kind i m (kind, j) = without_owner i m (kind, j)"
  by (simp add: without_kind_def)

lemma without_kind_other: "k \<noteq> kind \<Longrightarrow> without_kind kind i m (k, j) = m (k, j)"
  by (simp add: without_kind_def)

text \<open>Deleting the rows of each kind in turn leaves nothing of the workflow.\<close>

lemma without_kinds:
  assumes "table_ok t"
  shows "without_kind ''message'' i (without_kind ''stream'' i (without_kind ''event'' i
     (without_kind ''step'' i ((hm_get t)((''workflow'', i) := None))))) = without_owner i (hm_get t)"
proof
  fix k :: "string \<times> string"
  obtain kind j where k: "k = (kind, j)" by (cases k)
  show "without_kind ''message'' i (without_kind ''stream'' i (without_kind ''event'' i
     (without_kind ''step'' i ((hm_get t)((''workflow'', i) := None))))) k = without_owner i (hm_get t) k"
  proof -
    consider (workflow) "kind = ''workflow''" | (step) "kind = ''step''" | (event) "kind = ''event''"
      | (stream) "kind = ''stream''" | (message) "kind = ''message''"
      | (other) "kind \<notin> {''workflow'', ''step'', ''event'', ''stream'', ''message''}"
      unfolding insert_iff empty_iff by argo
    then show ?thesis
    proof cases
      case workflow
      have "((hm_get t)((''workflow'', i) := None)) (''workflow'', j) = without_owner i (hm_get t) (''workflow'', j)"
        using table_okD [OF assms, of "''workflow''" j]
        by (auto simp: without_owner_def row_owner_def row_ok_kind split: option.splits)
      with workflow k show ?thesis by (simp add: without_kind_other)
    next
      case step
      with k show ?thesis by (simp add: without_kind_other without_kind_same without_owner_def)
    next
      case event
      with k show ?thesis by (simp add: without_kind_other without_kind_same without_owner_def)
    next
      case stream
      with k show ?thesis by (simp add: without_kind_other without_kind_same without_owner_def)
    next
      case message
      with k show ?thesis by (simp add: without_kind_other without_kind_same without_owner_def)
    next
      case other
      have "row_owner p = None" if "hm_get t (kind, j) = Some p" for p
        using table_okD [OF assms that] other by (cases p) (simp_all add: row_ok_def row_owner_def)
      with other k show ?thesis by (simp add: without_kind_other without_owner_def split: option.splits)
    qed
  qed
qed

context healthy_kv
begin

lemma delete_workflow_law:
  assumes s: "sql_inv s"
  shows "\<exists>s'. sql_delete_workflow kv i s = (Inr (), s') \<and> sql_inv s'
    \<and> hm_get (sql_table s') = without_owner i (hm_get (sql_table s))"
proof -
  let ?s0 = "s\<lparr>sql_table := hm_remove (''workflow'', i) (sql_table s)\<rparr>"
  have s0: "sql_inv ?s0" "hm_get (sql_table ?s0) = (hm_get (sql_table s))((''workflow'', i) := None)"
    using s table_ok_remove by (auto simp: sql_inv_def)
  from lister_rows(1) [OF s0(1), of i] obtain xs1 where x1: "sql_list_steps kv i ?s0 = (Inr xs1, ?s0)"
    "set xs1 = {x. hm_get (sql_table ?s0) (''step'', step_key (step_workflow_uuid x) (step_id x)) = Some (PStep x)
      \<and> step_workflow_uuid x = i}" by blast
  define k4 where "k4 = (\<lambda>_::unit. act_bind (sql_list_messages kv i) (\<lambda>messages.
       act_bind (act_for (\<lambda>m. kv_delete kv ''message'' (message_key m)) messages) act_return))"
  define k3 where "k3 = (\<lambda>_::unit. act_bind (sql_list_streams kv i) (\<lambda>entries.
     act_bind (act_for (\<lambda>e. kv_delete kv ''stream'' (stream_key i (se_key e) (se_offset e))) entries) k4))"
  define k2 where "k2 = (\<lambda>_::unit. act_bind (sql_list_events kv i) (\<lambda>events.
     act_bind (act_for (\<lambda>e. kv_delete kv ''event'' (event_key i (ev_key e))) events) k3))"
  have start: "sql_delete_workflow kv i s = act_bind (sql_list_steps kv i) (\<lambda>steps.
     act_bind (act_for (\<lambda>st. kv_delete kv ''step'' (step_key i (step_id st))) steps) k2) ?s0"
    using s by (simp add: sql_delete_workflow_def k2_def k3_def k4_def act_bind_return sql_inv_def
        act_bind_Inr [OF kv_delete])
  from delete_kind [where s = "?s0" and lister = "sql_list_steps kv i" and con = PStep and key = "\<lambda>st. step_key (step_workflow_uuid st) (step_id st)" and who = step_workflow_uuid and k = k2
      and key' = "\<lambda>st. step_key i (step_id st)", OF s0(1) x1(1) row_ok_kind(2) _ x1(2)]
  obtain s1 where s1: "sql_delete_workflow kv i s = k2 () s1" "sql_inv s1"
    "hm_get (sql_table s1) = without_kind ''step'' i (hm_get (sql_table ?s0))"
    by (auto simp: row_owner_def start)
  from lister_rows(2) [OF s1(2), of i] obtain xs2 where x2: "sql_list_events kv i s1 = (Inr xs2, s1)"
    "set xs2 = {x. hm_get (sql_table s1) (''event'', event_key (ev_workflow_uuid x) (ev_key x)) = Some (PEvent x)
      \<and> ev_workflow_uuid x = i}" by blast
  from delete_kind [where s = s1 and lister = "sql_list_events kv i" and con = PEvent and key = "\<lambda>e. event_key (ev_workflow_uuid e) (ev_key e)" and who = ev_workflow_uuid and k = k3
      and key' = "\<lambda>e. event_key i (ev_key e)", OF s1(2) x2(1) row_ok_kind(6) _ x2(2)]
  obtain s2 where s2: "sql_delete_workflow kv i s = k3 () s2" "sql_inv s2"
    "hm_get (sql_table s2) = without_kind ''event'' i (hm_get (sql_table s1))"
    by (auto simp: row_owner_def s1(1) k2_def)
  from lister_rows(3) [OF s2(2), of i] obtain xs3 where x3: "sql_list_streams kv i s2 = (Inr xs3, s2)"
    "set xs3 = {x. hm_get (sql_table s2) (''stream'', stream_key (se_workflow_uuid x) (se_key x) (se_offset x))
      = Some (PStream x) \<and> se_workflow_uuid x = i}" by blast
  from delete_kind [where s = s2 and lister = "sql_list_streams kv i" and con = PStream and key = "\<lambda>e. stream_key (se_workflow_uuid e) (se_key e) (se_offset e)" and who = se_workflow_uuid and k = k4
      and key' = "\<lambda>e. stream_key i (se_key e) (se_offset e)", OF s2(2) x3(1) row_ok_kind(7) _ x3(2)]
  obtain s3 where s3: "sql_delete_workflow kv i s = k4 () s3" "sql_inv s3"
    "hm_get (sql_table s3) = without_kind ''stream'' i (hm_get (sql_table s2))"
    by (auto simp: row_owner_def s2(1) k3_def)
  from lister_rows(4) [OF s3(2), of i] obtain xs4 where x4: "sql_list_messages kv i s3 = (Inr xs4, s3)"
    "set xs4 = {x. hm_get (sql_table s3) (''message'', message_key x) = Some (PMessage x)
      \<and> msg_destination_id x = i}" by blast
  from delete_kind [where s = s3 and lister = "sql_list_messages kv i" and con = PMessage and key = "message_key" and who = msg_destination_id and k = act_return
      and key' = message_key, OF s3(2) x4(1) row_ok_kind(5) _ x4(2)]
  obtain s4 where s4: "sql_delete_workflow kv i s = act_return () s4" "sql_inv s4"
    "hm_get (sql_table s4) = without_kind ''message'' i (hm_get (sql_table s3))"
    by (auto simp: row_owner_def s3(1) k4_def)
  have "table_ok (sql_table s)" using s by (simp add: sql_inv_def)
  from without_kinds [OF this, of i] s4 s3(3) s2(3) s1(3) s0(2) show ?thesis by auto
qed

lemma delete_workflows_law:
  "sql_inv s \<Longrightarrow> \<exists>s'. sql_delete_workflows kv ids opts s = (Inr (), s') \<and> sql_inv s'
    \<and> hm_get (sql_table s') = fold without_owner ids (hm_get (sql_table s))"
  unfolding sql_delete_workflows_def
proof (induction ids arbitrary: s)
  case Nil
  then show ?case by simp
next
  case (Cons i ids)
  from delete_workflow_law [OF Cons.prems, of i] obtain s1 where s1:
    "sql_delete_workflow kv i s = (Inr (), s1)" "sql_inv s1"
    "hm_get (sql_table s1) = without_owner i (hm_get (sql_table s))" by blast
  from Cons.IH [OF s1(2)] s1 show ?case by (simp add: act_bind_def)
qed

end

lemma fold_without_owner:
  "fold without_owner ids m = (\<lambda>k. case m k of None \<Rightarrow> None
     | Some p \<Rightarrow> if row_owner p \<in> Some ` set ids then None else Some p)"
  by (induction ids arbitrary: m) (auto simp: without_owner_def fun_eq_iff split: option.splits)

lemma deleted_abs:
  assumes t: "table_ok (sql_table s)"
    and d: "hm_get (sql_table s') = fold without_owner ids (hm_get (sql_table s))"
  shows "sql_abs s' = (sql_abs s)\<lparr>a_workflows := a_workflows (sql_abs s) |` (- set ids),
           a_steps := a_steps (sql_abs s) |` {(i, n). i \<notin> set ids}\<rparr>"
proof -
  have w: "sql_row (sql_table s') i = (sql_row (sql_table s) |` (- set ids)) i" for i
    using table_okD [OF t, of "''workflow''" i]
    by (auto simp: sql_row_def d fold_without_owner restrict_map_def row_ok_kind row_owner_def split: option.splits)
  have st: "a_steps (sql_abs s') (i, n) = (a_steps (sql_abs s) |` {(i, n). i \<notin> set ids}) (i, n)" for i n
    using table_okD [OF t, of "''step''" "step_key i n"]
    by (auto simp: sql_abs_simps d fold_without_owner restrict_map_def row_ok_kind row_owner_def step_key_inj
        split: option.splits)
  have "a_queues (sql_abs s') i = a_queues (sql_abs s) i" for i
    using table_okD [OF t, of "''queue''" i]
    by (auto simp: sql_abs_simps d fold_without_owner row_ok_kind row_owner_def split: option.splits)
  moreover have "a_schedules (sql_abs s') i = a_schedules (sql_abs s) i" for i
    using table_okD [OF t, of "''schedule''" i]
    by (auto simp: sql_abs_simps d fold_without_owner row_ok_kind row_owner_def split: option.splits)
  moreover have "a_versions (sql_abs s') i = a_versions (sql_abs s) i" for i
    using table_okD [OF t, of "''application_version''" i]
    by (auto simp: sql_abs_simps d fold_without_owner row_ok_kind row_owner_def split: option.splits)
  moreover have "a_patches (sql_abs s') i = a_patches (sql_abs s) i" for i
    using table_okD [OF t, of "''patch''" i]
    by (auto simp: sql_abs_simps d fold_without_owner row_ok_kind row_owner_def split: option.splits)
  moreover have "a_workflows (sql_abs s') = a_workflows (sql_abs s) |` (- set ids)"
    using w by (auto simp: sql_abs_simps)
  moreover have "a_steps (sql_abs s') = a_steps (sql_abs s) |` {(i, n). i \<notin> set ids}"
    using st by (intro ext) (metis surj_pair)
  ultimately show ?thesis by (intro abstract_db.equality) auto
qed

section \<open>The store contract\<close>

text \<open>What an insert and a claim do on a healthy connection.\<close>

definition healthy_insert :: "string \<Rightarrow> workflow_status \<Rightarrow> (sql_state, workflow_insert_result) dbact" where
  "healthy_insert name w s =
     (case hm_get (sql_table s) (''workflow'', wf_workflow_uuid w) of
        None \<Rightarrow> (Inr Inserted, s\<lparr>sql_table :=
                  hm_insert (''workflow'', wf_workflow_uuid w) (PWorkflow (wire_workflow w)) (sql_table s)\<rparr>)
      | Some p \<Rightarrow> (insert_outcome name w (False, Some p), s))"

definition healthy_claim :: "datetime \<Rightarrow> string \<Rightarrow> string \<Rightarrow> string \<Rightarrow> (sql_state, bool) dbact" where
  "healthy_claim now i ex xid s =
     (case sql_claim_update now i ex xid (sql_table s) of
        (True, t) \<Rightarrow> (Inr True, s\<lparr>sql_table := t\<rparr>)
      | (False, _) \<Rightarrow>
          (case hm_get (sql_table s) (''workflow'', i) of
             None \<Rightarrow> (Inr False, s)
           | Some p \<Rightarrow> (res_map (\<lambda>w. wf_execution_id w = Some xid) (as_workflow p), s)))"

lemma insert_body_healthy:
  assumes "healthy s"
  shows "insert_body w s =
     (case hm_get (sql_table s) (''workflow'', wf_workflow_uuid w) of
        None \<Rightarrow> (Inr (True, None), s\<lparr>sql_table :=
                  hm_insert (''workflow'', wf_workflow_uuid w) (PWorkflow (wire_workflow w)) (sql_table s)\<rparr>)
      | Some p \<Rightarrow> (Inr (False, Some p), s))"
  using assms
  by (simp add: insert_body_def act_bind_def healthy_statement sql_insert_if_absent_def sql_select_def
      split: option.splits)

lemma insert_healthy:
  assumes "healthy s"
  shows "pg_insert_workflow_with_result timeout w s = healthy_insert ''postgres'' w s"
    and "turso_insert_workflow_with_result w s = healthy_insert ''turso'' w s"
proof -
  obtain x s' where b: "insert_body w s = (Inr x, s')"
    using insert_body_healthy [OF assms, of w] by (auto split: option.splits)
  show "pg_insert_workflow_with_result timeout w s = healthy_insert ''postgres'' w s"
    using insert_body_healthy [OF assms, of w]
    by (auto simp: pg_insert_workflow_with_result_def healthy_insert_def act_bind_def insert_outcome_def
        healthy_pg_attempts [of s "insert_body w" x s', OF assms b] b split: option.splits)
  show "turso_insert_workflow_with_result w s = healthy_insert ''turso'' w s"
    using insert_body_healthy [OF assms, of w]
    by (auto simp: turso_insert_workflow_with_result_def healthy_insert_def act_bind_def insert_outcome_def
        healthy_turso(1) [of "insert_body w" s x s', OF b] b split: option.splits)
qed

lemma claim_update_False: "sql_claim_update now i ex xid t = (False, t') \<Longrightarrow> t' = t"
  by (auto simp: sql_claim_update_def split: option.splits payload.splits if_splits)

lemma pg_claim_healthy:
  assumes "healthy s"
  shows "pg_claim_workflow_execution timeout now i ex xid s = healthy_claim now i ex xid s"
proof -
  obtain u t where u: "sql_claim_update now i ex xid (sql_table s) = (u, t)" by fastforce
  have a: "pg_claim_attempts 2 0 timeout (sql_claim_update now i ex xid) s = (Inr u, s\<lparr>sql_table := t\<rparr>)"
    using assms u
    by (simp add: numeral_2_eq_2 ensure_connected_locked_def healthy_def statement_def)
  show ?thesis
  proof (cases u)
    case True
    with a u show ?thesis by (simp add: pg_claim_workflow_execution_def healthy_claim_def act_bind_def)
  next
    case False
    with u claim_update_False [of now i ex xid "sql_table s" t] have "t = sql_table s" by simp
    with a u assms False show ?thesis
      by (simp add: pg_claim_workflow_execution_def healthy_claim_def act_bind_def
          ensure_connected_locked_def statement_def sql_select_def healthy_def split: option.splits)
  qed
qed

lemma turso_claim_healthy:
  assumes "healthy s"
  shows "turso_claim_workflow_execution now i ex xid s = healthy_claim now i ex xid s"
proof -
  obtain u t where u: "sql_claim_update now i ex xid (sql_table s) = (u, t)" by fastforce
  have a: "turso_retry (statement (sql_claim_update now i ex xid)) s = (Inr u, s\<lparr>sql_table := t\<rparr>)"
    using healthy_turso(1) [of "statement (sql_claim_update now i ex xid)" s]
      healthy_statement [OF assms, of "sql_claim_update now i ex xid"] u by simp
  have g: "turso_get ''workflow'' i s = (Inr (hm_get (sql_table s) (''workflow'', i)), s)"
    using turso_kv.kv_get [OF assms] by (simp add: turso_kv_def)
  show ?thesis
  proof (cases u)
    case True
    with a u show ?thesis by (simp add: turso_claim_workflow_execution_def healthy_claim_def act_bind_def)
  next
    case False
    with u claim_update_False [of now i ex xid "sql_table s" t] have "t = sql_table s" by simp
    with a g u False show ?thesis
      by (simp add: turso_claim_workflow_execution_def healthy_claim_def act_bind_def split: option.splits)
  qed
qed

text \<open>A row of the table after a healthy insert or claim, in terms of the abstract database.\<close>

lemma put_row_abs:
  "sql_abs (s\<lparr>sql_table := hm_insert (''workflow'', i) (PWorkflow w) (sql_table s)\<rparr>) =
     (sql_abs s)\<lparr>a_workflows := (a_workflows (sql_abs s))(i \<mapsto> w)\<rparr>"
  by (auto simp: sql_abs_def Let_def sql_row_def fun_eq_iff)

lemma put_row_inv:
  "sql_inv s \<Longrightarrow> wf_workflow_uuid w = i \<Longrightarrow>
     sql_inv (s\<lparr>sql_table := hm_insert (''workflow'', i) (PWorkflow w) (sql_table s)\<rparr>)"
  by (auto simp: sql_inv_def row_ok_kind intro!: table_ok_insert)

lemma healthy_insert_laws:
  assumes "sql_inv s"
  shows "sql_row (sql_table s) (wf_workflow_uuid w) = Some e \<Longrightarrow>
      healthy_insert name w s = (ensure_workflow_identity_matches e w, s)"
    and "sql_row (sql_table s) (wf_workflow_uuid w) = None \<Longrightarrow>
      \<exists>s'. healthy_insert name w s = (Inr Inserted, s') \<and> sql_inv s' \<and>
        sql_abs s' = (sql_abs s)\<lparr>a_workflows :=
          (a_workflows (sql_abs s))(wf_workflow_uuid w \<mapsto> wire_workflow w)\<rparr>"
proof -
  have t: "table_ok (sql_table s)" using assms by (simp add: sql_inv_def)
  show "sql_row (sql_table s) (wf_workflow_uuid w) = Some e \<Longrightarrow>
      healthy_insert name w s = (ensure_workflow_identity_matches e w, s)"
    by (simp add: healthy_insert_def sql_row_Some insert_outcome_def as_workflow_def)
  assume "sql_row (sql_table s) (wf_workflow_uuid w) = None"
  then show "\<exists>s'. healthy_insert name w s = (Inr Inserted, s') \<and> sql_inv s' \<and>
        sql_abs s' = (sql_abs s)\<lparr>a_workflows :=
          (a_workflows (sql_abs s))(wf_workflow_uuid w \<mapsto> wire_workflow w)\<rparr>"
    using put_row_inv [OF assms, of "wire_workflow w" "wf_workflow_uuid w"]
      put_row_abs [where s = s and i = "wf_workflow_uuid w" and w = "wire_workflow w"]
    by (simp add: healthy_insert_def sql_row_None [OF t])
qed

lemma healthy_claim_law:
  assumes s: "sql_inv s" and c: "\<And>w. sql_row (sql_table s) i = Some w \<Longrightarrow> claim_consistent w"
  shows "\<exists>s'. healthy_claim now i ex xid s =
      (Inr (fst (claim_spec now ex xid (sql_row (sql_table s) i))), s') \<and> sql_inv s' \<and>
    sql_abs s' = (sql_abs s)\<lparr>a_workflows :=
      set_row i (snd (claim_spec now ex xid (sql_row (sql_table s) i))) (a_workflows (sql_abs s))\<rparr>"
proof (cases "sql_row (sql_table s) i")
  case None
  have t: "table_ok (sql_table s)" using s by (simp add: sql_inv_def)
  from None have "hm_get (sql_table s) (''workflow'', i) = None" using sql_row_None [OF t] by simp
  moreover from None have "sql_abs s = (sql_abs s)\<lparr>a_workflows := set_row i None (a_workflows (sql_abs s))\<rparr>"
    by (auto simp: set_row_def sql_abs_simps fun_upd_idem intro!: abstract_db.equality)
  ultimately show ?thesis using None s
    by (simp add: healthy_claim_def sql_claim_update_def claim_spec_def)
next
  case (Some w)
  then have g: "hm_get (sql_table s) (''workflow'', i) = Some (PWorkflow w)" by (simp add: sql_row_Some)
  have u: "wf_workflow_uuid w = i" using sql_row_uuid s Some by (auto simp: sql_inv_def)
  have same: "sql_abs s = (sql_abs s)\<lparr>a_workflows := set_row i (Some w) (a_workflows (sql_abs s))\<rparr>"
    using Some by (auto simp: set_row_def sql_abs_simps fun_upd_idem intro!: abstract_db.equality)
  let ?w = "w\<lparr>wf_status := Pending, wf_executor_id := Some ex, wf_execution_id := Some xid, wf_updated_at := now\<rparr>"
  show ?thesis
  proof (cases "wf_status w \<in> {Pending, Enqueued} \<and> wf_executor_id w = None")
    case True
    with c [OF Some] have "wf_execution_id w = None" by (simp add: claim_consistent_def)
    with True g Some put_row_inv [OF s, of ?w i] put_row_abs [where s = s and i = i and w = ?w] u show ?thesis
      by (simp add: healthy_claim_def sql_claim_update_def claim_spec_def set_row_def)
  next
    case False
    with g Some s same show ?thesis
      by (auto simp: healthy_claim_def sql_claim_update_def claim_spec_def as_workflow_def)
  qed
qed

locale healthy_methods = healthy_kv kv
  for kv :: kv +
  fixes migrate :: "(sql_state, unit) dbact"
    and insertion :: "workflow_status \<Rightarrow> (sql_state, workflow_insert_result) dbact"
    and claiming :: "datetime \<Rightarrow> string \<Rightarrow> string \<Rightarrow> string \<Rightarrow> (sql_state, bool) dbact"
    and name :: string
  assumes insertion: "healthy s \<Longrightarrow> insertion w s = healthy_insert name w s"
    and claiming: "healthy s \<Longrightarrow> claiming now i ex xid s = healthy_claim now i ex xid s"

sublocale healthy_methods \<subseteq> durable_store "sql_methods kv migrate insertion claiming" sql_inv sql_abs
    wire_duration "\<lambda>_ _. False"
proof (unfold_locales, simp_all only: sql_methods_def system_database.simps, goal_cases)
  case (1 s i w)
  then show ?case using sql_row_uuid by (auto simp: sql_inv_def sql_abs_simps)
next
  case 2
  then show ?case using get_workflow_law by (auto simp: sql_abs_simps)
next
  case (3 s w ru s')
  from save_workflow_law [OF 3(1), of w] 3(2) show ?case by (auto simp: sql_abs_simps wire_workflow_def)
next
  case (4 s w e ri s')
  from healthy_insert_laws(1) [OF 4(1), of w e name] 4 insertion [of s w] show ?case
    by (simp add: sql_abs_simps sql_inv_def)
next
  case (5 s w ri s')
  from healthy_insert_laws(2) [OF 5(1), of w name] 5 insertion [of s w] show ?case
    by (auto simp: sql_abs_simps sql_inv_def wire_workflow_def)
next
  case (6 s i now ex xid rb s')
  from healthy_claim_law [OF 6(1), of i now ex xid] 6 claiming [of s now i ex xid] show ?case
    by (auto simp: sql_abs_simps sql_inv_def)
next
  case (7 s opts rl s')
  from list_workflows_law [OF 7(1), of opts] 7 show ?case by (auto simp: sql_abs_simps)
next
  case (8 s i n st)
  then show ?case using table_okD [of "sql_table s" "''step''" "step_key i n"]
    by (auto simp: sql_inv_def sql_abs_simps row_ok_kind step_key_inj split: option.splits payload.splits)
next
  case (9 s i n rg s')
  from get_step_law [OF 9(1), of i n] 9 show ?case by simp
next
  case (10 s st ru s')
  from record_step_law [OF 10(1), of st] 10(2) show ?case by auto
next
  case (11 s i rl s')
  have "table_ok (sql_table s)" using 11(1) by (simp add: sql_inv_def)
  from list_steps_law [OF 11(1), of i] step_rows [OF this, of i] 11 show ?case by auto
next
  case (12 s n rg s')
  from config_laws(1) [OF 12(1), of n] 12 show ?case by simp
next
  case (13 s q ru s')
  from put_laws(1) [OF 13(1), of q] 13(2) obtain
    "ru = Inr ()" "sql_inv s'"
    "sql_abs s' = (sql_abs s)\<lparr>a_queues := (a_queues (sql_abs s))(q_name q \<mapsto> wire_queue q)\<rparr>" by auto
  moreover have "q_name (wire_queue q) = q_name q" by (simp add: wire_queue_def)
  ultimately show ?case by blast
next
  case (14 s n ru s')
  from remove_laws(1) [OF 14(1), of n] 14(2) show ?case by auto
next
  case (15 s n rh s')
  from config_laws(2) [OF 15(1), of n] 15 show ?case by simp
next
  case (16 s sc ru s')
  from put_laws(2) [OF 16(1), of sc] 16(2) show ?case by auto
next
  case (17 s n ru s')
  from remove_laws(2) [OF 17(1), of n] 17(2) show ?case by auto
next
  case (18 s v ru s')
  from create_version_law [OF 18(1), of v] 18(2) show ?case by auto
next
  case (19 s now n ru s')
  from set_latest_law [OF 19(1), of now n] 19(2) show ?case by auto
next
  case (20 s n b ru s')
  from put_laws(3) [OF 20(1), of n b] 20(2) show ?case by auto
next
  case (21 s n rp s')
  from config_laws(3) [OF 21(1), of n] 21 show ?case by simp
next
  case (22 s ids opts ru s')
  have t: "table_ok (sql_table s)" using 22(1) by (simp add: sql_inv_def)
  from delete_workflows_law [OF 22(1), of ids opts] 22(2) have "ru = Inr ()" "sql_inv s'"
    "hm_get (sql_table s') = fold without_owner ids (hm_get (sql_table s))" by auto
  with deleted_abs [OF t this(3)] show ?case by simp
qed

interpretation pg: healthy_methods "pg_kv timeout" "pg_migrate timeout" "pg_insert_workflow_with_result timeout"
    "pg_claim_workflow_execution timeout" "''postgres''"
  by unfold_locales (simp_all add: insert_healthy pg_claim_healthy)

interpretation turso: healthy_methods turso_kv turso_migrate turso_insert_workflow_with_result
    turso_claim_workflow_execution "''turso''"
  by unfold_locales (simp_all add: insert_healthy turso_claim_healthy)

end
