(* ===== verification/Store_Properties.thy ===== *)
theory Store_Properties
  imports Memory_Store Sql_Refinement
begin

text \<open>
  The properties of the stores of \<open>src/src/store.rs\<close>: execution claims, idempotent inserts and
  puts under connection failures, the refinement of the abstract database, deletion, messages
  and keys, listing and counting.
\<close>

section \<open>Claims under failures\<close>

text \<open>A claim operation whose answer is read off the row it leaves, failures or not.\<close>

locale answering_claims =
  fixes db :: "sql_state system_database"
  assumes answers: "keeps (claimed_or_not now i ex xid t0) (claimed_or_not now i ex xid t0)
    (claim_answer now i ex xid t0) (db_claim_workflow_execution db now i ex xid)"
begin

lemma claim_cases:
  assumes "db_claim_workflow_execution db now i ex xid s = (r, s')"
  shows "claimed_or_not now i ex xid (sql_table s) (sql_table s')"
    and "r = Inr True \<Longrightarrow> holds_claim (sql_table s') i xid"
    and "r = Inr False \<Longrightarrow> \<not> holds_claim (sql_table s') i xid"
proof -
  have start: "claimed_or_not now i ex xid (sql_table s) (sql_table s)" by (simp add: claimed_or_not_def)
  show "claimed_or_not now i ex xid (sql_table s) (sql_table s')"
  proof (cases r)
    case (Inl e)
    with keepsD(1) [OF answers start] assms show ?thesis by blast
  next
    case (Inr b)
    with keepsD(2) [OF answers start] assms show ?thesis by (auto simp: claim_answer_def)
  qed
  show "r = Inr True \<Longrightarrow> holds_claim (sql_table s') i xid"
    and "r = Inr False \<Longrightarrow> \<not> holds_claim (sql_table s') i xid"
    using keepsD(2) [OF answers start] assms by (auto simp: claim_answer_def)
qed

lemma claimed_stays:
  assumes "holds_claim (sql_table s) i z"
    and c: "\<And>w. sql_row (sql_table s) i = Some w \<Longrightarrow> claim_consistent w"
    and "db_claim_workflow_execution db now i ex xid s = (r, s')"
  shows "sql_table s' = sql_table s" and "r = Inr True \<Longrightarrow> xid = z"
proof -
  from assms(1) obtain w where w: "sql_row (sql_table s) i = Some w" "wf_execution_id w = Some z"
    by (auto simp: holds_claim_def)
  with c have "wf_executor_id w \<noteq> None" by (auto simp: claim_consistent_def)
  with w(1) have "snd (sql_claim_update now i ex xid (sql_table s)) = sql_table s"
    by (auto simp: sql_claim_update_def sql_row_Some)
  with claim_cases(1) [OF assms(3)] show same: "sql_table s' = sql_table s"
    by (auto simp: claimed_or_not_def)
  show "r = Inr True \<Longrightarrow> xid = z"
    using claim_cases(2) [OF assms(3)] same w by (auto simp: holds_claim_def)
qed

lemma claim_keeps_consistent:
  assumes c: "\<And>w. sql_row (sql_table s) i = Some w \<Longrightarrow> claim_consistent w"
    and "db_claim_workflow_execution db now i ex xid s = (r, s')"
    and "sql_row (sql_table s') i = Some w"
  shows "claim_consistent w"
proof -
  have "claim_consistent v" if "sql_row (snd (sql_claim_update now i ex xid (sql_table s))) i = Some v" for v
    using that c unfolding sql_claim_update_def claim_consistent_def
    by (auto simp: sql_row_Some split: option.splits payload.splits if_splits)
  with claim_cases(1) [OF assms(2)] assms(3) c show ?thesis by (auto simp: claimed_or_not_def)
qed

lemma granted_after:
  assumes "holds_claim (sql_table s) i z"
    and "\<And>w. sql_row (sql_table s) i = Some w \<Longrightarrow> claim_consistent w"
    and "granted_claims db i claims s = (granted, s')"
  shows "set granted \<subseteq> {z}"
  using assms
proof (induction claims arbitrary: s granted s')
  case Nil
  then show ?case by simp
next
  case (Cons c claims)
  obtain now ex x where c: "c = (now, ex, x)" by (cases c)
  obtain r t where r: "db_claim_workflow_execution db now i ex x s = (r, t)" by fastforce
  obtain g t' where g: "granted_claims db i claims t = (g, t')" by fastforce
  note st = claimed_stays [OF Cons.prems(1,2) r]
  from Cons.IH [OF _ _ g] Cons.prems(1,2) st(1) have "set g \<subseteq> {z}" by simp
  with Cons.prems(3) c r g st(2) show ?case by (auto split: if_splits)
qed

lemma exclusive:
  assumes "\<And>w. sql_row (sql_table s) i = Some w \<Longrightarrow> claim_consistent w"
    and "granted_claims db i claims s = (granted, s')"
    and "x \<in> set granted" "y \<in> set granted"
  shows "x = y"
  using assms
proof (induction claims arbitrary: s granted s')
  case Nil
  then show ?case by simp
next
  case (Cons c claims)
  obtain now ex z where c: "c = (now, ex, z)" by (cases c)
  obtain r t where r: "db_claim_workflow_execution db now i ex z s = (r, t)" by fastforce
  obtain g t' where g: "granted_claims db i claims t = (g, t')" by fastforce
  note cons = claim_keeps_consistent [OF Cons.prems(1) r]
  show ?case
  proof (cases "r = Inr True")
    case True
    from granted_after [OF claim_cases(2) [OF r True] cons g] have "set g \<subseteq> {z}" .
    moreover have "granted = z # g" using True Cons.prems(2) c r g by auto
    ultimately show ?thesis using Cons.prems(3,4) by auto
  next
    case False
    with Cons.prems(2) c r g have "granted = g" by auto
    with Cons.IH [OF cons g] Cons.prems(3,4) show ?thesis by simp
  qed
qed

end

interpretation pg_claims: answering_claims "pg_store timeout"
  by unfold_locales (simp add: pg_store_def sql_methods_def keeps_pg_claim)

interpretation turso_claims: answering_claims turso_store
  by unfold_locales (simp add: turso_store_def sql_methods_def keeps_turso_claim)

text \<open>C6:
  Whatever statements fail, with or without having been applied, and however the connection
  drops: of any sequence of claims of one workflow on Postgres or on Turso, by any executors,
  only one execution is ever told that it holds the workflow.\<close>

theorem sql_claims_exclusive:
  assumes "db = pg_store timeout \<or> db = turso_store"
    and "\<And>w. sql_row (sql_table s) i = Some w \<Longrightarrow> claim_consistent w"
    and "granted_claims db i claims s = (granted, s')"
    and "x \<in> set granted" "y \<in> set granted"
  shows "x = y"
  using assms(1)
proof
  assume "db = pg_store timeout"
  with assms(3) pg_claims.exclusive [OF assms(2) _ assms(4,5)] show "x = y" by blast
next
  assume "db = turso_store"
  with assms(3) turso_claims.exclusive [OF assms(2) _ assms(4,5)] show "x = y" by blast
qed

definition sample_workflow :: workflow_status where
  "sample_workflow = new_workflow_status ''w1'' ''orders'' ''v1'' ''DBOS_JSON'' 5"

definition lost_ack :: fault where
  "lost_ack = \<lparr>flt_applied = True, flt_busy = False, flt_late = False, flt_message = ''closed''\<rparr>"

definition sample_sql :: "fault option list \<Rightarrow> sql_state" where
  "sample_sql fs =
     \<lparr>sql_table = [((''workflow'', ''w1''), PWorkflow sample_workflow)], sql_faults = fs,
      sql_connected = True, sql_opens = [], sql_now = 0\<rparr>"

lemmas claim_eval = pg_store_def sql_methods_def pg_claim_workflow_execution_def act_bind_def
  numeral_2_eq_2 ensure_connected_locked_def statement_def sql_claim_update_def sql_select_def
  as_workflow_def sample_sql_def sample_workflow_def new_workflow_status_def hm_get_def hm_insert_def
  lost_ack_def

lemma sample_claims:
  "fst (granted_claims (pg_store 0) ''w1'' [(6, ''a'', ''x1''), (7, ''b'', ''x2''), (8, ''a'', ''x1'')]
     (sample_sql [Some lost_ack])) = [''x1'', ''x1'']"
  by (simp add: claim_eval)

theorem sql_claims_exclusive_witness:
  "\<exists>granted s'. granted_claims (pg_store 0) ''w1'' [(6, ''a'', ''x1''), (7, ''b'', ''x2''), (8, ''a'', ''x1'')]
       (sample_sql [Some lost_ack]) = (granted, s') \<and> length granted = 2 \<and> hd granted = last granted"
proof -
  let ?run = "granted_claims (pg_store 0) ''w1'' [(6, ''a'', ''x1''), (7, ''b'', ''x2''), (8, ''a'', ''x1'')]
       (sample_sql [Some lost_ack])"
  obtain granted s' where r: "?run = (granted, s')" by (cases ?run)
  with sample_claims have g: "granted = [''x1'', ''x1'']" by simp
  have "claim_consistent w" if "sql_row (sql_table (sample_sql [Some lost_ack])) ''w1'' = Some w" for w
    using that by (auto simp: sql_row_Some sample_sql_def hm_get_def claim_consistent_def
        sample_workflow_def new_workflow_status_def)
  from sql_claims_exclusive [OF _ this r, of 0 "hd granted" "last granted"] g
  have "hd granted = last granted" by simp
  with r g show ?thesis by auto
qed

section \<open>Inserts and puts under failures\<close>

lemma sql_insert_outcome_parts:
  assumes "db = pg_store timeout \<or> db = turso_store"
    and "db_insert_workflow_with_result db w s = (Inr r, s')"
  shows "\<exists>row. sql_row (sql_table s') (wf_workflow_uuid w) = Some row
        \<and> wf_name row = wf_name w \<and> wf_input row = wf_input w"
    and "sql_table s' = sql_table s
      \<or> hm_get (sql_table s) (''workflow'', wf_workflow_uuid w) = None
        \<and> sql_table s' = hm_insert (''workflow'', wf_workflow_uuid w) (PWorkflow (wire_workflow w)) (sql_table s)"
    and "r = Inserted \<Longrightarrow> hm_get (sql_table s) (''workflow'', wf_workflow_uuid w) = None"
proof -
  have start: "inserted_or_not w (sql_table s) (sql_table s)" by (simp add: inserted_or_not_def)
  have "insert_answer w (sql_table s) r (sql_table s')"
    using assms(1)
  proof
    assume "db = pg_store timeout"
    with assms(2) have "pg_insert_workflow_with_result timeout w s = (Inr r, s')"
      by (simp add: pg_store_def sql_methods_def)
    from keepsD(2) [OF keeps_pg_insert start this] show ?thesis .
  next
    assume "db = turso_store"
    with assms(2) have "turso_insert_workflow_with_result w s = (Inr r, s')"
      by (simp add: turso_store_def sql_methods_def)
    from keepsD(2) [OF keeps_turso_insert start this] show ?thesis .
  qed
  then show "\<exists>row. sql_row (sql_table s') (wf_workflow_uuid w) = Some row
        \<and> wf_name row = wf_name w \<and> wf_input row = wf_input w"
    and "sql_table s' = sql_table s
      \<or> hm_get (sql_table s) (''workflow'', wf_workflow_uuid w) = None
        \<and> sql_table s' = hm_insert (''workflow'', wf_workflow_uuid w) (PWorkflow (wire_workflow w)) (sql_table s)"
    and "r = Inserted \<Longrightarrow> hm_get (sql_table s) (''workflow'', wf_workflow_uuid w) = None"
    by (auto simp: insert_answer_def inserted_or_not_def)
qed

text \<open>C7:
  Whatever fails on the way, an insert that reports success leaves under the workflow's id a row
  with the workflow's name and input, adds that row only where there was none, changes nothing
  else, and says \<open>Inserted\<close> only when there was none.\<close>

theorem sql_insert_outcome:
  assumes "db = pg_store timeout \<or> db = turso_store"
    and "db_insert_workflow_with_result db w s = (Inr r, s')"
    shows "(\<exists>row. sql_row (sql_table s') (wf_workflow_uuid w) = Some row
        \<and> wf_name row = wf_name w \<and> wf_input row = wf_input w) \<and>
    (sql_table s' = sql_table s
      \<or> hm_get (sql_table s) (''workflow'', wf_workflow_uuid w) = None
        \<and> sql_table s' = hm_insert (''workflow'', wf_workflow_uuid w) (PWorkflow (wire_workflow w)) (sql_table s)) \<and>
    (r = Inserted \<longrightarrow> hm_get (sql_table s) (''workflow'', wf_workflow_uuid w) = None)"
  using sql_insert_outcome_parts [OF assms] by blast


lemmas insert_eval = pg_store_def turso_store_def sql_methods_def pg_insert_workflow_with_result_def
  turso_insert_workflow_with_result_def turso_retry_def act_bind_def
  numeral_2_eq_2 ensure_connected_locked_def statement_def insert_body_def sql_insert_if_absent_def
  sql_select_def as_workflow_def insert_outcome_def ensure_workflow_identity_matches_def
  sample_sql_def sample_workflow_def new_workflow_status_def hm_get_def hm_insert_def lost_ack_def

definition other_workflow :: workflow_status where
  "other_workflow = new_workflow_status ''w2'' ''orders'' ''v1'' ''DBOS_JSON'' 5"

lemma sample_insert:
  "fst (db_insert_workflow_with_result (pg_store 0) other_workflow (sample_sql [])) = Inr Inserted"
  by (simp add: insert_eval other_workflow_def)

theorem sql_insert_outcome_witness:
  "hm_get (sql_table (sample_sql [])) (''workflow'', wf_workflow_uuid other_workflow) = None"
proof -
  obtain r s' where r: "db_insert_workflow_with_result (pg_store 0) other_workflow (sample_sql []) = (r, s')"
    by fastforce
  with sample_insert have "r = Inr Inserted" by simp
  with sql_insert_outcome [of "pg_store 0" 0 other_workflow "sample_sql []" Inserted s'] r show ?thesis by simp
qed

text \<open>
  The answer \<open>Inserted\<close> can be lost: when the acknowledgement of the first attempt is lost after
  the row was written, the second attempt finds the row and reports \<open>ExistingExact\<close>, although this
  call created it.
\<close>

lemma pg_insert_lost_ack:
  assumes "sql_connected s" "sql_faults s = [Some f]" "flt_applied f" "sql_opens s = []"
    and "hm_get (sql_table s) (''workflow'', wf_workflow_uuid w) = None"
  shows "fst (pg_insert_workflow_with_result timeout w s) = Inr ExistingExact"
  using assms
  by (simp add: pg_insert_workflow_with_result_def act_bind_def numeral_2_eq_2 ensure_connected_locked_def
      statement_def insert_body_def sql_insert_if_absent_def sql_select_def as_workflow_def
      insert_outcome_def ensure_workflow_identity_matches_def)

lemma pg_save_masks_one_failure_parts:
  shows "sql_faults s = [Some f] \<Longrightarrow> sql_opens s = [] \<Longrightarrow>
      \<exists>s'. db_save_workflow (pg_store timeout) w s = (Inr (), s') \<and>
        sql_table s' = hm_insert (''workflow'', wf_workflow_uuid w) (PWorkflow (wire_workflow w)) (sql_table s)"
    and "db_save_workflow (pg_store timeout) w s = (r, s') \<Longrightarrow>
      (r = Inr () \<longrightarrow>
        sql_table s' = hm_insert (''workflow'', wf_workflow_uuid w) (PWorkflow (wire_workflow w)) (sql_table s)) \<and>
      (sql_table s' = sql_table s \<or>
        sql_table s' = hm_insert (''workflow'', wf_workflow_uuid w) (PWorkflow (wire_workflow w)) (sql_table s))"
proof -
  have save: "db_save_workflow (pg_store timeout) w = pg_attempts 2 0 timeout ''put''
      (statement (sql_upsert ''workflow'' (wf_workflow_uuid w) (PWorkflow (wire_workflow w))))"
    by (simp add: pg_store_def sql_methods_def sql_save_workflow_def pg_kv_def pg_put_def fun_eq_iff)
  show "sql_faults s = [Some f] \<Longrightarrow> sql_opens s = [] \<Longrightarrow>
      \<exists>s'. db_save_workflow (pg_store timeout) w s = (Inr (), s') \<and>
        sql_table s' = hm_insert (''workflow'', wf_workflow_uuid w) (PWorkflow (wire_workflow w)) (sql_table s)"
    by (simp add: save numeral_2_eq_2 ensure_connected_locked_def statement_def sql_upsert_def)
  assume r: "db_save_workflow (pg_store timeout) w s = (r, s')"
  let ?k = "put_or_not ''workflow'' (wf_workflow_uuid w) (PWorkflow (wire_workflow w)) (sql_table s)"
  have start: "?k (sql_table s)" by (simp add: put_or_not_def)
  show "(r = Inr () \<longrightarrow>
        sql_table s' = hm_insert (''workflow'', wf_workflow_uuid w) (PWorkflow (wire_workflow w)) (sql_table s)) \<and>
      (sql_table s' = sql_table s \<or>
        sql_table s' = hm_insert (''workflow'', wf_workflow_uuid w) (PWorkflow (wire_workflow w)) (sql_table s))"
  proof (cases r)
    case (Inl e)
    with keepsD(1) [OF keeps_pg_attempts [OF keeps_upsert] start] r save show ?thesis
      by (auto simp: put_or_not_def)
  next
    case (Inr u)
    with keepsD(2) [OF keeps_pg_attempts [OF keeps_upsert] start] r save show ?thesis by auto
  qed
qed

text \<open>
  A single failed statement does not show: saving a workflow on Postgres still succeeds when the
  first attempt fails, applied or not, and the reconnection succeeds. And whatever happens, the
  table afterwards is the old one or the one with the row, the latter when the call succeeds.\<close>

theorem pg_save_masks_one_failure:
    shows "(sql_faults s = [Some f] \<longrightarrow> sql_opens s = [] \<longrightarrow> (\<exists>s'. db_save_workflow (pg_store timeout) w s = (Inr (), s') \<and>
        sql_table s' = hm_insert (''workflow'', wf_workflow_uuid w) (PWorkflow (wire_workflow w)) (sql_table s))) \<and>
    (db_save_workflow (pg_store timeout) w s = (r, s') \<longrightarrow> (r = Inr () \<longrightarrow>
        sql_table s' = hm_insert (''workflow'', wf_workflow_uuid w) (PWorkflow (wire_workflow w)) (sql_table s)) \<and>
      (sql_table s' = sql_table s \<or>
        sql_table s' = hm_insert (''workflow'', wf_workflow_uuid w) (PWorkflow (wire_workflow w)) (sql_table s)))"
  using pg_save_masks_one_failure_parts by blast


theorem pg_save_masks_one_failure_witness:
  "\<exists>s'. db_save_workflow (pg_store 0) other_workflow (sample_sql [Some lost_ack]) = (Inr (), s')"
  using pg_save_masks_one_failure [of "sample_sql [Some lost_ack]" lost_ack 0 other_workflow]
  by (auto simp: sample_sql_def)

lemma reconnect_backoff_parts:
  shows "k < length (snd (reconnect_loop deadline (from_millis 50) ts)) \<Longrightarrow>
      snd (reconnect_loop deadline (from_millis 50) ts) ! k = min (from_millis 50 * 2 ^ k) (from_millis 500)"
    and "\<not> fst (reconnect_loop deadline (from_millis 50) ts) \<Longrightarrow> \<exists>t \<in> set ts. deadline \<le> t"
    and "clock_runs now (from_millis 50) ts \<Longrightarrow> now \<le> deadline \<Longrightarrow>
      fst (reconnect_loop deadline (from_millis 50) ts) \<Longrightarrow>
      length ts * from_millis 50 \<le> deadline - now"
proof -
  have "from_millis 50 \<le> from_millis 500" by (simp add: from_millis_def nanos_per_milli_def)
  then show "k < length (snd (reconnect_loop deadline (from_millis 50) ts)) \<Longrightarrow>
      snd (reconnect_loop deadline (from_millis 50) ts) ! k = min (from_millis 50 * 2 ^ k) (from_millis 500)"
    by (rule reconnect_delays)
  show "\<not> fst (reconnect_loop deadline (from_millis 50) ts) \<Longrightarrow> \<exists>t \<in> set ts. deadline \<le> t"
    by (rule reconnect_gives_up_late)
  have "0 < from_millis 50" by (simp add: from_millis_def nanos_per_milli_def)
  then show "clock_runs now (from_millis 50) ts \<Longrightarrow> now \<le> deadline \<Longrightarrow>
      fst (reconnect_loop deadline (from_millis 50) ts) \<Longrightarrow>
      length ts * from_millis 50 \<le> deadline - now"
    using reconnect_attempts_bounded by blast
qed




section \<open>The refinement\<close>

lemma stores_refine_parts:
  "durable_store memory_store mem_inv mem_abs (\<lambda>d. d) mem_dedup"
  "durable_store (pg_store timeout) sql_inv sql_abs wire_duration (\<lambda>_ _. False)"
  "durable_store turso_store sql_inv sql_abs wire_duration (\<lambda>_ _. False)"
  unfolding pg_store_def turso_store_def
  by (rule mem.durable_store_axioms pg.durable_store_axioms turso.durable_store_axioms)+



text \<open>C10:
  Deleting workflows on a healthy SQL store removes exactly the rows that belong to them: the
  workflow, its steps, events, stream entries and the messages sent to it, and no other row.\<close>

theorem sql_delete_exact:
  assumes "db = pg_store timeout \<or> db = turso_store" "sql_inv s"
  shows "\<exists>s'. db_delete_workflows db ids opts s = (Inr (), s') \<and> sql_inv s' \<and>
    (\<forall>k. hm_get (sql_table s') k =
       (case hm_get (sql_table s) k of
          None \<Rightarrow> None
        | Some p \<Rightarrow> if row_owner p \<in> Some ` set ids then None else Some p))"
  using assms(1)
proof
  assume "db = pg_store timeout"
  with pg_kv.delete_workflows_law [OF assms(2), of timeout ids opts] show ?thesis
    by (auto simp: fold_without_owner pg_store_def sql_methods_def)
next
  assume "db = turso_store"
  with turso_kv.delete_workflows_law [OF assms(2), of ids opts] show ?thesis
    by (auto simp: fold_without_owner turso_store_def sql_methods_def)
qed

lemma sample_sql_inv: "sql_inv (sample_sql [])"
  by (auto simp: sql_inv_def sample_sql_def healthy_def table_ok_def hm_ok_def hm_get_def row_ok_def
      sample_workflow_def new_workflow_status_def)

theorem sql_delete_exact_witness:
  "\<exists>s'. db_delete_workflows turso_store [''w1''] \<lparr>do_force = True\<rparr> (sample_sql []) = (Inr (), s')
     \<and> hm_get (sql_table s') (''workflow'', ''w1'') = None"
  using sql_delete_exact [OF _ sample_sql_inv, of turso_store 0 "[''w1'']" "\<lparr>do_force = True\<rparr>"]
  by (auto simp: sample_sql_def hm_get_def row_owner_def sample_workflow_def new_workflow_status_def)

section \<open>Messages\<close>

definition waiting :: "memory_data \<Rightarrow> string \<Rightarrow> string \<Rightarrow> workflow_message list" where
  "waiting d destination_id topic = filter (awaits destination_id topic) (md_messages d)"

lemma consume_first_None: "consume_first P ms = None \<longleftrightarrow> filter P ms = []"
  by (induction ms) auto

lemma consume_first_Some:
  assumes "consume_first P ms = Some (m, ms')" "\<And>m. \<not> P (m\<lparr>msg_consumed := True\<rparr>)"
  shows "\<exists>m0 rest. filter P ms = m0 # rest \<and> m = m0\<lparr>msg_consumed := True\<rparr> \<and> filter P ms' = rest
    \<and> (\<forall>Q. (\<forall>m. P m \<longrightarrow> \<not> Q m) \<longrightarrow> (\<forall>m. \<not> Q (m\<lparr>msg_consumed := True\<rparr>)) \<longrightarrow> filter Q ms' = filter Q ms)"
  using assms(1)
proof (induction ms arbitrary: ms')
  case Nil
  then show ?case by simp
next
  case (Cons x ms)
  show ?case
  proof (cases "P x")
    case True
    with Cons.prems have "m = x\<lparr>msg_consumed := True\<rparr>" "ms' = x\<lparr>msg_consumed := True\<rparr> # ms" by auto
    with True assms(2) show ?thesis by auto
  next
    case False
    with Cons.prems obtain ms1 where "consume_first P ms = Some (m, ms1)" "ms' = x # ms1" by auto
    with Cons.IH False show ?thesis by fastforce
  qed
qed

lemma mem_messages_fifo_parts:
  shows "mem_recv_message dest topic d = (r, d') \<Longrightarrow>
      r = Inr (case waiting d dest topic of [] \<Rightarrow> None | m # _ \<Rightarrow> Some (m\<lparr>msg_consumed := True\<rparr>)) \<and>
      waiting d' dest topic = tl (waiting d dest topic) \<and>
      ((dest', topic') \<noteq> (dest, topic) \<longrightarrow> waiting d' dest' topic' = waiting d dest' topic')"
    and "\<not> msg_consumed m \<Longrightarrow> mem_send_message m d = (Inr (), d'') \<Longrightarrow>
      waiting d'' dest' topic' = waiting d dest' topic' @
        (if (dest', topic') = (msg_destination_id m, msg_topic m) then [m] else [])"
proof -
  show "\<not> msg_consumed m \<Longrightarrow> mem_send_message m d = (Inr (), d'') \<Longrightarrow>
      waiting d'' dest' topic' = waiting d dest' topic' @
        (if (dest', topic') = (msg_destination_id m, msg_topic m) then [m] else [])"
    by (auto simp: mem_send_message_def waiting_def awaits_def)
  assume r: "mem_recv_message dest topic d = (r, d')"
  show "r = Inr (case waiting d dest topic of [] \<Rightarrow> None | m # _ \<Rightarrow> Some (m\<lparr>msg_consumed := True\<rparr>)) \<and>
      waiting d' dest topic = tl (waiting d dest topic) \<and>
      ((dest', topic') \<noteq> (dest, topic) \<longrightarrow> waiting d' dest' topic' = waiting d dest' topic')"
  proof (cases "consume_first (awaits dest topic) (md_messages d)")
    case None
    with r show ?thesis by (simp add: mem_recv_message_def waiting_def consume_first_None)
  next
    case (Some p)
    obtain m1 ms1 where p: "p = (m1, ms1)" by (cases p)
    have "\<not> awaits dest topic (m\<lparr>msg_consumed := True\<rparr>)" for m by (simp add: awaits_def)
    from consume_first_Some [OF Some [unfolded p] this] obtain m0 rest where c:
      "filter (awaits dest topic) (md_messages d) = m0 # rest" "m1 = m0\<lparr>msg_consumed := True\<rparr>"
      "filter (awaits dest topic) ms1 = rest"
      and other: "\<And>Q. (\<forall>m. awaits dest topic m \<longrightarrow> \<not> Q m) \<Longrightarrow> (\<forall>m. \<not> Q (m\<lparr>msg_consumed := True\<rparr>)) \<Longrightarrow>
        filter Q ms1 = filter Q (md_messages d)" by blast
    have "filter (awaits dest' topic') ms1 = filter (awaits dest' topic') (md_messages d)"
      if "(dest', topic') \<noteq> (dest, topic)"
      by (rule other) (use that in \<open>auto simp: awaits_def\<close>)
    with Some p c r show ?thesis by (auto simp: mem_recv_message_def waiting_def)
  qed
qed

text \<open>
  Messages in the in-memory store are queues, one for each destination and topic: sending appends
  to one queue, receiving takes the head of one queue, marked as consumed, or returns nothing when
  it is empty, and leaves every other queue alone. So every message is received at most once and
  in the order of sending.\<close>

theorem mem_messages_fifo:
    shows "(mem_recv_message dest topic d = (r, d') \<longrightarrow> r = Inr (case waiting d dest topic of [] \<Rightarrow> None | m # _ \<Rightarrow> Some (m\<lparr>msg_consumed := True\<rparr>)) \<and>
      waiting d' dest topic = tl (waiting d dest topic) \<and>
      ((dest', topic') \<noteq> (dest, topic) \<longrightarrow> waiting d' dest' topic' = waiting d dest' topic')) \<and>
    (\<not> msg_consumed m \<longrightarrow> mem_send_message m d = (Inr (), d'') \<longrightarrow> waiting d'' dest' topic' = waiting d dest' topic' @
        (if (dest', topic') = (msg_destination_id m, msg_topic m) then [m] else []))"
  using mem_messages_fifo_parts by blast


definition sample_message :: "string \<Rightarrow> datetime \<Rightarrow> workflow_message" where
  "sample_message topic t =
     \<lparr>msg_destination_id = ''w1'', msg_topic = topic, msg_message = JNull, msg_serialization = ''DBOS_JSON'',
      msg_created_at = t, msg_consumed = False\<rparr>"

theorem mem_messages_fifo_witness:
  "fst (mem_recv_message ''w1'' ''a''
      (empty_memory\<lparr>md_messages := [sample_message ''b'' 1, sample_message ''a'' 2, sample_message ''a'' 3]\<rparr>))
     = Inr (Some ((sample_message ''a'' 2)\<lparr>msg_consumed := True\<rparr>))"
proof -
  let ?d = "empty_memory\<lparr>md_messages := [sample_message ''b'' 1, sample_message ''a'' 2, sample_message ''a'' 3]\<rparr>"
  obtain r d' where r: "mem_recv_message ''w1'' ''a'' ?d = (r, d')" by fastforce
  from mem_messages_fifo [of "''w1''" "''a''" ?d r d' "''w1''" "''b''"] r show ?thesis
    by (simp add: waiting_def awaits_def sample_message_def)
qed

text \<open>
  Receiving from a SQL store is not atomic: when two receivers of one destination and topic both
  read before either writes, both get the same message and both writes succeed, so the message is
  delivered twice.\<close>

theorem sql_recv_twice:
  assumes "sql_inv s" "sql_recv_read (pg_kv timeout) dest topic s = (Inr (Some m), s1)"
  shows "\<exists>s2 s3. sql_recv_read (pg_kv timeout) dest topic s1 = (Inr (Some m), s1) \<and>
    sql_recv_consume (pg_kv timeout) m s1 = (Inr (Some (m\<lparr>msg_consumed := True\<rparr>)), s2) \<and>
    sql_recv_consume (pg_kv timeout) m s2 = (Inr (Some (m\<lparr>msg_consumed := True\<rparr>)), s3)"
proof -
  have h: "healthy s" using assms(1) by (simp add: sql_inv_def)
  have read: "sql_recv_read (pg_kv timeout) dest topic s = (r, s') \<Longrightarrow> s' = s" for r s'
    using h by (auto simp: sql_recv_read_def pg_kv.list_as_healthy act_bind_def split: sum.splits list.splits)
  with assms(2) have s1: "s1 = s" by blast
  with h assms(2) show ?thesis
    by (simp add: sql_recv_consume_def act_bind_def pg_kv.kv_put Let_def)
qed

definition sample_mailbox :: sql_state where
  "sample_mailbox = (sample_sql [])\<lparr>sql_table :=
     [((''message'', message_key (sample_message ''a'' 7)), PMessage (sample_message ''a'' 7))]\<rparr>"

lemma sample_mailbox_read:
  "sql_recv_read (pg_kv 0) ''w1'' ''a'' sample_mailbox = (Inr (Some (sample_message ''a'' 7)), sample_mailbox)"
proof -
  have "healthy sample_mailbox" by (simp add: sample_mailbox_def sample_sql_def healthy_def)
  then show ?thesis
    by (simp add: sql_recv_read_def pg_kv.list_as_healthy act_bind_def sample_mailbox_def rows_of_def
        as_message_def sample_message_def)
qed

theorem sql_recv_twice_witness:
  "\<exists>s2. sql_recv_consume (pg_kv 0) (sample_message ''a'' 7) sample_mailbox
     = (Inr (Some ((sample_message ''a'' 7)\<lparr>msg_consumed := True\<rparr>)), s2)"
proof -
  have "sql_inv sample_mailbox"
    by (auto simp: sql_inv_def sample_mailbox_def sample_sql_def healthy_def table_ok_def hm_ok_def
        hm_get_def row_ok_def)
  from sql_recv_twice [OF this sample_mailbox_read] show ?thesis by blast
qed

section \<open>Keys\<close>

lemma sql_event_keys_collide_parts:
  assumes "sql_inv s" "ev_workflow_uuid e1 = a @ '':'' @ b" "ev_key e1 = c"
    and "ev_workflow_uuid e2 = a" "ev_key e2 = b @ '':'' @ c"
    and "sql_set_event (pg_kv timeout) e1 s = (r1, s1)"
    and "sql_set_event (pg_kv timeout) e2 s1 = (r2, s2)"
  shows "sql_get_event (pg_kv timeout) (ev_workflow_uuid e1) (ev_key e1) s2 = (Inr (Some e2), s2)"
proof -
  have h: "healthy s" using assms(1) by (simp add: sql_inv_def)
  have k: "event_key (ev_workflow_uuid e1) (ev_key e1) = event_key (ev_workflow_uuid e2) (ev_key e2)"
    using assms(2-5) by (simp add: event_key_def)
  from assms(6,7) h show "sql_get_event (pg_kv timeout) (ev_workflow_uuid e1) (ev_key e1) s2 = (Inr (Some e2), s2)"
    by (auto simp: sql_set_event_def pg_kv.kv_put sql_get_event_def pg_kv.get_as_healthy k as_event_def)
qed

text \<open>C11:
  The SQL stores key a step by the text of its workflow id and number, and this key is injective:
  different steps never share a row. The keys of events are not: an event of workflow \<open>a\<close> under a
  key that contains a colon takes the row of an event of another workflow, whose value is lost.\<close>

theorem sql_event_keys_collide:
  assumes "sql_inv s" "ev_workflow_uuid e1 = a @ '':'' @ b" "ev_key e1 = c"
    and "ev_workflow_uuid e2 = a" "ev_key e2 = b @ '':'' @ c"
    and "sql_set_event (pg_kv timeout) e1 s = (r1, s1)"
    and "sql_set_event (pg_kv timeout) e2 s1 = (r2, s2)"
    shows "(sql_get_event (pg_kv timeout) (ev_workflow_uuid e1) (ev_key e1) s2 = (Inr (Some e2), s2)) \<and>
    (\<forall>i n i' n'. step_key i n = step_key i' n' \<longrightarrow> i = i' \<and> n = n')"
  using sql_event_keys_collide_parts [OF assms] step_key_inj by blast


definition sample_event :: "string \<Rightarrow> string \<Rightarrow> bool \<Rightarrow> workflow_event" where
  "sample_event i k b =
     \<lparr>ev_workflow_uuid = i, ev_key = k, ev_value = JBool b, ev_serialization = ''DBOS_JSON'', ev_created_at = 1\<rparr>"

theorem sql_event_keys_collide_witness:
  "\<exists>s2. sql_get_event (pg_kv 0) ''sched:2024'' ''done'' s2
      = (Inr (Some (sample_event ''sched'' ''2024:done'' False)), s2)"
proof -
  let ?e1 = "sample_event ''sched:2024'' ''done'' True"
  let ?e2 = "sample_event ''sched'' ''2024:done'' False"
  obtain r1 s1 where s1: "sql_set_event (pg_kv 0) ?e1 empty_sql = (r1, s1)" by fastforce
  obtain r2 s2 where s2: "sql_set_event (pg_kv 0) ?e2 s1 = (r2, s2)" by fastforce
  from conjunct1 [OF sql_event_keys_collide, OF sql_inv_empty _ _ _ _ s1 s2, of "''sched''" "''2024''" "''done''"]
  show ?thesis by (auto simp: sample_event_def)
qed

lemma hm_insert_overwrite: "hm_insert k v (hm_insert k v' t) = hm_insert k v t"
  unfolding hm_insert_def by (induction t) auto

text \<open>Two messages to one destination and topic in the same nanosecond: the second replaces the first.\<close>

lemma sql_message_replaced:
  assumes "healthy s" "msg_destination_id m1 = msg_destination_id m2" "msg_topic m1 = msg_topic m2"
    and "msg_created_at m1 = msg_created_at m2"
    and "sql_send_message (pg_kv timeout) m1 s = (r1, s1)" "sql_send_message (pg_kv timeout) m2 s1 = (r2, s2)"
  shows "sql_table s2 = hm_insert (''message'', message_key m2) (PMessage m2) (sql_table s)"
proof -
  have "message_key m1 = message_key m2" using assms(2-4) by (simp add: message_key_def)
  with assms show ?thesis
    by (auto simp: sql_send_message_def pg_kv.kv_put hm_insert_overwrite)
qed

section \<open>Listing and counting\<close>

lemma list_workflows_correct_parts:
  shows "set (select_workflows opts stored) \<subseteq>
      apply_workflow_load_option opts ` {v \<in> set stored. workflow_matches v opts}"
    and "sorted (map (\<lambda>w. if lo_sort_desc opts then - wf_created_at w else wf_created_at w)
      (select_workflows opts stored))"
    and "lo_limit opts = Some l \<Longrightarrow> length (select_workflows opts stored) \<le> l"
    and "lo_limit opts = None \<Longrightarrow> lo_offset opts = None \<Longrightarrow>
      mset (select_workflows opts stored) =
      mset (map (apply_workflow_load_option opts) (filter (\<lambda>v. workflow_matches v opts) stored))"
proof -
  show "set (select_workflows opts stored) \<subseteq>
      apply_workflow_load_option opts ` {v \<in> set stored. workflow_matches v opts}"
    using select_workflows_sound [of _ opts stored] by blast
  show "lo_limit opts = Some l \<Longrightarrow> length (select_workflows opts stored) \<le> l"
    by (simp add: select_workflows_def apply_workflow_load_options_def sort_and_page_workflows_def length_page_rows)
  show "lo_limit opts = None \<Longrightarrow> lo_offset opts = None \<Longrightarrow>
      mset (select_workflows opts stored) =
      mset (map (apply_workflow_load_option opts) (filter (\<lambda>v. workflow_matches v opts) stored))"
    by (simp add: select_workflows_def apply_workflow_load_options_def sort_and_page_workflows_def page_rows_eq)
  let ?f = "\<lambda>w. if lo_sort_desc opts then - wf_created_at w else wf_created_at w"
  let ?rows = "filter (\<lambda>v. workflow_matches v opts) stored"
  have "sorted (map ?f (if lo_sort_desc opts then sort_key (\<lambda>w. - wf_created_at w) ?rows
      else sort_key wf_created_at ?rows))" by simp
  then have "sorted (map ?f (sort_and_page_workflows ?rows opts))"
    unfolding sort_and_page_workflows_def by (rule sorted_page_rows)
  then show "sorted (map ?f (select_workflows opts stored))"
    by (cases "lo_sort_desc opts") (simp_all add: select_workflows_def apply_workflow_load_options_def comp_def)
qed

text \<open>
  The rows a listing returns are stored rows that match the filters, with input and output loaded
  as asked, ordered by creation time in the direction asked, at most \<open>limit\<close> of them; without a
  limit and an offset they are all the matching rows.\<close>

theorem list_workflows_correct:
    shows "(set (select_workflows opts stored) \<subseteq>
      apply_workflow_load_option opts ` {v \<in> set stored. workflow_matches v opts}) \<and>
    (sorted (map (\<lambda>w. if lo_sort_desc opts then - wf_created_at w else wf_created_at w)
      (select_workflows opts stored))) \<and>
    (lo_limit opts = Some l \<longrightarrow> length (select_workflows opts stored) \<le> l) \<and>
    (lo_limit opts = None \<longrightarrow> lo_offset opts = None \<longrightarrow> mset (select_workflows opts stored) =
      mset (map (apply_workflow_load_option opts) (filter (\<lambda>v. workflow_matches v opts) stored)))"
  using list_workflows_correct_parts by blast


theorem list_workflows_correct_witness:
  "length (select_workflows (default_list_options\<lparr>lo_limit := Some 1\<rparr>) [sample_workflow, other_workflow]) \<le> 1"
  using list_workflows_correct [of "default_list_options\<lparr>lo_limit := Some 1\<rparr>" _ 1] by simp

lemma status_counts_exact_parts:
  shows "map_of (map (\<lambda>r. (wa_bucket r, wa_count r)) (workflow_counts_by_status rows))
      [(''status'', JString (status_debug st))] =
      (let n = length (filter (\<lambda>w. wf_status w = st) rows) in if n = 0 then None else Some n)"
    and "sum_list (map wa_count (workflow_counts_by_status rows)) = length rows"
    and "sorted_wrt (<) (map fst (count_by (\<lambda>row. status_debug (wf_status row)) rows))"
proof -
  let ?c = "count_by (\<lambda>row. status_debug (wf_status row)) rows"
  have m: "map_of (map (\<lambda>r. (wa_bucket r, wa_count r)) (map (\<lambda>(st, count).
      \<lparr>wa_bucket = [(''status'', JString st)], wa_count = count\<rparr>) c)) [(''status'', JString k)] = map_of c k"
    for c :: "(string, nat) btreemap" and k
    by (induction c) auto
  show "map_of (map (\<lambda>r. (wa_bucket r, wa_count r)) (workflow_counts_by_status rows))
      [(''status'', JString (status_debug st))] =
      (let n = length (filter (\<lambda>w. wf_status w = st) rows) in if n = 0 then None else Some n)"
    unfolding workflow_counts_by_status_def m by (simp add: map_of_count_by status_debug_inj)
  have "map wa_count (workflow_counts_by_status rows) = map snd ?c"
    by (auto simp: workflow_counts_by_status_def)
  then show "sum_list (map wa_count (workflow_counts_by_status rows)) = length rows"
    by (simp add: sum_count_by)
  show "sorted_wrt (<) (map fst ?c)" using bt_ok_count_by unfolding bt_ok_def .
qed

text \<open>The status counts are exact: one row for each status that occurs, in increasing order of the
  status names, its count the number of workflows in that status, so the counts add up to the
  number of workflows.\<close>

theorem status_counts_exact:
    shows "(map_of (map (\<lambda>r. (wa_bucket r, wa_count r)) (workflow_counts_by_status rows))
      [(''status'', JString (status_debug st))] =
      (let n = length (filter (\<lambda>w. wf_status w = st) rows) in if n = 0 then None else Some n)) \<and>
    (sum_list (map wa_count (workflow_counts_by_status rows)) = length rows) \<and>
    (sorted_wrt (<) (map fst (count_by (\<lambda>row. status_debug (wf_status row)) rows)))"
  using status_counts_exact_parts by blast


end
