(* ===== verification/Codec.thy ===== *)
theory Codec
  imports Types
begin

text \<open>
  \<open>src/src/serialization.rs\<close> and the encoding methods of \<open>src/src/context.rs\<close>. The JSON text and
  base64 libraries are a parameter, \<open>json_lib\<close>; a \<open>Serialize + DeserializeOwned\<close> type is a pair
  of conversions from and to JSON values, \<open>'a serde\<close>; a custom serializer is the record of its
  trait methods.
\<close>

record encoded_value =
  enc_data :: "string option"
  enc_serialization :: string

record json_lib =
  print_json :: "json \<Rightarrow> string"
  parse_json :: "string \<Rightarrow> json option"
  base64_encode :: "string \<Rightarrow> string"
  base64_decode :: "string \<Rightarrow> string option"

record 'a serde =
  to_value :: "'a \<Rightarrow> json res"
  from_value :: "json \<Rightarrow> 'a res"

record custom_serializer =
  cs_name :: string
  cs_encode :: "json \<Rightarrow> encoded_value res"
  cs_decode :: "encoded_value \<Rightarrow> json res"

definition DBOS_JSON :: string where "DBOS_JSON = ''DBOS_JSON''"
definition PORTABLE_JSON :: string where "PORTABLE_JSON = ''portable_json''"
definition NIL_MARKER :: string where "NIL_MARKER = ''__DBOS_NIL''"

text \<open>JSON values are themselves a serializable type.\<close>

definition json_serde :: "json serde" where
  "json_serde = \<lparr>to_value = Inr, from_value = Inr\<rparr>"

definition from_slice :: "json_lib \<Rightarrow> string \<Rightarrow> json res" where
  "from_slice lib text =
     (case parse_json lib text of None \<Rightarrow> Inl (from_serde_error ''expected value'') | Some v \<Rightarrow> Inr v)"

definition encode_json_value :: "json_lib \<Rightarrow> json \<Rightarrow> encoded_value res" where
  "encode_json_value lib v =
     (if json_is_null v then Inr \<lparr>enc_data = Some NIL_MARKER, enc_serialization = DBOS_JSON\<rparr>
      else Inr \<lparr>enc_data = Some (base64_encode lib (print_json lib v)), enc_serialization = DBOS_JSON\<rparr>)"

definition decode_json_value :: "json_lib \<Rightarrow> encoded_value \<Rightarrow> json res" where
  "decode_json_value lib encoded =
     (case enc_data encoded of
        None \<Rightarrow> Inr JNull
      | Some data \<Rightarrow>
          if data = NIL_MARKER then Inr JNull
          else (case base64_decode lib data of
                  None \<Rightarrow> Inl (serialization_error ''failed to decode base64 data'')
                | Some bytes \<Rightarrow> from_slice lib bytes))"

definition encode_portable :: "json_lib \<Rightarrow> json \<Rightarrow> encoded_value res" where
  "encode_portable lib v =
     Inr \<lparr>enc_data = Some (print_json lib v), enc_serialization = PORTABLE_JSON\<rparr>"

definition decode_portable :: "json_lib \<Rightarrow> 'a serde \<Rightarrow> encoded_value \<Rightarrow> 'a res" where
  "decode_portable lib ty encoded =
     (case enc_data encoded of
        None \<Rightarrow> from_value ty JNull
      | Some data \<Rightarrow>
          if data = ''null'' then from_value ty JNull
          else res_bind (from_slice lib data) (from_value ty))"

definition json_serializer_decode :: "json_lib \<Rightarrow> 'a serde \<Rightarrow> encoded_value \<Rightarrow> 'a res" where
  "json_serializer_decode lib ty encoded = res_bind (decode_json_value lib encoded) (from_value ty)"

definition decode_stored_with_serializer ::
    "json_lib \<Rightarrow> custom_serializer option \<Rightarrow> 'a serde \<Rightarrow> encoded_value \<Rightarrow> 'a res" where
  "decode_stored_with_serializer lib custom ty encoded =
     (let kind = enc_serialization encoded in
      if kind = '''' \<or> kind = DBOS_JSON then json_serializer_decode lib ty encoded
      else if kind = PORTABLE_JSON then decode_portable lib ty encoded
      else (case custom of
              Some ser \<Rightarrow>
                if cs_name ser = kind then res_bind (cs_decode ser encoded) (from_value ty)
                else Inl (serialization_error (''unknown serialization format '' @ kind))
            | None \<Rightarrow> Inl (serialization_error (''unknown serialization format '' @ kind))))"

definition decode_stored :: "json_lib \<Rightarrow> 'a serde \<Rightarrow> encoded_value \<Rightarrow> 'a res" where
  "decode_stored lib ty encoded = decode_stored_with_serializer lib None ty encoded"

text \<open>A portable error is written as a JSON object; any other error stays as it is.\<close>

definition serialize_workflow_error :: "json_lib \<Rightarrow> string \<Rightarrow> string \<Rightarrow> string" where
  "serialize_workflow_error lib error serialization =
     (if serialization \<noteq> PORTABLE_JSON then error
      else print_json lib (JObject [(''name'', JString ''Portable Error''), (''message'', JString error),
             (''code'', JNull), (''data'', JNull)]))"

text \<open>
  \<open>encode_portable_args\<close>: arguments already in the portable shape are kept, anything else becomes
  the only positional argument. \<open>portable_args\<close> is the type test.
\<close>

definition encode_portable_args :: "json_lib \<Rightarrow> (json \<Rightarrow> bool) \<Rightarrow> json \<Rightarrow> encoded_value res" where
  "encode_portable_args lib portable_args v =
     (if portable_args v
      then Inr \<lparr>enc_data = Some (print_json lib v), enc_serialization = PORTABLE_JSON\<rparr>
      else encode_portable lib (JObject [(''namedArgs'', JObject []), (''positionalArgs'', JArray [v])]))"

section \<open>The encoding methods of a context\<close>

text \<open>\<open>codec\<close> is what the methods read of the context: the libraries and the configured serializer.\<close>

record codec =
  cdc_lib :: json_lib
  cdc_serializer :: "custom_serializer option"

definition encode_value :: "codec \<Rightarrow> json \<Rightarrow> bool \<Rightarrow> encoded_value res" where
  "encode_value c v portable =
     (if portable then encode_portable (cdc_lib c) v
      else case cdc_serializer c of
        Some ser \<Rightarrow> cs_encode ser v
      | None \<Rightarrow> encode_json_value (cdc_lib c) v)"

definition encode_serializable :: "codec \<Rightarrow> 'a serde \<Rightarrow> 'a \<Rightarrow> bool \<Rightarrow> encoded_value res" where
  "encode_serializable c ty x portable = res_bind (to_value ty x) (\<lambda>v. encode_value c v portable)"

definition encoded_to_stored_value :: "encoded_value \<Rightarrow> json option" where
  "encoded_to_stored_value encoded = map_option JString (enc_data encoded)"

definition decode_encoded :: "codec \<Rightarrow> 'a serde \<Rightarrow> encoded_value \<Rightarrow> 'a res" where
  "decode_encoded c ty encoded = decode_stored_with_serializer (cdc_lib c) (cdc_serializer c) ty encoded"

definition decode_stored_value :: "codec \<Rightarrow> 'a serde \<Rightarrow> json option \<Rightarrow> string \<Rightarrow> 'a res" where
  "decode_stored_value c ty v serialization =
     (case v of
        Some (JString data) \<Rightarrow> decode_encoded c ty \<lparr>enc_data = Some data, enc_serialization = serialization\<rparr>
      | Some JNull \<Rightarrow> decode_encoded c ty \<lparr>enc_data = None, enc_serialization = serialization\<rparr>
      | None \<Rightarrow> decode_encoded c ty \<lparr>enc_data = None, enc_serialization = serialization\<rparr>
      | Some raw \<Rightarrow>
          if serialization = '''' \<or> serialization = DBOS_JSON \<or> serialization = PORTABLE_JSON
          then from_value ty raw
          else decode_encoded c ty
                 \<lparr>enc_data = Some (print_json (cdc_lib c) raw), enc_serialization = serialization\<rparr>)"

section \<open>Round trips\<close>

text \<open>
  What the encoding relies on at a value: parsing undoes printing, base64 decoding undoes
  encoding, a base64 text is never the marker of null (its alphabet has no underscore), only null
  prints as \<open>null\<close>, and the custom serializer decodes what it encoded under its own name, which
  is not one of the two built-in names.
\<close>

definition lib_ok_at :: "json_lib \<Rightarrow> json \<Rightarrow> bool" where
  "lib_ok_at lib v \<longleftrightarrow>
     parse_json lib (print_json lib v) = Some v \<and>
     base64_decode lib (base64_encode lib (print_json lib v)) = Some (print_json lib v) \<and>
     base64_encode lib (print_json lib v) \<noteq> NIL_MARKER \<and>
     (print_json lib v = ''null'' \<longleftrightarrow> v = JNull)"

definition serializer_ok_at :: "custom_serializer \<Rightarrow> json \<Rightarrow> bool" where
  "serializer_ok_at ser v \<longleftrightarrow>
     cs_name ser \<notin> {'''', DBOS_JSON, PORTABLE_JSON} \<and>
     (\<forall>e. cs_encode ser v = Inr e \<longrightarrow> enc_serialization e = cs_name ser \<and> enc_data e \<noteq> None \<and> cs_decode ser e = Inr v)"

definition codec_ok_at :: "codec \<Rightarrow> json \<Rightarrow> bool" where
  "codec_ok_at c v \<longleftrightarrow>
     lib_ok_at (cdc_lib c) v \<and> (\<forall>ser. cdc_serializer c = Some ser \<longrightarrow> serializer_ok_at ser v)"

lemma decode_encode_json:
  "lib_ok_at lib v \<Longrightarrow> encode_json_value lib v = Inr e \<Longrightarrow> decode_json_value lib e = Inr v"
  by (auto simp: encode_json_value_def decode_json_value_def lib_ok_at_def json_is_null_def from_slice_def
      split: if_splits)

lemma decode_encode_portable:
  "lib_ok_at lib v \<Longrightarrow> encode_portable lib v = Inr e \<Longrightarrow> decode_portable lib ty e = from_value ty v"
  by (auto simp: encode_portable_def decode_portable_def lib_ok_at_def from_slice_def)

lemma encoded_has_data:
  assumes "codec_ok_at c v" "encode_value c v portable = Inr e"
  shows "\<exists>data. enc_data e = Some data"
  using assms
  by (auto simp: encode_value_def encode_portable_def encode_json_value_def codec_ok_at_def serializer_ok_at_def
      split: if_splits option.splits)

lemma decode_encode_value:
  assumes "codec_ok_at c v" "encode_value c v portable = Inr e"
  shows "decode_stored_value c ty (encoded_to_stored_value e) (enc_serialization e) = from_value ty v"
proof -
  obtain data where d: "enc_data e = Some data" using encoded_has_data [OF assms] by blast
  have e: "\<lparr>enc_data = Some data, enc_serialization = enc_serialization e\<rparr> = e"
    using d by (cases e) simp
  have "decode_stored_value c ty (encoded_to_stored_value e) (enc_serialization e) = decode_encoded c ty e"
    unfolding decode_stored_value_def encoded_to_stored_value_def d by (simp add: e)
  also have "\<dots> = from_value ty v"
  proof (cases portable)
    case True
    with assms(2) have "encode_portable (cdc_lib c) v = Inr e" "enc_serialization e = PORTABLE_JSON"
      by (auto simp: encode_value_def encode_portable_def)
    with assms(1) decode_encode_portable show ?thesis
      by (auto simp: decode_encoded_def decode_stored_with_serializer_def codec_ok_at_def Let_def
          PORTABLE_JSON_def DBOS_JSON_def)
  next
    case False
    show ?thesis
    proof (cases "cdc_serializer c")
      case None
      with False assms(2) have "encode_json_value (cdc_lib c) v = Inr e" "enc_serialization e = DBOS_JSON"
        by (auto simp: encode_value_def encode_json_value_def split: if_splits)
      with assms(1) decode_encode_json [of "cdc_lib c" v e] show ?thesis
        by (auto simp: decode_encoded_def decode_stored_with_serializer_def codec_ok_at_def Let_def
            json_serializer_decode_def)
    next
      case (Some ser)
      with False assms have "serializer_ok_at ser v" "cs_encode ser v = Inr e"
        by (auto simp: encode_value_def codec_ok_at_def)
      with Some show ?thesis
        by (auto simp: decode_encoded_def decode_stored_with_serializer_def Let_def serializer_ok_at_def)
    qed
  qed
  finally show ?thesis .
qed

end
