(* ===== verification/Context.thy ===== *)
theory Context
  imports Codec Store_Interface
begin

text \<open>
  The state of \<open>DbosContext\<close> of \<open>src/src/context.rs\<close>: configuration and its defaults, the choice of
  the store, the run state of a workflow, workflow registration and lookup, queue validation.
  \<open>app\<close> is the shared mutable state: the system database and the list of spawned executions.
\<close>

section \<open>Configuration\<close>

text \<open>
  The data fields of \<open>DbosConfig\<close>; of the fields that hold objects only their presence matters
  here, and the store handed in is an argument of the operations.
\<close>

record dbos_config =
  cfg_app_name :: string
  cfg_database_url :: "string option"
  cfg_turso_path :: "string option"
  cfg_database_schema :: string
  cfg_system_database :: bool
  cfg_admin_server :: bool
  cfg_admin_server_port :: nat
  cfg_conductor_url :: "string option"
  cfg_conductor_api_key :: "string option"
  cfg_conductor_executor_metadata :: "json option"
  cfg_application_version :: "string option"
  cfg_executor_id :: "string option"
  cfg_application_id :: "string option"
  cfg_enable_patching :: bool
  cfg_scheduler_polling_interval :: duration

definition new_config :: "string \<Rightarrow> dbos_config" where
  "new_config app_name =
     \<lparr>cfg_app_name = app_name, cfg_database_url = None, cfg_turso_path = None,
      cfg_database_schema = ''dbos'', cfg_system_database = False, cfg_admin_server = False,
      cfg_admin_server_port = 3001, cfg_conductor_url = None, cfg_conductor_api_key = None,
      cfg_conductor_executor_metadata = None, cfg_application_version = None, cfg_executor_id = None,
      cfg_application_id = None, cfg_enable_patching = False,
      cfg_scheduler_polling_interval = from_secs 30\<rparr>"

text \<open>\<open>std::env::var(name).ok().filter(|value| !value.is_empty())\<close>.\<close>

definition env_value :: "(string \<Rightarrow> string option) \<Rightarrow> string \<Rightarrow> string option" where
  "env_value env name = (case env name of Some v \<Rightarrow> if v = '''' then None else Some v | None \<Rightarrow> None)"

definition or_default :: "'a option \<Rightarrow> 'a \<Rightarrow> 'a option" where
  "or_default x d = (case x of None \<Rightarrow> Some d | Some v \<Rightarrow> Some v)"

definition normalize_config :: "(string \<Rightarrow> string option) \<Rightarrow> dbos_config \<Rightarrow> dbos_config res" where
  "normalize_config env config =
     (if cfg_app_name config = '''' then Inl (initialization_error ''missing required app_name'')
      else Inr (config\<lparr>
        cfg_database_schema := (if cfg_database_schema config = '''' then ''dbos'' else cfg_database_schema config),
        cfg_admin_server_port := (if cfg_admin_server_port config = 0 then 3001 else cfg_admin_server_port config),
        cfg_scheduler_polling_interval :=
          (if cfg_scheduler_polling_interval config = 0 then from_secs 30 else cfg_scheduler_polling_interval config),
        cfg_application_version :=
          (case cfg_application_version config of
             Some v \<Rightarrow> Some v | None \<Rightarrow> or_default (env_value env ''DBOS__APPVERSION'') ''local''),
        cfg_executor_id :=
          (case cfg_executor_id config of
             Some v \<Rightarrow> Some v | None \<Rightarrow> or_default (env_value env ''DBOS__VMID'') ''local''),
        cfg_application_id :=
          (case cfg_application_id config of Some v \<Rightarrow> Some v | None \<Rightarrow> env_value env ''DBOS__APPID'')\<rparr>))"

datatype store_choice =
    GivenStore
  | TursoAt string
  | PostgresAt string string
  | SharedMemory

text \<open>\<open>build_store\<close>, with the two compile-time features as arguments.\<close>

definition build_store :: "bool \<Rightarrow> bool \<Rightarrow> dbos_config \<Rightarrow> store_choice res" where
  "build_store turso postgres config =
     (if cfg_system_database config then Inr GivenStore
      else case cfg_turso_path config of
        Some path \<Rightarrow>
          if turso then Inr (TursoAt path)
          else Inl (unsupported ''turso_path requires the turso feature'')
      | None \<Rightarrow>
          (case cfg_database_url config of
             None \<Rightarrow> Inr SharedMemory
           | Some url \<Rightarrow>
               (case strip_prefix ''turso://'' url of
                  Some path \<Rightarrow>
                    if turso then Inr (TursoAt path)
                    else Inl (unsupported ''turso database_url requires the turso feature'')
                | None \<Rightarrow>
                    if postgres then Inr (PostgresAt url (cfg_database_schema config))
                    else Inl (unsupported ''database_url requires the postgres feature''))))"

definition check_claims :: "'s system_database \<Rightarrow> unit res" where
  "check_claims db =
     (if db_supports_workflow_execution_claims db then Inr ()
      else Inl (unsupported (''system database must implement atomic workflow execution claims; override ''
             @ ''SystemDatabase::claim_workflow_execution and supports_workflow_execution_claims'')))"

definition nonempty :: "string option \<Rightarrow> string option" where
  "nonempty x = (case x of Some v \<Rightarrow> if v = '''' then None else Some v | None \<Rightarrow> None)"

record conductor_config =
  cc_url :: string
  cc_api_key :: string
  cc_app_name :: string
  cc_executor_metadata :: "json option"
  cc_reconnect_interval :: duration

definition conductor_config_of :: "dbos_config \<Rightarrow> conductor_config option res" where
  "conductor_config_of config =
     (case (nonempty (cfg_conductor_url config), nonempty (cfg_conductor_api_key config)) of
        (Some url, Some api_key) \<Rightarrow>
          Inr (Some \<lparr>cc_url = url, cc_api_key = api_key, cc_app_name = cfg_app_name config,
                     cc_executor_metadata = cfg_conductor_executor_metadata config,
                     cc_reconnect_interval = from_secs 5\<rparr>)
      | (None, None) \<Rightarrow> Inr None
      | _ \<Rightarrow> Inl (invalid_argument ''conductor URL and API key must be configured together''))"

section \<open>The context\<close>

record run_state =
  rs_workflow_id :: string
  rs_authenticated_user :: "string option"
  rs_assumed_role :: "string option"
  rs_authenticated_roles :: "string list"
  rs_portable :: bool

record dbos_context =
  cx_config :: dbos_config
  cx_codec :: codec
  cx_run_state :: "run_state option"

definition application_version :: "dbos_context \<Rightarrow> string" where
  "application_version ctx =
     (case cfg_application_version (cx_config ctx) of None \<Rightarrow> ''local'' | Some v \<Rightarrow> v)"

definition executor_id :: "dbos_context \<Rightarrow> string" where
  "executor_id ctx = (case cfg_executor_id (cx_config ctx) of None \<Rightarrow> ''local'' | Some v \<Rightarrow> v)"

definition with_run_state :: "dbos_context \<Rightarrow> run_state \<Rightarrow> dbos_context" where
  "with_run_state ctx rs = ctx\<lparr>cx_run_state := Some rs\<rparr>"

definition current_workflow_id :: "dbos_context \<Rightarrow> string res" where
  "current_workflow_id ctx =
     ok_or (invalid_argument ''current workflow ID is only available inside workflows'')
       (map_option rs_workflow_id (cx_run_state ctx))"

text \<open>The loops that poll the database go on after an error of this kind.\<close>

definition is_transient_database_error :: "dbos_error \<Rightarrow> bool" where
  "is_transient_database_error e \<longleftrightarrow> err_code e = Database"

text \<open>An operation of the store, on the shared state.\<close>

record 's app =
  app_store :: 's
  app_spawned :: "(string \<times> bool) list"

definition on_store :: "('s, 'a) dbact \<Rightarrow> ('s app, 'a) dbact" where
  "on_store m a = (case m (app_store a) of (r, s') \<Rightarrow> (r, a\<lparr>app_store := s'\<rparr>))"

text \<open>
  \<open>tokio::spawn\<close> of an execution: the workflow id and whether an existing claim is resumed. When
  and how the task then runs is the subject of \<open>Execution\<close>.
\<close>

definition spawn_workflow_execution_with_recovery :: "string \<Rightarrow> bool \<Rightarrow> ('s app, unit) dbact" where
  "spawn_workflow_execution_with_recovery workflow_id resume_existing_claim a =
     (Inr (), a\<lparr>app_spawned := app_spawned a @ [(workflow_id, resume_existing_claim)]\<rparr>)"

definition spawn_workflow_execution :: "string \<Rightarrow> ('s app, unit) dbact" where
  "spawn_workflow_execution workflow_id = spawn_workflow_execution_with_recovery workflow_id False"

definition spawn_recovered_workflow_execution :: "string \<Rightarrow> ('s app, unit) dbact" where
  "spawn_recovered_workflow_execution workflow_id = spawn_workflow_execution_with_recovery workflow_id True"

definition initialize_system_database :: "'s system_database \<Rightarrow> dbos_context \<Rightarrow> datetime \<Rightarrow> ('s, unit) dbact" where
  "initialize_system_database db ctx now =
     act_bind (db_migrate db) (\<lambda>_.
       db_create_application_version db
         \<lparr>ver_name = application_version ctx, ver_created_at = now, ver_updated_at = now\<rparr>)"

section \<open>Registration\<close>

record registry_entry =
  re_fully_qualified_name :: string
  re_name :: string
  re_class_name :: "string option"
  re_config_name :: "string option"
  re_max_retries :: "nat option"
  re_schedule :: "string option"

record registration_options =
  wr_name :: "string option"
  wr_class_name :: "string option"
  wr_config_name :: "string option"
  wr_max_retries :: "nat option"
  wr_schedule :: "string option"

text \<open>The handler is the wrapped function: input and result are JSON values.\<close>

type_synonym 's handler = "dbos_context \<Rightarrow> json \<Rightarrow> ('s, json) dbact"

record 's registry =
  reg_workflows :: "(string, 's handler) hashmap"
  reg_aliases :: "(string, string) hashmap"
  reg_entries :: "(string, registry_entry) hashmap"
  reg_launched :: bool

text \<open>The cron parser is third-party code: \<open>cron_error spec\<close> is its error text, \<open>None\<close> when it accepts.\<close>

definition validate_cron :: "(string \<Rightarrow> string option) \<Rightarrow> string \<Rightarrow> unit res" where
  "validate_cron cron_error spec =
     (case cron_error spec of
        None \<Rightarrow> Inr ()
      | Some err \<Rightarrow> Inl (invalid_argument (''invalid cron schedule '' @ debug_str spec @ '': '' @ err)))"

definition alias_name :: "string \<Rightarrow> string option \<Rightarrow> string" where
  "alias_name name config_name =
     (case nonempty config_name of Some c \<Rightarrow> name @ ''/'' @ c | None \<Rightarrow> name)"

definition register_workflow ::
    "(string \<Rightarrow> string option) \<Rightarrow> string \<Rightarrow> 's handler \<Rightarrow> registration_options \<Rightarrow> ('s registry, unit) dbact" where
  "register_workflow cron_error name handler opts reg =
     (if reg_launched reg
      then (Inl (new_error ConflictingRegistration ''cannot register workflow after DBOS has launched''), reg)
      else
        let public_name = (case wr_name opts of Some n \<Rightarrow> n | None \<Rightarrow> name) in
        case (case wr_schedule opts of Some sched \<Rightarrow> validate_cron cron_error sched | None \<Rightarrow> Inr ()) of
          Inl e \<Rightarrow> (Inl e, reg)
        | Inr _ \<Rightarrow>
            if hm_get (reg_workflows reg) name \<noteq> None
            then (Inl (new_error ConflictingRegistration (name @ '' is already registered'')), reg)
            else
              let entry = \<lparr>re_fully_qualified_name = name, re_name = public_name,
                           re_class_name = wr_class_name opts, re_config_name = wr_config_name opts,
                           re_max_retries = wr_max_retries opts, re_schedule = wr_schedule opts\<rparr>;
                  reg1 = reg\<lparr>reg_workflows := hm_insert name handler (reg_workflows reg),
                             reg_entries := hm_insert name entry (reg_entries reg)\<rparr>;
                  alias = alias_name public_name (wr_config_name opts);
                  old = hm_get (reg_aliases reg1) alias;
                  reg2 = reg1\<lparr>reg_aliases := hm_insert alias name (reg_aliases reg1)\<rparr>
              in if old \<noteq> None
                 then (Inl (new_error ConflictingRegistration (alias @ '' is already registered'')), reg2)
                 else (Inr (), reg2\<lparr>reg_aliases :=
                         (if hm_get (reg_aliases reg2) name = None
                          then hm_insert name name (reg_aliases reg2) else reg_aliases reg2)\<rparr>))"

definition resolve_workflow :: "'s registry \<Rightarrow> string \<Rightarrow> string option \<Rightarrow> 's handler res" where
  "resolve_workflow reg name config_name =
     (let lookup = alias_name name config_name;
          fqn = (case hm_get (reg_aliases reg) lookup of Some f \<Rightarrow> f | None \<Rightarrow> lookup)
      in ok_or (non_existent_workflow name) (hm_get (reg_workflows reg) fqn))"

definition list_registered_workflows :: "bool \<Rightarrow> 's registry \<Rightarrow> registry_entry list" where
  "list_registered_workflows scheduled_only reg =
     sort_key re_fully_qualified_name
       (let entries = hm_values (reg_entries reg)
        in if scheduled_only then filter (\<lambda>e. re_schedule e \<noteq> None) entries else entries)"

section \<open>Queues\<close>

definition validate_queue :: "workflow_queue \<Rightarrow> unit res" where
  "validate_queue queue =
     (if q_name queue = '''' then Inl (invalid_argument ''queue name is required'')
      else if (case (q_worker_concurrency queue, q_global_concurrency queue) of
                 (Some worker, Some global) \<Rightarrow> worker > global | _ \<Rightarrow> False)
      then Inl (invalid_argument ''global concurrency must be greater than or equal to worker concurrency'')
      else if (case q_rate_limit queue of
                 Some rate_limit \<Rightarrow> rl_limit rate_limit = 0 \<or> rl_period rate_limit = 0 | None \<Rightarrow> False)
      then Inl (invalid_argument ''rate limiter limit and period must be positive'')
      else if q_polling_interval queue = 0
      then Inl (invalid_argument ''queue polling interval must be positive'')
      else if q_max_polling_interval queue = 0
      then Inl (invalid_argument ''queue max polling interval must be positive'')
      else if q_max_polling_interval queue < q_polling_interval queue
      then Inl (invalid_argument
        ''queue max polling interval must be greater than or equal to the polling interval'')
      else Inr ())"

definition register_queue :: "'s system_database \<Rightarrow> workflow_queue \<Rightarrow> ('s, workflow_queue) dbact" where
  "register_queue db queue =
     act_bind (act_lift (validate_queue queue)) (\<lambda>_.
     act_bind (if q_on_conflict queue = NeverUpdate
               then act_bind (db_get_queue db (q_name queue)) (\<lambda>q. act_return (q \<noteq> None))
               else act_return False) (\<lambda>existing.
     if existing
     then act_bind (db_get_queue db (q_name queue)) (\<lambda>q.
            act_lift (ok_or (database_error ''queue disappeared during registration'') q))
     else act_bind (db_upsert_queue db queue) (\<lambda>_. act_return queue)))"

definition retrieve_queue :: "'s system_database \<Rightarrow> string \<Rightarrow> ('s, workflow_queue option) dbact" where
  "retrieve_queue db name = db_get_queue db name"

definition list_queues :: "'s system_database \<Rightarrow> ('s, workflow_queue list) dbact" where
  "list_queues db = db_list_queues db"

definition delete_queue :: "'s system_database \<Rightarrow> string \<Rightarrow> ('s, unit) dbact" where
  "delete_queue db name = db_delete_queue db name"

text \<open>The set of names the queue supervisor serves; empty means all.\<close>

definition listen_queues :: "workflow_queue list \<Rightarrow> string set \<Rightarrow> string set" where
  "listen_queues queues listened = fold (\<lambda>queue names. insert (q_name queue) names) queues listened"

definition update_queue :: "'s system_database \<Rightarrow> workflow_queue \<Rightarrow> ('s, workflow_queue) dbact" where
  "update_queue db queue =
     act_bind (act_lift (validate_queue queue)) (\<lambda>_.
     act_bind (db_get_queue db (q_name queue)) (\<lambda>q.
     if q = None
     then act_fail (invalid_argument (''queue '' @ q_name queue @ '' is not registered''))
     else act_bind (db_upsert_queue db queue) (\<lambda>_. act_return queue)))"

definition update_queue_config ::
    "'s system_database \<Rightarrow> string \<Rightarrow> (workflow_queue \<Rightarrow> workflow_queue) \<Rightarrow> ('s, workflow_queue) dbact" where
  "update_queue_config db name mutate =
     act_bind (db_get_queue db name) (\<lambda>q.
     act_bind (act_lift (ok_or (invalid_argument (''queue '' @ name @ '' is not registered'')) q)) (\<lambda>queue.
       update_queue db (mutate queue)))"

definition set_global_concurrency ::
    "'s system_database \<Rightarrow> workflow_queue \<Rightarrow> nat option \<Rightarrow> ('s, workflow_queue) dbact" where
  "set_global_concurrency db self value =
     update_queue_config db (q_name self) (\<lambda>queue. queue\<lparr>q_global_concurrency := value\<rparr>)"

definition set_worker_concurrency ::
    "'s system_database \<Rightarrow> workflow_queue \<Rightarrow> nat option \<Rightarrow> ('s, workflow_queue) dbact" where
  "set_worker_concurrency db self value =
     update_queue_config db (q_name self) (\<lambda>queue. queue\<lparr>q_worker_concurrency := value\<rparr>)"

definition set_rate_limit ::
    "'s system_database \<Rightarrow> workflow_queue \<Rightarrow> rate_limiter option \<Rightarrow> ('s, workflow_queue) dbact" where
  "set_rate_limit db self value =
     update_queue_config db (q_name self) (\<lambda>queue. queue\<lparr>q_rate_limit := value\<rparr>)"

definition set_priority_enabled ::
    "'s system_database \<Rightarrow> workflow_queue \<Rightarrow> bool \<Rightarrow> ('s, workflow_queue) dbact" where
  "set_priority_enabled db self value =
     update_queue_config db (q_name self) (\<lambda>queue. queue\<lparr>q_priority_enabled := value\<rparr>)"

definition set_partition_queue ::
    "'s system_database \<Rightarrow> workflow_queue \<Rightarrow> bool \<Rightarrow> ('s, workflow_queue) dbact" where
  "set_partition_queue db self value =
     update_queue_config db (q_name self) (\<lambda>queue. queue\<lparr>q_partition_queue := value\<rparr>)"

definition set_polling_interval ::
    "'s system_database \<Rightarrow> workflow_queue \<Rightarrow> duration \<Rightarrow> ('s, workflow_queue) dbact" where
  "set_polling_interval db self value =
     update_queue_config db (q_name self) (\<lambda>queue. queue\<lparr>q_polling_interval := value\<rparr>)"

definition set_max_polling_interval ::
    "'s system_database \<Rightarrow> workflow_queue \<Rightarrow> duration \<Rightarrow> ('s, workflow_queue) dbact" where
  "set_max_polling_interval db self value =
     update_queue_config db (q_name self) (\<lambda>queue. queue\<lparr>q_max_polling_interval := value\<rparr>)"

end
