(* ===== verification/Messaging.thy ===== *)
theory Messaging
  imports Context
begin

text \<open>
  Messages, events and streams of \<open>src/src/context.rs\<close>. A loop that polls the store until a deadline is
  \<open>poll_rounds\<close>: each element of its list is one round, with what other tasks do to the store while the
  loop sleeps before the next one. Observability calls are left out.
\<close>

section \<open>Polling\<close>

text \<open>
  A round asks once; \<open>late\<close> is the comparison of the clock with the deadline that follows an empty
  answer, \<open>env\<close> the effect of the others during the sleep. When the list ends the caller is still
  waiting (\<open>None\<close>).
\<close>

fun poll_rounds ::
    "('s, 'a option) dbact \<Rightarrow> dbos_error \<Rightarrow> (bool \<times> ('s \<Rightarrow> 's)) list \<Rightarrow> 's \<Rightarrow> 'a res option \<times> 's" where
  "poll_rounds ask timed_out [] s = (None, s)"
| "poll_rounds ask timed_out ((late, env) # rounds) s =
     (case ask s of
        (Inr (Some x), s') \<Rightarrow> (Some (Inr x), s')
      | (Inr None, s') \<Rightarrow>
          if late then (Some (Inl timed_out), s') else poll_rounds ask timed_out rounds (env s')
      | (Inl e, s') \<Rightarrow>
          if is_transient_database_error e
          then (if late then (Some (Inl timed_out), s') else poll_rounds ask timed_out rounds (env s'))
          else (Some (Inl e), s'))"

section \<open>Messages\<close>

definition send_with_options ::
    "'s system_database \<Rightarrow> dbos_context \<Rightarrow> datetime \<Rightarrow> 'a serde \<Rightarrow> string \<Rightarrow> 'a \<Rightarrow> string \<Rightarrow> bool \<Rightarrow> ('s, unit) dbact" where
  "send_with_options db ctx now ty destination_id message topic portable =
     act_bind (act_lift (encode_serializable (cx_codec ctx) ty message portable)) (\<lambda>encoded.
       db_send_message db
         \<lparr>msg_destination_id = destination_id, msg_topic = topic,
          msg_message = (case enc_data encoded of Some d \<Rightarrow> JString d | None \<Rightarrow> JNull),
          msg_serialization = enc_serialization encoded, msg_created_at = now, msg_consumed = False\<rparr>)"

definition send ::
    "'s system_database \<Rightarrow> dbos_context \<Rightarrow> datetime \<Rightarrow> 'a serde \<Rightarrow> string \<Rightarrow> 'a \<Rightarrow> string \<Rightarrow> ('s, unit) dbact" where
  "send db ctx now ty destination_id message topic = send_with_options db ctx now ty destination_id message topic False"

definition received :: "codec \<Rightarrow> 'a serde \<Rightarrow> workflow_message \<Rightarrow> 'a res" where
  "received c ty m = decode_stored_value c ty (Some (msg_message m)) (msg_serialization m)"

definition recv ::
    "'s system_database \<Rightarrow> dbos_context \<Rightarrow> 'a serde \<Rightarrow> string \<Rightarrow> (bool \<times> ('s \<Rightarrow> 's)) list \<Rightarrow> 's \<Rightarrow>
     'a res option \<times> 's" where
  "recv db ctx ty topic rounds s =
     (case current_workflow_id ctx of
        Inl e \<Rightarrow> (Some (Inl e), s)
      | Inr workflow_id \<Rightarrow>
          (case poll_rounds (db_recv_message db workflow_id topic)
                  (timeout_error (''timed out receiving topic '' @ topic)) rounds s of
             (answer, s') \<Rightarrow> (map_option (\<lambda>r. res_bind r (received (cx_codec ctx) ty)) answer, s')))"

section \<open>Events\<close>

definition set_event_with_options ::
    "'s system_database \<Rightarrow> dbos_context \<Rightarrow> datetime \<Rightarrow> 'a serde \<Rightarrow> string \<Rightarrow> 'a \<Rightarrow> bool \<Rightarrow> ('s, unit) dbact" where
  "set_event_with_options db ctx now ty key value portable =
     act_bind (act_lift (current_workflow_id ctx)) (\<lambda>workflow_id.
     act_bind (act_lift (encode_serializable (cx_codec ctx) ty value portable)) (\<lambda>encoded.
       db_set_event db
         \<lparr>ev_workflow_uuid = workflow_id, ev_key = key,
          ev_value = (case enc_data encoded of Some d \<Rightarrow> JString d | None \<Rightarrow> JNull),
          ev_serialization = enc_serialization encoded, ev_created_at = now\<rparr>))"

definition set_event ::
    "'s system_database \<Rightarrow> dbos_context \<Rightarrow> datetime \<Rightarrow> 'a serde \<Rightarrow> string \<Rightarrow> 'a \<Rightarrow> ('s, unit) dbact" where
  "set_event db ctx now ty key value = set_event_with_options db ctx now ty key value False"

definition event_value :: "codec \<Rightarrow> 'a serde \<Rightarrow> workflow_event \<Rightarrow> 'a res" where
  "event_value c ty e = decode_stored_value c ty (Some (ev_value e)) (ev_serialization e)"

definition get_event ::
    "'s system_database \<Rightarrow> dbos_context \<Rightarrow> 'a serde \<Rightarrow> string \<Rightarrow> string \<Rightarrow> (bool \<times> ('s \<Rightarrow> 's)) list \<Rightarrow> 's \<Rightarrow>
     'a res option \<times> 's" where
  "get_event db ctx ty target_workflow_id key rounds s =
     (case poll_rounds (db_get_event db target_workflow_id key)
             (timeout_error (''timed out getting event '' @ key @ '' from workflow '' @ target_workflow_id)) rounds s of
        (answer, s') \<Rightarrow> (map_option (\<lambda>r. res_bind r (event_value (cx_codec ctx) ty)) answer, s'))"

section \<open>Streams\<close>

definition write_stream_with_options ::
    "'s system_database \<Rightarrow> dbos_context \<Rightarrow> datetime \<Rightarrow> 'a serde \<Rightarrow> string \<Rightarrow> 'a \<Rightarrow> bool \<Rightarrow> ('s, unit) dbact" where
  "write_stream_with_options db ctx now ty key value portable =
     act_bind (act_lift (current_workflow_id ctx)) (\<lambda>workflow_id.
     act_bind (db_read_stream db workflow_id key) (\<lambda>existing.
     act_bind (act_lift (stream_offset (length existing))) (\<lambda>off.
     act_bind (act_lift (encode_serializable (cx_codec ctx) ty value portable)) (\<lambda>encoded.
       db_write_stream db
         \<lparr>se_workflow_uuid = workflow_id, se_key = key, se_offset = off,
          se_value = map_option JString (enc_data encoded), se_serialization = enc_serialization encoded,
          se_closed = False, se_created_at = now\<rparr>))))"

definition write_stream ::
    "'s system_database \<Rightarrow> dbos_context \<Rightarrow> datetime \<Rightarrow> 'a serde \<Rightarrow> string \<Rightarrow> 'a \<Rightarrow> ('s, unit) dbact" where
  "write_stream db ctx now ty key value = write_stream_with_options db ctx now ty key value False"

definition close_stream :: "'s system_database \<Rightarrow> dbos_context \<Rightarrow> datetime \<Rightarrow> string \<Rightarrow> ('s, unit) dbact" where
  "close_stream db ctx now key =
     act_bind (act_lift (current_workflow_id ctx)) (\<lambda>workflow_id. db_close_stream db now workflow_id key)"

text \<open>Decoding stops at the first entry that does not decode.\<close>

fun decode_entries :: "codec \<Rightarrow> 'a serde \<Rightarrow> stream_entry list \<Rightarrow> 'a list res" where
  "decode_entries c ty [] = Inr []"
| "decode_entries c ty (entry # entries) =
     res_bind (decode_stored_value c ty (se_value entry) (se_serialization entry)) (\<lambda>v.
       res_map (\<lambda>vs. v # vs) (decode_entries c ty entries))"

definition read_entries :: "codec \<Rightarrow> 'a serde \<Rightarrow> int \<Rightarrow> stream_entry list \<Rightarrow> ('a list \<times> bool) res" where
  "read_entries c ty from_offset entries =
     res_map (\<lambda>vs. (vs, \<exists>entry \<in> set entries. se_closed entry))
       (decode_entries c ty (filter (\<lambda>entry. from_offset \<le> se_offset entry \<and> \<not> se_closed entry) entries))"

definition read_stream_with_options ::
    "'s system_database \<Rightarrow> dbos_context \<Rightarrow> 'a serde \<Rightarrow> string \<Rightarrow> string \<Rightarrow> read_stream_options \<Rightarrow> ('s, 'a list \<times> bool) dbact" where
  "read_stream_with_options db ctx ty workflow_id key opts =
     (if rs_from_offset opts < 0
      then act_fail (invalid_argument ''stream from_offset must be non-negative'')
      else act_bind (db_read_stream db workflow_id key) (\<lambda>entries.
             act_lift (read_entries (cx_codec ctx) ty (rs_from_offset opts) entries)))"

definition read_stream ::
    "'s system_database \<Rightarrow> dbos_context \<Rightarrow> 'a serde \<Rightarrow> string \<Rightarrow> string \<Rightarrow> ('s, 'a list \<times> bool) dbact" where
  "read_stream db ctx ty workflow_id key =
     read_stream_with_options db ctx ty workflow_id key \<lparr>rs_snapshot = False, rs_from_offset = 0\<rparr>"

text \<open>
  The task behind \<open>read_stream_async\<close>: it reads again and again and sends what it has not sent yet.
  An element of the list is the result of one read; \<open>room\<close> is how many values the receiver takes before
  it goes away. The result says whether the task has ended.
\<close>

record 'a stream_value =
  sv_value :: "'a option"
  sv_closed :: bool
  sv_error :: "string option"

definition stream_item :: "'a \<Rightarrow> 'a stream_value" where
  "stream_item v = \<lparr>sv_value = Some v, sv_closed = False, sv_error = None\<rparr>"

definition stream_closed :: "'a stream_value" where
  "stream_closed = \<lparr>sv_value = None, sv_closed = True, sv_error = None\<rparr>"

definition stream_failed :: "dbos_error \<Rightarrow> 'a stream_value" where
  "stream_failed e = \<lparr>sv_value = None, sv_closed = False, sv_error = Some (error_to_string e)\<rparr>"

fun stream_async ::
    "nat \<Rightarrow> nat \<Rightarrow> ('a list \<times> bool) res list \<Rightarrow> 'a stream_value list \<times> bool" where
  "stream_async room sent [] = ([], False)"
| "stream_async room sent (Inl e # reads) =
     ((if room = 0 then [] else [stream_failed e]), True)"
| "stream_async room sent (Inr (values, closed) # reads) =
     (let fresh = drop sent values in
      if room < length fresh then (map stream_item (take room fresh), True)
      else if closed
      then (map stream_item fresh @ (if room = length fresh then [] else [stream_closed]), True)
      else (case stream_async (room - length fresh) (sent + length fresh) reads of
              (out, done) \<Rightarrow> (map stream_item fresh @ out, done)))"

end
