(* ===== verification/Messaging_Stores.thy ===== *)
theory Messaging_Stores
  imports Messaging Store_Properties
begin

text \<open>
  What messages, events and streams rely on in a store: three contracts, and their interpretations on
  the in-memory store and on the SQL stores. The view of a mailbox is the multiset of the messages
  that wait for a destination and topic, because the stores hand them out in different orders.
\<close>

locale mail_store =
  fixes db :: "'s system_database"
    and inv :: "'s \<Rightarrow> bool"
    and mailbox :: "'s \<Rightarrow> string \<Rightarrow> string \<Rightarrow> workflow_message multiset"
  assumes recv_none: "inv s \<Longrightarrow> mailbox s d t = {#} \<Longrightarrow> db_recv_message db d t s = (r, s') \<Longrightarrow>
      r = Inr None \<and> inv s' \<and> mailbox s' d t = {#}"
    and recv_some: "inv s \<Longrightarrow> mailbox s d t \<noteq> {#} \<Longrightarrow> db_recv_message db d t s = (r, s') \<Longrightarrow>
      \<exists>m. m \<in># mailbox s d t \<and> r = Inr (Some (m\<lparr>msg_consumed := True\<rparr>)) \<and> inv s' \<and>
        mailbox s' d t = mailbox s d t - {#m#}"
    and send_first: "inv s \<Longrightarrow> mailbox s (msg_destination_id m) (msg_topic m) = {#} \<Longrightarrow> \<not> msg_consumed m \<Longrightarrow>
      db_send_message db m s = (u, s') \<Longrightarrow>
      u = Inr () \<and> inv s' \<and> mailbox s' (msg_destination_id m) (msg_topic m) = {#m#}"

locale event_store =
  fixes db :: "'s system_database"
    and inv :: "'s \<Rightarrow> bool"
    and event_at :: "'s \<Rightarrow> string \<Rightarrow> string \<Rightarrow> workflow_event option"
  assumes event_get: "inv s \<Longrightarrow> db_get_event db i k s = (r, s') \<Longrightarrow> r = Inr (event_at s i k) \<and> s' = s"
    and event_set: "inv s \<Longrightarrow> db_set_event db e s = (u, s') \<Longrightarrow>
      u = Inr () \<and> inv s' \<and> event_at s' (ev_workflow_uuid e) (ev_key e) = Some e"

locale stream_store =
  fixes db :: "'s system_database"
    and inv :: "'s \<Rightarrow> bool"
    and stream_at :: "'s \<Rightarrow> string \<Rightarrow> string \<Rightarrow> stream_entry list"
  assumes stream_read: "inv s \<Longrightarrow> db_read_stream db i k s = (r, s') \<Longrightarrow> r = Inr (stream_at s i k) \<and> s' = s"
    and stream_write: "inv s \<Longrightarrow> \<forall>x \<in> set (stream_at s (se_workflow_uuid e) (se_key e)). se_offset x < se_offset e \<Longrightarrow>
      db_write_stream db e s = (u, s') \<Longrightarrow>
      u = Inr () \<and> inv s' \<and>
      stream_at s' (se_workflow_uuid e) (se_key e) = stream_at s (se_workflow_uuid e) (se_key e) @ [e]"
    and stream_close: "inv s \<Longrightarrow> \<forall>x \<in> set (stream_at s i k). se_offset x < int (length (stream_at s i k)) \<Longrightarrow>
      stream_offset (length (stream_at s i k)) = Inr off \<Longrightarrow> db_close_stream db now i k s = (u, s') \<Longrightarrow>
      u = Inr () \<and> inv s' \<and> stream_at s' i k = stream_at s i k @ [closing_entry now i k off]"

section \<open>The in-memory store\<close>

definition mem_mailbox :: "memory_data \<Rightarrow> string \<Rightarrow> string \<Rightarrow> workflow_message multiset" where
  "mem_mailbox s d t = mset (waiting s d t)"

lemma waiting_Cons:
  "mem_mailbox s d t \<noteq> {#} \<Longrightarrow> \<exists>m ms. waiting s d t = m # ms"
  by (cases "waiting s d t") (auto simp: mem_mailbox_def)

interpretation mem_mail: mail_store memory_store mem_inv mem_mailbox
proof (unfold_locales, goal_cases)
  case (1 s d t r s')
  then have "mem_recv_message d t s = (r, s')" "waiting s d t = []"
    by (simp_all add: memory_store_def mem_mailbox_def)
  then show ?case
    using mem_messages_fifo_parts(1) [of d t s r s'] 1(1)
    by (auto simp: mem_recv_message_def mem_inv_def mem_mailbox_def split: option.splits prod.splits)
next
  case (2 s d t r s')
  then obtain m ms where w: "waiting s d t = m # ms" using waiting_Cons by blast
  from 2(3) have r: "mem_recv_message d t s = (r, s')" by (simp add: memory_store_def)
  with mem_messages_fifo_parts(1) [OF r] w have "r = Inr (Some (m\<lparr>msg_consumed := True\<rparr>))" "waiting s' d t = ms"
    by auto
  moreover have "mem_inv s'"
    using r 2(1) by (auto simp: mem_recv_message_def mem_inv_def split: option.splits prod.splits)
  ultimately show ?case using w by (auto simp: mem_mailbox_def)
next
  case (3 s m u s')
  then show ?case
    by (auto simp: memory_store_def mem_send_message_def mem_mailbox_def waiting_def awaits_def mem_inv_def)
qed

interpretation mem_events: event_store memory_store mem_inv "\<lambda>s i k. hm_get (md_events s) (i, k)"
  by unfold_locales
    (auto simp: memory_store_def mem_get_event_def mem_set_event_def mem_inv_def
      intro!: hm_keyed_insert [where f = "\<lambda>e. (ev_workflow_uuid e, ev_key e)"])

lemma mem_streams_update: "mem_inv s \<Longrightarrow> mem_inv (s\<lparr>md_streams := hm_insert k v (md_streams s)\<rparr>)"
  by (simp add: mem_inv_def)

interpretation mem_streams: stream_store memory_store mem_inv "\<lambda>s i k. stream_entries s (i, k)"
proof (unfold_locales, goal_cases)
  case (1 s i k r s')
  then show ?case by (auto simp: memory_store_def mem_read_stream_def)
next
  case (2 s e u s')
  then show ?case
    by (auto simp: memory_store_def mem_write_stream_def Let_def stream_entries_def mem_streams_update)
next
  case (3 s i k off now u s')
  then show ?case
    by (auto simp: memory_store_def mem_close_stream_def Let_def stream_entries_def mem_streams_update)
qed

section \<open>The SQL stores\<close>

text \<open>The typed rows of a kind, in table order.\<close>

definition typed_rows :: "(payload \<Rightarrow> 'a res) \<Rightarrow> string \<Rightarrow> table \<Rightarrow> 'a list" where
  "typed_rows decode kind t = (case decode_all decode (rows_of kind t) of Inr xs \<Rightarrow> xs | Inl _ \<Rightarrow> [])"

lemma typed_rows:
  assumes "table_ok t" "\<And>i p. row_ok kind i p \<Longrightarrow> \<exists>x. p = con x \<and> i = key x" "\<And>x. decode (con x) = Inr x"
  shows "decode_all decode (rows_of kind t) = Inr (typed_rows decode kind t)"
    and "set (typed_rows decode kind t) = {x. hm_get t (kind, key x) = Some (con x)}"
    and "distinct (map key (typed_rows decode kind t))"
proof -
  from decode_rows [where con = con and key = key and decode = decode and kind = kind, OF assms]
  obtain xs where "decode_all decode (rows_of kind t) = Inr xs" "set xs = {x. hm_get t (kind, key x) = Some (con x)}"
    "distinct (map key xs)" by blast
  then show "decode_all decode (rows_of kind t) = Inr (typed_rows decode kind t)"
    and "set (typed_rows decode kind t) = {x. hm_get t (kind, key x) = Some (con x)}"
    and "distinct (map key (typed_rows decode kind t))"
    by (simp_all add: typed_rows_def)
qed

abbreviation sql_message_rows :: "sql_state \<Rightarrow> workflow_message list" where
  "sql_message_rows s \<equiv> typed_rows as_message ''message'' (sql_table s)"

abbreviation sql_stream_rows :: "sql_state \<Rightarrow> stream_entry list" where
  "sql_stream_rows s \<equiv> typed_rows as_stream ''stream'' (sql_table s)"

lemma message_rows:
  assumes "sql_inv s"
  shows "decode_all as_message (rows_of ''message'' (sql_table s)) = Inr (sql_message_rows s)"
    and "set (sql_message_rows s) = {m. hm_get (sql_table s) (''message'', message_key m) = Some (PMessage m)}"
    and "distinct (sql_message_rows s)"
  using typed_rows [of "sql_table s" "''message''" PMessage message_key as_message] assms
  by (auto simp: row_ok_kind as_message_def sql_inv_def distinct_map)

lemma stream_rows:
  assumes "sql_inv s"
  shows "decode_all as_stream (rows_of ''stream'' (sql_table s)) = Inr (sql_stream_rows s)"
    and "set (sql_stream_rows s) =
      {e. hm_get (sql_table s) (''stream'', stream_key (se_workflow_uuid e) (se_key e) (se_offset e)) = Some (PStream e)}"
    and "distinct (sql_stream_rows s)"
  using typed_rows [of "sql_table s" "''stream''" PStream
      "\<lambda>e. stream_key (se_workflow_uuid e) (se_key e) (se_offset e)" as_stream] assms
  by (auto simp: row_ok_kind as_stream_def sql_inv_def distinct_map)

definition sql_mailbox :: "sql_state \<Rightarrow> string \<Rightarrow> string \<Rightarrow> workflow_message multiset" where
  "sql_mailbox s d t = mset (filter (awaits d t) (sql_message_rows s))"

definition sql_stream_at :: "sql_state \<Rightarrow> string \<Rightarrow> string \<Rightarrow> stream_entry list" where
  "sql_stream_at s i k = sort_key se_offset (filter (\<lambda>e. se_workflow_uuid e = i \<and> se_key e = k) (sql_stream_rows s))"

text \<open>A mailbox is determined by its set, because the rows are distinct.\<close>

lemma sql_mailbox_eq: "sql_inv s \<Longrightarrow> sql_mailbox s d t = mset_set (set (filter (awaits d t) (sql_message_rows s)))"
  unfolding sql_mailbox_def by (metis distinct_filter message_rows(3) mset_set_set)

lemma sql_put_inv:
  "sql_inv s \<Longrightarrow> row_ok kind i p \<Longrightarrow> sql_inv (s\<lparr>sql_table := hm_insert (kind, i) p (sql_table s)\<rparr>)"
  by (simp add: sql_inv_def table_ok_insert)

lemma stream_key_offset: "stream_key i k m = stream_key i k n \<longleftrightarrow> m = n"
  by (simp add: stream_key_def show_int_inj)

text \<open>A new row with the largest offset comes last.\<close>

lemma sort_key_append_max:
  assumes "distinct xs" "distinct ys" "set ys = insert x (set xs)" "\<forall>y \<in> set xs. f y < f x"
    and "inj_on f (set xs)"
  shows "sort_key f ys = sort_key f xs @ [x]"
proof -
  have "x \<notin> set xs" using assms(4) by auto
  have "mset ys = mset_set (set ys)" "mset xs = mset_set (set xs)"
    using assms(1,2) by (simp_all add: mset_set_set)
  with assms(3) \<open>x \<notin> set xs\<close> have m: "mset ys = mset (sort_key f xs @ [x])" by simp
  have "inj_on f (set ys)" using assms(3-5) by (auto simp: inj_on_def)
  with m have "sort_key f ys = sort_key f (sort_key f xs @ [x])" by (rule sort_key_mset_eq)
  also have "\<dots> = sort_key f xs @ [x]"
    using assms(4) by (intro sort_key_id_if_sorted) (auto simp: sorted_append intro: less_imp_le)
  finally show ?thesis .
qed

context healthy_kv
begin

lemma sql_read_stream_run:
  assumes "sql_inv s"
  shows "sql_read_stream kv i k s = (Inr (sql_stream_at s i k), s)"
  using assms stream_rows(1) [OF assms]
  by (simp add: sql_read_stream_def list_as_healthy act_bind_def sql_stream_at_def sql_inv_def)

lemma sql_write_stream_run:
  assumes "sql_inv s"
    and "\<forall>x \<in> set (sql_stream_at s (se_workflow_uuid e) (se_key e)). se_offset x < se_offset e"
  shows "\<exists>s'. sql_write_stream kv e s = (Inr (), s') \<and> sql_inv s' \<and>
    sql_stream_at s' (se_workflow_uuid e) (se_key e) = sql_stream_at s (se_workflow_uuid e) (se_key e) @ [e]"
proof -
  let ?i = "se_workflow_uuid e" and ?k = "se_key e"
  let ?s = "s\<lparr>sql_table := hm_insert (''stream'', stream_key ?i ?k (se_offset e)) (PStream e) (sql_table s)\<rparr>"
  let ?own = "\<lambda>s. filter (\<lambda>e. se_workflow_uuid e = ?i \<and> se_key e = ?k) (sql_stream_rows s)"
  have inv: "sql_inv ?s" by (rule sql_put_inv [OF assms(1)]) (simp add: row_ok_kind)
  have less: "\<forall>x \<in> set (?own s). se_offset x < se_offset e" using assms(2) by (simp add: sql_stream_at_def)
  have "set (?own ?s) = insert e (set (?own s))"
    using less stream_rows(2) [OF assms(1)] stream_rows(2) [OF inv] by (auto simp: stream_key_offset)
  moreover have "inj_on se_offset (set (?own s))"
    using stream_rows(2) [OF assms(1)] by (auto simp: inj_on_def)
  ultimately have "sort_key se_offset (?own ?s) = sort_key se_offset (?own s) @ [e]"
    using stream_rows(3) [OF assms(1)] stream_rows(3) [OF inv] less by (intro sort_key_append_max) simp_all
  with inv assms(1) show ?thesis
    by (simp add: sql_write_stream_def kv_put sql_inv_def sql_stream_at_def)
qed

lemma sql_close_stream_run:
  assumes "sql_inv s" "\<forall>x \<in> set (sql_stream_at s i k). se_offset x < int (length (sql_stream_at s i k))"
    and "stream_offset (length (sql_stream_at s i k)) = Inr off"
  shows "\<exists>s'. sql_close_stream kv now i k s = (Inr (), s') \<and> sql_inv s' \<and>
    sql_stream_at s' i k = sql_stream_at s i k @ [closing_entry now i k off]"
proof -
  have off: "off = int (length (sql_stream_at s i k))" using assms(3) by (auto simp: stream_offset_def split: if_splits)
  have e: "se_workflow_uuid (closing_entry now i k off) = i" "se_key (closing_entry now i k off) = k"
    "se_offset (closing_entry now i k off) = off" by (simp_all add: closing_entry_def)
  from sql_write_stream_run [OF assms(1), of "closing_entry now i k off"] assms(2) off e show ?thesis
    by (auto simp: sql_close_stream_def act_bind_def sql_read_stream_run [OF assms(1)] assms(3))
qed

lemma sql_event_laws:
  assumes "sql_inv s"
  shows "\<exists>s'. sql_set_event kv e s = (Inr (), s') \<and> sql_inv s' \<and>
      sql_get_event kv (ev_workflow_uuid e) (ev_key e) s' = (Inr (Some e), s')"
    and "\<exists>x. sql_get_event kv i k s = (Inr x, s)"
proof -
  show "\<exists>x. sql_get_event kv i k s = (Inr x, s)"
    using assms table_okD [of "sql_table s" "''event''" "event_key i k"]
    by (auto simp: sql_get_event_def get_as_healthy sql_inv_def row_ok_kind as_event_def split: option.splits)
  let ?s = "s\<lparr>sql_table := hm_insert (''event'', event_key (ev_workflow_uuid e) (ev_key e)) (PEvent e) (sql_table s)\<rparr>"
  have "sql_inv ?s" by (rule sql_put_inv [OF assms]) (simp add: row_ok_kind)
  with assms show "\<exists>s'. sql_set_event kv e s = (Inr (), s') \<and> sql_inv s' \<and>
      sql_get_event kv (ev_workflow_uuid e) (ev_key e) s' = (Inr (Some e), s')"
    by (simp add: sql_set_event_def sql_get_event_def kv_put get_as_healthy sql_inv_def as_event_def)
qed

lemma sql_send_run:
  assumes "sql_inv s" "sql_mailbox s (msg_destination_id m) (msg_topic m) = {#}" "\<not> msg_consumed m"
  shows "\<exists>s'. sql_send_message kv m s = (Inr (), s') \<and> sql_inv s' \<and>
    sql_mailbox s' (msg_destination_id m) (msg_topic m) = {#m#}"
proof -
  let ?P = "awaits (msg_destination_id m) (msg_topic m)"
  let ?s = "s\<lparr>sql_table := hm_insert (''message'', message_key m) (PMessage m) (sql_table s)\<rparr>"
  have inv: "sql_inv ?s" by (rule sql_put_inv [OF assms(1)]) (simp add: row_ok_kind)
  have "filter ?P (sql_message_rows s) = []" using assms(2) by (simp add: sql_mailbox_def)
  then have none: "\<forall>m' \<in> set (sql_message_rows s). \<not> ?P m'" by (simp add: filter_empty_conv)
  have "?P m" using assms(3) by (simp add: awaits_def)
  then have "set (filter ?P (sql_message_rows ?s)) = {m}"
    using none message_rows(2) [OF assms(1)] message_rows(2) [OF inv] by (auto split: if_splits)
  then have "sql_mailbox ?s (msg_destination_id m) (msg_topic m) = {#m#}" by (simp add: sql_mailbox_eq [OF inv])
  with inv assms(1) show ?thesis by (simp add: sql_send_message_def kv_put sql_inv_def)
qed

lemma sql_recv_read_run:
  assumes "sql_inv s"
  shows "sql_recv_read kv d t s =
    (case sort_key msg_created_at (filter (awaits d t) (sql_message_rows s)) of [] \<Rightarrow> (Inr None, s) | m # _ \<Rightarrow> (Inr (Some m), s))"
proof -
  have P: "(\<lambda>m. \<not> msg_consumed m \<and> msg_destination_id m = d \<and> msg_topic m = t) = awaits d t"
    by (auto simp: awaits_def fun_eq_iff)
  show ?thesis
    using assms message_rows(1) [OF assms]
    by (simp add: sql_recv_read_def P list_as_healthy act_bind_def sql_inv_def split: list.splits)
qed

lemma sql_recv_run:
  assumes "sql_inv s"
  shows "sql_mailbox s d t = {#} \<Longrightarrow> sql_recv_message kv d t s = (Inr None, s)"
    and "sql_mailbox s d t \<noteq> {#} \<Longrightarrow> \<exists>m s'. m \<in># sql_mailbox s d t \<and>
      sql_recv_message kv d t s = (Inr (Some (m\<lparr>msg_consumed := True\<rparr>)), s') \<and> sql_inv s' \<and>
      sql_mailbox s' d t = sql_mailbox s d t - {#m#}"
proof -
  let ?own = "filter (awaits d t) (sql_message_rows s)"
  note read = sql_recv_read_run [OF assms, of d t]
  show "sql_recv_message kv d t s = (Inr None, s)" if "sql_mailbox s d t = {#}"
    using that by (simp add: sql_recv_message_def act_bind_def read sql_mailbox_def)
  assume "sql_mailbox s d t \<noteq> {#}"
  then have "sort_key msg_created_at ?own \<noteq> []"
    by (metis mset_sort mset_zero_iff sql_mailbox_def)
  then obtain m rest where m: "sort_key msg_created_at ?own = m # rest" by (cases "sort_key msg_created_at ?own") auto
  then have own: "m \<in> set ?own" by (metis list.set_intros(1) set_sort)
  let ?m = "m\<lparr>msg_consumed := True\<rparr>"
  have key: "message_key ?m = message_key m" by (simp add: message_key_def)
  let ?s = "s\<lparr>sql_table := hm_insert (''message'', message_key m) (PMessage ?m) (sql_table s)\<rparr>"
  have inv: "sql_inv ?s" by (rule sql_put_inv [OF assms]) (simp add: row_ok_kind key)
  have "x \<in> set (filter (awaits d t) (sql_message_rows ?s)) \<longleftrightarrow> x \<in> set ?own - {m}" for x
  proof (cases "message_key x = message_key m")
    case True
    have "\<not> awaits d t ?m" by (simp add: awaits_def)
    moreover have "hm_get (sql_table s) (''message'', message_key m) = Some (PMessage m)" using own message_rows(2) [OF assms] by simp
    ultimately show ?thesis using True message_rows(2) [OF assms] message_rows(2) [OF inv] by auto
  next
    case False
    then show ?thesis using message_rows(2) [OF assms] message_rows(2) [OF inv] by auto
  qed
  then have "set (filter (awaits d t) (sql_message_rows ?s)) = set ?own - {m}" by blast
  then have "sql_mailbox ?s d t = sql_mailbox s d t - {#m#}"
    using own by (simp add: sql_mailbox_eq [OF inv] sql_mailbox_eq [OF assms] mset_set_Diff)
  moreover have "sql_recv_message kv d t s = (Inr (Some ?m), ?s)"
    using assms by (simp add: sql_recv_message_def act_bind_def read m sql_recv_consume_def Let_def kv_put key sql_inv_def)
  moreover have "m \<in># sql_mailbox s d t" using own by (simp add: sql_mailbox_def)
  ultimately show "\<exists>m s'. m \<in># sql_mailbox s d t \<and>
      sql_recv_message kv d t s = (Inr (Some (m\<lparr>msg_consumed := True\<rparr>)), s') \<and> sql_inv s' \<and>
      sql_mailbox s' d t = sql_mailbox s d t - {#m#}" using inv by blast
qed

end

definition sql_event_at :: "sql_state \<Rightarrow> string \<Rightarrow> string \<Rightarrow> workflow_event option" where
  "sql_event_at s i k = (case hm_get (sql_table s) (''event'', event_key i k) of Some (PEvent e) \<Rightarrow> Some e | _ \<Rightarrow> None)"

context healthy_methods
begin

lemma methods_mail: "mail_store (sql_methods kv migrate insertion claiming) sql_inv sql_mailbox"
proof (unfold_locales, simp_all only: sql_methods_def system_database.simps, goal_cases)
  case (1 s d t r s')
  with sql_recv_run(1) [OF 1(1,2)] show ?case by simp
next
  case (2 s d t r s')
  from sql_recv_run(2) [OF 2(1,2)] 2(3) show ?case by auto
next
  case (3 s m u s')
  from sql_send_run [OF 3(1-3)] 3(4) show ?case by auto
qed

lemma methods_events: "event_store (sql_methods kv migrate insertion claiming) sql_inv sql_event_at"
proof (unfold_locales, simp_all only: sql_methods_def system_database.simps, goal_cases)
  case (1 s i k r s')
  then show ?case
    using table_okD [of "sql_table s" "''event''" "event_key i k"]
    by (auto simp: sql_get_event_def get_as_healthy sql_inv_def row_ok_kind as_event_def sql_event_at_def
        split: option.splits)
next
  case (2 s e u s')
  from sql_event_laws(1) [OF 2(1), of e] 2 show ?case
    by (auto simp: sql_set_event_def kv_put sql_inv_def sql_event_at_def)
qed

lemma methods_streams: "stream_store (sql_methods kv migrate insertion claiming) sql_inv sql_stream_at"
proof (unfold_locales, simp_all only: sql_methods_def system_database.simps, goal_cases)
  case (1 s i k r s')
  with sql_read_stream_run [OF 1(1)] show ?case by auto
next
  case (2 s e u s')
  from sql_write_stream_run [OF 2(1,2)] 2(3) show ?case by auto
next
  case (3 s i k off now u s')
  from sql_close_stream_run [OF 3(1-3), where now = now] 3(4) show ?case by auto
qed

end

sublocale healthy_methods \<subseteq> mail_store "sql_methods kv migrate insertion claiming" sql_inv sql_mailbox
  by (rule methods_mail)

sublocale healthy_methods \<subseteq> event_store "sql_methods kv migrate insertion claiming" sql_inv sql_event_at
  by (rule methods_events)

sublocale healthy_methods \<subseteq> stream_store "sql_methods kv migrate insertion claiming" sql_inv sql_stream_at
  by (rule methods_streams)

end
