(* ===== verification/Store_Calls.thy ===== *)
theory Store_Calls
  imports Store_Properties Messaging_Stores
begin

text \<open>
  Sequences of calls of the database. Every method of the trait is a constructor of \<open>store_call\<close>, so that a property
  of every possible client of a store is a property of every list of calls: the SQL tables stay well typed
  whatever fails, the in-memory store keeps its invariant, and on a healthy connection the two SQL stores cannot be
  told apart.
\<close>

section \<open>Calls\<close>

datatype store_call =
    CMigrate
  | CInsert workflow_status
  | CInsertWithResult workflow_status
  | CClaim datetime string string string
  | CSave workflow_status
  | CGet string
  | CList list_workflows_options
  | CDelete "string list" delete_workflow_options
  | CRecordStep step_info
  | CGetStep string int
  | CListSteps string
  | CUpsertQueue workflow_queue
  | CGetQueue string
  | CListQueues
  | CDeleteQueue string
  | CUpsertSchedule workflow_schedule
  | CGetSchedule string
  | CListSchedules list_schedules_options
  | CDeleteSchedule string
  | CSendMessage workflow_message
  | CRecvMessage string string
  | CListMessages string
  | CSetEvent workflow_event
  | CGetEvent string string
  | CListEvents string
  | CWriteStream stream_entry
  | CReadStream string string
  | CListStreams string
  | CCloseStream datetime string string
  | CCreateVersion version_info
  | CListVersions
  | CSetLatestVersion datetime string
  | CSetPatch string bool
  | CGetPatch string

datatype store_answer =
    ADone
  | AInserted workflow_insert_result
  | AFlag bool
  | AWorkflow "workflow_status option"
  | AWorkflows "workflow_status list"
  | AStep "step_info option"
  | ASteps "step_info list"
  | AQueue "workflow_queue option"
  | AQueues "workflow_queue list"
  | ASchedule "workflow_schedule option"
  | ASchedules "workflow_schedule list"
  | AMessage "workflow_message option"
  | AMessages "workflow_message list"
  | AEvent "workflow_event option"
  | AEvents "workflow_event list"
  | AEntries "stream_entry list"
  | AVersions "version_info list"
  | APatch "bool option"

definition answered :: "('a \<Rightarrow> store_answer) \<Rightarrow> ('s, 'a) dbact \<Rightarrow> ('s, store_answer) dbact" where
  "answered f m = act_bind m (\<lambda>x. act_return (f x))"

fun call_store :: "'s system_database \<Rightarrow> store_call \<Rightarrow> ('s, store_answer) dbact" where
  "call_store db CMigrate = answered (\<lambda>_. ADone) (db_migrate db)"
| "call_store db (CInsert w) = answered (\<lambda>_. ADone) (db_insert_workflow db w)"
| "call_store db (CInsertWithResult w) = answered AInserted (db_insert_workflow_with_result db w)"
| "call_store db (CClaim now i ex xid) = answered AFlag (db_claim_workflow_execution db now i ex xid)"
| "call_store db (CSave w) = answered (\<lambda>_. ADone) (db_save_workflow db w)"
| "call_store db (CGet i) = answered AWorkflow (db_get_workflow db i)"
| "call_store db (CList opts) = answered AWorkflows (db_list_workflows db opts)"
| "call_store db (CDelete ids opts) = answered (\<lambda>_. ADone) (db_delete_workflows db ids opts)"
| "call_store db (CRecordStep st) = answered (\<lambda>_. ADone) (db_record_step db st)"
| "call_store db (CGetStep i n) = answered AStep (db_get_step db i n)"
| "call_store db (CListSteps i) = answered ASteps (db_list_steps db i)"
| "call_store db (CUpsertQueue q) = answered (\<lambda>_. ADone) (db_upsert_queue db q)"
| "call_store db (CGetQueue i) = answered AQueue (db_get_queue db i)"
| "call_store db CListQueues = answered AQueues (db_list_queues db)"
| "call_store db (CDeleteQueue i) = answered (\<lambda>_. ADone) (db_delete_queue db i)"
| "call_store db (CUpsertSchedule sc) = answered (\<lambda>_. ADone) (db_upsert_schedule db sc)"
| "call_store db (CGetSchedule i) = answered ASchedule (db_get_schedule db i)"
| "call_store db (CListSchedules opts) = answered ASchedules (db_list_schedules db opts)"
| "call_store db (CDeleteSchedule i) = answered (\<lambda>_. ADone) (db_delete_schedule db i)"
| "call_store db (CSendMessage m) = answered (\<lambda>_. ADone) (db_send_message db m)"
| "call_store db (CRecvMessage i topic) = answered AMessage (db_recv_message db i topic)"
| "call_store db (CListMessages i) = answered AMessages (db_list_messages db i)"
| "call_store db (CSetEvent e) = answered (\<lambda>_. ADone) (db_set_event db e)"
| "call_store db (CGetEvent i key) = answered AEvent (db_get_event db i key)"
| "call_store db (CListEvents i) = answered AEvents (db_list_events db i)"
| "call_store db (CWriteStream e) = answered (\<lambda>_. ADone) (db_write_stream db e)"
| "call_store db (CReadStream i key) = answered AEntries (db_read_stream db i key)"
| "call_store db (CListStreams i) = answered AEntries (db_list_streams db i)"
| "call_store db (CCloseStream now i key) = answered (\<lambda>_. ADone) (db_close_stream db now i key)"
| "call_store db (CCreateVersion v) = answered (\<lambda>_. ADone) (db_create_application_version db v)"
| "call_store db CListVersions = answered AVersions (db_list_application_versions db)"
| "call_store db (CSetLatestVersion now i) = answered (\<lambda>_. ADone) (db_set_latest_application_version db now i)"
| "call_store db (CSetPatch i active) = answered (\<lambda>_. ADone) (db_set_patch db i active)"
| "call_store db (CGetPatch i) = answered APatch (db_get_patch db i)"

fun run_calls :: "'s system_database \<Rightarrow> store_call list \<Rightarrow> 's \<Rightarrow> store_answer res list \<times> 's" where
  "run_calls db [] s = ([], s)"
| "run_calls db (c # cs) s =
     (case call_store db c s of
        (r, s') \<Rightarrow> (case run_calls db cs s' of (rs, s'') \<Rightarrow> (r # rs, s'')))"

lemma run_calls_invariant:
  assumes "\<And>c s r s'. I s \<Longrightarrow> call_store db c s = (r, s') \<Longrightarrow> I s' \<and> A r"
    and "I s" "run_calls db cs s = (rs, s')"
  shows "I s' \<and> (\<forall>r \<in> set rs. A r)"
  using assms(2,3)
proof (induction cs arbitrary: s rs)
  case (Cons c cs)
  obtain r t where c: "call_store db c s = (r, t)" by fastforce
  obtain rs' where cs: "run_calls db cs t = (rs', s')" "rs = r # rs'"
    using Cons.prems(2) c by (auto split: prod.splits)
  from assms(1) [OF Cons.prems(1) c] Cons.IH [OF _ cs(1)] cs(2) show ?case by simp
qed simp

section \<open>Well-typed tables\<close>

text \<open>
  \<open>typed Q m\<close>: on a well-typed table, \<open>m\<close> leaves a well-typed one, whatever statements and connections fail, does not fail
  with a serialization error, and its result satisfies \<open>Q\<close>.
\<close>

named_theorems typed_intros \<open>compositions of typed actions\<close>

definition typed :: "('a \<Rightarrow> bool) \<Rightarrow> (sql_state, 'a) dbact \<Rightarrow> bool" where
  "typed Q m \<longleftrightarrow>
     (\<forall>s r s'. table_ok (sql_table s) \<longrightarrow> m s = (r, s') \<longrightarrow> table_ok (sql_table s') \<and>
        (case r of Inl e \<Rightarrow> err_code e \<noteq> Serialization | Inr x \<Rightarrow> Q x))"

abbreviation typed_any :: "(sql_state, 'a) dbact \<Rightarrow> bool" where
  "typed_any \<equiv> typed (\<lambda>_. True)"

lemma typed_bind:
  assumes "typed Q m" "\<And>x. Q x \<Longrightarrow> typed R (k x)"
  shows "typed R (act_bind m k)"
  unfolding typed_def
proof (intro allI impI)
  fix s r s'
  assume t: "table_ok (sql_table s)" and run: "act_bind m k s = (r, s')"
  obtain q u where q: "m s = (q, u)" by fastforce
  with assms(1) t have m: "table_ok (sql_table u)" "case q of Inl e \<Rightarrow> err_code e \<noteq> Serialization | Inr x \<Rightarrow> Q x"
    unfolding typed_def by blast+
  show "table_ok (sql_table s') \<and> (case r of Inl e \<Rightarrow> err_code e \<noteq> Serialization | Inr x \<Rightarrow> R x)"
  proof (cases q)
    case (Inl e)
    with run q m show ?thesis by (auto simp: act_bind_def)
  next
    case (Inr x)
    with run q have "k x u = (r, s')" by (simp add: act_bind_def)
    with assms(2) m Inr show ?thesis unfolding typed_def by simp
  qed
qed

lemma typed_bind_any [typed_intros]: "typed_any m \<Longrightarrow> (\<And>x. typed R (k x)) \<Longrightarrow> typed R (act_bind m k)"
  by (rule typed_bind)

lemma typed_weaken: "typed Q m \<Longrightarrow> (\<And>x. Q x \<Longrightarrow> R x) \<Longrightarrow> typed R m"
  unfolding typed_def by (metis (mono_tags, lifting) old.sum.exhaust old.sum.simps(5,6))

lemma typed_return [typed_intros]: "Q x \<Longrightarrow> typed Q (act_return x)"
  by (simp add: typed_def)

lemma typed_lift: "(\<And>e. r = Inl e \<Longrightarrow> err_code e \<noteq> Serialization) \<Longrightarrow> (\<And>x. r = Inr x \<Longrightarrow> Q x) \<Longrightarrow> typed Q (act_lift r)"
  by (auto simp: typed_def split: sum.splits)

lemma typed_if [typed_intros]: "typed Q m \<Longrightarrow> typed Q n \<Longrightarrow> typed Q (if b then m else n)"
  by simp

lemma typed_for [typed_intros]: "(\<And>x. typed_any (f x)) \<Longrightarrow> typed_any (act_for f xs)"
  by (induction xs) (auto intro: typed_intros)

lemma typed_answered [typed_intros]: "typed_any m \<Longrightarrow> typed_any (answered f m)"
  unfolding answered_def by (auto intro!: typed_intros)

lemma typed_keeps:
  assumes "keeps table_ok table_ok (\<lambda>x t. table_ok t \<and> Q x) m"
    and "\<And>s e s'. m s = (Inl e, s') \<Longrightarrow> err_code e \<noteq> Serialization"
  shows "typed Q m"
  unfolding typed_def
proof (intro allI impI)
  fix s r s'
  assume t: "table_ok (sql_table s)" and run: "m s = (r, s')"
  show "table_ok (sql_table s') \<and> (case r of Inl e \<Rightarrow> err_code e \<noteq> Serialization | Inr x \<Rightarrow> Q x)"
    using keepsD [OF assms(1) t] assms(2) run by (cases r) auto
qed

lemma typed_unit [typed_intros]:
  "typed_any m \<Longrightarrow> typed_any (\<lambda>s. case m s of (r, s') \<Rightarrow> (res_map f r, s'))"
  unfolding typed_def by (auto simp: res_map_def split: sum.splits prod.splits)

section \<open>The table operations keep the types\<close>

lemma pg_attempts_error:
  "pg_attempts left attempt timeout what body s = (Inl e, s') \<Longrightarrow> err_code e \<noteq> Serialization"
proof (induction left arbitrary: attempt s)
  case 0
  then show ?case by (auto simp: database_error_def new_error_def)
next
  case (Suc left)
  then show ?case
    by (auto simp: ensure_connected_locked_def from_postgres_error_def with_source_def new_error_def
        split: sum.splits prod.splits if_splits list.splits)
qed

lemma turso_attempts_error:
  "turso_attempts fuel body s = Some (Inl e, s') \<Longrightarrow> err_code e \<noteq> Serialization"
  by (induction fuel arbitrary: s)
     (auto simp: from_turso_error_def with_source_def new_error_def split: sum.splits prod.splits if_splits)

lemma turso_error:
  "turso_retry body s = (Inl e, s') \<Longrightarrow> err_code e \<noteq> Serialization"
  "turso_once body s = (Inl e, s') \<Longrightarrow> err_code e \<noteq> Serialization"
  using turso_attempts_error [of _ body s e s']
  by (auto simp: turso_retry_def turso_once_def from_turso_error_def with_source_def new_error_def
      simp del: turso_attempts.simps split: sum.splits prod.splits option.splits)

text \<open>A body of statements that keeps the types does so under each of the retry loops.\<close>

lemma typed_loops:
  assumes "keeps table_ok table_ok (\<lambda>x t. table_ok t \<and> Q x) body"
  shows "typed Q (pg_attempts left attempt timeout what body)" "typed Q (turso_retry body)" "typed Q (turso_once body)"
  by (rule typed_keeps, rule keeps_pg_attempts keeps_turso_retry keeps_turso_once, rule assms,
      erule pg_attempts_error turso_error)+

lemma rows_of_ok: "table_ok t \<Longrightarrow> p \<in> set (rows_of kind t) \<Longrightarrow> \<exists>i. row_ok kind i p"
  using hm_values_rows_of [of kind t] by (force simp: table_ok_def hm_ok_def hm_get_def)

lemma statements_keep_types:
  "row_ok kind i p \<Longrightarrow> keeps table_ok table_ok (\<lambda>_ t. table_ok t \<and> True) (statement (sql_upsert kind i p))"
  "keeps table_ok table_ok (\<lambda>row t. table_ok t \<and> (\<forall>p. row = Some p \<longrightarrow> row_ok kind i p)) (statement (sql_select kind i))"
  "keeps table_ok table_ok (\<lambda>rows t. table_ok t \<and> (\<forall>p \<in> set rows. \<exists>i. row_ok kind i p)) (statement (sql_select_kind kind))"
  "keeps table_ok table_ok (\<lambda>_ t. table_ok t \<and> True) (statement (sql_delete kind i))"
  "keeps table_ok table_ok (\<lambda>_ t. table_ok t \<and> True) (statement (\<lambda>t. ((), t)))"
  by (rule keeps_statement;
      simp add: sql_upsert_def sql_select_def sql_select_kind_def sql_delete_def table_ok_insert table_ok_remove
        table_okD rows_of_ok)+

locale typed_kv =
  fixes kv :: kv
  assumes typed_put: "row_ok kind i p \<Longrightarrow> typed_any (kv_put kv kind i p)"
    and typed_get: "typed (\<lambda>row. \<forall>p. row = Some p \<longrightarrow> row_ok kind i p) (kv_get kv kind i)"
    and typed_list: "typed (\<lambda>rows. \<forall>p \<in> set rows. \<exists>i. row_ok kind i p) (kv_list kv kind)"
    and typed_delete: "typed_any (kv_delete kv kind i)"

interpretation pg_types: typed_kv "pg_kv timeout"
  by unfold_locales
    (simp only: pg_kv_def kv.simps pg_put_def pg_get_def pg_list_def pg_delete_def, rule typed_loops(1),
      (erule statements_keep_types(1) | rule statements_keep_types))+

interpretation turso_types: typed_kv turso_kv
  by unfold_locales
    (simp only: turso_kv_def kv.simps turso_put_def turso_get_def turso_list_def turso_delete_def, rule typed_loops(2,3),
      (erule statements_keep_types(1) | rule statements_keep_types))+

section \<open>The methods keep the types\<close>

locale typed_methods = typed_kv kv
  for kv :: kv +
  fixes migrate :: "(sql_state, unit) dbact"
    and insertion :: "workflow_status \<Rightarrow> (sql_state, workflow_insert_result) dbact"
    and claiming :: "datetime \<Rightarrow> string \<Rightarrow> string \<Rightarrow> string \<Rightarrow> (sql_state, bool) dbact"
  assumes typed_migrate: "typed_any migrate"
    and typed_insertion: "typed_any (insertion w)"
    and typed_claiming: "typed_any (claiming now i ex xid)"

context typed_kv
begin

lemma typed_get_as:
  assumes "\<And>i p. row_ok kind i p \<Longrightarrow> \<exists>x. decode p = Inr x"
  shows "typed_any (get_as decode kv kind i)"
  unfolding get_as_def
  by (rule typed_bind [OF typed_get [of kind i]])
     (auto split: option.splits intro!: typed_return typed_lift dest!: assms)

lemma decode_all_typed: "\<forall>p \<in> set ps. \<exists>x. decode p = Inr x \<Longrightarrow> \<exists>xs. decode_all decode ps = Inr xs"
  by (induction ps) auto

lemma typed_list_as:
  assumes "\<And>i p. row_ok kind i p \<Longrightarrow> \<exists>x. decode p = Inr x"
  shows "typed_any (list_as decode kv kind)"
  unfolding list_as_def
proof (rule typed_bind [OF typed_list [of kind]])
  fix rows
  assume "\<forall>p \<in> set rows. \<exists>i. row_ok kind i p"
  with assms have "\<forall>p \<in> set rows. \<exists>x. decode p = Inr x" by blast
  from decode_all_typed [OF this] show "typed_any (act_lift (decode_all decode rows))"
    by (auto intro: typed_lift)
qed

lemma typed_reads [typed_intros]:
  "typed_any (get_as as_workflow kv ''workflow'' i)" "typed_any (list_as as_workflow kv ''workflow'')"
  "typed_any (get_as as_step kv ''step'' i)" "typed_any (list_as as_step kv ''step'')"
  "typed_any (get_as as_queue kv ''queue'' i)" "typed_any (list_as as_queue kv ''queue'')"
  "typed_any (get_as as_schedule kv ''schedule'' i)" "typed_any (list_as as_schedule kv ''schedule'')"
  "typed_any (list_as as_message kv ''message'')"
  "typed_any (get_as as_event kv ''event'' i)" "typed_any (list_as as_event kv ''event'')"
  "typed_any (list_as as_stream kv ''stream'')"
  "typed_any (get_as as_version kv ''application_version'' i)" "typed_any (list_as as_version kv ''application_version'')"
  "typed_any (get_as as_patch kv ''patch'' i)"
  by ((rule typed_get_as typed_list_as),
      auto simp: row_ok_kind as_workflow_def as_step_def as_queue_def as_schedule_def as_message_def as_event_def
        as_stream_def as_version_def as_patch_def)+

lemma typed_writes [typed_intros]:
  "typed_any (sql_save_workflow kv w)" "typed_any (sql_record_step kv st)" "typed_any (sql_upsert_queue kv q)"
  "typed_any (sql_upsert_schedule kv sc)" "typed_any (sql_send_message kv m)" "typed_any (sql_set_event kv e)"
  "typed_any (sql_write_stream kv entry)" "typed_any (sql_set_patch kv i b)"
  "typed_any (kv_put kv ''application_version'' (ver_name v) (PVersion v))" "typed_any (sql_recv_consume kv m)"
  unfolding sql_save_workflow_def sql_record_step_def sql_upsert_queue_def sql_upsert_schedule_def sql_send_message_def
    sql_set_event_def sql_write_stream_def sql_set_patch_def sql_recv_consume_def Let_def
  by (auto simp: row_ok_kind wire_workflow_def wire_queue_def intro!: typed_put typed_bind_any typed_return)

lemmas read_defs = sql_get_workflow_def sql_list_workflows_def sql_get_step_def sql_list_steps_def sql_get_queue_def
  sql_list_queues_def sql_get_schedule_def sql_list_schedules_def sql_list_messages_def sql_get_event_def
  sql_list_events_def sql_read_stream_def sql_list_streams_def sql_list_application_versions_def sql_get_patch_def
  sql_delete_queue_def sql_delete_schedule_def

lemma typed_read_methods [typed_intros]:
  "typed_any (sql_get_workflow kv i)" "typed_any (sql_list_workflows kv opts)" "typed_any (sql_get_step kv i n)"
  "typed_any (sql_list_steps kv i)" "typed_any (sql_get_queue kv i)" "typed_any (sql_list_queues kv)"
  "typed_any (sql_get_schedule kv i)" "typed_any (sql_list_schedules kv sopts)" "typed_any (sql_list_messages kv i)"
  "typed_any (sql_get_event kv i key)" "typed_any (sql_list_events kv i)" "typed_any (sql_read_stream kv i key)"
  "typed_any (sql_list_streams kv i)" "typed_any (sql_list_application_versions kv)" "typed_any (sql_get_patch kv i)"
  "typed_any (sql_delete_queue kv i)" "typed_any (sql_delete_schedule kv i)"
  unfolding read_defs by (auto intro!: typed_intros typed_delete)

lemma typed_compound [typed_intros]:
  "typed_any (sql_recv_message kv i topic)" "typed_any (sql_close_stream kv now i key)"
  "typed_any (sql_delete_workflows kv ids dopts)" "typed_any (sql_create_application_version kv v)"
proof -
  have "typed (\<lambda>_. True) (sql_recv_read kv i topic)"
    unfolding sql_recv_read_def by (auto intro!: typed_intros split: list.splits)
  then show "typed_any (sql_recv_message kv i topic)"
    unfolding sql_recv_message_def by (auto intro!: typed_intros split: option.splits)
  show "typed_any (sql_close_stream kv now i key)"
    unfolding sql_close_stream_def
    by (auto intro!: typed_intros typed_lift simp: stream_offset_def invalid_argument_def new_error_def split: if_splits)
  show "typed_any (sql_delete_workflows kv ids dopts)"
    unfolding sql_delete_workflows_def sql_delete_workflow_def by (auto intro!: typed_intros typed_delete)
  show "typed_any (sql_create_application_version kv v)"
    unfolding sql_create_application_version_def by (auto intro!: typed_intros)
qed

text \<open>The version that is read back has the name it is stored under.\<close>

lemma typed_set_latest [typed_intros]: "typed_any (sql_set_latest_application_version kv now i)"
  unfolding sql_set_latest_application_version_def
proof (rule typed_bind)
  show "typed (\<lambda>v. \<forall>x. v = Some x \<longrightarrow> ver_name x = i) (get_as as_version kv ''application_version'' i)"
    unfolding get_as_def
    by (rule typed_bind [OF typed_get [of "''application_version''" i]])
       (auto simp: row_ok_kind as_version_def split: option.splits intro!: typed_return typed_lift)
qed (auto simp: Let_def row_ok_kind split: option.splits intro!: typed_put)

end

context typed_methods
begin

theorem typed_calls: "typed_any (call_store (sql_methods kv migrate insertion claiming) c)"
proof (cases c)
  case (CInsert w)
  then show ?thesis by (simp add: sql_methods_def) (rule typed_answered, rule typed_unit, rule typed_insertion)
qed (auto simp: sql_methods_def intro!: typed_answered typed_migrate typed_insertion typed_claiming typed_intros)

end

section \<open>Inserting and claiming keep the types\<close>

definition selected_ok :: "string \<Rightarrow> bool \<times> payload option \<Rightarrow> bool" where
  "selected_ok i result \<longleftrightarrow> (\<forall>p. snd result = Some p \<longrightarrow> row_ok ''workflow'' i p)"

lemma keeps_if: "keeps P E Q m \<Longrightarrow> keeps P E Q n \<Longrightarrow> keeps P E Q (if b then m else n)"
  by simp

lemma insert_body_keeps_types:
  "keeps table_ok table_ok (\<lambda>x t. table_ok t \<and> selected_ok (wf_workflow_uuid w) x) (insert_body w)"
proof -
  let ?i = "wf_workflow_uuid w"
  have ok: "row_ok ''workflow'' ?i (PWorkflow (wire_workflow w))"
    by (simp add: row_ok_kind wire_workflow_def)
  have ins: "keeps table_ok table_ok (\<lambda>_ t. table_ok t)
      (statement (sql_insert_if_absent ''workflow'' ?i (PWorkflow (wire_workflow w))))"
    by (rule keeps_statement) (auto simp: sql_insert_if_absent_def table_ok_insert ok split: option.splits)
  have sel: "keeps table_ok table_ok (\<lambda>x t. table_ok t \<and> selected_ok ?i x)
      (act_bind (statement (sql_select ''workflow'' ?i)) (\<lambda>existing. act_return (False, existing)))"
    by (rule keeps_bind [OF statements_keep_types(2)], rule keeps_return) (simp add: selected_ok_def)
  show ?thesis
    unfolding insert_body_def
    by (rule keeps_bind [OF ins], rule keeps_if, rule keeps_return, simp add: selected_ok_def, rule sel)
qed

lemma insert_outcome_typed: "selected_ok i x \<Longrightarrow> typed_any (act_lift (insert_outcome name w x))"
  by (rule typed_lift)
     (auto simp: insert_outcome_def selected_ok_def row_ok_kind as_workflow_def ensure_workflow_identity_matches_def
        database_error_def new_error_def split: prod.splits bool.splits option.splits if_splits)

lemma insertions_typed:
  "typed_any (pg_insert_workflow_with_result timeout w)" "typed_any (turso_insert_workflow_with_result w)"
  unfolding pg_insert_workflow_with_result_def turso_insert_workflow_with_result_def
  by (rule typed_bind, rule typed_loops, rule insert_body_keeps_types, erule insert_outcome_typed)+

lemma claim_update_keeps_types:
  "keeps table_ok table_ok (\<lambda>_ t. table_ok t \<and> True) (statement (sql_claim_update now i ex xid))"
proof (rule keeps_statement, goal_cases)
  case (1 t)
  then show ?case
    using table_okD [OF 1, of "''workflow''" i]
    by (auto simp: sql_claim_update_def row_ok_kind split: option.splits payload.splits intro!: table_ok_insert)
qed

lemma pg_claim_attempts_error:
  "pg_claim_attempts left attempt timeout update s = (Inl e, s') \<Longrightarrow> err_code e \<noteq> Serialization"
  by (induction left arbitrary: attempt s)
     (auto simp: ensure_connected_locked_def from_postgres_error_def with_source_def new_error_def
        split: sum.splits prod.splits if_splits list.splits)

lemma typed_ensure_connected: "typed_any (ensure_connected_locked timeout)"
  by (rule typed_keeps [OF keeps_weaken [OF keeps_ensure_connected]])
     (auto simp: ensure_connected_locked_def from_postgres_error_def with_source_def new_error_def
        split: if_splits list.splits)

lemma claim_read_typed:
  "typed_any (\<lambda>s. case statement (sql_select ''workflow'' i) s of
       (Inl e, s') \<Rightarrow> (Inl (from_postgres_error (flt_message e)), s')
     | (Inr None, s') \<Rightarrow> (Inr False, s')
     | (Inr (Some existing), s') \<Rightarrow> (res_map f (as_workflow existing), s'))"
  unfolding typed_def
proof (intro allI impI)
  fix s r s'
  assume t: "table_ok (sql_table s)" and run: "(case statement (sql_select ''workflow'' i) s of
       (Inl e, s') \<Rightarrow> (Inl (from_postgres_error (flt_message e)), s')
     | (Inr None, s') \<Rightarrow> (Inr False, s')
     | (Inr (Some existing), s') \<Rightarrow> (res_map f (as_workflow existing), s')) = (r, s')"
  obtain q u where q: "statement (sql_select ''workflow'' i) s = (q, u)" by fastforce
  note sel = keepsD [OF statements_keep_types(2) t, of "''workflow''" i]
  show "table_ok (sql_table s') \<and> (case r of Inl e \<Rightarrow> err_code e \<noteq> Serialization | Inr x \<Rightarrow> True)"
  proof (cases q)
    case (Inl e)
    with sel(1) q run show ?thesis by (auto simp: from_postgres_error_def with_source_def new_error_def)
  next
    case (Inr row)
    with sel(2) q have "table_ok (sql_table u)" "\<forall>p. row = Some p \<longrightarrow> row_ok ''workflow'' i p" by blast+
    with Inr q run show ?thesis
      by (auto simp: row_ok_kind as_workflow_def split: option.splits)
  qed
qed

lemma claims_typed:
  "typed_any (pg_claim_workflow_execution timeout now i ex xid)" "typed_any (turso_claim_workflow_execution now i ex xid)"
proof -
  have "typed_any (pg_claim_attempts 2 0 timeout (sql_claim_update now i ex xid))"
    by (rule typed_keeps [OF keeps_pg_claim_attempts [OF claim_update_keeps_types]]) (auto dest: pg_claim_attempts_error)
  then show "typed_any (pg_claim_workflow_execution timeout now i ex xid)"
    unfolding pg_claim_workflow_execution_def
    by (auto intro!: typed_intros typed_ensure_connected claim_read_typed)
  have "typed (\<lambda>row. \<forall>p. row = Some p \<longrightarrow> row_ok ''workflow'' i p) (turso_get ''workflow'' i)"
    using turso_types.typed_get by (simp add: turso_kv_def)
  then have "typed_any (act_bind (turso_get ''workflow'' i) (\<lambda>row. case row of
         None \<Rightarrow> act_return False
       | Some p \<Rightarrow> act_lift (res_map (\<lambda>workflow. wf_execution_id workflow = Some xid) (as_workflow p))))"
    by (rule typed_bind) (auto simp: row_ok_kind as_workflow_def split: option.splits intro!: typed_return typed_lift)
  then show "typed_any (turso_claim_workflow_execution now i ex xid)"
    unfolding turso_claim_workflow_execution_def
    by (auto intro!: typed_intros typed_loops(2) claim_update_keeps_types)
qed

lemma migrations_typed: "typed_any (pg_migrate timeout)" "typed_any turso_migrate"
proof -
  have "keeps table_ok table_ok (\<lambda>_ t. table_ok t \<and> True) (act_for (\<lambda>_. statement (\<lambda>t. ((), t))) xs)" for xs :: "string list"
  proof (induction xs)
    case Nil
    show ?case unfolding act_for.simps by (rule keeps_return) simp
  next
    case (Cons x xs)
    show ?case
      unfolding act_for.simps
      by (rule keeps_bind [OF statements_keep_types(5)], rule keeps_weaken [OF Cons]) simp_all
  qed
  then show "typed_any (pg_migrate timeout)"
    unfolding pg_migrate_def by (rule typed_loops(1))
  show "typed_any turso_migrate"
    unfolding turso_migrate_def by (rule typed_for, rule typed_loops(3), rule statements_keep_types(5))
qed

interpretation pg_calls: typed_methods "pg_kv timeout" "pg_migrate timeout" "pg_insert_workflow_with_result timeout"
    "pg_claim_workflow_execution timeout"
  by unfold_locales (rule migrations_typed insertions_typed claims_typed)+

interpretation turso_calls: typed_methods turso_kv turso_migrate turso_insert_workflow_with_result
    turso_claim_workflow_execution
  by unfold_locales (rule migrations_typed insertions_typed claims_typed)+

section \<open>The in-memory store\<close>

definition stays :: "('s \<Rightarrow> bool) \<Rightarrow> ('s, 'a) dbact \<Rightarrow> bool" where
  "stays I m \<longleftrightarrow> (\<forall>s. I s \<longrightarrow> I (snd (m s)))"

lemma stays_answered: "stays I m \<Longrightarrow> stays I (answered f m)"
  unfolding stays_def answered_def act_bind_def
  by (fastforce split: sum.splits prod.splits)

lemma mem_reads_stay:
  "stays mem_inv mem_migrate" "stays mem_inv (mem_get_workflow i)" "stays mem_inv (mem_list_workflows opts)"
  "stays mem_inv (mem_get_step i n)" "stays mem_inv (mem_list_steps i)" "stays mem_inv (mem_get_queue i)"
  "stays mem_inv mem_list_queues" "stays mem_inv (mem_get_schedule i)" "stays mem_inv (mem_list_schedules sopts)"
  "stays mem_inv (mem_list_messages i)" "stays mem_inv (mem_get_event i key)" "stays mem_inv (mem_list_events i)"
  "stays mem_inv (mem_read_stream i key)" "stays mem_inv (mem_list_streams i)"
  "stays mem_inv mem_list_application_versions" "stays mem_inv (mem_get_patch i)"
  by (simp_all add: stays_def mem_op_defs)

lemma mem_config_stay:
  "stays mem_inv (mem_upsert_queue q)" "stays mem_inv (mem_delete_queue i)" "stays mem_inv (mem_upsert_schedule sc)"
  "stays mem_inv (mem_delete_schedule i)" "stays mem_inv (mem_set_patch i b)" "stays mem_inv (mem_send_message m)"
  "stays mem_inv (mem_record_step st)" "stays mem_inv (mem_save_workflow w)" "stays mem_inv (mem_set_event e)"
  "stays mem_inv (mem_set_latest_application_version now i)" "stays mem_inv (mem_write_stream entry)"
  using hm_keyed_insert [of "\<lambda>st. (step_workflow_uuid st, step_id st)" _ st]
    hm_keyed_insert [of "\<lambda>e. (ev_workflow_uuid e, ev_key e)" _ e]
  by (simp_all add: stays_def mem_op_defs mem_inv_def Let_def)

lemma keyed_replace: "hm_keyed f m \<Longrightarrow> hm_get m k = Some v \<Longrightarrow> f v' = f v \<Longrightarrow> hm_keyed f (hm_insert k v' m)"
  using hm_keyed_insert [of f m v'] by (metis hm_keyed_def)

lemma mem_rest_stay:
  "stays mem_inv (mem_recv_message i topic)" "stays mem_inv (mem_create_application_version v)"
  "stays mem_inv (mem_close_stream now i key)" "stays mem_inv (mem_claim_workflow_execution now i ex xid)"
  "stays mem_inv (mem_insert_workflow_with_result w)" "stays mem_inv (mem_delete_workflows ids dopts)"
proof -
  show "stays mem_inv (mem_recv_message i topic)"
    by (auto simp: stays_def mem_recv_message_def mem_inv_def split: option.splits)
  show "stays mem_inv (mem_create_application_version v)"
    by (auto simp: stays_def mem_create_application_version_def mem_inv_def split: option.splits)
  show "stays mem_inv (mem_close_stream now i key)"
    by (auto simp: stays_def mem_close_stream_def mem_inv_def Let_def split: sum.splits)
  show "stays mem_inv (mem_claim_workflow_execution now i ex xid)"
    by (auto simp: stays_def mem_claim_workflow_execution_def mem_inv_def Let_def
        split: option.splits elim: keyed_replace)
  show "stays mem_inv (mem_insert_workflow_with_result w)"
    by (auto simp: stays_def mem_insert_workflow_with_result_def mem_inv_def split: option.splits)
  show "stays mem_inv (mem_delete_workflows ids dopts)"
    unfolding stays_def
  proof (intro allI impI)
    fix d
    assume "mem_inv d"
    with mem.delete_workflows [of d ids dopts "fst (mem_delete_workflows ids dopts d)" "snd (mem_delete_workflows ids dopts d)"]
    show "mem_inv (snd (mem_delete_workflows ids dopts d))" by (simp add: memory_store_def)
  qed
qed

lemma mem_calls_stay: "stays mem_inv (call_store memory_store c)"
proof (cases c)
  case (CInsert w)
  have "stays mem_inv (mem_insert_workflow w)"
    using mem_rest_stay(5) by (simp add: stays_def mem_insert_workflow_def case_prod_beta)
  then show ?thesis by (simp add: CInsert memory_store_def stays_answered)
qed (simp_all add: memory_store_def stays_answered mem_reads_stay mem_config_stay mem_rest_stay)

section \<open>The two SQL stores\<close>

text \<open>\<open>same m n\<close>: on a healthy connection \<open>m\<close> and \<open>n\<close> do the same, and leave it healthy.\<close>

named_theorems same_intros \<open>compositions of actions that do the same\<close>

definition same :: "(sql_state, 'a) dbact \<Rightarrow> (sql_state, 'a) dbact \<Rightarrow> bool" where
  "same m n \<longleftrightarrow> (\<forall>s. healthy s \<longrightarrow> m s = n s \<and> healthy (snd (m s)))"

lemma same_return [same_intros]: "same (act_return x) (act_return x)"
  by (simp add: same_def)

lemma same_lift [same_intros]: "same (act_lift r) (act_lift r)"
  by (simp add: same_def split: sum.splits)

lemma same_bind [same_intros]:
  assumes "same m n" "\<And>x. same (k x) (l x)"
  shows "same (act_bind m k) (act_bind n l)"
  unfolding same_def
proof (intro allI impI)
  fix s
  assume "healthy s"
  with assms(1) have m: "m s = n s" "healthy (snd (m s))" by (auto simp: same_def)
  obtain q t where q: "n s = (q, t)" by fastforce
  show "act_bind m k s = act_bind n l s \<and> healthy (snd (act_bind m k s))"
  proof (cases q)
    case (Inl e)
    with m q show ?thesis by (simp add: act_bind_def)
  next
    case (Inr x)
    from m q have "healthy t" by simp
    with assms(2) [of x] have "k x t = l x t" "healthy (snd (k x t))" unfolding same_def by blast+
    with m q Inr show ?thesis by (simp add: act_bind_def)
  qed
qed

lemma same_if [same_intros]: "same m m' \<Longrightarrow> same n n' \<Longrightarrow> same (if b then m else n) (if b then m' else n')"
  by simp

lemma same_option [same_intros]:
  "same m m' \<Longrightarrow> (\<And>x. same (f x) (g x)) \<Longrightarrow>
   same (case v of None \<Rightarrow> m | Some x \<Rightarrow> f x) (case v of None \<Rightarrow> m' | Some x \<Rightarrow> g x)"
  by (cases v) simp_all

lemma same_let [same_intros]: "(\<And>x. same (f x) (g x)) \<Longrightarrow> same (Let v f) (Let v g)"
  by simp

lemma same_for [same_intros]: "(\<And>x. same (f x) (g x)) \<Longrightarrow> same (act_for f xs) (act_for g xs)"
  by (induction xs) (auto intro: same_intros)

lemma same_kv [same_intros]:
  "same (kv_put (pg_kv timeout) kind i p) (kv_put turso_kv kind i p)"
  "same (kv_get (pg_kv timeout) kind i) (kv_get turso_kv kind i)"
  "same (kv_list (pg_kv timeout) kind) (kv_list turso_kv kind)"
  "same (kv_delete (pg_kv timeout) kind i) (kv_delete turso_kv kind i)"
  by (simp_all add: same_def pg_kv.kv_put pg_kv.kv_get pg_kv.kv_list pg_kv.kv_delete
      turso_kv.kv_put turso_kv.kv_get turso_kv.kv_list turso_kv.kv_delete)

lemma same_inserts [same_intros]:
  "same (pg_insert_workflow_with_result timeout w) (turso_insert_workflow_with_result w)"
  by (auto simp: same_def insert_healthy healthy_insert_def insert_outcome_def split: option.splits)

lemma same_claims [same_intros]:
  "same (pg_claim_workflow_execution timeout now i ex xid) (turso_claim_workflow_execution now i ex xid)"
  by (auto simp: same_def pg_claim_healthy turso_claim_healthy healthy_claim_def split: prod.splits bool.splits option.splits)

lemma migrations_idle: "healthy s \<Longrightarrow> act_for (\<lambda>_. statement (\<lambda>t. ((), t))) xs s = (Inr (), s)"
  by (induction xs) (simp_all add: act_bind_def healthy_statement)

lemma same_migrations [same_intros]: "same (pg_migrate timeout) turso_migrate"
proof -
  have "pg_migrate timeout s = (Inr (), s)" if "healthy s" for s
    unfolding pg_migrate_def using that by (rule healthy_pg_attempts) (rule migrations_idle [OF that])
  moreover have "turso_migrate s = (Inr (), s)" if "healthy s" for s
    using that by (simp add: turso_migrate_def act_bind_def healthy_turso(2) [OF healthy_statement])
  ultimately show ?thesis by (simp add: same_def)
qed

lemma same_unit [same_intros]:
  "same m n \<Longrightarrow> same (\<lambda>s. case m s of (r, s') \<Rightarrow> (f r, s')) (\<lambda>s. case n s of (r, s') \<Rightarrow> (f r, s'))"
  by (auto simp: same_def split: prod.splits)

lemmas sql_op_defs = sql_get_workflow_def sql_list_workflows_def sql_get_step_def sql_list_steps_def sql_get_queue_def
  sql_list_queues_def sql_get_schedule_def sql_list_schedules_def sql_list_messages_def sql_get_event_def
  sql_list_events_def sql_read_stream_def sql_list_streams_def sql_list_application_versions_def sql_get_patch_def
  sql_delete_queue_def sql_delete_schedule_def sql_save_workflow_def sql_record_step_def sql_upsert_queue_def
  sql_upsert_schedule_def sql_send_message_def sql_set_event_def sql_write_stream_def sql_set_patch_def
  sql_recv_message_def sql_recv_read_def sql_recv_consume_def sql_close_stream_def sql_delete_workflows_def
  sql_delete_workflow_def sql_create_application_version_def sql_set_latest_application_version_def get_as_def list_as_def

lemma same_list [same_intros]:
  "same m m' \<Longrightarrow> (\<And>x xs. same (f x xs) (g x xs)) \<Longrightarrow>
   same (case v of [] \<Rightarrow> m | x # xs \<Rightarrow> f x xs) (case v of [] \<Rightarrow> m' | x # xs \<Rightarrow> g x xs)"
  by (cases v) simp_all

lemma same_delete [same_intros]: "same (sql_delete_workflow (pg_kv timeout) i) (sql_delete_workflow turso_kv i)"
  by (simp only: sql_op_defs) (intro same_intros)

lemma same_calls: "same (call_store (pg_store timeout) c) (call_store turso_store c)"
  by (cases c;
      simp only: call_store.simps pg_store_def turso_store_def sql_methods_def system_database.simps answered_def
        sql_op_defs; intro same_intros)

section \<open>Every client\<close>

text \<open>C34:
  Whatever calls a client makes, in whatever order, and whatever statements and reconnections fail meanwhile, the table
  of a SQL store keeps a payload of the right type under the key it names, so that no call ever fails to decode a
  row; and the in-memory store keeps every workflow, step and event under the key that names it, one value per key.\<close>

theorem stores_stay_well_typed:
  "(db = pg_store timeout \<or> db = turso_store \<longrightarrow> table_ok (sql_table s) \<longrightarrow> run_calls db cs s = (rs, s') \<longrightarrow>
      table_ok (sql_table s') \<and> (\<forall>r \<in> set rs. case r of Inl e \<Rightarrow> err_code e \<noteq> Serialization | Inr _ \<Rightarrow> True)) \<and>
   (mem_inv d \<longrightarrow> run_calls memory_store cs d = (ms, d') \<longrightarrow> mem_inv d')"
proof (intro conjI impI)
  assume db: "db = pg_store timeout \<or> db = turso_store" and "table_ok (sql_table s)" "run_calls db cs s = (rs, s')"
  have "typed_any (call_store db c)" for c
    using db pg_calls.typed_calls turso_calls.typed_calls by (auto simp: pg_store_def turso_store_def)
  then have "table_ok (sql_table u) \<and> (case r of Inl e \<Rightarrow> err_code e \<noteq> Serialization | Inr _ \<Rightarrow> True)"
    if "table_ok (sql_table t)" "call_store db c t = (r, u)" for c t r u
    using that unfolding typed_def by blast
  from run_calls_invariant [where I = "\<lambda>s. table_ok (sql_table s)"
      and A = "\<lambda>r. case r of Inl e \<Rightarrow> err_code e \<noteq> Serialization | Inr _ \<Rightarrow> True",
      OF this \<open>table_ok (sql_table s)\<close> \<open>run_calls db cs s = (rs, s')\<close>]
  show "table_ok (sql_table s')" "\<forall>r \<in> set rs. case r of Inl e \<Rightarrow> err_code e \<noteq> Serialization | Inr _ \<Rightarrow> True"
    by simp_all
next
  assume "mem_inv d" "run_calls memory_store cs d = (ms, d')"
  then show "mem_inv d'"
    using run_calls_invariant [where I = mem_inv and A = "\<lambda>_. True" and db = memory_store] mem_calls_stay
    unfolding stays_def by (metis snd_conv)
qed

definition sample_calls :: "store_call list" where
  "sample_calls =
     [CSave other_workflow, CGet ''w1'', CClaim 6 ''w1'' ''a'' ''x1'', CDelete [''w1''] \<lparr>do_force = False\<rparr>]"

theorem stores_stay_well_typed_witness:
  "table_ok (sql_table (snd (run_calls (pg_store 0) sample_calls (sample_sql [Some lost_ack, None, Some lost_ack])))) \<and>
   table_ok (sql_table (snd (run_calls turso_store sample_calls (sample_sql [Some lost_ack])))) \<and>
   mem_inv (snd (run_calls memory_store sample_calls empty_memory))"
proof -
  have ok: "table_ok (sql_table (sample_sql fs))" for fs
    by (auto simp: table_ok_def sample_sql_def hm_ok_def hm_get_def row_ok_def sample_workflow_def
        new_workflow_status_def split: if_splits)
  note inst = stores_stay_well_typed [where cs = sample_calls and d = empty_memory]
  show ?thesis
    using inst [of "pg_store 0" 0 "sample_sql [Some lost_ack, None, Some lost_ack]"]
      inst [of turso_store 0 "sample_sql [Some lost_ack]"] ok
    by (metis mem_inv_empty prod.collapse)
qed



end
