(* ===== verification/Workflow_Ops.thy ===== *)
theory Workflow_Ops
  imports Context
begin

text \<open>
  The operations of \<open>DbosContext\<close> (\<open>src/src/context.rs\<close>) on workflow rows: starting, cancelling,
  delaying, resuming, forking, deleting and listing workflows, recovery, and one round of the
  queue supervisor. A clock reading is an argument (\<open>now\<close>, \<open>now'\<close> for a second one), and so is a
  fresh UUID (\<open>fresh\<close>). An operation that starts an execution works on \<open>app\<close>, any other on the
  store alone.
\<close>

section \<open>Starting a workflow\<close>

definition add_duration :: "datetime \<Rightarrow> duration \<Rightarrow> datetime" where
  "add_duration now d = (case chrono_from_std d of Some i \<Rightarrow> now + i | None \<Rightarrow> now)"

definition run_state_of :: "dbos_context \<Rightarrow> (run_state \<Rightarrow> 'a option) \<Rightarrow> 'a option" where
  "run_state_of ctx f = (case cx_run_state ctx of None \<Rightarrow> None | Some rs \<Rightarrow> f rs)"

definition or_else :: "'a option \<Rightarrow> 'a option \<Rightarrow> 'a option" where
  "or_else x y = (case x of Some v \<Rightarrow> Some v | None \<Rightarrow> y)"

text \<open>The row that \<open>run_workflow_value\<close> inserts.\<close>

definition initial_workflow_status ::
    "dbos_context \<Rightarrow> datetime \<Rightarrow> string \<Rightarrow> string \<Rightarrow> encoded_value \<Rightarrow> workflow_options \<Rightarrow> workflow_status" where
  "initial_workflow_status ctx now workflow_id name encoded_input opts =
     (let delay_until = map_option (add_duration now) (wo_delay opts) in
      (new_workflow_status workflow_id name
         (case wo_application_version opts of Some v \<Rightarrow> v | None \<Rightarrow> application_version ctx)
         (enc_serialization encoded_input) now)
      \<lparr>wf_input := encoded_to_stored_value encoded_input,
       wf_queue_name := wo_queue_name opts,
       wf_deduplication_id := wo_deduplication_id opts,
       wf_priority := wo_priority opts,
       wf_timeout := wo_timeout opts,
       wf_deadline := map_option (add_duration now) (wo_timeout opts),
       wf_delay_until := delay_until,
       wf_queue_partition_key := wo_queue_partition_key opts,
       wf_authenticated_user := or_else (wo_authenticated_user opts) (run_state_of ctx rs_authenticated_user),
       wf_assumed_role := or_else (wo_assumed_role opts) (run_state_of ctx rs_assumed_role),
       wf_authenticated_roles :=
         (if wo_authenticated_roles opts = []
          then (case cx_run_state ctx of None \<Rightarrow> [] | Some rs \<Rightarrow> rs_authenticated_roles rs)
          else wo_authenticated_roles opts),
       wf_class_name := wo_class_name opts,
       wf_config_name := wo_config_name opts,
       wf_parent_workflow_id :=
         or_else (wo_parent_workflow_id opts) (run_state_of ctx (\<lambda>rs. Some (rs_workflow_id rs))),
       wf_status := (if delay_until \<noteq> None then Delayed
                     else if wo_queue_name opts \<noteq> None then Enqueued else Pending)\<rparr>)"

definition is_portable :: "dbos_context \<Rightarrow> bool" where
  "is_portable ctx = (case cx_run_state ctx of None \<Rightarrow> False | Some rs \<Rightarrow> rs_portable rs)"

definition run_workflow_value ::
    "'s system_database \<Rightarrow> dbos_context \<Rightarrow> datetime \<Rightarrow> string \<Rightarrow> string \<Rightarrow> json \<Rightarrow> workflow_options \<Rightarrow>
     ('s app, string) dbact" where
  "run_workflow_value db ctx now fresh name input opts =
     (let workflow_id = (case wo_workflow_id opts of Some i \<Rightarrow> i | None \<Rightarrow> fresh);
          portable = (wo_portable opts \<or> is_portable ctx) in
      act_bind (act_lift (encode_value (cx_codec ctx) input portable)) (\<lambda>encoded_input.
      act_bind (on_store (db_insert_workflow db
                  (initial_workflow_status ctx now workflow_id name encoded_input opts))) (\<lambda>_.
      act_bind (if wo_queue_name opts = None \<and> wo_delay opts = None
                then spawn_workflow_execution workflow_id else act_return ()) (\<lambda>_.
        act_return workflow_id))))"

definition run_workflow ::
    "'s system_database \<Rightarrow> dbos_context \<Rightarrow> datetime \<Rightarrow> string \<Rightarrow> string \<Rightarrow> 'a serde \<Rightarrow> 'a \<Rightarrow> workflow_options \<Rightarrow>
     ('s app, string) dbact" where
  "run_workflow db ctx now fresh name ty input opts =
     act_bind (act_lift (to_value ty input)) (\<lambda>v. run_workflow_value db ctx now fresh name v opts)"

section \<open>Changing a workflow\<close>

text \<open>\<open>get_workflow(id)?.ok_or_else(non_existent_workflow)\<close>.\<close>

definition existing_workflow :: "'s system_database \<Rightarrow> string \<Rightarrow> ('s, workflow_status) dbact" where
  "existing_workflow db workflow_id =
     act_bind (db_get_workflow db workflow_id) (\<lambda>w. act_lift (ok_or (non_existent_workflow workflow_id) w))"

definition cancel_workflow ::
    "'s system_database \<Rightarrow> datetime \<Rightarrow> datetime \<Rightarrow> string \<Rightarrow> ('s, unit) dbact" where
  "cancel_workflow db now now' workflow_id =
     act_bind (existing_workflow db workflow_id) (\<lambda>workflow.
       if \<not> is_terminal (wf_status workflow)
       then db_save_workflow db (workflow\<lparr>wf_status := Cancelled, wf_completed_at := Some now,
                                          wf_updated_at := now'\<rparr>)
       else act_return ())"

definition cancel_workflows ::
    "'s system_database \<Rightarrow> datetime \<Rightarrow> datetime \<Rightarrow> string list \<Rightarrow> ('s, unit) dbact" where
  "cancel_workflows db now now' workflow_ids = act_for (cancel_workflow db now now') workflow_ids"

definition set_workflow_delay ::
    "'s system_database \<Rightarrow> datetime \<Rightarrow> datetime \<Rightarrow> string \<Rightarrow> set_workflow_delay_options \<Rightarrow> ('s, unit) dbact" where
  "set_workflow_delay db now now' workflow_id opts =
     act_bind (existing_workflow db workflow_id) (\<lambda>workflow.
       if wf_status workflow \<noteq> Delayed
       then act_fail (invalid_argument ''workflow delay can only be updated for DELAYED workflows'')
       else act_bind
         (case sd_delay_until opts of
            Some delay_until \<Rightarrow> act_return delay_until
          | None \<Rightarrow>
              (case sd_delay opts of
                 Some delay \<Rightarrow>
                   (case chrono_from_std delay of
                      Some d \<Rightarrow> act_return (now + d)
                    | None \<Rightarrow> act_fail (invalid_argument
                         ''invalid delay duration: Source duration value is out of range for the target type''))
               | None \<Rightarrow> act_return now))
         (\<lambda>delay_until.
            db_save_workflow db (workflow\<lparr>wf_delay_until := Some delay_until, wf_updated_at := now'\<rparr>)))"

definition resume_workflow ::
    "'s system_database \<Rightarrow> datetime \<Rightarrow> string \<Rightarrow> resume_workflow_options \<Rightarrow> ('s app, string) dbact" where
  "resume_workflow db now workflow_id opts =
     act_bind (on_store (existing_workflow db workflow_id)) (\<lambda>workflow.
     act_bind (on_store (db_save_workflow db
       (workflow\<lparr>wf_queue_name := (case ro_queue_name opts of Some q \<Rightarrow> Some q | None \<Rightarrow> wf_queue_name workflow),
                 wf_status := (if ro_queue_name opts \<noteq> None then Enqueued else Pending),
                 wf_completed_at := None, wf_error := None, wf_executor_id := None,
                 wf_execution_id := None, wf_updated_at := now\<rparr>))) (\<lambda>_.
     act_bind (if ro_queue_name opts = None then spawn_workflow_execution workflow_id else act_return ()) (\<lambda>_.
       act_return workflow_id)))"

definition resume_workflows ::
    "'s system_database \<Rightarrow> datetime \<Rightarrow> string list \<Rightarrow> resume_workflow_options \<Rightarrow> ('s app, string list) dbact" where
  "resume_workflows db now workflow_ids opts =
     act_map (\<lambda>workflow_id. resume_workflow db now workflow_id opts) workflow_ids"

definition delete_workflows ::
    "'s system_database \<Rightarrow> string list \<Rightarrow> delete_workflow_options \<Rightarrow> ('s, unit) dbact" where
  "delete_workflows db workflow_ids opts = db_delete_workflows db workflow_ids opts"

definition forked_status ::
    "dbos_context \<Rightarrow> datetime \<Rightarrow> string \<Rightarrow> fork_workflow_input \<Rightarrow> workflow_status \<Rightarrow> workflow_status" where
  "forked_status ctx now fresh input original =
     original\<lparr>wf_workflow_uuid := (case fi_forked_workflow_id input of Some i \<Rightarrow> i | None \<Rightarrow> fresh),
              wf_forked_from := Some (fi_original_workflow_id input),
              wf_was_forked_from := True,
              wf_status := Pending,
              wf_application_version :=
                (case fi_application_version input of Some v \<Rightarrow> v | None \<Rightarrow> application_version ctx),
              wf_created_at := now, wf_updated_at := now, wf_completed_at := None, wf_error := None,
              wf_output := None, wf_executor_id := None, wf_execution_id := None\<rparr>"

definition fork_workflow ::
    "'s system_database \<Rightarrow> dbos_context \<Rightarrow> datetime \<Rightarrow> string \<Rightarrow> fork_workflow_input \<Rightarrow> ('s app, string) dbact" where
  "fork_workflow db ctx now fresh input =
     act_bind (on_store (existing_workflow db (fi_original_workflow_id input))) (\<lambda>original.
     let fork = forked_status ctx now fresh input original in
     act_bind (on_store (db_insert_workflow db fork)) (\<lambda>_.
     act_bind (spawn_workflow_execution (wf_workflow_uuid fork)) (\<lambda>_.
       act_return (wf_workflow_uuid fork))))"

section \<open>Reading\<close>

definition list_workflows ::
    "'s system_database \<Rightarrow> list_workflows_options \<Rightarrow> ('s, workflow_status list) dbact" where
  "list_workflows db opts = db_list_workflows db opts"

definition get_workflow_steps_with_options ::
    "'s system_database \<Rightarrow> string \<Rightarrow> get_workflow_steps_options \<Rightarrow> ('s, step_info list) dbact" where
  "get_workflow_steps_with_options db workflow_id opts =
     act_bind (db_list_steps db workflow_id) (\<lambda>steps.
       let page = page_rows (gs_offset opts) (gs_limit opts) (sort_key step_id steps)
       in act_return (if gs_load_output opts = Some False
                      then map (\<lambda>st. st\<lparr>step_output := None\<rparr>) page else page))"

definition get_workflow_steps :: "'s system_database \<Rightarrow> string \<Rightarrow> ('s, step_info list) dbact" where
  "get_workflow_steps db workflow_id =
     get_workflow_steps_with_options db workflow_id default_get_workflow_steps_options"

section \<open>Waiting for a result\<close>

text \<open>
  The polling loop of \<open>get_result_with_options\<close>. Each element of the list is one round: what
  \<open>get_status\<close> returned, and the time elapsed since the call when the code compares it with the timeout.
  The result comes with the sleeps taken; when the list ends first, the caller is still waiting (\<open>None\<close>).
\<close>

definition result_timeout :: "duration \<Rightarrow> dbos_error" where
  "result_timeout timeout = timeout_error (''workflow result timeout after '' @ debug_duration timeout)"

definition finished_result ::
    "codec \<Rightarrow> 'a serde \<Rightarrow> string \<Rightarrow> workflow_status \<Rightarrow> 'a res option" where
  "finished_result c ty workflow_id status =
     (case wf_status status of
        Success \<Rightarrow> Some (decode_stored_value c ty (wf_output status) (wf_serialization status))
      | Error \<Rightarrow> Some (Inl (workflow_execution_error workflow_id
                    (case wf_error status of Some e \<Rightarrow> e | None \<Rightarrow> ''workflow failed'')))
      | Cancelled \<Rightarrow> Some (Inl (new_error WorkflowCancelled (''workflow '' @ workflow_id @ '' was cancelled'')))
      | MaxRecoveryAttemptsExceeded \<Rightarrow>
          Some (Inl (new_error MaxStepRetriesExceeded
                       (''workflow '' @ workflow_id @ '' exceeded max recovery attempts'')))
      | _ \<Rightarrow> None)"

definition wait_or_time_out ::
    "get_result_options \<Rightarrow> duration \<Rightarrow> 'a res option \<times> duration list \<Rightarrow> 'a res option \<times> duration list" where
  "wait_or_time_out opts elapsed next_round =
     (case gr_timeout opts of
        Some timeout \<Rightarrow>
          if timeout \<le> elapsed then (Some (Inl (result_timeout timeout)), [])
          else (fst next_round, gr_polling_interval opts # snd next_round)
      | None \<Rightarrow> (fst next_round, gr_polling_interval opts # snd next_round))"

fun get_result_rounds ::
    "codec \<Rightarrow> 'a serde \<Rightarrow> string \<Rightarrow> get_result_options \<Rightarrow> (workflow_status res \<times> duration) list \<Rightarrow>
     'a res option \<times> duration list" where
  "get_result_rounds c ty workflow_id opts [] = (None, [])"
| "get_result_rounds c ty workflow_id opts ((status, elapsed) # rounds) =
     (case status of
        Inl error \<Rightarrow>
          if is_transient_database_error error
          then wait_or_time_out opts elapsed (get_result_rounds c ty workflow_id opts rounds)
          else (Some (Inl error), [])
      | Inr row \<Rightarrow>
          (case finished_result c ty workflow_id row of
             Some r \<Rightarrow> (Some r, [])
           | None \<Rightarrow> wait_or_time_out opts elapsed (get_result_rounds c ty workflow_id opts rounds)))"

definition get_result_with_options ::
    "codec \<Rightarrow> 'a serde \<Rightarrow> string \<Rightarrow> get_result_options \<Rightarrow> (workflow_status res \<times> duration) list \<Rightarrow>
     'a res option \<times> duration list" where
  "get_result_with_options c ty workflow_id opts rounds =
     get_result_rounds c ty workflow_id
       (if gr_polling_interval opts = 0
        then opts\<lparr>gr_polling_interval := gr_polling_interval default_get_result_options\<rparr> else opts) rounds"

definition get_status :: "'s system_database \<Rightarrow> string \<Rightarrow> ('s, workflow_status) dbact" where
  "get_status db workflow_id = existing_workflow db workflow_id"

section \<open>Recovery and the queue supervisor\<close>

definition recovery_filter :: list_workflows_options where
  "recovery_filter = default_list_options\<lparr>lo_status := [Pending, Enqueued], lo_load_input := True\<rparr>"

definition recover_one :: "string list \<Rightarrow> workflow_status \<Rightarrow> ('s app, string list) dbact" where
  "recover_one executor_ids workflow =
     (if wf_status workflow = Pending \<and> wf_executor_id workflow = None
      then act_bind (spawn_workflow_execution (wf_workflow_uuid workflow)) (\<lambda>_.
             act_return [wf_workflow_uuid workflow])
      else if (case wf_executor_id workflow of Some e \<Rightarrow> e \<in> set executor_ids | None \<Rightarrow> False)
      then act_bind (spawn_recovered_workflow_execution (wf_workflow_uuid workflow)) (\<lambda>_.
             act_return [wf_workflow_uuid workflow])
      else act_return [])"

definition recover_pending_workflows ::
    "'s system_database \<Rightarrow> string list \<Rightarrow> ('s app, string list) dbact" where
  "recover_pending_workflows db executor_ids =
     act_bind (on_store (list_workflows db recovery_filter)) (\<lambda>workflows.
     act_bind (act_map (recover_one executor_ids) workflows) (\<lambda>handles.
       act_return (concat handles)))"

definition delayed_filter :: list_workflows_options where
  "delayed_filter = default_list_options\<lparr>lo_status := [Delayed], lo_load_input := True\<rparr>"

definition queue_filter :: "workflow_queue \<Rightarrow> list_workflows_options" where
  "queue_filter queue =
     default_list_options\<lparr>lo_status := [Enqueued], lo_queue_name := Some (q_name queue),
                          lo_load_input := True, lo_limit := Some (q_max_tasks_per_iteration queue)\<rparr>"

text \<open>A delayed workflow whose time has come is enqueued: the row listed is saved back.\<close>

definition enqueue_delayed :: "'s system_database \<Rightarrow> datetime \<Rightarrow> workflow_status \<Rightarrow> ('s, unit) dbact" where
  "enqueue_delayed db now workflow =
     (if (case wf_delay_until workflow of Some delay_until \<Rightarrow> delay_until \<le> now | None \<Rightarrow> False)
      then db_save_workflow db (workflow\<lparr>wf_status := Enqueued, wf_updated_at := now\<rparr>)
      else act_return ())"

definition run_queue :: "'s system_database \<Rightarrow> string set \<Rightarrow> workflow_queue \<Rightarrow> ('s app, unit) dbact" where
  "run_queue db listened queue =
     (if listened \<noteq> {} \<and> q_name queue \<notin> listened then act_return ()
      else act_bind (on_store (list_workflows db (queue_filter queue))) (\<lambda>workflows.
             act_for (\<lambda>workflow. spawn_workflow_execution (wf_workflow_uuid workflow)) workflows))"

definition transition_and_run_queued_workflows ::
    "'s system_database \<Rightarrow> datetime \<Rightarrow> string set \<Rightarrow> ('s app, unit) dbact" where
  "transition_and_run_queued_workflows db now listened =
     act_bind (on_store (list_workflows db delayed_filter)) (\<lambda>delayed.
     act_bind (act_for (\<lambda>workflow. on_store (enqueue_delayed db now workflow)) delayed) (\<lambda>_.
     act_bind (on_store (db_list_queues db)) (\<lambda>queues.
       act_for (run_queue db listened) queues)))"

end
