(* ===== verification/Execution.thy ===== *)
theory Execution
  imports Workflow_Ops
begin

text \<open>
  \<open>execute_workflow\<close> of \<open>src/src/context.rs\<close>: the task that claims a workflow, runs its handler and
  stores the outcome. The model is a small-step machine, one step for each \<open>await\<close> on the store,
  so that several executions, cancellations and supervisors can be interleaved; running the
  machine alone gives the sequential meaning, \<open>execute_workflow\<close>.
\<close>

text \<open>
  Where an execution stands: what its next \<open>await\<close> is. A workflow carried in a state is the copy
  that the code holds in its local variable.
\<close>

datatype exec_state =
    ReadRow
  | ClaimRow
  | RereadRow
  | StartRow workflow_status
  | RunHandler workflow_status
  | ReloadRow "json res"
  | FinishRow workflow_status
  | Finished "unit res"

definition has_executor :: "workflow_status \<Rightarrow> bool" where
  "has_executor w \<longleftrightarrow> wf_executor_id w \<noteq> None"

text \<open>\<open>attempts.saturating_add(1)\<close> on a \<open>u32\<close>.\<close>

definition saturating_succ :: "nat \<Rightarrow> nat" where
  "saturating_succ n = min (n + 1) (2 ^ 32 - 1)"

definition started_status :: "datetime \<Rightarrow> datetime \<Rightarrow> workflow_status \<Rightarrow> workflow_status" where
  "started_status now now' w =
     w\<lparr>wf_status := Pending,
       wf_started_at := (case wf_started_at w of Some t \<Rightarrow> Some t | None \<Rightarrow> Some now),
       wf_attempts := saturating_succ (wf_attempts w), wf_updated_at := now'\<rparr>"

definition run_state_of_row :: "workflow_status \<Rightarrow> run_state" where
  "run_state_of_row w =
     \<lparr>rs_workflow_id = wf_workflow_uuid w, rs_authenticated_user = wf_authenticated_user w,
      rs_assumed_role = wf_assumed_role w, rs_authenticated_roles = wf_authenticated_roles w,
      rs_portable = (wf_serialization w = PORTABLE_JSON)\<rparr>"

text \<open>The row saved at the end, or the error of encoding the result.\<close>

definition finished_status :: "codec \<Rightarrow> datetime \<Rightarrow> json res \<Rightarrow> workflow_status \<Rightarrow> workflow_status res" where
  "finished_status c now result latest =
     (let latest = latest\<lparr>wf_updated_at := now, wf_completed_at := Some now\<rparr> in
      case result of
        Inr v \<Rightarrow>
          res_map (\<lambda>encoded. latest\<lparr>wf_status := Success, wf_serialization := enc_serialization encoded,
                                    wf_output := encoded_to_stored_value encoded, wf_error := None\<rparr>)
            (encode_value c v (wf_serialization latest = PORTABLE_JSON))
      | Inl e \<Rightarrow> Inr (latest\<lparr>wf_status := Error, wf_error := Some (error_to_string e)\<rparr>))"

text \<open>
  What an execution works with: the context of the executor, its registered workflows, the
  workflow id, whether it resumes an existing claim, and the fresh UUID it would claim with.
\<close>

record 's execution =
  ex_context :: dbos_context
  ex_registry :: "'s registry"
  ex_workflow_id :: string
  ex_resume_claim :: bool
  ex_execution_id :: string

definition after_read :: "'s execution \<Rightarrow> workflow_status \<Rightarrow> exec_state" where
  "after_read x w =
     (if is_terminal (wf_status w) then Finished (Inr ())
      else if wf_executor_id w = None then ClaimRow
      else if \<not> ex_resume_claim x \<or> wf_executor_id w \<noteq> Some (executor_id (ex_context x)) then Finished (Inr ())
      else StartRow w)"

definition existing :: "string \<Rightarrow> workflow_status option res \<Rightarrow> workflow_status res" where
  "existing workflow_id r = res_bind r (ok_or (non_existent_workflow workflow_id))"

definition exec_step ::
    "'s system_database \<Rightarrow> datetime \<Rightarrow> 's execution \<Rightarrow> exec_state \<Rightarrow> 's \<Rightarrow> exec_state \<times> 's" where
  "exec_step db now x st s =
     (let i = ex_workflow_id x; ctx = ex_context x in
      case st of
        ReadRow \<Rightarrow>
          (case db_get_workflow db i s of
             (r, s') \<Rightarrow> (case existing i r of Inl e \<Rightarrow> (Finished (Inl e), s') | Inr w \<Rightarrow> (after_read x w, s')))
      | ClaimRow \<Rightarrow>
          (case db_claim_workflow_execution db now i (executor_id ctx) (ex_execution_id x) s of
             (Inl e, s') \<Rightarrow> (Finished (Inl e), s')
           | (Inr claimed, s') \<Rightarrow> (if claimed then RereadRow else Finished (Inr ()), s'))
      | RereadRow \<Rightarrow>
          (case db_get_workflow db i s of
             (r, s') \<Rightarrow>
               (case existing i r of
                  Inl e \<Rightarrow> (Finished (Inl e), s')
                | Inr w \<Rightarrow> (if is_terminal (wf_status w) then Finished (Inr ()) else StartRow w, s')))
      | StartRow w \<Rightarrow>
          (case resolve_workflow (ex_registry x) (wf_name w) (wf_config_name w) of
             Inl e \<Rightarrow> (Finished (Inl e), s)
           | Inr _ \<Rightarrow>
               (case db_save_workflow db (started_status now now w) s of
                  (Inl e, s') \<Rightarrow> (Finished (Inl e), s')
                | (Inr _, s') \<Rightarrow> (RunHandler (started_status now now w), s')))
      | RunHandler w \<Rightarrow>
          (case (resolve_workflow (ex_registry x) (wf_name w) (wf_config_name w),
                 decode_stored_value (cx_codec ctx) json_serde (wf_input w) (wf_serialization w)) of
             (Inl e, _) \<Rightarrow> (Finished (Inl e), s)
           | (_, Inl e) \<Rightarrow> (Finished (Inl e), s)
           | (Inr handler, Inr input) \<Rightarrow>
               (case handler (with_run_state ctx (run_state_of_row w)) input s of
                  (result, s') \<Rightarrow> (ReloadRow result, s')))
      | ReloadRow result \<Rightarrow>
          (case db_get_workflow db i s of
             (r, s') \<Rightarrow>
               (case existing i r of
                  Inl e \<Rightarrow> (Finished (Inl e), s')
                | Inr latest \<Rightarrow>
                    if wf_status latest = Cancelled then (Finished (Inr ()), s')
                    else (case finished_status (cx_codec ctx) now result latest of
                            Inl e \<Rightarrow> (Finished (Inl e), s')
                          | Inr row \<Rightarrow> (FinishRow row, s'))))
      | FinishRow row \<Rightarrow> (case db_save_workflow db row s of (r, s') \<Rightarrow> (Finished r, s'))
      | Finished r \<Rightarrow> (Finished r, s))"

text \<open>Running one execution alone; every path ends within seven steps.\<close>

fun exec_steps :: "'s system_database \<Rightarrow> (nat \<Rightarrow> datetime) \<Rightarrow> 's execution \<Rightarrow> nat \<Rightarrow> exec_state \<times> 's \<Rightarrow> exec_state \<times> 's" where
  "exec_steps db t x 0 (st, s) = (st, s)"
| "exec_steps db t x (Suc n) (st, s) = exec_steps db t x n (exec_step db (t n) x st s)"

definition execute_workflow ::
    "'s system_database \<Rightarrow> (nat \<Rightarrow> datetime) \<Rightarrow> 's execution \<Rightarrow> ('s, unit) dbact" where
  "execute_workflow db t x s =
     (case exec_steps db t x 7 (ReadRow, s) of
        (Finished r, s') \<Rightarrow> (r, s')
      | (_, s') \<Rightarrow> (Inl (workflow_execution_error (ex_workflow_id x) ''execution did not finish''), s'))"

text \<open>How many steps an execution can still take.\<close>

fun exec_rank :: "exec_state \<Rightarrow> nat" where
  "exec_rank ReadRow = 7"
| "exec_rank ClaimRow = 6"
| "exec_rank RereadRow = 5"
| "exec_rank (StartRow w) = 4"
| "exec_rank (RunHandler w) = 3"
| "exec_rank (ReloadRow r) = 2"
| "exec_rank (FinishRow w) = 1"
| "exec_rank (Finished r) = 0"

lemma exec_step_rank: "exec_step db now x st s = (st', s') \<Longrightarrow> exec_rank st' \<le> exec_rank st - 1"
  by (cases st)
    (auto simp: exec_step_def after_read_def Let_def split: prod.splits sum.splits if_splits)

lemma exec_rank_0: "exec_rank st = 0 \<longleftrightarrow> (\<exists>r. st = Finished r)"
  by (cases st) auto

lemma exec_steps_finish: "exec_rank st \<le> n \<Longrightarrow> \<exists>r. fst (exec_steps db t x n (st, s)) = Finished r"
proof (induction n arbitrary: st s)
  case 0
  then show ?case using exec_rank_0 by simp
next
  case (Suc n)
  obtain st' s' where step: "exec_step db (t n) x st s = (st', s')" by fastforce
  from exec_step_rank [OF step] Suc.prems have "exec_rank st' \<le> n" by simp
  with Suc.IH step show ?case by simp
qed

end
