(* ===== verification/Execution_Protocol.thy ===== *)
theory Execution_Protocol
  imports Execution
begin

text \<open>
  Executions of one workflow running side by side, by any number of tasks and processes that
  share the system database, interleaved with cancellations. The state is the store, where each
  task stands, and the cancellations that have read the row and not yet written it;
  \<open>sys_ran\<close> records which tasks have run the handler.
\<close>

record 's system =
  sys_store :: 's
  sys_tasks :: "nat \<Rightarrow> exec_state"
  sys_cancels :: "nat \<Rightarrow> workflow_status option"
  sys_ran :: "nat list"

definition runs_handler :: "exec_state \<Rightarrow> bool" where
  "runs_handler st \<longleftrightarrow> (case st of RunHandler w \<Rightarrow> True | _ \<Rightarrow> False)"

definition handler_returned :: "exec_state \<Rightarrow> bool" where
  "handler_returned st \<longleftrightarrow> (case st of ReloadRow r \<Rightarrow> True | _ \<Rightarrow> False)"

text \<open>The two halves of \<open>cancel_workflow\<close>: read the row, write it back as cancelled.\<close>

definition cancelled_status :: "datetime \<Rightarrow> datetime \<Rightarrow> workflow_status \<Rightarrow> workflow_status" where
  "cancelled_status now now' w = w\<lparr>wf_status := Cancelled, wf_completed_at := Some now, wf_updated_at := now'\<rparr>"

inductive sys_step ::
    "'s system_database \<Rightarrow> (nat \<Rightarrow> 's execution) \<Rightarrow> string \<Rightarrow> 's system \<Rightarrow> 's system \<Rightarrow> bool"
  for db :: "'s system_database" and xs :: "nat \<Rightarrow> 's execution" and i :: string where
  task: "exec_step db now (xs k) (sys_tasks y k) (sys_store y) = (st, s') \<Longrightarrow>
    sys_step db xs i y (y\<lparr>sys_store := s', sys_tasks := (sys_tasks y)(k := st),
      sys_ran := (if runs_handler (sys_tasks y k) \<and> handler_returned st then sys_ran y @ [k] else sys_ran y)\<rparr>)"
| cancel_read: "db_get_workflow db i (sys_store y) = (Inr (Some w), s') \<Longrightarrow> \<not> is_terminal (wf_status w) \<Longrightarrow>
    sys_step db xs i y (y\<lparr>sys_store := s', sys_cancels := (sys_cancels y)(c := Some w)\<rparr>)"
| cancel_write: "sys_cancels y c = Some w \<Longrightarrow>
    db_save_workflow db (cancelled_status now now' w) (sys_store y) = (r, s') \<Longrightarrow>
    sys_step db xs i y (y\<lparr>sys_store := s', sys_cancels := (sys_cancels y)(c := None)\<rparr>)"

inductive sys_reach ::
    "'s system_database \<Rightarrow> (nat \<Rightarrow> 's execution) \<Rightarrow> string \<Rightarrow> 's system \<Rightarrow> 's system \<Rightarrow> bool"
  for db :: "'s system_database" and xs :: "nat \<Rightarrow> 's execution" and i :: string where
  start: "sys_reach db xs i y y"
| step: "sys_reach db xs i y y' \<Longrightarrow> sys_step db xs i y' y'' \<Longrightarrow> sys_reach db xs i y y''"

definition initial_system :: "'s \<Rightarrow> 's system" where
  "initial_system s = \<lparr>sys_store = s, sys_tasks = (\<lambda>_. ReadRow), sys_cancels = (\<lambda>_. None), sys_ran = []\<rparr>"

text \<open>The two halves make up the operation.\<close>

lemma cancel_workflow_halves:
  "cancel_workflow db now now' i s =
     (case existing_workflow db i s of
        (Inl e, s') \<Rightarrow> (Inl e, s')
      | (Inr w, s') \<Rightarrow>
          if is_terminal (wf_status w) then (Inr (), s')
          else db_save_workflow db (cancelled_status now now' w) s')"
  by (simp add: cancel_workflow_def act_bind_def cancelled_status_def split: sum.splits prod.splits)

text \<open>
  What the executions may assume: tasks that do not resume a claim, fresh execution ids, and
  handlers that leave the row of their own workflow alone.
\<close>

definition quiet_handlers ::
    "('s \<Rightarrow> bool) \<Rightarrow> ('s \<Rightarrow> abstract_db) \<Rightarrow> string \<Rightarrow> 's registry \<Rightarrow> bool" where
  "quiet_handlers ok view i reg \<longleftrightarrow>
     (\<forall>name config h ctx input s r s'.
        resolve_workflow reg name config = Inr h \<longrightarrow> ok s \<longrightarrow> h ctx input s = (r, s') \<longrightarrow>
        ok s' \<and> a_workflows (view s') i = a_workflows (view s) i)"

definition new_executions :: "('s \<Rightarrow> bool) \<Rightarrow> ('s \<Rightarrow> abstract_db) \<Rightarrow> string \<Rightarrow> (nat \<Rightarrow> 's execution) \<Rightarrow> bool" where
  "new_executions ok view i xs \<longleftrightarrow>
     inj (\<lambda>k. ex_execution_id (xs k)) \<and>
     (\<forall>k. ex_workflow_id (xs k) = i \<and> \<not> ex_resume_claim (xs k) \<and> quiet_handlers ok view i (ex_registry (xs k)))"

section \<open>The invariant\<close>

text \<open>Before the claim: reading, about to claim, or finished.\<close>

definition before_claim :: "exec_state \<Rightarrow> bool" where
  "before_claim st \<longleftrightarrow> st = ReadRow \<or> st = ClaimRow \<or> (\<exists>r. st = Finished r)"

text \<open>A row nobody can claim any more, and the execution ids a row may carry.\<close>

definition settled :: "workflow_status \<Rightarrow> bool" where
  "settled w \<longleftrightarrow> is_terminal (wf_status w) \<or> has_executor w"

definition ids_ok :: "(nat \<Rightarrow> 's execution) \<Rightarrow> nat option \<Rightarrow> string \<Rightarrow> workflow_status \<Rightarrow> bool" where
  "ids_ok xs owner i w \<longleftrightarrow>
     wf_workflow_uuid w = i \<and> claim_consistent w \<and>
     (\<forall>k. wf_execution_id w = Some (ex_execution_id (xs k)) \<longrightarrow> owner = Some k)"

text \<open>What the task that owns the claim carries.\<close>

definition carried_ok :: "(nat \<Rightarrow> 's execution) \<Rightarrow> nat \<Rightarrow> string \<Rightarrow> exec_state \<Rightarrow> bool" where
  "carried_ok xs k i st \<longleftrightarrow>
     (case st of
        StartRow w \<Rightarrow> ids_ok xs (Some k) i w \<and> has_executor w
      | RunHandler w \<Rightarrow> True
      | FinishRow w \<Rightarrow> ids_ok xs (Some k) i w \<and> is_terminal (wf_status w)
      | _ \<Rightarrow> True)"

definition ran_ok :: "nat \<Rightarrow> exec_state \<Rightarrow> nat list \<Rightarrow> bool" where
  "ran_ok k st done_by \<longleftrightarrow>
     (case st of
        RereadRow \<Rightarrow> done_by = []
      | StartRow w \<Rightarrow> done_by = []
      | RunHandler w \<Rightarrow> done_by = []
      | ReloadRow r \<Rightarrow> done_by = [k]
      | FinishRow w \<Rightarrow> done_by = [k]
      | Finished r \<Rightarrow> done_by = [] \<or> done_by = [k]
      | _ \<Rightarrow> False)"

definition sys_inv ::
    "('s \<Rightarrow> bool) \<Rightarrow> ('s \<Rightarrow> abstract_db) \<Rightarrow> (nat \<Rightarrow> 's execution) \<Rightarrow> string \<Rightarrow> nat option \<Rightarrow> 's system \<Rightarrow> bool" where
  "sys_inv ok view xs i owner y \<longleftrightarrow>
     ok (sys_store y) \<and>
     (\<forall>w. a_workflows (view (sys_store y)) i = Some w \<longrightarrow> ids_ok xs owner i w \<and> (owner \<noteq> None \<longrightarrow> settled w)) \<and>
     (\<forall>c w. sys_cancels y c = Some w \<longrightarrow> ids_ok xs owner i w) \<and>
     (\<forall>k. owner \<noteq> Some k \<longrightarrow> before_claim (sys_tasks y k)) \<and>
     (case owner of
        None \<Rightarrow> sys_ran y = []
      | Some k \<Rightarrow> carried_ok xs k i (sys_tasks y k) \<and> ran_ok k (sys_tasks y k) (sys_ran y))"

lemma ids_ok_simps [simp]:
  "ids_ok xs owner i (w\<lparr>wf_timeout := d\<rparr>) = ids_ok xs owner i w"
  "ids_ok xs owner i (cancelled_status now now' w) = ids_ok xs owner i w"
  "ids_ok xs owner i (started_status now now' w) = ids_ok xs owner i w"
  by (simp_all add: ids_ok_def cancelled_status_def started_status_def claim_consistent_def)

lemma settled_simps [simp]:
  "settled (w\<lparr>wf_timeout := d\<rparr>) = settled w"
  "settled (cancelled_status now now' w)"
  "settled (started_status now now' w) = has_executor w"
  by (simp_all add: settled_def has_executor_def cancelled_status_def started_status_def)

lemma ids_ok_owner: "ids_ok xs None i w \<Longrightarrow> ids_ok xs owner i w"
  by (auto simp: ids_ok_def)

lemma cancelled_uuid [simp]: "wf_workflow_uuid (cancelled_status now now' w) = wf_workflow_uuid w"
  by (simp add: cancelled_status_def)

lemma started_uuid [simp]: "wf_workflow_uuid (started_status now now' w) = wf_workflow_uuid w"
  by (simp add: started_status_def)

lemma finished_status_ids:
  assumes "finished_status c now result latest = Inr row"
  shows "ids_ok xs owner i row = ids_ok xs owner i latest" and "is_terminal (wf_status row)"
  using assms
  by (auto simp: finished_status_def ids_ok_def claim_consistent_def Let_def res_map_eq_Inr split: sum.splits)

text \<open>What the invariant asks of a step of task \<open>k\<close> that does not take the claim.\<close>

definition advanced :: "'s system \<Rightarrow> nat \<Rightarrow> 's \<Rightarrow> exec_state \<Rightarrow> nat list \<Rightarrow> 's system" where
  "advanced y k s' st done_by = y\<lparr>sys_store := s', sys_tasks := (sys_tasks y)(k := st), sys_ran := done_by\<rparr>"

lemma sys_inv_advanced:
  assumes "sys_inv ok view xs i owner y" "ok s'"
    and "\<And>w. a_workflows (view s') i = Some w \<Longrightarrow> ids_ok xs owner i w \<and> (owner \<noteq> None \<longrightarrow> settled w)"
    and "owner \<noteq> Some k \<Longrightarrow> before_claim st \<and> done_by = sys_ran y"
    and "owner = Some k \<Longrightarrow> carried_ok xs k i st \<and> ran_ok k st done_by"
  shows "sys_inv ok view xs i owner (advanced y k s' st done_by)"
  using assms unfolding sys_inv_def advanced_def
  by (cases "owner = Some k") (auto split: option.splits)

context workflow_store
begin

lemma get_run:
  assumes "inv s" "db_get_workflow db i s = (r, s')"
  shows "r = Inr (a_workflows (abs s) i)" "inv s'" "abs s' = abs s"
  using get [OF assms] by simp_all

text \<open>Saving a row of the workflow stores that row, up to the stored timeout.\<close>

lemma save_run:
  assumes "inv s" "db_save_workflow db w s = (r, s')" "wf_workflow_uuid w = i"
  shows "inv s'" "\<exists>d. a_workflows (abs s') i = Some (w\<lparr>wf_timeout := d\<rparr>)"
  using save [OF assms(1,2)] assms(3) by auto

text \<open>A task that does not hold the claim.\<close>

lemma outsider_step:
  assumes "sys_inv inv abs xs i owner y" "new_executions inv abs i xs" "owner \<noteq> Some k"
    and "exec_step db now (xs k) (sys_tasks y k) (sys_store y) = (st, s')"
  shows "\<exists>owner'. sys_inv inv abs xs i owner' (advanced y k s' st (sys_ran y))"
proof -
  let ?s = "sys_store y"
  have ok: "inv ?s" and row: "\<And>w. a_workflows (abs ?s) i = Some w \<Longrightarrow> ids_ok xs owner i w \<and> (owner \<noteq> None \<longrightarrow> settled w)"
    and before: "before_claim (sys_tasks y k)"
    using assms(1,3) by (auto simp: sys_inv_def)
  have x: "ex_workflow_id (xs k) = i" "\<not> ex_resume_claim (xs k)"
    using assms(2) by (auto simp: new_executions_def)
  note keep = sys_inv_advanced [OF assms(1), of s' k st "sys_ran y"]
  from before consider "sys_tasks y k = ReadRow" | r where "sys_tasks y k = Finished r" | "sys_tasks y k = ClaimRow"
    by (auto simp: before_claim_def)
  then show ?thesis
  proof cases
    case 1
    obtain r t where g: "db_get_workflow db i ?s = (r, t)" by fastforce
    note run = get_run [OF ok g]
    have "s' = t" "before_claim st"
      using 1 assms(4) g x
      by (auto simp: exec_step_def before_claim_def after_read_def split: sum.splits if_splits)
    with keep run row assms(3) show ?thesis by auto
  next
    case 2
    with assms(4) have "s' = ?s" "st = Finished r" by (simp_all add: exec_step_def)
    with keep ok row assms(3) show ?thesis by (auto simp: before_claim_def)
  next
    case 3
    let ?x = "ex_execution_id (xs k)" and ?e = "executor_id (ex_context (xs k))"
    obtain r t where c: "db_claim_workflow_execution db now i ?e ?x ?s = (r, t)" by fastforce
    have cons: "\<And>w. a_workflows (abs ?s) i = Some w \<Longrightarrow> claim_consistent w"
      using row by (auto simp: ids_ok_def)
    note run = claim_row [OF ok cons c]
    show ?thesis
    proof (cases "fst (claim_spec now ?e ?x (a_workflows (abs ?s) i))")
      case False
      then have same: "snd (claim_spec now ?e ?x (a_workflows (abs ?s) i)) = a_workflows (abs ?s) i"
        by (auto simp: claim_spec_def split: option.splits if_splits)
      from False 3 assms(4) c run(1) x have "s' = t" "st = Finished (Inr ())"
        by (auto simp: exec_step_def)
      with keep run same row assms(3) show ?thesis by (auto simp: before_claim_def)
    next
      case True
      then obtain w where w: "a_workflows (abs ?s) i = Some w"
        by (auto simp: claim_spec_def split: option.splits)
      have "wf_execution_id w \<noteq> Some ?x" using row [OF w] assms(3) by (auto simp: ids_ok_def)
      with True w have free: "wf_status w \<in> {Pending, Enqueued}" "wf_executor_id w = None"
        by (auto simp: claim_spec_def split: if_splits)
      then have none: "owner = None" using row [OF w] by (auto simp: settled_def has_executor_def)
      have new: "snd (claim_spec now ?e ?x (Some w)) =
          Some (w\<lparr>wf_status := Pending, wf_executor_id := Some ?e, wf_execution_id := Some ?x, wf_updated_at := now\<rparr>)"
        using free \<open>wf_execution_id w \<noteq> Some ?x\<close> by (auto simp: claim_spec_def)
      have st: "s' = t" "st = RereadRow" using True 3 assms(4) c run(1) x by (auto simp: exec_step_def)
      have inj: "inj (\<lambda>k. ex_execution_id (xs k))" using assms(2) by (simp add: new_executions_def)
      have "sys_inv inv abs xs i (Some k) (advanced y k s' st (sys_ran y))"
        unfolding sys_inv_def
      proof (intro conjI allI impI)
        show "inv (sys_store (advanced y k s' st (sys_ran y)))" using run(3) st by (simp add: advanced_def)
      next
        fix w' assume w': "a_workflows (abs (sys_store (advanced y k s' st (sys_ran y)))) i = Some w'"
        then have w'': "w' = w\<lparr>wf_status := Pending, wf_executor_id := Some ?e, wf_execution_id := Some ?x, wf_updated_at := now\<rparr>"
          using run(2) w new st by (simp add: advanced_def)
        show "ids_ok xs (Some k) i w'" using w'' row [OF w] injD [OF inj]
          by (auto simp: ids_ok_def claim_consistent_def)
        show "settled w'" using w'' by (simp add: settled_def has_executor_def)
      next
        fix c w assume "sys_cancels (advanced y k s' st (sys_ran y)) c = Some w"
        then have "ids_ok xs owner i w" using assms(1) by (auto simp: sys_inv_def advanced_def)
        with none show "ids_ok xs (Some k) i w" using ids_ok_owner by blast
      next
        fix j assume "Some k \<noteq> Some j"
        then show "before_claim (sys_tasks (advanced y k s' st (sys_ran y)) j)"
          using assms(1) none by (auto simp: sys_inv_def advanced_def)
      next
        have "sys_ran y = []" using assms(1) none by (simp add: sys_inv_def)
        then show "case Some k of None \<Rightarrow> sys_ran (advanced y k s' st (sys_ran y)) = []
          | Some k' \<Rightarrow> carried_ok xs k' i (sys_tasks (advanced y k s' st (sys_ran y)) k') \<and>
              ran_ok k' (sys_tasks (advanced y k s' st (sys_ran y)) k') (sys_ran (advanced y k s' st (sys_ran y)))"
          using st by (simp add: carried_ok_def ran_ok_def advanced_def)
      qed
      then show ?thesis ..
    qed
  qed
qed

text \<open>The task that holds the claim.\<close>

lemma owner_step:
  assumes "sys_inv inv abs xs i (Some k) y" "new_executions inv abs i xs"
    and "exec_step db now (xs k) (sys_tasks y k) (sys_store y) = (st, s')"
  shows "sys_inv inv abs xs i (Some k) (advanced y k s' st
    (if runs_handler (sys_tasks y k) \<and> handler_returned st then sys_ran y @ [k] else sys_ran y))"
proof -
  let ?s = "sys_store y" and ?c = "ex_context (xs k)" and ?reg = "ex_registry (xs k)"
  have ok: "inv ?s" and row: "\<And>w. a_workflows (abs ?s) i = Some w \<Longrightarrow> ids_ok xs (Some k) i w \<and> settled w"
    and carried: "carried_ok xs k i (sys_tasks y k)" and ran: "ran_ok k (sys_tasks y k) (sys_ran y)"
    using assms(1) by (auto simp: sys_inv_def)
  have x: "ex_workflow_id (xs k) = i" "quiet_handlers inv abs i ?reg"
    using assms(2) by (auto simp: new_executions_def)
  note keep = sys_inv_advanced [OF assms(1), of s' k st]
  have returned: "handler_returned st \<longleftrightarrow> (\<exists>r. st = ReloadRow r)"
    by (cases st) (simp_all add: handler_returned_def)
  show ?thesis
  proof (cases "sys_tasks y k")
    case ReadRow
    with ran show ?thesis by (simp add: ran_ok_def)
  next
    case ClaimRow
    with ran show ?thesis by (simp add: ran_ok_def)
  next
    case RereadRow
    obtain r t where g: "db_get_workflow db i ?s = (r, t)" by fastforce
    note run = get_run [OF ok g]
    have "s' = t" "carried_ok xs k i st \<and> ran_ok k st (sys_ran y)"
      using RereadRow assms(3) g x run(1) row ran
      by (auto simp: exec_step_def existing_def carried_ok_def ran_ok_def ok_or_def settled_def
          split: option.splits if_splits)
    with keep run row RereadRow show ?thesis by (auto simp: runs_handler_def)
  next
    case (StartRow w)
    have w: "ids_ok xs (Some k) i w" "has_executor w"
      using carried StartRow by (auto simp: carried_ok_def)
    have none: "sys_ran y = []" using ran StartRow by (simp add: ran_ok_def)
    show ?thesis
    proof (cases "resolve_workflow ?reg (wf_name w) (wf_config_name w)")
      case (Inl e)
      with assms(3) StartRow have "s' = ?s" "st = Finished (Inl e)" by (simp_all add: exec_step_def)
      with keep ok row StartRow none show ?thesis
        by (auto simp: runs_handler_def carried_ok_def ran_ok_def)
    next
      case (Inr h)
      obtain r t where g: "db_save_workflow db (started_status now now w) ?s = (r, t)" by fastforce
      have "wf_workflow_uuid w = i" using w by (simp add: ids_ok_def)
      with save_run [OF ok g] obtain d where t: "inv t"
        "a_workflows (abs t) i = Some (started_status now now w\<lparr>wf_timeout := d\<rparr>)" by auto
      have "s' = t" "carried_ok xs k i st \<and> ran_ok k st (sys_ran y)"
        using StartRow assms(3) g Inr none
        by (auto simp: exec_step_def carried_ok_def ran_ok_def split: sum.splits)
      with keep t w StartRow show ?thesis by (auto simp: runs_handler_def)
    qed
  next
    case (RunHandler w)
    have none: "sys_ran y = []" using ran RunHandler by (simp add: ran_ok_def)
    show ?thesis
    proof (cases "\<exists>r. st = ReloadRow r")
      case False
      with assms(3) RunHandler have "s' = ?s" "\<exists>e. st = Finished (Inl e)"
        by (auto simp: exec_step_def Let_def split: sum.splits prod.splits)
      with keep ok row False none returned show ?thesis by (auto simp: carried_ok_def ran_ok_def)
    next
      case True
      then obtain r where r: "st = ReloadRow r" by blast
      with assms(3) RunHandler obtain h input where h:
        "resolve_workflow ?reg (wf_name w) (wf_config_name w) = Inr h"
        "h (with_run_state ?c (run_state_of_row w)) input ?s = (r, s')"
        by (auto simp: exec_step_def Let_def split: sum.splits prod.splits)
      with x(2) ok have "inv s' \<and> a_workflows (abs s') i = a_workflows (abs ?s) i"
        unfolding quiet_handlers_def by blast
      with keep row r none RunHandler show ?thesis
        by (auto simp: runs_handler_def handler_returned_def carried_ok_def ran_ok_def)
    qed
  next
    case (ReloadRow res)
    obtain r t where g: "db_get_workflow db i ?s = (r, t)" by fastforce
    note run = get_run [OF ok g]
    have "s' = t" "carried_ok xs k i st \<and> ran_ok k st (sys_ran y)"
      using ReloadRow assms(3) g x run(1) row ran
      by (auto simp: exec_step_def existing_def carried_ok_def ran_ok_def ok_or_def finished_status_ids
          split: option.splits if_splits sum.splits)
    with keep run row ReloadRow show ?thesis by (auto simp: runs_handler_def)
  next
    case (FinishRow w)
    have w: "ids_ok xs (Some k) i w" "is_terminal (wf_status w)"
      using carried FinishRow by (auto simp: carried_ok_def)
    obtain r t where g: "db_save_workflow db w ?s = (r, t)" by fastforce
    have "wf_workflow_uuid w = i" using w by (simp add: ids_ok_def)
    with save_run [OF ok g] obtain d where t: "inv t"
      "a_workflows (abs t) i = Some (w\<lparr>wf_timeout := d\<rparr>)" by auto
    have "s' = t" "st = Finished r" using FinishRow assms(3) g by (auto simp: exec_step_def)
    moreover have "sys_ran y = [k]" using ran FinishRow by (simp add: ran_ok_def)
    ultimately show ?thesis using keep t w FinishRow
      by (auto simp: runs_handler_def carried_ok_def ran_ok_def settled_def)
  next
    case (Finished r)
    with assms(3) have "s' = ?s" "st = Finished r" by (simp_all add: exec_step_def)
    with keep ok row ran Finished show ?thesis
      by (auto simp: runs_handler_def carried_ok_def ran_ok_def)
  qed
qed

lemma sys_step_inv:
  assumes "sys_step db xs i y y'" "sys_inv inv abs xs i owner y" "new_executions inv abs i xs"
  shows "\<exists>owner'. sys_inv inv abs xs i owner' y'"
  using assms(1)
proof (cases rule: sys_step.cases)
  case (task now k st s')
  show ?thesis
  proof (cases "owner = Some k")
    case True
    with owner_step [OF _ assms(3) task(2)] assms(2) task(1) show ?thesis
      by (auto simp: advanced_def)
  next
    case False
    then have "before_claim (sys_tasks y k)" using assms(2) by (auto simp: sys_inv_def)
    then have "\<not> runs_handler (sys_tasks y k)" by (auto simp: before_claim_def runs_handler_def)
    with outsider_step [OF assms(2,3) False task(2)] task(1) show ?thesis by (simp add: advanced_def)
  qed
next
  case (cancel_read w s' c)
  have "inv (sys_store y)" using assms(2) by (simp add: sys_inv_def)
  note run = get_run [OF this cancel_read(2)]
  then have "ids_ok xs owner i w" using assms(2) by (auto simp: sys_inv_def)
  with run assms(2) cancel_read(1) have "sys_inv inv abs xs i owner y'"
    by (cases owner) (auto simp: sys_inv_def)
  then show ?thesis ..
next
  case (cancel_write c w now now' r s')
  have "inv (sys_store y)" and w: "ids_ok xs owner i w"
    using assms(2) cancel_write(2) by (auto simp: sys_inv_def)
  with save_run [OF this(1) cancel_write(3), of i] obtain d where s': "inv s'"
    "a_workflows (abs s') i = Some (cancelled_status now now' w\<lparr>wf_timeout := d\<rparr>)"
    by (auto simp: ids_ok_def)
  then have "ids_ok xs owner i v \<and> settled v" if "a_workflows (abs s') i = Some v" for v
    using that w by auto
  with s'(1) assms(2) cancel_write(1) have "sys_inv inv abs xs i owner y'"
    by (cases owner) (auto simp: sys_inv_def)
  then show ?thesis ..
qed

lemma sys_reach_inv:
  assumes "sys_reach db xs i y y'" "sys_inv inv abs xs i owner y" "new_executions inv abs i xs"
  shows "\<exists>owner'. sys_inv inv abs xs i owner' y'"
  using assms
proof (induction arbitrary: owner rule: sys_reach.induct)
  case (start y)
  then show ?case by blast
next
  case (step y y' y'')
  then show ?case using sys_step_inv by blast
qed

lemma handler_once:
  assumes "inv s" "a_workflows (abs s) i = Some w" "claim_consistent w"
    and "\<And>k. wf_execution_id w \<noteq> Some (ex_execution_id (xs k))" "new_executions inv abs i xs"
    and "sys_reach db xs i (initial_system s) y"
  shows "length (sys_ran y) \<le> 1"
proof -
  have "wf_workflow_uuid w = i" using keyed assms(1,2) by blast
  with assms(1-4) have "sys_inv inv abs xs i None (initial_system s)"
    by (auto simp: sys_inv_def initial_system_def ids_ok_def before_claim_def)
  with sys_reach_inv [OF assms(6) _ assms(5)] obtain owner where "sys_inv inv abs xs i owner y" by blast
  then show ?thesis
    by (cases owner) (auto simp: sys_inv_def ran_ok_def split: exec_state.splits)
qed

end

end
