(* ===== verification/Steps.thy ===== *)
theory Steps
  imports Context
begin

text \<open>
  Steps of a running workflow (\<open>src/src/context.rs\<close>): \<open>run_as_step\<close> and its variant with retries,
  transactions, the checkpointed sleep, and the selection of a finished step. A task is the
  shared step counter, the store, and the outside world the operations act on. Observability
  calls have no effect on these and are left out.
\<close>

record ('s, 'w) task =
  tk_step_id :: int
  tk_store :: 's
  tk_world :: 'w

type_synonym ('s, 'w, 'a) task_act = "(('s, 'w) task, 'a) dbact"

definition in_store :: "('s, 'a) dbact \<Rightarrow> ('s, 'w, 'a) task_act" where
  "in_store m t = (case m (tk_store t) of (r, s') \<Rightarrow> (r, t\<lparr>tk_store := s'\<rparr>))"

text \<open>The counter is an \<open>AtomicI32\<close>; \<open>fetch_add\<close> wraps around.\<close>

definition wrap_i32 :: "int \<Rightarrow> int" where
  "wrap_i32 i = (i + 2 ^ 31) mod 2 ^ 32 - 2 ^ 31"

definition next_step_id :: "('s, 'w) task \<Rightarrow> int \<times> ('s, 'w) task" where
  "next_step_id t = (wrap_i32 (tk_step_id t + 1), t\<lparr>tk_step_id := wrap_i32 (tk_step_id t + 1)\<rparr>)"

definition current_step_id :: "dbos_context \<Rightarrow> ('s, 'w, int) task_act" where
  "current_step_id ctx t =
     (if cx_run_state ctx = None
      then (Inl (invalid_argument ''current step ID is only available inside workflows''), t)
      else (Inr (tk_step_id t), t))"

section \<open>Running a step\<close>

text \<open>A step whose row is already recorded is not run: its name is checked and its output decoded.\<close>

definition replay_step ::
    "codec \<Rightarrow> 'a serde \<Rightarrow> string \<Rightarrow> int \<Rightarrow> string \<Rightarrow> step_info \<Rightarrow> 'a res" where
  "replay_step c ty workflow_id sid name recorded =
     (if step_name recorded \<noteq> name
      then Inl (unexpected_step_error workflow_id sid name (step_name recorded))
      else decode_stored_value c ty (step_output recorded) (step_serialization recorded))"

definition step_row ::
    "string \<Rightarrow> int \<Rightarrow> string \<Rightarrow> json option \<Rightarrow> string option \<Rightarrow> string \<Rightarrow> datetime \<times> datetime \<Rightarrow> step_info" where
  "step_row workflow_id sid name output error serialization stamps =
     \<lparr>step_workflow_uuid = workflow_id, step_id = sid, step_name = name, step_output = output,
      step_error = error, step_child_workflow_id = None, step_serialization = serialization,
      step_started_at = fst stamps, step_completed_at = snd stamps\<rparr>"

definition run_step_at ::
    "'s system_database \<Rightarrow> codec \<Rightarrow> run_state \<Rightarrow> 'a serde \<Rightarrow> (int \<Rightarrow> datetime \<times> datetime) \<Rightarrow> int \<Rightarrow> string \<Rightarrow>
     ('s, 'w, 'a) task_act \<Rightarrow> ('s, 'w, 'a) task_act" where
  "run_step_at db c rs ty clock sid name operation =
     act_bind (in_store (db_get_step db (rs_workflow_id rs) sid)) (\<lambda>recorded_step.
       case recorded_step of
         Some recorded \<Rightarrow> act_lift (replay_step c ty (rs_workflow_id rs) sid name recorded)
       | None \<Rightarrow> (\<lambda>t.
           case operation t of
             (Inr value, t1) \<Rightarrow>
               (case encode_serializable c ty value (rs_portable rs) of
                  Inl error \<Rightarrow> (Inl error, t1)
                | Inr encoded \<Rightarrow>
                    act_bind (in_store (db_record_step db (step_row (rs_workflow_id rs) sid name
                        (encoded_to_stored_value encoded) None (enc_serialization encoded) (clock sid))))
                      (\<lambda>_. act_return value) t1)
           | (Inl error, t1) \<Rightarrow>
               act_bind (in_store (db_record_step db (step_row (rs_workflow_id rs) sid name
                   None (Some (error_to_string error)) DBOS_JSON (clock sid))))
                 (\<lambda>_. act_fail (step_execution_error (rs_workflow_id rs) name (error_to_string error))) t1))"

definition run_as_step ::
    "'s system_database \<Rightarrow> dbos_context \<Rightarrow> 'a serde \<Rightarrow> (int \<Rightarrow> datetime \<times> datetime) \<Rightarrow> string \<Rightarrow>
     ('s, 'w, 'a) task_act \<Rightarrow> ('s, 'w, 'a) task_act" where
  "run_as_step db ctx ty clock name operation t =
     (case cx_run_state ctx of
        None \<Rightarrow> operation t
      | Some rs \<Rightarrow>
          (case next_step_id t of
             (sid, t1) \<Rightarrow> run_step_at db (cx_codec ctx) rs ty clock sid name operation t1))"

section \<open>Retries\<close>

text \<open>
  \<open>StepOptions\<close>. The factor is an \<open>f64\<close>; the floating point operations are a parameter.
\<close>

record 'f step_options =
  so_max_retries :: nat
  so_backoff_factor :: 'f
  so_base_interval :: duration
  so_max_interval :: duration
  so_next_step_id :: "int option"
  so_retry_predicate :: "(dbos_error \<Rightarrow> bool) option"

record 'f f64_ops =
  f_two :: 'f
  f_zero :: 'f
  f_is_finite :: "'f \<Rightarrow> bool"
  f_less :: "'f \<Rightarrow> 'f \<Rightarrow> bool"
  f_times :: "'f \<Rightarrow> 'f \<Rightarrow> 'f"
  f_powi :: "'f \<Rightarrow> nat \<Rightarrow> 'f"
  f_of_duration :: "duration \<Rightarrow> 'f"
  f_to_duration :: "'f \<Rightarrow> duration"

definition default_step_options :: "'f f64_ops \<Rightarrow> 'f step_options" where
  "default_step_options fl =
     \<lparr>so_max_retries = 0, so_backoff_factor = f_two fl, so_base_interval = from_millis 100,
      so_max_interval = from_secs 5, so_next_step_id = None, so_retry_predicate = None\<rparr>"

definition with_backoff_factor :: "'f f64_ops \<Rightarrow> 'f \<Rightarrow> 'f step_options \<Rightarrow> 'f step_options" where
  "with_backoff_factor fl x opts =
     (if f_is_finite fl x \<and> f_less fl (f_zero fl) x then opts\<lparr>so_backoff_factor := x\<rparr> else opts)"

definition with_base_interval :: "duration \<Rightarrow> 'f step_options \<Rightarrow> 'f step_options" where
  "with_base_interval d opts = (if d \<noteq> 0 then opts\<lparr>so_base_interval := d\<rparr> else opts)"

definition with_max_interval :: "duration \<Rightarrow> 'f step_options \<Rightarrow> 'f step_options" where
  "with_max_interval d opts = (if d \<noteq> 0 then opts\<lparr>so_max_interval := d\<rparr> else opts)"

definition step_retry_delay :: "'f f64_ops \<Rightarrow> 'f step_options \<Rightarrow> nat \<Rightarrow> duration" where
  "step_retry_delay fl opts retry_number =
     (let defaults = default_step_options fl;
          base_interval = (if so_base_interval opts = 0 then so_base_interval defaults else so_base_interval opts);
          max_interval = (if so_max_interval opts = 0 then so_max_interval defaults else so_max_interval opts);
          backoff_factor = (if f_is_finite fl (so_backoff_factor opts) \<and> f_less fl (f_zero fl) (so_backoff_factor opts)
                            then so_backoff_factor opts else so_backoff_factor defaults);
          exponent = retry_number - 1;
          scaled_secs = f_times fl (f_of_duration fl base_interval) (f_powi fl backoff_factor exponent)
      in if \<not> f_is_finite fl scaled_secs \<or> \<not> f_less fl scaled_secs (f_of_duration fl max_interval)
         then max_interval
         else f_to_duration fl scaled_secs)"

text \<open>
  The retry loop, recursive in the retries left; \<open>retries\<close> counts those made. The delays slept
  are returned beside the result.
\<close>

fun retry_loop ::
    "(dbos_error \<Rightarrow> bool) \<Rightarrow> (nat \<Rightarrow> duration) \<Rightarrow> ('x, 'a) dbact \<Rightarrow> nat \<Rightarrow> nat \<Rightarrow> 'x \<Rightarrow>
     ((dbos_error + 'a) \<times> 'x) \<times> duration list" where
  "retry_loop predicate delay operation 0 retries x = (operation x, [])"
| "retry_loop predicate delay operation (Suc left) retries x =
     (case operation x of
        (Inr value, x') \<Rightarrow> ((Inr value, x'), [])
      | (Inl error, x') \<Rightarrow>
          if predicate error
          then (case retry_loop predicate delay operation left (Suc retries) x' of
                  (r, slept) \<Rightarrow> (r, delay (Suc retries) # slept))
          else ((Inl error, x'), []))"

definition retry_step_operation ::
    "'f f64_ops \<Rightarrow> 'f step_options \<Rightarrow> ('x, 'a) dbact \<Rightarrow> 'x \<Rightarrow> ((dbos_error + 'a) \<times> 'x) \<times> duration list" where
  "retry_step_operation fl opts operation x =
     retry_loop (case so_retry_predicate opts of None \<Rightarrow> (\<lambda>_. True) | Some p \<Rightarrow> p)
       (step_retry_delay fl opts) operation (so_max_retries opts) 0 x"

definition run_as_step_with_options ::
    "'s system_database \<Rightarrow> dbos_context \<Rightarrow> 'a serde \<Rightarrow> (int \<Rightarrow> datetime \<times> datetime) \<Rightarrow> 'f f64_ops \<Rightarrow> string \<Rightarrow>
     'f step_options \<Rightarrow> ('s, 'w, 'a) task_act \<Rightarrow> ('s, 'w, 'a) task_act" where
  "run_as_step_with_options db ctx ty clock fl name opts operation t =
     (let retried = (\<lambda>t. fst (retry_step_operation fl opts operation t)) in
      case cx_run_state ctx of
        None \<Rightarrow> retried t
      | Some rs \<Rightarrow>
          (case (case so_next_step_id opts of Some sid \<Rightarrow> (sid, t) | None \<Rightarrow> next_step_id t) of
             (sid, t1) \<Rightarrow> run_step_at db (cx_codec ctx) rs ty clock sid name retried t1))"

section \<open>Operations that are steps\<close>

datatype transaction_isolation_level = ReadUncommitted | ReadCommitted | RepeatableRead | Serializable

definition run_as_transaction_with_options ::
    "'s system_database \<Rightarrow> dbos_context \<Rightarrow> 'a serde \<Rightarrow> (int \<Rightarrow> datetime \<times> datetime) \<Rightarrow> string \<Rightarrow>
     transaction_isolation_level option \<Rightarrow> (dbos_context \<times> transaction_isolation_level option \<Rightarrow> ('s, 'w, 'a) task_act) \<Rightarrow>
     ('s, 'w, 'a) task_act" where
  "run_as_transaction_with_options db ctx ty clock name level operation =
     run_as_step db ctx ty clock name (operation (ctx, level))"

text \<open>A \<open>u64\<close> as JSON.\<close>

definition u64_serde :: "nat serde" where
  "u64_serde =
     \<lparr>to_value = (\<lambda>n. Inr (JNumber (NInt (int n)))),
      from_value = (\<lambda>v. case v of
        JNumber (NInt i) \<Rightarrow> if 0 \<le> i \<and> i < 2 ^ 64 then Inr (nat i) else Inl (from_serde_error ''invalid value'')
      | _ \<Rightarrow> Inl (from_serde_error ''invalid type''))\<rparr>"

definition sleep_operation :: "duration \<Rightarrow> ('s, 'w, nat) task_act" where
  "sleep_operation d =
     act_lift (if as_millis d < 2 ^ 64 then Inr (as_millis d)
               else Inl (invalid_argument ''sleep duration is too large to checkpoint''))"

definition sleep ::
    "'s system_database \<Rightarrow> dbos_context \<Rightarrow> (int \<Rightarrow> datetime \<times> datetime) \<Rightarrow> duration \<Rightarrow> ('s, 'w, duration) task_act" where
  "sleep db ctx clock d =
     act_bind (run_as_step db ctx u64_serde clock ''DBOS.sleep'' (sleep_operation d)) (\<lambda>millis.
       act_return (from_millis millis))"

text \<open>
  \<open>select_step\<close> takes the first handle to finish. The list gives the joined results in the order
  they finish; \<open>Inl\<close> is a task that panicked or was aborted.
\<close>

definition select_operation :: "(string + 'a res) list \<Rightarrow> ('s, 'w, 'a) task_act" where
  "select_operation joined =
     act_lift (case joined of
        [] \<Rightarrow> Inl (invalid_argument ''select_step requires at least one handle'')
      | Inr (Inr value) # _ \<Rightarrow> Inr value
      | Inr (Inl error) # _ \<Rightarrow> Inl error
      | Inl error # _ \<Rightarrow> Inl (workflow_execution_error ''select'' (''step task join failed: '' @ error)))"

definition select_step ::
    "'s system_database \<Rightarrow> dbos_context \<Rightarrow> 'a serde \<Rightarrow> (int \<Rightarrow> datetime \<times> datetime) \<Rightarrow>
     (string + 'a res) list \<Rightarrow> ('s, 'w, 'a) task_act" where
  "select_step db ctx ty clock joined =
     run_as_step db ctx ty clock ''DBOS.select'' (select_operation joined)"

section \<open>What a step does to the store\<close>

lemma wrap_i32_small: "- (2 ^ 31) \<le> i \<Longrightarrow> i < 2 ^ 31 \<Longrightarrow> wrap_i32 i = i"
  by (simp add: wrap_i32_def)

lemma wrap_i32_range: "- (2 ^ 31) \<le> wrap_i32 i \<and> wrap_i32 i < 2 ^ 31"
  by (simp add: wrap_i32_def)

lemma in_store_simp: "m (tk_store t) = (r, s') \<Longrightarrow> in_store m t = (r, t\<lparr>tk_store := s'\<rparr>)"
  by (simp add: in_store_def)

context step_store
begin

lemma get_step_run:
  assumes "inv s"
  obtains s' where "db_get_step db i n s = (Inr (a_steps (abs s) (i, n)), s')" "inv s'" "abs s' = abs s"
proof -
  obtain r s' where g: "db_get_step db i n s = (r, s')" by fastforce
  from get_step [OF assms g] g that show ?thesis by blast
qed

lemma record_step_run:
  assumes "inv s"
  obtains s' where "db_record_step db st s = (Inr (), s')" "inv s'"
    "abs s' = (abs s)\<lparr>a_steps := (a_steps (abs s))((step_workflow_uuid st, step_id st) \<mapsto> st)\<rparr>"
proof -
  obtain r s' where g: "db_record_step db st s = (r, s')" by fastforce
  from record_step [OF assms g] g that show ?thesis by blast
qed

text \<open>A recorded step is answered from its row; neither the store nor the world changes.\<close>

lemma recorded_step:
  assumes "inv (tk_store t)" "a_steps (abs (tk_store t)) (rs_workflow_id rs, sid) = Some st"
    and "run_step_at db c rs ty clock sid name operation t = (r, t')"
  shows "r = replay_step c ty (rs_workflow_id rs) sid name st"
    and "tk_world t' = tk_world t" "tk_step_id t' = tk_step_id t"
    and "inv (tk_store t')" "abs (tk_store t') = abs (tk_store t)"
proof -
  obtain s' where s': "db_get_step db (rs_workflow_id rs) sid (tk_store t) = (Inr (Some st), s')"
    "inv s'" "abs s' = abs (tk_store t)"
    using get_step_run [OF assms(1), of "rs_workflow_id rs" sid] assms(2) by metis
  with assms(3) show "r = replay_step c ty (rs_workflow_id rs) sid name st"
    and "tk_world t' = tk_world t" "tk_step_id t' = tk_step_id t"
    and "inv (tk_store t')" "abs (tk_store t') = abs (tk_store t)"
    by (auto simp: run_step_at_def act_bind_def in_store_def)
qed

end

end
