(* ===== verification/Replay.thy ===== *)
theory Replay
  imports Steps
begin

text \<open>
  Workflows as programs over steps, and what running them again does. A program returns, fails,
  or runs a named step and continues with what the step gave it; the operation of a step acts on
  the outside world only. This is the shape that the determinism rule of the library asks of
  workflow code. \<open>run_prog\<close> runs a program with the model of \<open>run_as_step\<close>; \<open>ideal_run\<close> is its
  meaning without a store: each operation is done once.
\<close>

datatype 'w prog =
    Return json
  | Throw dbos_error
  | Step string "'w \<Rightarrow> json res \<times> 'w" "json res \<Rightarrow> 'w prog"

definition world_op :: "('w \<Rightarrow> json res \<times> 'w) \<Rightarrow> ('s, 'w, json) task_act" where
  "world_op f t = (case f (tk_world t) of (r, w) \<Rightarrow> (r, t\<lparr>tk_world := w\<rparr>))"

text \<open>
  Running a program, at most \<open>fuel\<close> steps of it: \<open>None\<close> is a run that was cut off, as by a crash
  after the last step was recorded.
\<close>

primrec run_steps ::
    "'s system_database \<Rightarrow> dbos_context \<Rightarrow> (int \<Rightarrow> datetime \<times> datetime) \<Rightarrow> 'w prog \<Rightarrow> nat \<Rightarrow>
     ('s, 'w) task \<Rightarrow> json res option \<times> ('s, 'w) task" where
  "run_steps db ctx clock (Return v) fuel t = (Some (Inr v), t)"
| "run_steps db ctx clock (Throw e) fuel t = (Some (Inl e), t)"
| "run_steps db ctx clock (Step name f k) fuel t =
     (if fuel = 0 then (None, t)
      else case run_as_step db ctx json_serde clock name (world_op f) t of
        (r, t') \<Rightarrow> run_steps db ctx clock (k r) (fuel - 1) t')"

text \<open>An uninterrupted run.\<close>

primrec run_prog ::
    "'s system_database \<Rightarrow> dbos_context \<Rightarrow> (int \<Rightarrow> datetime \<times> datetime) \<Rightarrow> 'w prog \<Rightarrow> ('s, 'w, json) task_act" where
  "run_prog db ctx clock (Return v) t = (Inr v, t)"
| "run_prog db ctx clock (Throw e) t = (Inl e, t)"
| "run_prog db ctx clock (Step name f k) t =
     (case run_as_step db ctx json_serde clock name (world_op f) t of
        (r, t') \<Rightarrow> run_prog db ctx clock (k r) t')"

text \<open>What a workflow is told about a step: the error of an operation comes wrapped.\<close>

definition told :: "string \<Rightarrow> string \<Rightarrow> json res \<Rightarrow> json res" where
  "told workflow_id name r =
     (case r of Inr v \<Rightarrow> Inr v | Inl e \<Rightarrow> Inl (step_execution_error workflow_id name (error_to_string e)))"

primrec ideal_run :: "string \<Rightarrow> 'w prog \<Rightarrow> 'w \<Rightarrow> json res \<times> 'w" where
  "ideal_run i (Return v) w = (Inr v, w)"
| "ideal_run i (Throw e) w = (Inl e, w)"
| "ideal_run i (Step name f k) w = (case f w of (r, w') \<Rightarrow> ideal_run i (k (told i name r)) w')"

text \<open>The world after the first \<open>n\<close> steps, and their names and results in order.\<close>

primrec ideal_world :: "string \<Rightarrow> 'w prog \<Rightarrow> nat \<Rightarrow> 'w \<Rightarrow> 'w" where
  "ideal_world i (Return v) n w = w"
| "ideal_world i (Throw e) n w = w"
| "ideal_world i (Step name f k) n w =
     (if n = 0 then w else case f w of (r, w') \<Rightarrow> ideal_world i (k (told i name r)) (n - 1) w')"

primrec ideal_log :: "string \<Rightarrow> 'w prog \<Rightarrow> 'w \<Rightarrow> (string \<times> json res) list" where
  "ideal_log i (Return v) w = []"
| "ideal_log i (Throw e) w = []"
| "ideal_log i (Step name f k) w = (case f w of (r, w') \<Rightarrow> (name, r) # ideal_log i (k (told i name r)) w')"

text \<open>
  A step result that can be checkpointed: it succeeded, encodes, and decodes to itself. The
  encoding of any other result fails or is not needed.
\<close>

definition encodes :: "codec \<Rightarrow> bool \<Rightarrow> json \<Rightarrow> bool" where
  "encodes c portable v \<longleftrightarrow> (\<exists>e. encode_value c v portable = Inr e) \<and> codec_ok_at c v"

definition result_ok :: "codec \<Rightarrow> bool \<Rightarrow> json res \<Rightarrow> bool" where
  "result_ok c portable r \<longleftrightarrow> (case r of Inr v \<Rightarrow> encodes c portable v | Inl _ \<Rightarrow> True)"

definition succeeds :: "json res \<Rightarrow> bool" where
  "succeeds r \<longleftrightarrow> (\<exists>v. r = Inr v)"

text \<open>The row a successful step leaves.\<close>

definition success_row :: "codec \<Rightarrow> run_state \<Rightarrow> (int \<Rightarrow> datetime \<times> datetime) \<Rightarrow> int \<Rightarrow> string \<Rightarrow> json \<Rightarrow> step_info" where
  "success_row c rs clock sid name v =
     (case encode_value c v (rs_portable rs) of
        Inr encoded \<Rightarrow> step_row (rs_workflow_id rs) sid name (encoded_to_stored_value encoded) None
                         (enc_serialization encoded) (clock sid)
      | Inl _ \<Rightarrow> undefined)"

definition failure_row :: "run_state \<Rightarrow> (int \<Rightarrow> datetime \<times> datetime) \<Rightarrow> int \<Rightarrow> string \<Rightarrow> dbos_error \<Rightarrow> step_info" where
  "failure_row rs clock sid name e =
     step_row (rs_workflow_id rs) sid name None (Some (error_to_string e)) DBOS_JSON (clock sid)"

definition result_row ::
    "codec \<Rightarrow> run_state \<Rightarrow> (int \<Rightarrow> datetime \<times> datetime) \<Rightarrow> int \<Rightarrow> string \<Rightarrow> json res \<Rightarrow> step_info" where
  "result_row c rs clock sid name r =
     (case r of Inr v \<Rightarrow> success_row c rs clock sid name v | Inl e \<Rightarrow> failure_row rs clock sid name e)"

lemma result_row_key [simp]:
  assumes "result_ok c (rs_portable rs) r"
  shows "step_workflow_uuid (result_row c rs clock sid name r) = rs_workflow_id rs"
    and "step_id (result_row c rs clock sid name r) = sid"
    and "step_name (result_row c rs clock sid name r) = name"
  using assms
  by (auto simp: result_row_def success_row_def failure_row_def step_row_def result_ok_def encodes_def
      split: sum.splits)

lemma replay_success:
  assumes "encodes c (rs_portable rs) v"
  shows "replay_step c json_serde (rs_workflow_id rs) sid name (success_row c rs clock sid name v) = Inr v"
proof -
  from assms obtain e where e: "encode_value c v (rs_portable rs) = Inr e" "codec_ok_at c v"
    by (auto simp: encodes_def)
  with decode_encode_value [OF e(2,1), of json_serde] show ?thesis
    by (simp add: replay_step_def success_row_def step_row_def json_serde_def)
qed

lemma ideal_world_0 [simp]: "ideal_world i prog 0 w = w"
  by (cases prog) simp_all

context step_store
begin

text \<open>A step that is not recorded runs its operation once and leaves its row.\<close>

lemma fresh_step:
  assumes "inv (tk_store t)" "a_steps (abs (tk_store t)) (rs_workflow_id rs, sid) = None"
    and "f (tk_world t) = (r, w)" "result_ok c (rs_portable rs) r"
    and "run_step_at db c rs json_serde clock sid name (world_op f) t = (r', t')"
  shows "r' = told (rs_workflow_id rs) name r"
    and "tk_world t' = w" "tk_step_id t' = tk_step_id t" "inv (tk_store t')"
    and "abs (tk_store t') = (abs (tk_store t))\<lparr>a_steps :=
      (a_steps (abs (tk_store t)))((rs_workflow_id rs, sid) \<mapsto> result_row c rs clock sid name r)\<rparr>"
proof -
  let ?st = "result_row c rs clock sid name r"
  obtain s1 where s1: "db_get_step db (rs_workflow_id rs) sid (tk_store t) = (Inr None, s1)"
    "inv s1" "abs s1 = abs (tk_store t)"
    using get_step_run [OF assms(1), of "rs_workflow_id rs" sid] assms(2) by metis
  obtain s2 where s2: "db_record_step db ?st s1 = (Inr (), s2)" "inv s2"
    "abs s2 = (abs s1)\<lparr>a_steps := (a_steps (abs s1))((step_workflow_uuid ?st, step_id ?st) \<mapsto> ?st)\<rparr>"
    using record_step_run [OF s1(2), of ?st] by metis
  have "r' = told (rs_workflow_id rs) name r \<and> t' = t\<lparr>tk_world := w, tk_store := s2\<rparr>"
  proof (cases r)
    case (Inl e)
    with assms(3,5) s1 s2 show ?thesis
      by (auto simp: run_step_at_def act_bind_def in_store_def world_op_def told_def result_row_def failure_row_def)
  next
    case (Inr v)
    with assms(4) obtain e where "encode_value c v (rs_portable rs) = Inr e"
      by (auto simp: result_ok_def encodes_def)
    with Inr assms(3,5) s1 s2 show ?thesis
      by (auto simp: run_step_at_def act_bind_def in_store_def world_op_def told_def result_row_def success_row_def
          encode_serializable_def json_serde_def)
  qed
  with s1 s2 result_row_key [OF assms(4), where clock = clock and sid = sid and name = name]
  show "r' = told (rs_workflow_id rs) name r"
    and "tk_world t' = w" "tk_step_id t' = tk_step_id t" "inv (tk_store t')"
    and "abs (tk_store t') = (abs (tk_store t))\<lparr>a_steps :=
      (a_steps (abs (tk_store t)))((rs_workflow_id rs, sid) \<mapsto> result_row c rs clock sid name r)\<rparr>"
    by simp_all
qed

end

text \<open>
  \<open>checkpoint i c rs clock n m log steps\<close>: of the workflow whose next step has number
  \<open>n + 1\<close>, the first \<open>m\<close> steps of \<open>log\<close> are recorded, and no later one.
\<close>

definition checkpoint ::
    "codec \<Rightarrow> run_state \<Rightarrow> (int \<Rightarrow> datetime \<times> datetime) \<Rightarrow> int \<Rightarrow> (string \<times> json res) list \<Rightarrow>
     (string \<times> int \<rightharpoonup> step_info) \<Rightarrow> bool" where
  "checkpoint c rs clock n log steps \<longleftrightarrow>
     (\<forall>j. steps (rs_workflow_id rs, n + 1 + int j) =
        (if j < length log
         then Some (result_row c rs clock (n + 1 + int j) (fst (log ! j)) (snd (log ! j)))
         else None))"

lemma checkpoint_Nil: "checkpoint c rs clock n [] steps \<Longrightarrow> steps (rs_workflow_id rs, n + 1) = None"
  unfolding checkpoint_def by (metis add.right_neutral less_nat_zero_code list.size(3) of_nat_0)

lemma checkpoint_Cons:
  assumes "checkpoint c rs clock n ((name, r) # log) steps"
  shows "steps (rs_workflow_id rs, n + 1) = Some (result_row c rs clock (n + 1) name r)"
    and "checkpoint c rs clock (n + 1) log steps"
proof -
  show "steps (rs_workflow_id rs, n + 1) = Some (result_row c rs clock (n + 1) name r)"
    using assms [unfolded checkpoint_def, rule_format, of 0] by simp
  show "checkpoint c rs clock (n + 1) log steps"
    unfolding checkpoint_def
  proof
    fix j
    show "steps (rs_workflow_id rs, n + 1 + 1 + int j) =
        (if j < length log
         then Some (result_row c rs clock (n + 1 + 1 + int j) (fst (log ! j)) (snd (log ! j))) else None)"
      using assms [unfolded checkpoint_def, rule_format, of "Suc j"] by (simp add: add.assoc)
  qed
qed

lemma checkpoint_record:
  assumes "checkpoint c rs clock n [] steps"
  shows "checkpoint c rs clock (n + 1) [] (steps((rs_workflow_id rs, n + 1) \<mapsto> st))"
  unfolding checkpoint_def
proof
  fix j
  show "(steps((rs_workflow_id rs, n + 1) \<mapsto> st)) (rs_workflow_id rs, n + 1 + 1 + int j) =
    (if j < length ([] :: (string \<times> json res) list)
     then Some (result_row c rs clock (n + 1 + 1 + int j) (fst ([] ! j)) (snd ([] ! j))) else None)"
    using assms [unfolded checkpoint_def, rule_format, of "Suc j"] by (simp add: add.assoc)
qed

text \<open>The step rows after a complete run.\<close>

fun record_log ::
    "codec \<Rightarrow> run_state \<Rightarrow> (int \<Rightarrow> datetime \<times> datetime) \<Rightarrow> int \<Rightarrow> (string \<times> json res) list \<Rightarrow>
     (string \<times> int \<rightharpoonup> step_info) \<Rightarrow> (string \<times> int \<rightharpoonup> step_info)" where
  "record_log c rs clock n [] steps = steps"
| "record_log c rs clock n ((name, r) # log) steps =
     record_log c rs clock (n + 1) log
       (steps((rs_workflow_id rs, n + 1) \<mapsto> result_row c rs clock (n + 1) name r))"

definition log_ok :: "codec \<Rightarrow> run_state \<Rightarrow> int \<Rightarrow> (string \<times> json res) list \<Rightarrow> bool" where
  "log_ok c rs n log \<longleftrightarrow>
     list_all (\<lambda>(name, r). result_ok c (rs_portable rs) r) log \<and> 0 \<le> n \<and> n + int (length log) < 2 ^ 31"

lemma log_ok_Cons:
  "log_ok c rs n ((name, r) # log) \<Longrightarrow>
     result_ok c (rs_portable rs) r \<and> log_ok c rs (n + 1) log \<and> wrap_i32 (n + 1) = n + 1"
  by (auto simp: log_ok_def intro!: wrap_i32_small)

context step_store
begin

lemma run_as_step_at:
  assumes "cx_run_state ctx = Some rs" "tk_step_id t = n" "wrap_i32 (n + 1) = n + 1"
  shows "run_as_step db ctx ty clock name operation t =
    run_step_at db (cx_codec ctx) rs ty clock (n + 1) name operation (t\<lparr>tk_step_id := n + 1\<rparr>)"
  using assms by (simp add: run_as_step_def next_step_id_def)

text \<open>The next step of a program, when it is not recorded and when it is recorded as a success.\<close>

lemma next_step_fresh:
  assumes "cx_run_state ctx = Some rs" "inv (tk_store t)" "tk_step_id t = n" "wrap_i32 (n + 1) = n + 1"
    and "f (tk_world t) = (r, w)" "result_ok (cx_codec ctx) (rs_portable rs) r"
    and "checkpoint (cx_codec ctx) rs clock n [] (a_steps (abs (tk_store t)))"
  shows "\<exists>t2. run_as_step db ctx json_serde clock name (world_op f) t = (told (rs_workflow_id rs) name r, t2)
    \<and> tk_world t2 = w \<and> tk_step_id t2 = n + 1 \<and> inv (tk_store t2)
    \<and> abs (tk_store t2) = (abs (tk_store t))\<lparr>a_steps := (a_steps (abs (tk_store t)))
        ((rs_workflow_id rs, n + 1) \<mapsto> result_row (cx_codec ctx) rs clock (n + 1) name r)\<rparr>
    \<and> checkpoint (cx_codec ctx) rs clock (n + 1) [] (a_steps (abs (tk_store t2)))"
proof -
  obtain q t2 where q: "run_step_at db (cx_codec ctx) rs json_serde clock (n + 1) name (world_op f)
      (t\<lparr>tk_step_id := n + 1\<rparr>) = (q, t2)" by fastforce
  note fresh = fresh_step [OF _ _ _ assms(6) q]
  have "q = told (rs_workflow_id rs) name r \<and> tk_world t2 = w \<and> tk_step_id t2 = n + 1 \<and> inv (tk_store t2)
    \<and> abs (tk_store t2) = (abs (tk_store t))\<lparr>a_steps := (a_steps (abs (tk_store t)))
        ((rs_workflow_id rs, n + 1) \<mapsto> result_row (cx_codec ctx) rs clock (n + 1) name r)\<rparr>"
    using fresh assms(2,5) checkpoint_Nil [OF assms(7)] by simp
  moreover have "run_as_step db ctx json_serde clock name (world_op f) t = (q, t2)"
    by (simp add: run_as_step_at [OF assms(1,3,4)] q)
  ultimately show ?thesis using checkpoint_record [OF assms(7)] by (intro exI [of _ t2]) simp
qed

lemma next_step_recorded:
  assumes "cx_run_state ctx = Some rs" "inv (tk_store t)" "tk_step_id t = n" "wrap_i32 (n + 1) = n + 1"
    and "result_ok (cx_codec ctx) (rs_portable rs) r" "succeeds r"
    and "checkpoint (cx_codec ctx) rs clock n ((name, r) # log) (a_steps (abs (tk_store t)))"
  shows "\<exists>t2. run_as_step db ctx json_serde clock name operation t = (told (rs_workflow_id rs) name r, t2)
    \<and> tk_world t2 = tk_world t \<and> tk_step_id t2 = n + 1 \<and> inv (tk_store t2) \<and> abs (tk_store t2) = abs (tk_store t)
    \<and> (a_steps (abs (tk_store t)))((rs_workflow_id rs, n + 1) \<mapsto> result_row (cx_codec ctx) rs clock (n + 1) name r)
        = a_steps (abs (tk_store t))
    \<and> checkpoint (cx_codec ctx) rs clock (n + 1) log (a_steps (abs (tk_store t2)))"
proof -
  obtain q t2 where q: "run_step_at db (cx_codec ctx) rs json_serde clock (n + 1) name operation
      (t\<lparr>tk_step_id := n + 1\<rparr>) = (q, t2)" by fastforce
  note cc = checkpoint_Cons [OF assms(7)]
  obtain v where v: "r = Inr v" using assms(6) by (auto simp: succeeds_def)
  with assms(5) have enc: "encodes (cx_codec ctx) (rs_portable rs) v" by (simp add: result_ok_def)
  have "a_steps (abs (tk_store (t\<lparr>tk_step_id := n + 1\<rparr>))) (rs_workflow_id rs, n + 1) =
      Some (success_row (cx_codec ctx) rs clock (n + 1) name v)"
    using cc(1) v by (simp add: result_row_def)
  note rec = recorded_step [OF _ this q]
  have "q = told (rs_workflow_id rs) name r" using rec(1) assms(2) replay_success [OF enc] v by (simp add: told_def)
  moreover have "run_as_step db ctx json_serde clock name operation t = (q, t2)"
    by (simp add: run_as_step_at [OF assms(1,3,4)] q)
  ultimately show ?thesis using rec(2-5) assms(2) cc by (intro exI [of _ t2]) (simp add: fun_upd_idem)
qed

text \<open>
  Running a program whose first \<open>m\<close> steps are recorded as successes, in the world those steps
  left, gives the result and the world of one ideal run, and the rows of one complete run.
\<close>

lemma recovered_run:
  assumes "cx_run_state ctx = Some rs" "inv (tk_store t)" "tk_step_id t = n"
    and "log_ok (cx_codec ctx) rs n (ideal_log (rs_workflow_id rs) prog w)"
    and "m \<le> length (ideal_log (rs_workflow_id rs) prog w)"
    and "list_all (\<lambda>(name, r). succeeds r) (take m (ideal_log (rs_workflow_id rs) prog w))"
    and "checkpoint (cx_codec ctx) rs clock n (take m (ideal_log (rs_workflow_id rs) prog w)) (a_steps (abs (tk_store t)))"
    and "tk_world t = ideal_world (rs_workflow_id rs) prog m w"
  shows "\<exists>t'. run_prog db ctx clock prog t = (fst (ideal_run (rs_workflow_id rs) prog w), t')
    \<and> tk_world t' = snd (ideal_run (rs_workflow_id rs) prog w) \<and> inv (tk_store t')
    \<and> abs (tk_store t') = (abs (tk_store t))\<lparr>a_steps := record_log (cx_codec ctx) rs clock n
        (ideal_log (rs_workflow_id rs) prog w) (a_steps (abs (tk_store t)))\<rparr>"
  using assms(2-8)
proof (induction prog arbitrary: t n m w)
  case (Return v)
  then show ?case by simp
next
  case (Throw e)
  then show ?case by simp
next
  case (Step name f k)
  let ?i = "rs_workflow_id rs"
  obtain r w' where f: "f w = (r, w')" by fastforce
  let ?p = "k (told ?i name r)"
  let ?log = "ideal_log ?i ?p w'"
  have log: "ideal_log ?i (Step name f k) w = (name, r) # ?log" using f by simp
  note lok = log_ok_Cons [OF Step.prems(3) [unfolded log]]
  have IH: "\<exists>t'. run_prog db ctx clock ?p t2 = (fst (ideal_run ?i ?p w'), t')
      \<and> tk_world t' = snd (ideal_run ?i ?p w') \<and> inv (tk_store t')
      \<and> abs (tk_store t') = (abs (tk_store t2))\<lparr>a_steps := record_log (cx_codec ctx) rs clock (n + 1) ?log
          (a_steps (abs (tk_store t2)))\<rparr>"
    if "inv (tk_store t2)" "tk_step_id t2 = n + 1" "m' \<le> length ?log"
      "list_all (\<lambda>(name, r). succeeds r) (take m' ?log)"
      "checkpoint (cx_codec ctx) rs clock (n + 1) (take m' ?log) (a_steps (abs (tk_store t2)))"
      "tk_world t2 = ideal_world ?i ?p m' w'" for t2 m'
    by (rule Step.IH [OF _ that(1,2) _ that(3-6)]) (use lok in simp_all)
  show ?case
  proof (cases m)
    case 0
    with Step.prems(6,7) have cp: "checkpoint (cx_codec ctx) rs clock n [] (a_steps (abs (tk_store t)))"
      and w: "tk_world t = w" by simp_all
    from f w have f': "f (tk_world t) = (r, w')" by simp
    from next_step_fresh [where f = f and t = t and name = name, OF assms(1) Step.prems(1,2) _ f' _ cp] lok obtain t2 where t2:
      "run_as_step db ctx json_serde clock name (world_op f) t = (told ?i name r, t2)" "tk_world t2 = w'"
      "tk_step_id t2 = n + 1" "inv (tk_store t2)"
      "abs (tk_store t2) = (abs (tk_store t))\<lparr>a_steps := (a_steps (abs (tk_store t)))
        ((?i, n + 1) \<mapsto> result_row (cx_codec ctx) rs clock (n + 1) name r)\<rparr>"
      "checkpoint (cx_codec ctx) rs clock (n + 1) [] (a_steps (abs (tk_store t2)))" by blast
    from IH [OF t2(4,3), of 0] t2 f show ?thesis by (auto simp: ideal_world_0)
  next
    case (Suc m')
    from Step.prems(4-6) log Suc have cp: "checkpoint (cx_codec ctx) rs clock n ((name, r) # take m' ?log)
        (a_steps (abs (tk_store t)))"
      and m': "m' \<le> length ?log" "list_all (\<lambda>(name, r). succeeds r) (take m' ?log)" "succeeds r" by simp_all
    from next_step_recorded [OF assms(1) Step.prems(1,2) _ _ m'(3) cp, of "world_op f"] lok obtain t2 where t2:
      "run_as_step db ctx json_serde clock name (world_op f) t = (told ?i name r, t2)" "tk_world t2 = tk_world t"
      "tk_step_id t2 = n + 1" "inv (tk_store t2)" "abs (tk_store t2) = abs (tk_store t)"
      "(a_steps (abs (tk_store t)))((?i, n + 1) \<mapsto> result_row (cx_codec ctx) rs clock (n + 1) name r)
        = a_steps (abs (tk_store t))"
      "checkpoint (cx_codec ctx) rs clock (n + 1) (take m' ?log) (a_steps (abs (tk_store t2)))" by blast
    have w: "tk_world t2 = ideal_world ?i ?p m' w'" using t2(2) Step.prems(7) Suc f by simp
    from IH [OF t2(4,3) m'(1,2) t2(7) w] t2(1,5,6) f show ?thesis by auto
  qed
qed

lemma crashed_run:
  assumes "cx_run_state ctx = Some rs" "inv (tk_store t)" "tk_step_id t = n"
    and "log_ok (cx_codec ctx) rs n (ideal_log (rs_workflow_id rs) prog w)"
    and "m \<le> length (ideal_log (rs_workflow_id rs) prog w)"
    and "checkpoint (cx_codec ctx) rs clock n [] (a_steps (abs (tk_store t)))"
    and "tk_world t = w"
  shows "\<exists>r t1. run_steps db ctx clock prog m t = (r, t1)
    \<and> tk_world t1 = ideal_world (rs_workflow_id rs) prog m w \<and> inv (tk_store t1)
    \<and> abs (tk_store t1) = (abs (tk_store t))\<lparr>a_steps := record_log (cx_codec ctx) rs clock n
        (take m (ideal_log (rs_workflow_id rs) prog w)) (a_steps (abs (tk_store t)))\<rparr>"
  using assms(2-7)
proof (induction prog arbitrary: t n m w)
  case (Return v)
  then show ?case by simp
next
  case (Throw e)
  then show ?case by simp
next
  case (Step name f k)
  let ?i = "rs_workflow_id rs"
  obtain r w' where f: "f w = (r, w')" by fastforce
  let ?p = "k (told ?i name r)"
  let ?log = "ideal_log ?i ?p w'"
  have log: "ideal_log ?i (Step name f k) w = (name, r) # ?log" using f by simp
  note lok = log_ok_Cons [OF Step.prems(3) [unfolded log]]
  show ?case
  proof (cases m)
    case 0
    with Step.prems show ?thesis by simp
  next
    case (Suc m')
    from f Step.prems(6) have f': "f (tk_world t) = (r, w')" by simp
    from next_step_fresh [where f = f and t = t and name = name, OF assms(1) Step.prems(1,2) _ f' _ Step.prems(5)]
      lok obtain t2 where t2:
      "run_as_step db ctx json_serde clock name (world_op f) t = (told ?i name r, t2)" "tk_world t2 = w'"
      "tk_step_id t2 = n + 1" "inv (tk_store t2)"
      "abs (tk_store t2) = (abs (tk_store t))\<lparr>a_steps := (a_steps (abs (tk_store t)))
        ((?i, n + 1) \<mapsto> result_row (cx_codec ctx) rs clock (n + 1) name r)\<rparr>"
      "checkpoint (cx_codec ctx) rs clock (n + 1) [] (a_steps (abs (tk_store t2)))" by blast
    have m': "m' \<le> length ?log" using Step.prems(4) log Suc by simp
    from Step.IH [OF _ t2(4,3) conjunct1 [OF conjunct2 [OF lok]] m' t2(6,2)] obtain q t1 where
      "run_steps db ctx clock ?p m' t2 = (q, t1)" "tk_world t1 = ideal_world ?i ?p m' w'" "inv (tk_store t1)"
      "abs (tk_store t1) = (abs (tk_store t2))\<lparr>a_steps := record_log (cx_codec ctx) rs clock (n + 1)
        (take m' ?log) (a_steps (abs (tk_store t2)))\<rparr>" by auto
    with t2(1,5) f Suc log show ?thesis by simp
  qed
qed

end

lemma record_log_other:
  "j \<le> n \<Longrightarrow> record_log c rs clock n log (steps((i, j) := x)) = (record_log c rs clock n log steps)((i, j) := x)"
proof (induction log arbitrary: n steps)
  case Nil
  then show ?case by simp
next
  case (Cons a log)
  obtain name r where a: "a = (name, r)" by (cases a)
  let ?s = "steps((rs_workflow_id rs, n + 1) \<mapsto> result_row c rs clock (n + 1) name r)"
  have twist: "(steps((i, j) := x))((rs_workflow_id rs, n + 1) \<mapsto> result_row c rs clock (n + 1) name r)
      = ?s((i, j) := x)"
    using Cons.prems by (simp add: fun_upd_twist)
  have "record_log c rs clock (n + 1) log (?s((i, j) := x)) = (record_log c rs clock (n + 1) log ?s)((i, j) := x)"
    by (rule Cons.IH) (use Cons.prems in simp)
  then show ?case by (simp only: a record_log.simps twist)
qed

lemma record_log_again:
  "record_log c rs clock n log (record_log c rs clock n (take m log) steps) = record_log c rs clock n log steps"
proof (induction log arbitrary: n m steps)
  case Nil
  then show ?case by simp
next
  case (Cons a log)
  obtain name r where a: "a = (name, r)" by (cases a)
  show ?case
  proof (cases m)
    case 0
    then show ?thesis by simp
  next
    case (Suc m')
    let ?k = "(rs_workflow_id rs, n + 1)" and ?x = "Some (result_row c rs clock (n + 1) name r)"
    have same: "(record_log c rs clock (n + 1) (take m' log) (steps(?k := ?x)))(?k := ?x)
        = record_log c rs clock (n + 1) (take m' log) (steps(?k := ?x))"
      by (subst record_log_other [symmetric]) simp_all
    have "record_log c rs clock (n + 1) log (record_log c rs clock (n + 1) (take m' log) (steps(?k := ?x)))
        = record_log c rs clock (n + 1) log (steps(?k := ?x))" by (rule Cons.IH)
    then show ?thesis by (simp only: a Suc take_Suc_Cons record_log.simps same)
  qed
qed

lemma checkpoint_record_log:
  "checkpoint c rs clock n [] steps \<Longrightarrow> checkpoint c rs clock n log (record_log c rs clock n log steps)"
proof (induction log arbitrary: n steps)
  case Nil
  then show ?case by simp
next
  case (Cons a log)
  obtain name r where a: "a = (name, r)" by (cases a)
  let ?x = "Some (result_row c rs clock (n + 1) name r)"
  let ?s = "steps((rs_workflow_id rs, n + 1) := ?x)"
  have IH: "checkpoint c rs clock (n + 1) log (record_log c rs clock (n + 1) log ?s)"
    by (rule Cons.IH) (rule checkpoint_record [OF Cons.prems])
  show ?case
    unfolding checkpoint_def
  proof
    fix j
    show "record_log c rs clock n (a # log) steps (rs_workflow_id rs, n + 1 + int j) =
      (if j < length (a # log)
       then Some (result_row c rs clock (n + 1 + int j) (fst ((a # log) ! j)) (snd ((a # log) ! j))) else None)"
    proof (cases j)
      case 0
      have "record_log c rs clock (n + 1) log ?s = (record_log c rs clock (n + 1) log steps)
          ((rs_workflow_id rs, n + 1) := ?x)" by (rule record_log_other) simp
      with 0 a show ?thesis by simp
    next
      case (Suc j')
      with IH [unfolded checkpoint_def, rule_format, of j'] a show ?thesis by (simp add: add.assoc)
    qed
  qed
qed

end
