(* ===== verification/Step_Properties.thy ===== *)
theory Step_Properties
  imports Replay Memory_Store
begin

text \<open>
  The properties of steps: recovery after a crash, determinism checks, replay of failed steps,
  retries and their delays, and the checkpointed sleep.
\<close>

section \<open>A concrete instance for the witnesses\<close>

text \<open>A JSON library that is right on three values, a context without serializer, and a store.\<close>

definition tiny_print :: "json \<Rightarrow> string" where
  "tiny_print v = (if v = JNull then ''null'' else if v = JBool True then ''true''
                   else if v = JBool False then ''false'' else ''?'')"

definition tiny_parse :: "string \<Rightarrow> json option" where
  "tiny_parse s = (if s = ''null'' then Some JNull else if s = ''true'' then Some (JBool True)
                   else if s = ''false'' then Some (JBool False) else None)"

definition tiny_lib :: json_lib where
  "tiny_lib = \<lparr>print_json = tiny_print, parse_json = tiny_parse, base64_encode = (\<lambda>s. CHR ''A'' # s),
               base64_decode = (\<lambda>s. case s of [] \<Rightarrow> None | _ # r \<Rightarrow> Some r)\<rparr>"

definition tiny_codec :: codec where
  "tiny_codec = \<lparr>cdc_lib = tiny_lib, cdc_serializer = None\<rparr>"

definition tiny_run :: run_state where
  "tiny_run = \<lparr>rs_workflow_id = ''w1'', rs_authenticated_user = None, rs_assumed_role = None,
               rs_authenticated_roles = [], rs_portable = False\<rparr>"

definition tiny_context :: dbos_context where
  "tiny_context = \<lparr>cx_config = new_config ''app'', cx_codec = tiny_codec, cx_run_state = Some tiny_run\<rparr>"

definition tiny_clock :: "int \<Rightarrow> datetime \<times> datetime" where
  "tiny_clock i = (10 * i, 10 * i + 5)"

lemma tiny_encodes: "b \<in> {JNull, JBool True, JBool False} \<Longrightarrow> encodes tiny_codec portable b"
  by (auto simp: encodes_def encode_value_def encode_portable_def encode_json_value_def codec_ok_at_def
      lib_ok_at_def tiny_codec_def tiny_lib_def tiny_print_def tiny_parse_def json_is_null_def NIL_MARKER_def)

text \<open>A program of two steps that each send a message to the world and return a boolean.\<close>

definition tiny_prog :: "string list prog" where
  "tiny_prog = Step ''charge'' (\<lambda>w. (Inr (JBool True), w @ [''charge'']))
     (\<lambda>r. case r of
        Inl e \<Rightarrow> Throw e
      | Inr v \<Rightarrow> Step ''ship'' (\<lambda>w. (Inr (JBool False), w @ [''ship'']))
          (\<lambda>r. case r of Inl e \<Rightarrow> Throw e | Inr u \<Rightarrow> Return u))"

section \<open>Recovery\<close>

text \<open>
  Exactly-once steps across a crash. A workflow that crashed after \<open>m\<close> recorded steps and is then
  run again from the store it left ends with the result, the world and the store of a run that
  never crashed: the recorded steps are not run a second time. It holds on every store that meets
  the step contract, for programs whose effects are all in steps, when the first \<open>m\<close> steps
  succeeded; a later step may fail.\<close>

theorem crash_recovery_exactly_once:
  assumes "step_store db ok view" "cx_run_state ctx = Some rs" "ok s"
    and "\<And>j. 1 \<le> j \<Longrightarrow> a_steps (view s) (rs_workflow_id rs, j) = None"
    and "log_ok (cx_codec ctx) rs 0 (ideal_log (rs_workflow_id rs) prog w)"
    and "m \<le> length (ideal_log (rs_workflow_id rs) prog w)"
    and "list_all (\<lambda>(name, r). succeeds r) (take m (ideal_log (rs_workflow_id rs) prog w))"
    and "run_steps db ctx clock prog m \<lparr>tk_step_id = 0, tk_store = s, tk_world = w\<rparr> = (r1, t1)"
  shows "\<exists>r t2 t3.
    run_prog db ctx clock prog \<lparr>tk_step_id = 0, tk_store = tk_store t1, tk_world = tk_world t1\<rparr> = (r, t2) \<and>
    run_prog db ctx clock prog \<lparr>tk_step_id = 0, tk_store = s, tk_world = w\<rparr> = (r, t3) \<and>
    (r, tk_world t2) = ideal_run (rs_workflow_id rs) prog w \<and>
    tk_world t2 = tk_world t3 \<and> view (tk_store t2) = view (tk_store t3)"
proof -
  let ?i = "rs_workflow_id rs" and ?c = "cx_codec ctx"
  let ?log = "ideal_log ?i prog w" and ?S = "a_steps (view s)"
  let ?t = "\<lparr>tk_step_id = 0, tk_store = s, tk_world = w\<rparr>"
  note crashed = step_store.crashed_run [OF assms(1)] and recovered = step_store.recovered_run [OF assms(1)]
  have cp: "checkpoint ?c rs clock 0 [] (a_steps (view (tk_store ?t)))"
    using assms(4) by (simp add: checkpoint_def)
  from crashed [OF assms(2), of ?t 0 prog w m clock] assms(3,5,6,8) cp
  have t1: "tk_world t1 = ideal_world ?i prog m w" "ok (tk_store t1)"
    "view (tk_store t1) = (view s)\<lparr>a_steps := record_log ?c rs clock 0 (take m ?log) ?S\<rparr>" by auto
  have cp1: "checkpoint ?c rs clock 0 (take m ?log) (a_steps (view (tk_store t1)))"
    using checkpoint_record_log [OF cp, of "take m ?log"] t1(3) by simp
  let ?u = "\<lparr>tk_step_id = 0, tk_store = tk_store t1, tk_world = tk_world t1\<rparr>"
  from recovered [OF assms(2), of ?u 0 prog w m clock] assms(5-7) t1(1,2) cp1 obtain t2 where t2:
    "run_prog db ctx clock prog ?u = (fst (ideal_run ?i prog w), t2)" "tk_world t2 = snd (ideal_run ?i prog w)"
    "view (tk_store t2) = (view (tk_store t1))\<lparr>a_steps := record_log ?c rs clock 0 ?log (a_steps (view (tk_store t1)))\<rparr>"
    by auto
  from recovered [OF assms(2), of ?t 0 prog w 0 clock] assms(3,5) cp obtain t3 where t3:
    "run_prog db ctx clock prog ?t = (fst (ideal_run ?i prog w), t3)" "tk_world t3 = snd (ideal_run ?i prog w)"
    "view (tk_store t3) = (view s)\<lparr>a_steps := record_log ?c rs clock 0 ?log ?S\<rparr>"
    by auto
  have "view (tk_store t2) = view (tk_store t3)"
    using t2(3) t3(3) t1(3) record_log_again [of ?c rs clock 0 ?log m ?S] by simp
  with t2(1,2) t3(1,2) show ?thesis by auto
qed

lemma tiny_log: "ideal_log ''w1'' tiny_prog [] = [(''charge'', Inr (JBool True)), (''ship'', Inr (JBool False))]"
  by (simp add: tiny_prog_def told_def)

theorem crash_recovery_exactly_once_witness:
  "\<exists>t1 t2. snd (run_steps memory_store tiny_context tiny_clock tiny_prog 1
       \<lparr>tk_step_id = 0, tk_store = empty_memory, tk_world = []\<rparr>) = t1 \<and>
     run_prog memory_store tiny_context tiny_clock tiny_prog
       \<lparr>tk_step_id = 0, tk_store = tk_store t1, tk_world = tk_world t1\<rparr> = (Inr (JBool False), t2) \<and>
     tk_world t2 = [''charge'', ''ship'']"
proof -
  let ?t = "\<lparr>tk_step_id = 0, tk_store = empty_memory, tk_world = []\<rparr>"
  obtain r1 t1 where r: "run_steps memory_store tiny_context tiny_clock tiny_prog 1 ?t = (r1, t1)" by fastforce
  have good: "log_ok (cx_codec tiny_context) tiny_run 0 (ideal_log (rs_workflow_id tiny_run) tiny_prog [])"
    using tiny_encodes by (simp add: tiny_log log_ok_def tiny_run_def result_ok_def tiny_context_def)
  have run: "cx_run_state tiny_context = Some tiny_run" by (simp add: tiny_context_def)
  have id: "ideal_run (rs_workflow_id tiny_run) tiny_prog [] = (Inr (JBool False), [''charge'', ''ship''])"
    by (simp add: tiny_prog_def told_def)
  have "1 \<le> length (ideal_log (rs_workflow_id tiny_run) tiny_prog [])"
    "list_all (\<lambda>(name, r). succeeds r) (take 1 (ideal_log (rs_workflow_id tiny_run) tiny_prog []))"
    by (simp_all add: tiny_log tiny_run_def succeeds_def)
  from crash_recovery_exactly_once [OF mem.step_store_axioms run mem_inv_empty _ good this r] id
  obtain t2 where "run_prog memory_store tiny_context tiny_clock tiny_prog
      \<lparr>tk_step_id = 0, tk_store = tk_store t1, tk_world = tk_world t1\<rparr> = (Inr (JBool False), t2)"
    "tk_world t2 = [''charge'', ''ship'']"
    by (auto simp: empty_memory_def)
  with r show ?thesis by auto
qed

section \<open>Recorded steps\<close>

text \<open>C15:
  The determinism check. When the row recorded for the step number carries another name, the step
  fails with \<open>UnexpectedStep\<close>, its operation is not run, and nothing is written.\<close>

theorem unexpected_step_detected:
  assumes "step_store db ok view" "ok (tk_store t)" "cx_run_state ctx = Some rs"
    and "a_steps (view (tk_store t)) (rs_workflow_id rs, wrap_i32 (tk_step_id t + 1)) = Some st"
    and "step_name st \<noteq> name" "run_as_step db ctx ty clock name operation t = (r, t')"
  shows "(\<exists>e. r = Inl e \<and> err_code e = UnexpectedStep \<and> err_expected_name e = Some name
      \<and> err_recorded_name e = Some (step_name st)) \<and>
    tk_world t' = tk_world t \<and> view (tk_store t') = view (tk_store t)"
proof -
  let ?n = "wrap_i32 (tk_step_id t + 1)"
  from assms(3,6) have q: "run_step_at db (cx_codec ctx) rs ty clock ?n name operation (t\<lparr>tk_step_id := ?n\<rparr>) = (r, t')"
    by (simp add: run_as_step_def next_step_id_def)
  have "a_steps (view (tk_store (t\<lparr>tk_step_id := ?n\<rparr>))) (rs_workflow_id rs, ?n) = Some st" using assms(4) by simp
  from step_store.recorded_step [OF assms(1) _ this q] assms(2,5) show ?thesis
    by (auto simp: replay_step_def unexpected_step_error_def new_error_def)
qed

definition renamed_store :: memory_data where
  "renamed_store = empty_memory\<lparr>md_steps := [((''w1'', 1),
     step_row ''w1'' 1 ''charge'' (Some JNull) None ''DBOS_JSON'' (1, 2))]\<rparr>"

lemma renamed_store_inv: "mem_inv renamed_store"
  by (auto simp: renamed_store_def empty_memory_def mem_inv_def hm_ok_def hm_keyed_def hm_get_def step_row_def)

theorem unexpected_step_detected_witness:
  "\<exists>e t'. run_as_step memory_store tiny_context json_serde tiny_clock ''refund'' (world_op (\<lambda>w. (Inr JNull, w + 1)))
      \<lparr>tk_step_id = 0, tk_store = renamed_store, tk_world = (0::nat)\<rparr> = (Inl e, t')
    \<and> err_code e = UnexpectedStep \<and> tk_world t' = 0"
proof -
  let ?t = "\<lparr>tk_step_id = 0, tk_store = renamed_store, tk_world = (0::nat)\<rparr>"
  obtain r t' where r: "run_as_step memory_store tiny_context json_serde tiny_clock ''refund''
      (world_op (\<lambda>w. (Inr JNull, w + 1))) ?t = (r, t')" by fastforce
  have "a_steps (mem_abs (tk_store ?t)) (rs_workflow_id tiny_run, wrap_i32 (tk_step_id ?t + 1)) =
      Some (step_row ''w1'' 1 ''charge'' (Some JNull) None ''DBOS_JSON'' (1, 2))"
    by (simp add: renamed_store_def hm_get_def tiny_run_def wrap_i32_def)
  from unexpected_step_detected [OF mem.step_store_axioms _ _ this _ r] renamed_store_inv r
  show ?thesis by (auto simp: tiny_context_def step_row_def)
qed

text \<open>C16:
  A failed step is not replayed as it happened. The first run fails with \<open>StepExecution\<close> and records
  the error without an output; when the workflow is run again, the same step is answered by
  decoding the missing output as null, so the error is gone.\<close>

theorem failed_step_replayed_as_null:
  assumes "step_store db ok view" "ok (tk_store t)"
    and "a_steps (view (tk_store t)) (rs_workflow_id rs, sid) = None"
    and "f (tk_world t) = (Inl e, w)"
    and "run_step_at db c rs json_serde clock sid name (world_op f) t = (r1, t1)"
    and "run_step_at db c rs ty clock sid name operation t1 = (r2, t2)"
  shows "r1 = Inl (step_execution_error (rs_workflow_id rs) name (error_to_string e)) \<and> r2 = from_value ty JNull"
proof -
  have rok: "result_ok c (rs_portable rs) (Inl e)" by (simp add: result_ok_def)
  note fresh = step_store.fresh_step [OF assms(1-4) rok assms(5)]
  have row: "a_steps (view (tk_store t1)) (rs_workflow_id rs, sid) = Some (failure_row rs clock sid name e)"
    using fresh(5) by (simp add: result_row_def)
  from step_store.recorded_step(1) [OF assms(1) fresh(4) row assms(6)] fresh(1) show ?thesis
    by (simp add: told_def replay_step_def failure_row_def step_row_def decode_stored_value_def decode_encoded_def
        decode_stored_with_serializer_def json_serializer_decode_def decode_json_value_def)
qed

theorem failed_step_replayed_as_null_witness:
  "\<exists>t1 t2. run_step_at memory_store tiny_codec tiny_run json_serde tiny_clock 1 ''charge''
      (world_op (\<lambda>w. (Inl (timeout_error ''late''), w))) \<lparr>tk_step_id = 1, tk_store = empty_memory, tk_world = ()\<rparr>
      = (Inl (step_execution_error ''w1'' ''charge'' (error_to_string (timeout_error ''late''))), t1)
    \<and> run_step_at memory_store tiny_codec tiny_run json_serde tiny_clock 1 ''charge''
        (world_op (\<lambda>w. (Inl (timeout_error ''late''), w))) t1 = (Inr JNull, t2)"
proof -
  let ?op = "world_op (\<lambda>w. (Inl (timeout_error ''late''), w))"
  let ?t = "\<lparr>tk_step_id = 1, tk_store = empty_memory, tk_world = ()\<rparr>"
  obtain r1 t1 where r1: "run_step_at memory_store tiny_codec tiny_run json_serde tiny_clock 1 ''charge'' ?op ?t
      = (r1, t1)" by fastforce
  obtain r2 t2 where r2: "run_step_at memory_store tiny_codec tiny_run json_serde tiny_clock 1 ''charge'' ?op t1
      = (r2, t2)" by fastforce
  have "a_steps (mem_abs (tk_store ?t)) (rs_workflow_id tiny_run, 1) = None" by (simp add: empty_memory_def)
  from failed_step_replayed_as_null [OF mem.step_store_axioms _ this _ r1 r2] r1 r2 show ?thesis
    by (auto simp: json_serde_def tiny_run_def)
qed

section \<open>Retries\<close>

text \<open>The states an operation goes through when it is called again and again, and its results.\<close>

fun attempt_state :: "('x, 'a) dbact \<Rightarrow> nat \<Rightarrow> 'x \<Rightarrow> 'x" where
  "attempt_state operation 0 x = x"
| "attempt_state operation (Suc n) x = attempt_state operation n (snd (operation x))"

definition attempt :: "('x, 'a) dbact \<Rightarrow> nat \<Rightarrow> 'x \<Rightarrow> dbos_error + 'a" where
  "attempt operation n x = fst (operation (attempt_state operation n x))"

lemma attempt_simps [simp]:
  "attempt operation 0 x = fst (operation x)"
  "attempt operation (Suc n) x = attempt operation n (snd (operation x))"
  by (simp_all add: attempt_def)

text \<open>What a finished retry loop did: \<open>k\<close> retries, the last attempt decides.\<close>

definition retried ::
    "(dbos_error \<Rightarrow> bool) \<Rightarrow> (nat \<Rightarrow> duration) \<Rightarrow> ('x, 'a) dbact \<Rightarrow> nat \<Rightarrow> nat \<Rightarrow> 'x \<Rightarrow>
     ((dbos_error + 'a) \<times> 'x) \<times> duration list \<Rightarrow> bool" where
  "retried predicate delay operation left retries x out \<longleftrightarrow>
     (\<exists>k \<le> left. out = ((attempt operation k x, attempt_state operation (Suc k) x),
                       map (\<lambda>j. delay (retries + j + 1)) [0..<k]) \<and>
        (\<forall>j < k. \<exists>e. attempt operation j x = Inl e \<and> predicate e) \<and>
        (\<forall>e. attempt operation k x = Inl e \<longrightarrow> k = left \<or> \<not> predicate e))"

lemma retry_loop_retried: "retried predicate delay operation left retries x (retry_loop predicate delay operation left retries x)"
proof (induction left arbitrary: retries x)
  case 0
  then show ?case by (simp add: retried_def)
next
  case (Suc left)
  obtain r x' where r: "operation x = (r, x')" by fastforce
  show ?case
  proof (cases "\<exists>e. r = Inl e \<and> predicate e")
    case False
    then show ?thesis using r unfolding retried_def
      by (intro exI [of _ 0]) (auto split: sum.splits)
  next
    case True
    then obtain e where e: "r = Inl e" "predicate e" by blast
    from Suc.IH [of "Suc retries" x'] obtain k where k: "k \<le> left"
      "retry_loop predicate delay operation left (Suc retries) x' =
        ((attempt operation k x', attempt_state operation (Suc k) x'), map (\<lambda>j. delay (Suc retries + j + 1)) [0..<k])"
      "\<forall>j < k. \<exists>e. attempt operation j x' = Inl e \<and> predicate e"
      "\<forall>e. attempt operation k x' = Inl e \<longrightarrow> k = left \<or> \<not> predicate e"
      unfolding retried_def by blast
    have delays: "map (\<lambda>j. delay (retries + j + 1)) [0..<Suc k] =
        delay (Suc retries) # map (\<lambda>j. delay (Suc retries + j + 1)) [0..<k]"
      by (subst map_upt_Suc) (simp add: add.commute)
    have all: "\<forall>j < Suc k. \<exists>e. attempt operation j x = Inl e \<and> predicate e"
    proof (intro allI impI)
      fix j assume "j < Suc k"
      then show "\<exists>e. attempt operation j x = Inl e \<and> predicate e"
        using k(3) r e by (cases j) auto
    qed
    show ?thesis
      unfolding retried_def
    proof (intro exI [of _ "Suc k"] conjI)
      show "Suc k \<le> Suc left" using k(1) by simp
      show "retry_loop predicate delay operation (Suc left) retries x =
        ((attempt operation (Suc k) x, attempt_state operation (Suc (Suc k)) x),
          map (\<lambda>j. delay (retries + j + 1)) [0..<Suc k])"
        unfolding delays using r e k(2) by simp
      show "\<forall>j < Suc k. \<exists>e. attempt operation j x = Inl e \<and> predicate e" by (rule all)
      show "\<forall>e. attempt operation (Suc k) x = Inl e \<longrightarrow> Suc k = Suc left \<or> \<not> predicate e"
        using r k(4) by simp
    qed
  qed
qed

text \<open>
  The retry loop calls the operation at most \<open>max_retries + 1\<close> times. It stops at the first success
  or at the first error the predicate refuses, every earlier attempt failed with an error the
  predicate accepts, the result is that of the last attempt, and before retry number \<open>j\<close> it sleeps
  the delay of retry \<open>j\<close>.\<close>

theorem retry_step_correct:
  shows "\<exists>k \<le> so_max_retries opts.
    retry_step_operation fl opts operation x =
      ((attempt operation k x, attempt_state operation (Suc k) x),
       map (\<lambda>j. step_retry_delay fl opts (j + 1)) [0..<k]) \<and>
    (\<forall>j < k. \<exists>e. attempt operation j x = Inl e \<and>
       (case so_retry_predicate opts of None \<Rightarrow> True | Some p \<Rightarrow> p e)) \<and>
    (\<forall>e. attempt operation k x = Inl e \<longrightarrow>
       k = so_max_retries opts \<or> \<not> (case so_retry_predicate opts of None \<Rightarrow> True | Some p \<Rightarrow> p e))"
  using retry_loop_retried [of "case so_retry_predicate opts of None \<Rightarrow> (\<lambda>_. True) | Some p \<Rightarrow> p"
      "step_retry_delay fl opts" operation "so_max_retries opts" 0 x]
  unfolding retried_def retry_step_operation_def
  by (cases "so_retry_predicate opts") simp_all

definition nat_ops :: "nat f64_ops" where
  "nat_ops = \<lparr>f_two = 2, f_zero = 0, f_is_finite = (\<lambda>_. True), f_less = (<), f_times = (*),
              f_powi = (\<lambda>x n. x ^ n), f_of_duration = id, f_to_duration = id\<rparr>"

theorem retry_step_correct_witness:
  "retry_step_operation nat_ops ((default_step_options nat_ops)\<lparr>so_max_retries := 3\<rparr>)
     (\<lambda>n. if n < 2 then (Inl (timeout_error ''late''), Suc n) else (Inr n, Suc n)) (0::nat)
   = ((Inr 2, 3), [from_millis 100, from_millis 200])"
proof -
  let ?op = "\<lambda>n. if n < 2 then (Inl (timeout_error ''late'') :: nat res, Suc n) else (Inr n, Suc n)"
  let ?opts = "(default_step_options nat_ops)\<lparr>so_max_retries := 3\<rparr>"
  from retry_step_correct [of ?opts nat_ops ?op 0] obtain k where k: "k \<le> 3"
    "retry_step_operation nat_ops ?opts ?op 0 = ((attempt ?op k 0, attempt_state ?op (Suc k) 0),
       map (\<lambda>j. step_retry_delay nat_ops ?opts (j + 1)) [0..<k])"
    "\<forall>j < k. \<exists>e. attempt ?op j 0 = Inl e" "\<forall>e. attempt ?op k 0 = Inl e \<longrightarrow> k = 3"
    by (auto simp: default_step_options_def)
  have "attempt ?op 2 0 = Inr 2" by (simp add: numeral_2_eq_2)
  with k(3) have "\<not> 2 < k" by auto
  moreover have "attempt ?op 0 0 = Inl (timeout_error ''late'')" "attempt ?op 1 0 = Inl (timeout_error ''late'')"
    by simp_all
  with k(4) have "k \<noteq> 0" "k \<noteq> 1" by auto
  ultimately have "k = 2" by simp
  with k(2) show ?thesis
    by (simp add: numeral_2_eq_2 step_retry_delay_def default_step_options_def nat_ops_def Let_def
        from_millis_def from_secs_def nanos_per_milli_def numeral_3_eq_3)
qed

text \<open>No retry waits longer than the maximum interval (five seconds when it is given as zero), whatever
  the factor is, infinite, negative or not a number included. It relies on one fact of the floating point
  conversion: a number of seconds below that of a duration is at most that duration.\<close>

theorem retry_delay_bounded:
  assumes "\<And>x d. f_is_finite fl x \<Longrightarrow> f_less fl x (f_of_duration fl d) \<Longrightarrow> f_to_duration fl x \<le> d"
  shows "step_retry_delay fl opts n \<le> (if so_max_interval opts = 0 then from_secs 5 else so_max_interval opts)"
  using assms by (auto simp: step_retry_delay_def default_step_options_def Let_def)

theorem retry_delay_bounded_witness:
  "step_retry_delay nat_ops (default_step_options nat_ops) 9 \<le> from_secs 5"
  using retry_delay_bounded [of nat_ops "default_step_options nat_ops" 9]
  by (simp add: nat_ops_def default_step_options_def from_secs_def)

end
