(* ===== verification/Execution_Properties.thy ===== *)
theory Execution_Properties
  imports Execution_Protocol Step_Properties
begin

text \<open>
  The properties of executions: a started workflow runs its handler once and stores its result, no
  interleaving of executions and cancellations runs it twice, every execution ends, and the two
  interleavings that lose an update.
\<close>

section \<open>One execution\<close>

text \<open>The rows an execution writes: claimed, started.\<close>

definition claimed_status :: "datetime \<Rightarrow> string \<Rightarrow> string \<Rightarrow> workflow_status \<Rightarrow> workflow_status" where
  "claimed_status now executor execution w =
     w\<lparr>wf_status := Pending, wf_executor_id := Some executor, wf_execution_id := Some execution,
       wf_updated_at := now\<rparr>"

definition claimable :: "string \<Rightarrow> workflow_status \<Rightarrow> bool" where
  "claimable execution w \<longleftrightarrow>
     wf_status w \<in> {Pending, Enqueued} \<and> wf_executor_id w = None \<and> wf_execution_id w = None"

lemma claim_spec_claimable:
  "claimable xid w \<Longrightarrow> claim_spec now ex xid (Some w) = (True, Some (claimed_status now ex xid w))"
  by (auto simp: claimable_def claim_spec_def claimed_status_def)

lemma run_state_of_started [simp]:
  "run_state_of_row (started_status a b (claimed_status now ex xid w)) = run_state_of_row w"
  by (simp add: run_state_of_row_def started_status_def claimed_status_def)

text \<open>What the waiting caller gets for a result of the handler.\<close>

definition reported :: "'a serde \<Rightarrow> string \<Rightarrow> json res \<Rightarrow> 'a res" where
  "reported ty i result =
     (case result of Inr v \<Rightarrow> from_value ty v | Inl e \<Rightarrow> Inl (workflow_execution_error i (error_to_string e)))"

lemma finished_status_row:
  assumes "\<And>v. result = Inr v \<Longrightarrow> encodes c (wf_serialization w = PORTABLE_JSON) v"
  shows "\<exists>row. finished_status c now result w = Inr row \<and> wf_workflow_uuid row = wf_workflow_uuid w \<and>
    wf_status row = (case result of Inr _ \<Rightarrow> Success | Inl _ \<Rightarrow> Error) \<and> wf_attempts row = wf_attempts w \<and>
    (\<forall>ty :: 'a serde. \<forall>d. finished_result c ty i (row\<lparr>wf_timeout := d\<rparr>) = Some (reported ty i result))"
proof (cases result)
  case (Inl e)
  then show ?thesis by (simp add: finished_status_def finished_result_def reported_def)
next
  case (Inr v)
  with assms obtain enc where "encode_value c v (wf_serialization w = PORTABLE_JSON) = Inr enc" "codec_ok_at c v"
    by (auto simp: encodes_def)
  with Inr show ?thesis
    by (simp add: finished_status_def finished_result_def reported_def decode_encode_value)
qed

context workflow_store
begin

text \<open>The stages of an execution.\<close>

lemma claim_stage:
  assumes "inv s" "a_workflows (abs s) i = Some w" "claimable (ex_execution_id x) w" "ex_workflow_id x = i"
  obtains s' where
    "exec_steps db t x (Suc (Suc (Suc n))) (ReadRow, s) =
       exec_steps db t x n (StartRow (claimed_status (t (Suc n)) (executor_id (ex_context x)) (ex_execution_id x) w), s')"
    "inv s'"
    "abs s' = (abs s)\<lparr>a_workflows := (a_workflows (abs s))
       (i \<mapsto> claimed_status (t (Suc n)) (executor_id (ex_context x)) (ex_execution_id x) w)\<rparr>"
proof -
  let ?w2 = "claimed_status (t (Suc n)) (executor_id (ex_context x)) (ex_execution_id x) w"
  obtain s1 where 1: "db_get_workflow db i s = (Inr (Some w), s1)" "inv s1" "abs s1 = abs s"
    using get_run [OF assms(1)] assms(2) by (metis prod.exhaust)
  obtain r2 s2 where c: "db_claim_workflow_execution db (t (Suc n)) i (executor_id (ex_context x)) (ex_execution_id x) s1 = (r2, s2)"
    by fastforce
  have cons: "claim_consistent v" if "a_workflows (abs s1) i = Some v" for v
    using that 1 assms(2,3) by (simp add: claimable_def claim_consistent_def)
  from claim [OF 1(2) cons c] 1 assms(2,3) have 2: "r2 = Inr True" "inv s2"
    "abs s2 = (abs s)\<lparr>a_workflows := (a_workflows (abs s))(i \<mapsto> ?w2)\<rparr>"
    by (simp_all add: claim_spec_claimable set_row_def)
  obtain r3 s3 where g3: "db_get_workflow db i s2 = (r3, s3)" by fastforce
  from get [OF 2(2) g3] 2(3) have 3: "r3 = Inr (Some ?w2)" "inv s3" "abs s3 = abs s2" by simp_all
  have "exec_step db (t (Suc (Suc n))) x ReadRow s = (ClaimRow, s1)"
    using assms(3,4) 1(1) by (auto simp: exec_step_def existing_def after_read_def claimable_def)
  moreover have "exec_step db (t (Suc n)) x ClaimRow s1 = (RereadRow, s2)"
    using assms(4) c 2(1) by (simp add: exec_step_def)
  moreover have "exec_step db (t n) x RereadRow s2 = (StartRow ?w2, s3)"
    using assms(4) g3 3(1) by (simp add: exec_step_def existing_def claimed_status_def)
  ultimately show thesis using that 3 2(3) by simp
qed

lemma resume_stage:
  assumes "inv s" "a_workflows (abs s) i = Some w" "ex_workflow_id x = i" "ex_resume_claim x"
    and "wf_executor_id w = Some (executor_id (ex_context x))" "\<not> is_terminal (wf_status w)"
  obtains s' where "exec_step db now x ReadRow s = (StartRow w, s')" "inv s'" "abs s' = abs s"
proof -
  obtain s' where "db_get_workflow db i s = (Inr (Some w), s')" "inv s'" "abs s' = abs s"
    using get_run [OF assms(1)] assms(2) by (metis prod.exhaust)
  with assms that show thesis by (simp add: exec_step_def existing_def after_read_def)
qed

lemma start_stage:
  assumes "inv s" "resolve_workflow (ex_registry x) (wf_name w) (wf_config_name w) = Inr h" "wf_workflow_uuid w = i"
  obtains s' d where
    "exec_step db now x (StartRow w) s = (RunHandler (started_status now now w), s')" "inv s'"
    "abs s' = (abs s)\<lparr>a_workflows := (a_workflows (abs s))(i \<mapsto> (started_status now now w)\<lparr>wf_timeout := d\<rparr>)\<rparr>"
proof -
  let ?w = "started_status now now w"
  have uuid: "wf_workflow_uuid ?w = i" using assms(3) by (simp add: started_status_def)
  obtain r s' where g: "db_save_workflow db ?w s = (r, s')" by fastforce
  from save [OF assms(1) g] g assms(2) uuid that show thesis by (simp add: exec_step_def)
qed

lemma handler_stage:
  assumes "resolve_workflow (ex_registry x) (wf_name w) (wf_config_name w) = Inr h"
    and "decode_stored_value (cx_codec (ex_context x)) json_serde (wf_input w) (wf_serialization w) = Inr input"
    and "h (with_run_state (ex_context x) (run_state_of_row w)) input s = (res, s')"
  shows "exec_step db now x (RunHandler w) s = (ReloadRow res, s')"
  using assms by (simp add: exec_step_def)

lemma finish_stage:
  assumes "inv s" "ex_workflow_id x = i" "a_workflows (abs s) i = Some w" "wf_status w \<noteq> Cancelled"
    and "\<And>v. res = Inr v \<Longrightarrow> encodes (cx_codec (ex_context x)) (wf_serialization w = PORTABLE_JSON) v"
  obtains s' row where "exec_steps db t x (Suc (Suc n)) (ReloadRow res, s) = exec_steps db t x n (Finished (Inr ()), s')"
    "inv s'" "a_workflows (abs s') i = Some row" "wf_status row = (case res of Inr _ \<Rightarrow> Success | Inl _ \<Rightarrow> Error)"
    "wf_attempts row = wf_attempts w" "\<And>ty :: 'b serde. finished_result (cx_codec (ex_context x)) ty i row = Some (reported ty i res)"
proof -
  let ?c = "cx_codec (ex_context x)"
  obtain s1 where 1: "db_get_workflow db i s = (Inr (Some w), s1)" "inv s1"
    using get_run [OF assms(1)] assms(3) by (metis prod.exhaust)
  from finished_status_row [where now = "t (Suc n)" and i = i, OF assms(5)] obtain row where
    row: "finished_status ?c (t (Suc n)) res w = Inr row" "wf_workflow_uuid row = wf_workflow_uuid w"
      "wf_status row = (case res of Inr _ \<Rightarrow> Success | Inl _ \<Rightarrow> Error)"
      "wf_attempts row = wf_attempts w"
      "\<forall>ty :: 'b serde. \<forall>d. finished_result ?c ty i (row\<lparr>wf_timeout := d\<rparr>) = Some (reported ty i res)"
    by metis
  have uuid: "wf_workflow_uuid row = i" using row(2) keyed assms(1,3) by simp
  obtain r s2 where g: "db_save_workflow db row s1 = (r, s2)" by fastforce
  from save [OF 1(2) g] uuid have 2: "r = Inr ()" "inv s2"
    "a_workflows (abs s2) i = Some (row\<lparr>wf_timeout := map_option nd (wf_timeout row)\<rparr>)" by simp_all
  have "exec_step db (t (Suc n)) x (ReloadRow res) s = (FinishRow row, s1)"
    using assms(2,4) 1(1) row(1) by (simp add: exec_step_def existing_def)
  moreover have "exec_step db (t n) x (FinishRow row) s1 = (Finished (Inr ()), s2)"
    using g 2(1) by (simp add: exec_step_def)
  ultimately show thesis using that 2 row(3-5) by simp
qed

text \<open>The calls of an execution that claims the workflow, one after the other.\<close>

lemma execution_run:
  assumes "inv s" "a_workflows (abs s) i = Some w" "claimable (ex_execution_id x) w"
    and "ex_workflow_id x = i"
    and "resolve_workflow (ex_registry x) (wf_name w) (wf_config_name w) = Inr h"
    and "decode_stored_value (cx_codec (ex_context x)) json_serde (wf_input w) (wf_serialization w) = Inr input"
    and "\<And>s r s'. inv s \<Longrightarrow> h (with_run_state (ex_context x) (run_state_of_row w)) input s = (r, s') \<Longrightarrow>
      inv s' \<and> a_workflows (abs s') i = a_workflows (abs s) i \<and>
      (\<forall>v. r = Inr v \<longrightarrow> encodes (cx_codec (ex_context x)) (wf_serialization w = PORTABLE_JSON) v)"
  shows "\<exists>s1 res s2 s' row. h (with_run_state (ex_context x) (run_state_of_row w)) input s1 = (res, s2) \<and>
    (\<exists>w1. a_workflows (abs s1) i = Some w1 \<and> wf_status w1 = Pending \<and>
       wf_executor_id w1 = Some (executor_id (ex_context x)) \<and> wf_attempts w1 = saturating_succ (wf_attempts w)) \<and>
    execute_workflow db t x s = (Inr (), s') \<and> a_workflows (abs s') i = Some row \<and>
    wf_status row = (case res of Inr _ \<Rightarrow> Success | Inl _ \<Rightarrow> Error) \<and>
    finished_result (cx_codec (ex_context x)) ty i row = Some (reported ty i res)"
proof -
  let ?w1 = "claimed_status (t 5) (executor_id (ex_context x)) (ex_execution_id x) w"
  let ?w2 = "started_status (t 3) (t 3) ?w1"
  have uuid: "wf_workflow_uuid ?w1 = i" using keyed [OF assms(1,2)] by (simp add: claimed_status_def)
  have sel: "wf_name ?w1 = wf_name w" "wf_config_name ?w1 = wf_config_name w" "wf_status ?w2 = Pending"
    "wf_executor_id ?w2 = Some (executor_id (ex_context x))" "wf_attempts ?w2 = saturating_succ (wf_attempts w)"
    "wf_name ?w2 = wf_name w" "wf_config_name ?w2 = wf_config_name w" "wf_input ?w2 = wf_input w"
    "wf_serialization ?w2 = wf_serialization w"
    by (simp_all add: started_status_def claimed_status_def)
  obtain s3 where 3: "exec_steps db t x (Suc (Suc (Suc 4))) (ReadRow, s) = exec_steps db t x 4 (StartRow ?w1, s3)" "inv s3"
    by (rule claim_stage [OF assms(1-4), of t 4]) simp
  obtain s4 d where 4: "exec_step db (t 3) x (StartRow ?w1) s3 = (RunHandler ?w2, s4)" "inv s4"
    "abs s4 = (abs s3)\<lparr>a_workflows := (a_workflows (abs s3))(i \<mapsto> ?w2\<lparr>wf_timeout := d\<rparr>)\<rparr>"
    by (rule start_stage [OF 3(2) assms(5) [folded sel(1,2)] uuid])
  obtain res s5 where h: "h (with_run_state (ex_context x) (run_state_of_row w)) input s4 = (res, s5)" by fastforce
  from assms(7) [OF 4(2) h] 4(3) have 5: "inv s5" "a_workflows (abs s5) i = Some (?w2\<lparr>wf_timeout := d\<rparr>)"
    "\<And>v. res = Inr v \<Longrightarrow> encodes (cx_codec (ex_context x)) (wf_serialization (?w2\<lparr>wf_timeout := d\<rparr>) = PORTABLE_JSON) v"
    by (simp_all add: sel)
  have h5: "exec_step db (t 2) x (RunHandler ?w2) s4 = (ReloadRow res, s5)"
    by (rule handler_stage [where h = h and input = input]) (use assms(5,6) h in \<open>simp_all add: sel\<close>)
  have running: "wf_status (?w2\<lparr>wf_timeout := d\<rparr>) \<noteq> Cancelled" using sel(3) by simp
  obtain s7 row where 7: "exec_steps db t x (Suc (Suc 0)) (ReloadRow res, s5) = exec_steps db t x 0 (Finished (Inr ()), s7)"
    "a_workflows (abs s7) i = Some row" "wf_status row = (case res of Inr _ \<Rightarrow> Success | Inl _ \<Rightarrow> Error)"
    "finished_result (cx_codec (ex_context x)) ty i row = Some (reported ty i res)"
    by (rule finish_stage [OF 5(1) assms(4) 5(2) running 5(3), of res t 0]) (assumption | blast)+
  from 3(1) 4(1) h5 7(1) have "execute_workflow db t x s = (Inr (), s7)"
    unfolding execute_workflow_def by (simp add: eval_nat_numeral)
  with h 4(3) 7(2-4) sel(3-5) show ?thesis by fastforce
qed

end

section \<open>An application for the witnesses\<close>

definition echo :: "memory_data handler" where
  "echo ctx input s = (Inr input, s)"

definition tiny_registry :: "memory_data registry" where
  "tiny_registry = \<lparr>reg_workflows = [(''orders'', echo)], reg_aliases = [(''orders'', ''orders'')],
                    reg_entries = [], reg_launched = True\<rparr>"

definition orders_row :: workflow_status where
  "orders_row = (new_workflow_status ''w1'' ''orders'' ''v1'' ''DBOS_JSON'' 5)\<lparr>wf_input := Some (JBool True)\<rparr>"

definition orders_store :: "workflow_status \<Rightarrow> memory_data" where
  "orders_store w = empty_memory\<lparr>md_workflows := [(''w1'', w)]\<rparr>"

definition tiny_execution :: "nat \<Rightarrow> memory_data execution" where
  "tiny_execution k = \<lparr>ex_context = tiny_context, ex_registry = tiny_registry, ex_workflow_id = ''w1'',
                       ex_resume_claim = False, ex_execution_id = replicate k CHR ''x''\<rparr>"

lemma orders_store_inv: "wf_workflow_uuid w = ''w1'' \<Longrightarrow> mem_inv (orders_store w)"
  by (auto simp: orders_store_def empty_memory_def mem_inv_def hm_ok_def hm_keyed_def hm_get_def)

lemma orders_store_row: "a_workflows (mem_abs (orders_store w)) ''w1'' = Some w"
  by (simp add: orders_store_def hm_get_def)

lemma resolve_tiny:
  "resolve_workflow tiny_registry name config = Inr h \<Longrightarrow> h = echo"
  "resolve_workflow tiny_registry ''orders'' None = Inr echo"
  by (auto simp: resolve_workflow_def tiny_registry_def hm_get_def alias_name_def nonempty_def ok_or_def Let_def
      split: option.splits if_splits)

lemma tiny_new_executions: "new_executions mem_inv mem_abs ''w1'' tiny_execution"
  by (auto simp: new_executions_def tiny_execution_def inj_def replicate_eq_replicate quiet_handlers_def echo_def
      dest!: resolve_tiny(1))

text \<open>The three calls an execution makes on a store that holds one row.\<close>

lemma orders_store_get: "db_get_workflow memory_store ''w1'' (orders_store w) = (Inr (Some w), orders_store w)"
  by (simp add: memory_store_def mem_get_workflow_def orders_store_def hm_get_def)

lemma orders_store_save:
  "wf_workflow_uuid w = ''w1'' \<Longrightarrow> db_save_workflow memory_store w (orders_store v) = (Inr (), orders_store w)"
  by (simp add: memory_store_def mem_save_workflow_def orders_store_def hm_insert_def)

lemma orders_store_claim:
  "wf_workflow_uuid w = ''w1'' \<Longrightarrow>
     db_claim_workflow_execution memory_store now ''w1'' ex xid (orders_store w) =
       (Inr (fst (claim_spec now ex xid (Some w))), orders_store (the (snd (claim_spec now ex xid (Some w)))))"
  by (auto simp: memory_store_def mem_claim_workflow_execution_def claim_spec_def orders_store_def hm_get_def hm_insert_def)

lemmas orders_store_calls = orders_store_get orders_store_save orders_store_claim

definition claimed_row :: workflow_status where
  "claimed_row = claimed_status 7 ''local'' ''xx'' orders_row"

definition started_row :: workflow_status where
  "started_row = started_status 7 7 claimed_row"

lemma orders_row_simps:
  "wf_workflow_uuid orders_row = ''w1''" "wf_status orders_row = Pending" "wf_executor_id orders_row = None"
  "wf_execution_id orders_row = None" "wf_name orders_row = ''orders''" "wf_config_name orders_row = None"
  "wf_input orders_row = Some (JBool True)" "wf_serialization orders_row = ''DBOS_JSON''"
  by (simp_all add: orders_row_def new_workflow_status_def)

lemma claimed_row_simps:
  "wf_workflow_uuid claimed_row = ''w1''" "wf_status claimed_row = Pending" "wf_executor_id claimed_row = Some ''local''"
  "wf_execution_id claimed_row = Some ''xx''" "wf_name claimed_row = ''orders''" "wf_config_name claimed_row = None"
  by (simp_all add: claimed_row_def claimed_status_def orders_row_simps)

lemma started_row_simps:
  "wf_workflow_uuid started_row = ''w1''" "wf_name started_row = ''orders''" "wf_config_name started_row = None"
  "wf_input started_row = Some (JBool True)" "wf_serialization started_row = ''DBOS_JSON''"
  by (simp_all add: started_row_def started_status_def claimed_row_def claimed_status_def orders_row_simps)

lemma started_row_uuid: "wf_workflow_uuid (started_status 7 7 claimed_row) = ''w1''"
  by (simp add: started_status_def claimed_row_simps)

lemma tiny_executor: "executor_id tiny_context = ''local''"
  by (simp add: executor_id_def tiny_context_def new_config_def)

lemma tiny_execution_simps [simp]:
  "ex_context (tiny_execution k) = tiny_context" "ex_registry (tiny_execution k) = tiny_registry"
  "ex_workflow_id (tiny_execution k) = ''w1''" "\<not> ex_resume_claim (tiny_execution k)"
  "ex_execution_id (tiny_execution 2) = ''xx''" "ex_execution_id (tiny_execution 3) = ''xxx''"
  by (simp_all add: tiny_execution_def eval_nat_numeral)

lemma tiny_decodes: "decode_stored_value (cx_codec tiny_context) json_serde (Some (JBool True)) ''DBOS_JSON'' = Inr (JBool True)"
  by (simp add: decode_stored_value_def json_serde_def DBOS_JSON_def)

lemma tiny_steps:
  "exec_step memory_store 7 (tiny_execution k) ReadRow (orders_store orders_row) = (ClaimRow, orders_store orders_row)"
  "exec_step memory_store 7 (tiny_execution 2) ClaimRow (orders_store orders_row)
     = (RereadRow, orders_store claimed_row)"
  "exec_step memory_store 7 (tiny_execution 3) ClaimRow (orders_store claimed_row)
     = (Finished (Inr ()), orders_store claimed_row)"
  "exec_step memory_store 7 (tiny_execution 2) RereadRow (orders_store claimed_row)
     = (StartRow claimed_row, orders_store claimed_row)"
  "exec_step memory_store 7 (tiny_execution 2) (StartRow claimed_row) (orders_store claimed_row)
     = (RunHandler started_row, orders_store started_row)"
  "exec_step memory_store 7 (tiny_execution 2) (RunHandler started_row) (orders_store started_row)
     = (ReloadRow (Inr (JBool True)), orders_store started_row)"
  by (simp_all add: exec_step_def existing_def after_read_def orders_store_calls orders_row_simps claimed_row_simps
      started_row_simps started_row_uuid tiny_executor resolve_tiny tiny_decodes echo_def claim_spec_def
      flip: claimed_row_def claimed_status_def started_row_def)

text \<open>A schedule of task steps, run in order with a clock that stands still.\<close>

fun run_tasks :: "'s system_database \<Rightarrow> datetime \<Rightarrow> (nat \<Rightarrow> 's execution) \<Rightarrow> nat list \<Rightarrow> 's system \<Rightarrow> 's system" where
  "run_tasks db now xs [] y = y"
| "run_tasks db now xs (k # ks) y =
     (case exec_step db now (xs k) (sys_tasks y k) (sys_store y) of
        (st, s') \<Rightarrow> run_tasks db now xs ks
          (y\<lparr>sys_store := s', sys_tasks := (sys_tasks y)(k := st),
             sys_ran := (if runs_handler (sys_tasks y k) \<and> handler_returned st then sys_ran y @ [k] else sys_ran y)\<rparr>))"

lemma run_tasks_reach: "sys_reach db xs i y y' \<Longrightarrow> sys_reach db xs i y (run_tasks db now xs ks y')"
proof (induction ks arbitrary: y')
  case Nil
  then show ?case by simp
next
  case (Cons k ks)
  obtain st s' where e: "exec_step db now (xs k) (sys_tasks y' k) (sys_store y') = (st, s')" by fastforce
  note step = sys_step.task [where db = db and xs = xs and i = i and y = y' and k = k and now = now, OF e]
  from Cons.IH [OF sys_reach.step [OF Cons.prems step]] e show ?case by simp
qed

section \<open>Executions side by side\<close>

text \<open>C4:
  A handler runs at most once. Any number of executions of one workflow, in any tasks and processes
  that share the database, and any number of cancellations, interleaved between every two calls of
  the database in any order, run the workflow's handler at most once in total. It holds on every
  store that meets the workflow contract, when each execution claims with an id of its own and the
  handlers do not write the row of their own workflow.\<close>

theorem handler_runs_at_most_once:
  assumes "workflow_store db ok view nd dedup" "ok s"
    and "a_workflows (view s) i = Some w" "claim_consistent w"
    and "\<And>k. wf_execution_id w \<noteq> Some (ex_execution_id (xs k))"
    and "new_executions ok view i xs" "sys_reach db xs i (initial_system s) y"
  shows "length (sys_ran y) \<le> 1"
  using workflow_store.handler_once [OF assms] .

theorem handler_runs_at_most_once_witness:
  "\<exists>y. sys_reach memory_store tiny_execution ''w1'' (initial_system (orders_store orders_row)) y
     \<and> length (sys_ran y) \<le> 1 \<and> sys_ran y = [2]"
proof -
  let ?y = "run_tasks memory_store 7 tiny_execution [3, 2, 2, 3, 2, 2, 2] (initial_system (orders_store orders_row))"
  have reach: "sys_reach memory_store tiny_execution ''w1'' (initial_system (orders_store orders_row)) ?y"
    by (rule run_tasks_reach) (rule sys_reach.start)
  have "length (sys_ran ?y) \<le> 1"
    by (rule handler_runs_at_most_once [OF mem.workflow_store_axioms orders_store_inv orders_store_row _ _
          tiny_new_executions reach])
      (simp_all add: orders_row_def new_workflow_status_def claim_consistent_def)
  moreover have "sys_ran ?y = [2]"
    by (simp add: initial_system_def tiny_steps runs_handler_def handler_returned_def)
  ultimately show ?thesis using reach by blast
qed

section \<open>From the caller to the result\<close>

lemma initial_status_simps:
  assumes "wo_queue_name opts = None" "wo_delay opts = None"
  shows "wf_workflow_uuid (initial_workflow_status ctx now i name enc opts) = i"
    "wf_name (initial_workflow_status ctx now i name enc opts) = name"
    "wf_config_name (initial_workflow_status ctx now i name enc opts) = wo_config_name opts"
    "wf_input (initial_workflow_status ctx now i name enc opts) = encoded_to_stored_value enc"
    "wf_serialization (initial_workflow_status ctx now i name enc opts) = enc_serialization enc"
    "claimable xid (initial_workflow_status ctx now i name enc opts\<lparr>wf_timeout := d\<rparr>)"
  using assms
  by (simp_all add: initial_workflow_status_def new_workflow_status_def Let_def claimable_def)

text \<open>What is asked of a handler: it keeps the store in order, leaves its own row and returns JSON that encodes.\<close>

definition proper_handler ::
    "('s \<Rightarrow> bool) \<Rightarrow> ('s \<Rightarrow> abstract_db) \<Rightarrow> codec \<Rightarrow> string \<Rightarrow> json \<Rightarrow> 's handler \<Rightarrow> bool" where
  "proper_handler ok view c i input h \<longleftrightarrow>
     (\<forall>ctx s r s'. ok s \<longrightarrow> h ctx input s = (r, s') \<longrightarrow>
        ok s' \<and> a_workflows (view s') i = a_workflows (view s) i \<and>
        (\<forall>v portable. r = Inr v \<longrightarrow> encodes c portable v))"

text \<open>C5:
  A started workflow runs and its caller gets the handler's result. Starting a new workflow without
  queue and delay inserts its row and spawns one execution; that execution calls the registered
  handler with the caller's input while the row is pending, claimed by this executor and counted as one more
  attempt; it then ends, and the row it leaves makes \<open>get_result\<close> return the handler's value, or its
  error as a \<open>WorkflowExecution\<close> error.\<close>

theorem run_workflow_end_to_end:
  assumes "workflow_store db ok view nd dedup" "ok (app_store a)"
    and "a_workflows (view (app_store a)) i = None"
    and "\<And>enc. \<not> dedup (app_store a) (initial_workflow_status ctx now i name enc opts)"
    and "wo_workflow_id opts = Some i" "wo_queue_name opts = None" "wo_delay opts = None"
    and "encodes (cx_codec ctx) (wo_portable opts \<or> is_portable ctx) input"
    and "resolve_workflow reg name (wo_config_name opts) = Inr h" "proper_handler ok view (cx_codec ctx) i input h"
  shows "\<exists>a' s' ctx' s1 res s2 w1 row.
    run_workflow_value db ctx now fresh name input opts a = (Inr i, a') \<and>
    app_spawned a' = app_spawned a @ [(i, False)] \<and>
    execute_workflow db t \<lparr>ex_context = ctx, ex_registry = reg, ex_workflow_id = i, ex_resume_claim = False,
      ex_execution_id = xid\<rparr> (app_store a') = (Inr (), s') \<and>
    h ctx' input s1 = (res, s2) \<and> a_workflows (view s1) i = Some w1 \<and> wf_status w1 = Pending \<and>
    wf_executor_id w1 = Some (executor_id ctx) \<and> wf_attempts w1 = 1 \<and>
    a_workflows (view s') i = Some row \<and>
    get_result_with_options (cx_codec ctx) ty i gopts ((Inr row, elapsed) # rounds) = (Some (reported ty i res), [])"
proof -
  let ?c = "cx_codec ctx"
  let ?x = "\<lparr>ex_context = ctx, ex_registry = reg, ex_workflow_id = i, ex_resume_claim = False, ex_execution_id = xid\<rparr>"
  obtain enc where enc: "encode_value ?c input (wo_portable opts \<or> is_portable ctx) = Inr enc" "codec_ok_at ?c input"
    using assms(8) by (auto simp: encodes_def)
  let ?w = "initial_workflow_status ctx now i name enc opts"
  note w = initial_status_simps [OF assms(6,7)]
  obtain r s1 where ins: "db_insert_workflow_with_result db ?w (app_store a) = (r, s1)" by fastforce
  from workflow_store.insert_new [OF assms(1,2) _ assms(4) ins] assms(3) w(1) have
    s1: "r = Inr Inserted" "ok s1" "a_workflows (view s1) i = Some (?w\<lparr>wf_timeout := map_option nd (wf_timeout ?w)\<rparr>)"
    by simp_all
  let ?a = "a\<lparr>app_store := s1, app_spawned := app_spawned a @ [(i, False)]\<rparr>"
  have run: "run_workflow_value db ctx now fresh name input opts a = (Inr i, ?a)"
    using assms(5-7) enc(1) ins s1(1) workflow_store.insert_unit [OF assms(1), of ?w "app_store a"]
    by (simp add: run_workflow_value_def Let_def act_bind_def on_store_def spawn_workflow_execution_def
        spawn_workflow_execution_with_recovery_def)
  let ?row = "?w\<lparr>wf_timeout := map_option nd (wf_timeout ?w)\<rparr>"
  have "decode_stored_value ?c json_serde (wf_input ?row) (wf_serialization ?row) = Inr input"
    using decode_encode_value [OF enc(2,1), of json_serde] w(4,5) by (simp add: json_serde_def)
  moreover have "resolve_workflow reg (wf_name ?row) (wf_config_name ?row) = Inr h" using assms(9) w(2,3) by simp
  moreover have "ok s' \<and> a_workflows (view s') i = a_workflows (view s) i \<and>
      (\<forall>v. r = Inr v \<longrightarrow> encodes ?c (wf_serialization ?row = PORTABLE_JSON) v)"
    if "ok s" "h c input s = (r, s')" for c s r s'
    using assms(10) that unfolding proper_handler_def by blast
  moreover have "wf_attempts ?row = 0" by (simp add: initial_workflow_status_def new_workflow_status_def Let_def)
  ultimately have "\<exists>s1' res s2 s' row. h (with_run_state ctx (run_state_of_row ?row)) input s1' = (res, s2) \<and>
    (\<exists>w1. a_workflows (view s1') i = Some w1 \<and> wf_status w1 = Pending \<and>
       wf_executor_id w1 = Some (executor_id ctx) \<and> wf_attempts w1 = 1) \<and>
    execute_workflow db t ?x s1 = (Inr (), s') \<and> a_workflows (view s') i = Some row \<and>
    wf_status row = (case res of Inr _ \<Rightarrow> Success | Inl _ \<Rightarrow> Error) \<and>
    finished_result ?c ty i row = Some (reported ty i res)"
    using workflow_store.execution_run [OF assms(1) s1(2,3), of ?x h input t ty] w(6)
    by (simp add: saturating_succ_def)
  with run show ?thesis by (fastforce simp: get_result_with_options_def)
qed

theorem run_workflow_end_to_end_witness:
  "\<exists>a' s' row. run_workflow_value memory_store tiny_context 5 ''u'' ''orders'' (JBool False)
      (default_workflow_options\<lparr>wo_workflow_id := Some ''w9''\<rparr>) \<lparr>app_store = empty_memory, app_spawned = []\<rparr>
      = (Inr ''w9'', a') \<and>
    execute_workflow memory_store (\<lambda>n. 9) \<lparr>ex_context = tiny_context, ex_registry = tiny_registry,
      ex_workflow_id = ''w9'', ex_resume_claim = False, ex_execution_id = ''x''\<rparr> (app_store a') = (Inr (), s') \<and>
    get_result_with_options tiny_codec json_serde ''w9'' default_get_result_options [(Inr row, 0)] = (Some (Inr (JBool False)), []) \<and>
    hm_get (md_workflows s') ''w9'' = Some row"
proof -
  let ?opts = "default_workflow_options\<lparr>wo_workflow_id := Some ''w9''\<rparr>"
  let ?a = "\<lparr>app_store = empty_memory, app_spawned = []\<rparr>"
  have opts: "wo_workflow_id ?opts = Some ''w9''" "wo_queue_name ?opts = None" "wo_delay ?opts = None"
    "wo_config_name ?opts = None"
    by (simp_all add: default_workflow_options_def)
  have codec: "cx_codec tiny_context = tiny_codec" by (simp add: tiny_context_def)
  have dedup: "\<not> mem_dedup (app_store ?a) (initial_workflow_status tiny_context 5 ''w9'' ''orders'' enc ?opts)" for enc
    by (simp add: mem_dedup_def initial_workflow_status_def Let_def opts)
  have enc: "encodes (cx_codec tiny_context) (wo_portable ?opts \<or> is_portable tiny_context) (JBool False)"
    by (rule tiny_encodes [folded codec]) simp
  have proper: "proper_handler mem_inv mem_abs (cx_codec tiny_context) ''w9'' (JBool False) echo"
    using tiny_encodes [folded codec] by (auto simp: proper_handler_def echo_def)
  have res: "resolve_workflow tiny_registry ''orders'' (wo_config_name ?opts) = Inr echo"
    by (simp add: opts resolve_tiny)
  have none: "a_workflows (mem_abs (app_store ?a)) ''w9'' = None" by (simp add: empty_memory_def)
  have "mem_inv (app_store ?a)" by simp
  from run_workflow_end_to_end [OF mem.workflow_store_axioms this none dedup opts(1-3) enc res proper,
      where fresh = "''u''" and t = "\<lambda>n. 9" and xid = "''x''" and ty = json_serde and gopts = default_get_result_options
      and elapsed = 0 and rounds = "[]"]
  show ?thesis by (auto simp: echo_def reported_def json_serde_def codec)
qed

section \<open>Executions that do nothing\<close>

text \<open>
  A finished workflow is not run again, and a workflow held by an executor is not taken by an
  execution that does not resume a claim of that same executor: the execution returns at once, reading
  the row only. An unknown workflow is an error.\<close>

theorem execution_refused:
  assumes "workflow_store db ok view nd dedup" "ok s" "i = ex_workflow_id x"
    and "a_workflows (view s) i = None \<or> (\<exists>w. a_workflows (view s) i = Some w \<and>
      (is_terminal (wf_status w) \<or> wf_executor_id w \<noteq> None \<and>
        (ex_resume_claim x \<longrightarrow> wf_executor_id w \<noteq> Some (executor_id (ex_context x)))))"
    and "execute_workflow db t x s = (r, s')"
  shows "r = (if a_workflows (view s) i = None then Inl (non_existent_workflow i) else Inr ()) \<and> view s' = view s"
proof -
  obtain q s1 where g: "db_get_workflow db i s = (q, s1)" by fastforce
  note run = workflow_store.get_run [OF assms(1,2) g]
  have finished: "exec_step db now x (Finished r) s = (Finished r, s)" for now r s by (simp add: exec_step_def)
  have "\<exists>r1. exec_step db (t 6) x ReadRow s = (Finished r1, s1) \<and>
      r1 = (if a_workflows (view s) i = None then Inl (non_existent_workflow i) else Inr ())"
    using assms(3,4) g run(1) by (auto simp: exec_step_def existing_def after_read_def)
  with assms(5) run(3) show ?thesis
    by (auto simp: execute_workflow_def eval_nat_numeral finished)
qed

theorem execution_refused_witness:
  "\<exists>s'. execute_workflow memory_store (\<lambda>n. 9) (tiny_execution 3) (orders_store claimed_row) = (Inr (), s')
    \<and> mem_abs s' = mem_abs (orders_store claimed_row)"
proof -
  obtain r s' where r: "execute_workflow memory_store (\<lambda>n. 9) (tiny_execution 3) (orders_store claimed_row) = (r, s')"
    by fastforce
  from execution_refused [OF mem.workflow_store_axioms orders_store_inv refl _ r] r
  show ?thesis by (simp add: orders_store_row [simplified] claimed_row_simps)
qed

section \<open>Termination\<close>


section \<open>Lost updates\<close>

text \<open>C13:
  A cancellation during the run, and when it is lost. If the row reads as cancelled when the handler has
  returned, the execution ends without writing, whatever the handler returned. A cancellation that arrives
  after this check is lost although \<open>cancel_workflow\<close> reported success: the finished row the
  execution saves next overwrites it, and the workflow ends as the handler left it.\<close>

theorem late_cancel_lost:
  assumes "workflow_store db ok view nd dedup" "ok s" "i = ex_workflow_id x"
    and "a_workflows (view s) i = Some w" "\<not> is_terminal (wf_status w)"
    and "finished_status (cx_codec (ex_context x)) now result w = Inr row"
    and "cancel_workflow db c1 c2 i s = (r, sc)"
  shows "r = Inr () \<and> (\<exists>wc. a_workflows (view sc) i = Some wc \<and> wf_status wc = Cancelled) \<and>
    (\<exists>s1. exec_step db now x (ReloadRow result) sc = (Finished (Inr ()), s1) \<and> view s1 = view sc) \<and>
    (\<exists>s1. exec_step db now x (ReloadRow result) s = (FinishRow row, s1)) \<and>
    (\<exists>s2 w2. exec_step db now x (FinishRow row) sc = (Finished (Inr ()), s2) \<and>
       a_workflows (view s2) i = Some w2 \<and> wf_status w2 = wf_status row \<and> wf_status w2 \<in> {Success, Error})"
proof -
  note store = assms(1)
  have uuid: "wf_workflow_uuid w = i" using workflow_store.keyed [OF store assms(2,4)] .
  obtain q s1 where g: "db_get_workflow db i s = (q, s1)" by fastforce
  note g1 = workflow_store.get_run [OF store assms(2) g]
  obtain q2 s2 where sv: "db_save_workflow db (cancelled_status c1 c2 w) s1 = (q2, s2)" by fastforce
  have canc: "wf_status (cancelled_status c1 c2 w) = Cancelled" by (simp add: cancelled_status_def)
  have "wf_workflow_uuid (cancelled_status c1 c2 w) = i" using uuid by simp
  from workflow_store.save_run [OF store g1(2) sv this] workflow_store.save [OF store g1(2) sv]
  obtain d where s2: "q2 = Inr ()" "ok s2" "a_workflows (view s2) i = Some (cancelled_status c1 c2 w\<lparr>wf_timeout := d\<rparr>)"
    by blast
  have c: "r = Inr ()" "sc = s2"
    using assms(4,5,7) g g1(1) sv s2(1) by (auto simp: cancel_workflow_halves existing_workflow_def act_bind_def)
  obtain q3 s3 where g3: "db_get_workflow db i s2 = (q3, s3)" by fastforce
  note g3' = workflow_store.get_run [OF store s2(2) g3]
  have reload: "exec_step db now x (ReloadRow result) sc = (Finished (Inr ()), s3)"
    using c(2) g3 g3'(1) s2(3) canc assms(3) by (simp add: exec_step_def existing_def)
  have "wf_status w \<noteq> Cancelled" using assms(5) by auto
  then have finish: "exec_step db now x (ReloadRow result) s = (FinishRow row, s1)"
    using g g1(1) assms(3,4,6) by (simp add: exec_step_def existing_def)
  have row: "wf_workflow_uuid row = i" "wf_status row \<in> {Success, Error}"
    using assms(6) uuid by (auto simp: finished_status_def Let_def res_map_eq_Inr split: sum.splits)
  obtain q4 s4 where sv4: "db_save_workflow db row s2 = (q4, s4)" by fastforce
  from workflow_store.save [OF store s2(2) sv4] workflow_store.save_run [OF store s2(2) sv4 row(1)]
  obtain d' where s4: "q4 = Inr ()" "a_workflows (view s4) i = Some (row\<lparr>wf_timeout := d'\<rparr>)" by blast
  have "exec_step db now x (FinishRow row) sc = (Finished (Inr ()), s4)"
    using c(2) sv4 s4(1) by (simp add: exec_step_def)
  with s4(2) row(2) have "\<exists>s2 w2. exec_step db now x (FinishRow row) sc = (Finished (Inr ()), s2) \<and>
      a_workflows (view s2) i = Some w2 \<and> wf_status w2 = wf_status row \<and> wf_status w2 \<in> {Success, Error}"
    by simp
  moreover have "\<exists>wc. a_workflows (view sc) i = Some wc \<and> wf_status wc = Cancelled" using s2(3) canc c(2) by simp
  moreover have "\<exists>s1. exec_step db now x (ReloadRow result) sc = (Finished (Inr ()), s1) \<and> view s1 = view sc"
    using reload g3'(3) c(2) by simp
  moreover have "\<exists>s1. exec_step db now x (ReloadRow result) s = (FinishRow row, s1)" using finish by simp
  ultimately show ?thesis using c(1) by blast
qed

theorem late_cancel_lost_witness:
  "\<exists>sc row s2 w2. cancel_workflow memory_store 8 8 ''w1'' (orders_store started_row) = (Inr (), sc) \<and>
     exec_step memory_store 9 (tiny_execution 2) (FinishRow row) sc = (Finished (Inr ()), s2) \<and>
     hm_get (md_workflows s2) ''w1'' = Some w2 \<and> wf_status w2 = Success"
proof -
  let ?s = "orders_store started_row"
  obtain r sc where r: "cancel_workflow memory_store 8 8 ''w1'' ?s = (r, sc)" by fastforce
  have "encodes tiny_codec p (JBool True)" for p by (rule tiny_encodes) simp
  then obtain row where row: "finished_status tiny_codec 9 (Inr (JBool True)) started_row = Inr row" "wf_status row = Success"
    using finished_status_row [where result = "Inr (JBool True)" and c = tiny_codec and w = started_row
        and now = 9 and i = "''w1''"] by auto
  have live: "\<not> is_terminal (wf_status started_row)"
    by (simp add: started_row_def started_status_def)
  have "a_workflows (mem_abs ?s) ''w1'' = Some started_row" by (rule orders_store_row)
  note started = orders_store_inv [OF started_row_simps(1)]
  have id: "''w1'' = ex_workflow_id (tiny_execution 2)" by simp
  have "cx_codec (ex_context (tiny_execution 2)) = tiny_codec" by (simp add: tiny_context_def)
  with row(1) have fin: "finished_status (cx_codec (ex_context (tiny_execution 2))) 9 (Inr (JBool True)) started_row = Inr row"
    by simp
  note lost = late_cancel_lost [OF mem.workflow_store_axioms started id orders_store_row live fin r]
  then have "r = Inr ()" by (rule conjunct1)
  moreover from lost obtain s2 w2 where
    "exec_step memory_store 9 (tiny_execution 2) (FinishRow row) sc = (Finished (Inr ()), s2)"
    "a_workflows (mem_abs s2) ''w1'' = Some w2" "wf_status w2 = wf_status row" by blast
  ultimately show ?thesis using r row(2) by (metis mem_abs_simps(1))
qed

text \<open>C12:
  A stale enqueue reopens a claim. The supervisor saves back the delayed row it listed earlier. If another
  process has meanwhile enqueued the same row and an execution has claimed it, the save erases the claim
  and a second execution is granted the workflow while the first one runs it.\<close>

theorem stale_enqueue_reopens_claim:
  assumes "workflow_store db ok view nd dedup" "ok s" "wf_workflow_uuid listed = i"
    and "wf_executor_id listed = None" "wf_execution_id listed = None"
    and "wf_delay_until listed = Some due" "due \<le> now"
    and "a_workflows (view s) i = Some running" "wf_execution_id running = Some x1" "claim_consistent running"
    and "enqueue_delayed db now listed s1 = (r1, s2)"
    and "granted_claims db i [(now, e1, x1)] s = (first, s1)"
    and "granted_claims db i [(now', e2, x2)] s2 = (second, s3)"
  shows "first = [x1] \<and> r1 = Inr () \<and> second = [x2]"
proof -
  note store = assms(1)
  obtain q t where c1: "db_claim_workflow_execution db now i e1 x1 s = (q, t)" by fastforce
  have cons: "\<And>w. a_workflows (view s) i = Some w \<Longrightarrow> claim_consistent w" using assms(8,10) by simp
  note cl1 = workflow_store.claim_row [OF store assms(2) cons c1]
  have "claim_spec now e1 x1 (Some running) = (True, Some running)" using assms(9) by (simp add: claim_spec_def)
  with cl1 assms(8,12) c1 have first: "first = [x1]" "ok s1" by auto
  obtain q2 t2 where sv: "db_save_workflow db (listed\<lparr>wf_status := Enqueued, wf_updated_at := now\<rparr>) s1 = (q2, t2)"
    by fastforce
  let ?saved = "listed\<lparr>wf_status := Enqueued, wf_updated_at := now\<rparr>"
  have "wf_workflow_uuid ?saved = i" using assms(3) by simp
  from workflow_store.save_run [OF store first(2) sv this] obtain d where
    t2: "ok t2" "a_workflows (view t2) i = Some (?saved\<lparr>wf_timeout := d\<rparr>)" by blast
  have q2: "q2 = Inr ()" using workflow_store.save [OF store first(2) sv] by blast
  have s2: "r1 = Inr ()" "s2 = t2" using assms(6,7,11) sv q2 by (simp_all add: enqueue_delayed_def)
  obtain q3 t3 where c3: "db_claim_workflow_execution db now' i e2 x2 s2 = (q3, t3)" by fastforce
  have cons2: "\<And>w. a_workflows (view s2) i = Some w \<Longrightarrow> claim_consistent w"
    using t2(2) s2(2) assms(4,5) by (auto simp: claim_consistent_def)
  have "ok s2" using s2(2) t2(1) by simp
  note cl3 = workflow_store.claim_row [OF store this cons2 c3]
  have "fst (claim_spec now' e2 x2 (a_workflows (view s2) i))"
    using t2(2) s2(2) assms(4,5) by (simp add: claim_spec_def)
  with cl3 assms(13) c3 have "second = [x2]" by auto
  with first s2 show ?thesis by simp
qed

definition delayed_row :: workflow_status where
  "delayed_row = orders_row\<lparr>wf_status := Delayed, wf_delay_until := Some 6\<rparr>"

theorem stale_enqueue_reopens_claim_witness:
  "\<exists>first s1 r1 s2 second s3. granted_claims memory_store ''w1'' [(9, ''local'', ''xx'')] (orders_store claimed_row) = (first, s1) \<and>
     enqueue_delayed memory_store 9 delayed_row s1 = (r1, s2) \<and>
     granted_claims memory_store ''w1'' [(9, ''other'', ''yy'')] s2 = (second, s3) \<and> first = [''xx''] \<and> second = [''yy'']"
proof -
  obtain first s1 where 1: "granted_claims memory_store ''w1'' [(9, ''local'', ''xx'')] (orders_store claimed_row) = (first, s1)"
    by fastforce
  obtain r1 s2 where 2: "enqueue_delayed memory_store 9 delayed_row s1 = (r1, s2)" by fastforce
  obtain second s3 where 3: "granted_claims memory_store ''w1'' [(9, ''other'', ''yy'')] s2 = (second, s3)" by fastforce
  have row: "wf_workflow_uuid delayed_row = ''w1''" "wf_executor_id delayed_row = None"
    "wf_execution_id delayed_row = None" "wf_delay_until delayed_row = Some 6"
    by (simp_all add: delayed_row_def orders_row_simps)
  from stale_enqueue_reopens_claim [OF mem.workflow_store_axioms orders_store_inv row _ orders_store_row _ _ 2 1 3]
  have "first = [''xx'']" "second = [''yy'']" by (auto simp: claimed_row_simps claim_consistent_def)
  with 1 2 3 show ?thesis by blast
qed

end
