(* ===== verification/Messaging_Properties.thy ===== *)
theory Messaging_Properties
  imports Messaging_Stores Step_Properties
begin

text \<open>
  The properties of messages, events and streams: round trips through any store that meets the
  contracts of \<open>Messaging_Stores\<close>, loops that end at their deadline, and the stream task.
\<close>

text \<open>A value that a codec can carry: it serializes to JSON that encodes.\<close>

definition carries :: "codec \<Rightarrow> bool \<Rightarrow> 'a serde \<Rightarrow> 'a \<Rightarrow> json \<Rightarrow> bool" where
  "carries c portable ty x v \<longleftrightarrow> to_value ty x = Inr v \<and> encodes c portable v"

lemma carries_encoded:
  assumes "carries c portable ty x v"
  obtains enc d where "encode_serializable c ty x portable = Inr enc" "enc_data enc = Some d"
    "decode_stored_value c ty (Some (JString d)) (enc_serialization enc) = from_value ty v"
proof -
  from assms obtain enc where enc: "encode_value c v portable = Inr enc" "codec_ok_at c v"
    by (auto simp: carries_def encodes_def)
  with encoded_has_data obtain d where d: "enc_data enc = Some d" by blast
  from decode_encode_value [OF enc(2,1), of ty] d
  have "decode_stored_value c ty (Some (JString d)) (enc_serialization enc) = from_value ty v"
    by (simp add: encoded_to_stored_value_def)
  with that enc(1) d assms show ?thesis by (simp add: carries_def encode_serializable_def)
qed

section \<open>Polling loops\<close>

lemma poll_ends:
  "\<exists>round \<in> set rounds. fst round \<Longrightarrow> \<exists>r s'. poll_rounds ask timed_out rounds s = (Some r, s')"
proof (induction rounds arbitrary: s)
  case Nil
  then show ?case by simp
next
  case (Cons round rounds)
  obtain late env where round: "round = (late, env)" by fastforce
  obtain r s' where r: "ask s = (r, s')" by fastforce
  show ?case
  proof (cases late)
    case True
    with round r show ?thesis by (auto split: sum.splits option.splits)
  next
    case False
    with Cons.prems round have "\<exists>round \<in> set rounds. fst round" by auto
    from Cons.IH [OF this] obtain q t where "poll_rounds ask timed_out rounds (env s') = (Some q, t)" by blast
    with round r show ?thesis by (auto split: sum.splits option.splits)
  qed
qed

lemma poll_waits:
  assumes "\<And>s. P s \<Longrightarrow> \<exists>s'. ask s = (Inr None, s') \<and> P s'" "P s"
  shows "\<exists>s'. P s' \<and> poll_rounds ask timed_out (replicate n (False, id) @ rounds) s = poll_rounds ask timed_out rounds s'"
  using assms(2)
proof (induction n arbitrary: s)
  case 0
  then show ?case by auto
next
  case (Suc n)
  with assms(1) obtain s' where "ask s = (Inr None, s')" "P s'" by blast
  with Suc.IH show ?case by simp
qed

text \<open>C23:
  A waiting call returns by its deadline. Whatever the store answers, transient database errors included,
  and whatever other tasks do meanwhile, \<open>recv\<close> and \<open>get_event\<close> return in the round in which
  the deadline has passed, at the latest.\<close>

theorem waiting_ends_at_deadline:
  assumes "\<exists>round \<in> set rounds. fst round"
  shows "fst (recv db ctx ty topic rounds s) \<noteq> None \<and> fst (get_event db ctx ty i key rounds s) \<noteq> None"
proof
  show "fst (recv db ctx ty topic rounds s) \<noteq> None"
  proof (cases "current_workflow_id ctx")
    case (Inl e)
    then show ?thesis by (simp add: recv_def)
  next
    case (Inr w)
    with poll_ends [OF assms, of "db_recv_message db w topic" "timeout_error (''timed out receiving topic '' @ topic)" s]
    show ?thesis by (auto simp: recv_def)
  qed
  show "fst (get_event db ctx ty i key rounds s) \<noteq> None"
    using poll_ends [OF assms, of "db_get_event db i key"
        "timeout_error (''timed out getting event '' @ key @ '' from workflow '' @ i)" s]
    by (auto simp: get_event_def)
qed

theorem waiting_ends_at_deadline_witness:
  "fst (recv memory_store tiny_context json_serde ''t'' [(False, id), (True, id)] empty_memory) \<noteq> None"
  using waiting_ends_at_deadline [of "[(False, id), (True, id)]" memory_store tiny_context json_serde "''t''"
      empty_memory "''w1''" "''k''"] by simp

section \<open>Messages\<close>

text \<open>C22:
  A sent message reaches the receiver that waits for it. The receiver polls an empty mailbox any number of
  times, then another task sends, and in its next round the receiver gets the value that was sent,
  through the JSON text in the database and in either format; the message is taken out, so it is not
  received again. It holds on every store that meets the mailbox contract, the SQL stores included.\<close>

theorem send_reaches_receiver:
  assumes "mail_store db ok mailbox" "ok s" "cx_run_state rctx = Some rs" "cx_codec sctx = cx_codec rctx"
    and "mailbox s (rs_workflow_id rs) topic = {#}" "carries (cx_codec rctx) portable ty x v"
  shows "\<exists>s'. recv db rctx ty topic
      (replicate n (False, id) @
       [(False, \<lambda>s. snd (send_with_options db sctx now ty (rs_workflow_id rs) x topic portable s)), (late, env)]) s
      = (Some (from_value ty v), s') \<and> ok s' \<and> mailbox s' (rs_workflow_id rs) topic = {#}"
proof -
  let ?i = "rs_workflow_id rs"
  let ?ask = "db_recv_message db ?i topic"
  let ?sent = "\<lambda>s. snd (send_with_options db sctx now ty ?i x topic portable s)"
  let ?P = "\<lambda>s. ok s \<and> mailbox s ?i topic = {#}"
  have empty: "\<exists>s'. ?ask s = (Inr None, s') \<and> ?P s'" if "?P s" for s
    using mail_store.recv_none [OF assms(1)] that by (metis prod.exhaust)
  from poll_waits [of ?P ?ask, OF empty] assms(2,5) obtain s0 where s0: "?P s0"
    "\<And>rounds timed_out. \<exists>s1. ?P s1 \<and> poll_rounds ?ask timed_out (replicate n (False, id) @ rounds) s
       = poll_rounds ?ask timed_out rounds s1" by blast
  from carries_encoded [OF assms(6)] obtain enc d where enc:
    "encode_serializable (cx_codec rctx) ty x portable = Inr enc" "enc_data enc = Some d"
    "decode_stored_value (cx_codec rctx) ty (Some (JString d)) (enc_serialization enc) = from_value ty v" by blast
  let ?m = "\<lparr>msg_destination_id = ?i, msg_topic = topic, msg_message = JString d,
    msg_serialization = enc_serialization enc, msg_created_at = now, msg_consumed = False\<rparr>"
  have round: "\<exists>s'. poll_rounds ?ask timed_out [(False, ?sent), (late, env)] s1 = (Some (Inr (?m\<lparr>msg_consumed := True\<rparr>)), s')
      \<and> ?P s'" if "?P s1" for s1 timed_out
  proof -
    from empty [OF that] obtain s2 where s2: "?ask s1 = (Inr None, s2)" "?P s2" by blast
    obtain u s3 where u: "db_send_message db ?m s2 = (u, s3)" by fastforce
    from mail_store.send_first [OF assms(1) _ _ _ u] s2(2) have s3: "ok s3" "mailbox s3 ?i topic = {#?m#}" by simp_all
    have sent: "?sent s2 = s3"
      using u enc(1,2) assms(4) by (simp add: send_with_options_def act_bind_def)
    obtain r s4 where r: "?ask s3 = (r, s4)" by fastforce
    from mail_store.recv_some [OF assms(1) s3(1) _ r] s3(2) have
      "r = Inr (Some (?m\<lparr>msg_consumed := True\<rparr>))" "?P s4" by auto
    with s2 sent r show ?thesis by simp
  qed
  from s0(2) [of "timeout_error (''timed out receiving topic '' @ topic)" "[(False, ?sent), (late, env)]"] round
  obtain s' where "poll_rounds ?ask (timeout_error (''timed out receiving topic '' @ topic))
      (replicate n (False, id) @ [(False, ?sent), (late, env)]) s = (Some (Inr (?m\<lparr>msg_consumed := True\<rparr>)), s')" "?P s'"
    by metis
  with assms(3) enc(3) show ?thesis
    by (simp add: recv_def current_workflow_id_def received_def)
qed

text \<open>The value of the witnesses: a boolean, carried in either format.\<close>

lemma tiny_carries: "carries tiny_codec portable json_serde (JBool True) (JBool True)"
  using tiny_encodes [of "JBool True" portable] by (simp add: carries_def json_serde_def)

theorem send_reaches_receiver_witness:
  "\<exists>s'. recv (pg_store 0) tiny_context json_serde ''t''
      (replicate 3 (False, id) @
       [(False, \<lambda>s. snd (send_with_options (pg_store 0) tiny_context 5 json_serde ''w1'' (JBool True) ''t'' True s)), (False, id)])
      empty_sql = (Some (Inr (JBool True)), s')"
proof -
  have run: "cx_run_state tiny_context = Some tiny_run" "cx_codec tiny_context = tiny_codec"
    by (simp_all add: tiny_context_def)
  have mail: "mail_store (pg_store 0) sql_inv sql_mailbox"
    using pg.mail_store_axioms [of 0] by (simp add: pg_store_def)
  have none: "sql_mailbox empty_sql (rs_workflow_id tiny_run) ''t'' = {#}"
    by (simp add: sql_mailbox_def typed_rows_def empty_sql_def rows_of_def)
  have val: "carries (cx_codec tiny_context) True json_serde (JBool True) (JBool True)"
    using tiny_carries run(2) by simp
  show ?thesis
    using send_reaches_receiver [where n = 3 and now = 5 and late = False and env = id,
        OF mail sql_inv_empty run(1) refl none val]
    by (auto simp: tiny_run_def json_serde_def)
qed

section \<open>Events\<close>

text \<open>
  A published event is read back. After a workflow has set an event, any task that asks for that workflow and key
  gets the value in its first round, in either format, and the store is left alone by the read; setting
  the key again replaces the value.\<close>

theorem event_round_trip:
  assumes "event_store db ok event_at" "ok s" "cx_run_state ctx = Some rs" "cx_codec rctx = cx_codec ctx"
    and "carries (cx_codec ctx) portable1 ty x1 v1" "carries (cx_codec ctx) portable2 ty x2 v2"
    and "set_event_with_options db ctx now1 ty key x1 portable1 s = (r1, s1)"
    and "set_event_with_options db ctx now2 ty key x2 portable2 s1 = (r2, s2)"
  shows "r1 = Inr () \<and> r2 = Inr () \<and>
    get_event db rctx ty (rs_workflow_id rs) key ((late, env) # rounds) s1 = (Some (from_value ty v1), s1) \<and>
    get_event db rctx ty (rs_workflow_id rs) key ((late, env) # rounds) s2 = (Some (from_value ty v2), s2)"
proof -
  have one: "r = Inr () \<and> ok s' \<and>
      get_event db rctx ty (rs_workflow_id rs) key ((late, env) # rounds) s' = (Some (from_value ty v), s')"
    if "ok s" "carries (cx_codec ctx) portable ty x v" "set_event_with_options db ctx now ty key x portable s = (r, s')"
    for s portable x v now r s'
  proof -
    from carries_encoded [OF that(2)] obtain enc d where enc:
      "encode_serializable (cx_codec ctx) ty x portable = Inr enc" "enc_data enc = Some d"
      "decode_stored_value (cx_codec ctx) ty (Some (JString d)) (enc_serialization enc) = from_value ty v" by blast
    let ?e = "\<lparr>ev_workflow_uuid = rs_workflow_id rs, ev_key = key, ev_value = JString d,
      ev_serialization = enc_serialization enc, ev_created_at = now\<rparr>"
    have set: "db_set_event db ?e s = (r, s')"
      using that(3) enc(1,2) assms(3) by (simp add: set_event_with_options_def current_workflow_id_def act_bind_def)
    from event_store.event_set [OF assms(1) that(1) set]
    have s': "r = Inr ()" "ok s'" "event_at s' (rs_workflow_id rs) key = Some ?e" by simp_all
    obtain q t where g: "db_get_event db (rs_workflow_id rs) key s' = (q, t)" by fastforce
    from event_store.event_get [OF assms(1) s'(2) g] s'(3) have "q = Inr (Some ?e)" "t = s'" by simp_all
    with s' g enc(3) assms(4) show ?thesis by (simp add: get_event_def event_value_def)
  qed
  from one [OF assms(2,5,7)] one [OF _ assms(6,8)] show ?thesis by blast
qed

theorem event_round_trip_witness:
  "\<exists>r1 s1. set_event_with_options turso_store tiny_context 5 json_serde ''k'' (JBool True) False empty_sql = (r1, s1) \<and>
     get_event turso_store tiny_context json_serde ''w1'' ''k'' [(False, id)] s1 = (Some (Inr (JBool True)), s1)"
proof -
  have run: "cx_run_state tiny_context = Some tiny_run" "cx_codec tiny_context = tiny_codec"
    by (simp_all add: tiny_context_def)
  have store: "event_store turso_store sql_inv sql_event_at"
    using turso.event_store_axioms by (simp add: turso_store_def)
  have val: "carries (cx_codec tiny_context) portable json_serde (JBool True) (JBool True)" for portable
    using tiny_carries run(2) by simp
  obtain r1 s1 where 1: "set_event_with_options turso_store tiny_context 5 json_serde ''k'' (JBool True) False empty_sql = (r1, s1)"
    by fastforce
  obtain r2 s2 where 2: "set_event_with_options turso_store tiny_context 6 json_serde ''k'' (JBool True) True s1 = (r2, s2)"
    by fastforce
  from event_round_trip [OF store sql_inv_empty run(1) refl val val 1 2, of False id "[]"] 1
  show ?thesis by (auto simp: tiny_run_def json_serde_def)
qed

section \<open>Streams\<close>

text \<open>The stream task sends a prefix of what it reads, once.\<close>

lemma stream_async_prefix:
  assumes "\<And>vals closed. Inr (vals, closed) \<in> set reads \<Longrightarrow> \<exists>more. full = vals @ more"
    and "\<And>vals. Inr (vals, True) \<in> set reads \<Longrightarrow> vals = full"
    and "\<And>e. Inl e \<notin> set reads" "length full - sent < room" "sent \<le> length full"
    and "\<And>vals closed. Inr (vals, closed) \<in> set reads \<Longrightarrow> sent \<le> length vals"
    and "sorted (map (\<lambda>r. case r of Inr (vals, _) \<Rightarrow> length vals | Inl _ \<Rightarrow> 0) reads)"
  shows "\<exists>k. sent \<le> k \<and> k \<le> length full \<and>
    stream_async room sent reads =
      (if \<exists>vals. Inr (vals, True) \<in> set reads
       then (map stream_item (drop sent full) @ [stream_closed], True)
       else (map stream_item (take (k - sent) (drop sent full)), False))"
  using assms
proof (induction reads arbitrary: room sent)
  case Nil
  then show ?case by (intro exI [of _ sent]) simp
next
  case (Cons r reads)
  from Cons.prems(3) obtain vals closed where r: "r = Inr (vals, closed)"
    by (metis list.set_intros(1) old.sum.exhaust surj_pair)
  from Cons.prems(1) [of vals closed] r obtain more where full: "full = vals @ more" by auto
  have sent: "sent \<le> length vals" using Cons.prems(6) [of vals closed] r by simp
  let ?fresh = "drop sent vals"
  have room: "\<not> room < length ?fresh" "room \<noteq> length ?fresh" using Cons.prems(4) full sent by simp_all
  show ?case
  proof (cases closed)
    case True
    with Cons.prems(2) [of vals] r have "vals = full" by simp
    with True r room Cons.prems(5) show ?thesis by (intro exI [of _ "length full"]) (auto simp: Let_def)
  next
    case False
    have longer: "length vals \<le> length vs" if "Inr (vs, c) \<in> set reads" for vs c
      using Cons.prems(7) r that by force
    have "\<exists>k. length vals \<le> k \<and> k \<le> length full \<and>
      stream_async (room - length ?fresh) (length vals) reads =
      (if \<exists>vals. Inr (vals, True) \<in> set reads
       then (map stream_item (drop (length vals) full) @ [stream_closed], True)
       else (map stream_item (take (k - length vals) (drop (length vals) full)), False))"
      by (rule Cons.IH) (use Cons.prems full sent longer in \<open>auto\<close>)
    then obtain k where k: "length vals \<le> k" "k \<le> length full"
      "stream_async (room - length ?fresh) (length vals) reads =
      (if \<exists>vals. Inr (vals, True) \<in> set reads
       then (map stream_item (drop (length vals) full) @ [stream_closed], True)
       else (map stream_item (take (k - length vals) (drop (length vals) full)), False))" by blast
    have s: "sent + length ?fresh = length vals" using sent by simp
    have pieces: "drop sent full = ?fresh @ more" "drop (length vals) full = more" using full sent by simp_all
    have t: "take (k - sent) (?fresh @ more) = ?fresh @ take (k - length vals) more"
      using k(1) sent by simp
    have notin: "(\<exists>vals. Inr (vals, True) \<in> set (r # reads)) \<longleftrightarrow> (\<exists>vals. Inr (vals, True) \<in> set reads)"
      using r False by auto
    show ?thesis
      unfolding notin
      by (rule exI [of _ k]) (use k room r False s sent pieces t in \<open>auto simp: Let_def\<close>)
  qed
qed



text \<open>Writing values one after the other, from a stream that holds \<open>n\<close> entries.\<close>

definition numbered :: "stream_entry list \<Rightarrow> bool" where
  "numbered es \<longleftrightarrow> map se_offset es = map int [0..<length es]"

lemma numbered_bound: "numbered es \<Longrightarrow> e \<in> set es \<Longrightarrow> se_offset e < int (length es)"
proof -
  assume n: "numbered es" and "e \<in> set es"
  then have "se_offset e \<in> set (map se_offset es)" by simp
  also have "\<dots> = set (map int [0..<length es])" using n by (simp add: numbered_def)
  finally show ?thesis by auto
qed

lemma numbered_append: "numbered es \<Longrightarrow> se_offset e = int (length es) \<Longrightarrow> numbered (es @ [e])"
  by (simp add: numbered_def)

lemma write_run:
  assumes "stream_store db ok stream_at" "ok s" "cx_run_state ctx = Some rs"
    and "numbered (stream_at s (rs_workflow_id rs) key)" "length (stream_at s (rs_workflow_id rs) key) < 2 ^ 63"
    and "carries (cx_codec ctx) portable ty x v"
  shows "\<exists>s' e. write_stream_with_options db ctx now ty key x portable s = (Inr (), s') \<and> ok s' \<and>
    stream_at s' (rs_workflow_id rs) key = stream_at s (rs_workflow_id rs) key @ [e] \<and>
    se_offset e = int (length (stream_at s (rs_workflow_id rs) key)) \<and> \<not> se_closed e \<and>
    decode_stored_value (cx_codec ctx) ty (se_value e) (se_serialization e) = from_value ty v"
proof -
  let ?i = "rs_workflow_id rs" and ?n = "length (stream_at s (rs_workflow_id rs) key)"
  from carries_encoded [OF assms(6)] obtain enc d where enc:
    "encode_serializable (cx_codec ctx) ty x portable = Inr enc" "enc_data enc = Some d"
    "decode_stored_value (cx_codec ctx) ty (Some (JString d)) (enc_serialization enc) = from_value ty v" by blast
  let ?e = "\<lparr>se_workflow_uuid = ?i, se_key = key, se_offset = int ?n, se_value = Some (JString d),
    se_serialization = enc_serialization enc, se_closed = False, se_created_at = now\<rparr>"
  obtain r t where g: "db_read_stream db ?i key s = (r, t)" by fastforce
  from stream_store.stream_read [OF assms(1,2) g] have r: "r = Inr (stream_at s ?i key)" "t = s" by simp_all
  obtain u s' where w: "db_write_stream db ?e s = (u, s')" by fastforce
  have "\<forall>x \<in> set (stream_at s (se_workflow_uuid ?e) (se_key ?e)). se_offset x < se_offset ?e"
    using numbered_bound [OF assms(4)] by simp
  from stream_store.stream_write [OF assms(1,2) this w]
  have "u = Inr ()" "ok s'" "stream_at s' ?i key = stream_at s ?i key @ [?e]" by simp_all
  with assms(3,5) enc g r w show ?thesis
    by (simp add: write_stream_with_options_def current_workflow_id_def act_bind_def stream_offset_def)
qed

lemma writes_run:
  assumes "stream_store db ok stream_at" "cx_run_state ctx = Some rs"
    and "ok s" "numbered (stream_at s (rs_workflow_id rs) key)"
    and "length (stream_at s (rs_workflow_id rs) key) + length xs < 2 ^ 63"
    and "list_all2 (carries (cx_codec ctx) portable ty) xs vs"
  shows "\<exists>s' es. act_for (\<lambda>x. write_stream_with_options db ctx now ty key x portable) xs s = (Inr (), s') \<and> ok s' \<and>
    stream_at s' (rs_workflow_id rs) key = stream_at s (rs_workflow_id rs) key @ es \<and>
    numbered (stream_at s' (rs_workflow_id rs) key) \<and> (\<forall>e \<in> set es. \<not> se_closed e) \<and>
    map (\<lambda>e. decode_stored_value (cx_codec ctx) ty (se_value e) (se_serialization e)) es = map (from_value ty) vs"
  using assms(3-6)
proof (induction xs arbitrary: s vs)
  case Nil
  then show ?case by simp
next
  case (Cons x xs)
  let ?i = "rs_workflow_id rs"
  from Cons.prems(4) obtain v vs' where vs: "vs = v # vs'" "carries (cx_codec ctx) portable ty x v"
    "list_all2 (carries (cx_codec ctx) portable ty) xs vs'" by (auto simp: list_all2_Cons1)
  from write_run [OF assms(1) Cons.prems(1) assms(2) Cons.prems(2) _ vs(2), of now] Cons.prems(3) obtain s1 e where
    e: "write_stream_with_options db ctx now ty key x portable s = (Inr (), s1)" "ok s1"
      "stream_at s1 ?i key = stream_at s ?i key @ [e]" "se_offset e = int (length (stream_at s ?i key))"
      "\<not> se_closed e" "decode_stored_value (cx_codec ctx) ty (se_value e) (se_serialization e) = from_value ty v"
    by auto
  have "numbered (stream_at s1 ?i key)" using e(3,4) numbered_append [OF Cons.prems(2)] by simp
  from Cons.IH [OF e(2) this _ vs(3)] Cons.prems(3) e(3) obtain s' es where
    "act_for (\<lambda>x. write_stream_with_options db ctx now ty key x portable) xs s1 = (Inr (), s')" "ok s'"
    "stream_at s' ?i key = stream_at s1 ?i key @ es" "numbered (stream_at s' ?i key)" "\<forall>e \<in> set es. \<not> se_closed e"
    "map (\<lambda>e. decode_stored_value (cx_codec ctx) ty (se_value e) (se_serialization e)) es = map (from_value ty) vs'"
    by auto
  with e vs(1) show ?case by (intro exI [of _ s'] exI [of _ "e # es"]) (simp add: act_bind_def)
qed

lemma decode_entries_ok:
  "map (\<lambda>e. decode_stored_value c ty (se_value e) (se_serialization e)) es = map Inr ys \<Longrightarrow>
     decode_entries c ty es = Inr ys"
  by (induction es arbitrary: ys) (auto simp: Cons_eq_map_conv)

lemma filter_numbered:
  assumes "numbered es"
  shows "filter (\<lambda>e. int j \<le> se_offset e) es = drop j es"
  using assms
proof (induction es rule: rev_induct)
  case Nil
  then show ?case by simp
next
  case (snoc e es)
  then have "numbered es" "se_offset e = int (length es)" by (simp_all add: numbered_def)
  with snoc.IH show ?case by simp
qed

text \<open>C24:
  What is written to a stream is what is read. A workflow writes values to an empty stream and closes it; whoever reads
  it then from any offset \<open>j\<close> on gets the values from number \<open>j\<close> on, in the order of writing, and is told
  that the stream is closed.\<close>

theorem stream_round_trip:
  assumes "stream_store db ok stream_at" "ok s" "cx_run_state ctx = Some rs" "cx_codec rctx = cx_codec ctx"
    and "stream_at s (rs_workflow_id rs) key = []" "length xs < 2 ^ 63 - 1"
    and "list_all2 (carries (cx_codec ctx) portable ty) xs vs" "map (from_value ty) vs = map Inr xs"
  shows "\<exists>s1 s2. act_for (\<lambda>x. write_stream_with_options db ctx now ty key x portable) xs s = (Inr (), s1) \<and>
    close_stream db ctx now' key s1 = (Inr (), s2) \<and>
    read_stream_with_options db rctx ty (rs_workflow_id rs) key \<lparr>rs_snapshot = snap, rs_from_offset = int j\<rparr> s2
      = (Inr (drop j xs, True), s2)"
proof -
  let ?i = "rs_workflow_id rs"
  have "numbered (stream_at s ?i key)" using assms(5) by (simp add: numbered_def)
  from writes_run [OF assms(1,3,2) this _ assms(7), of now] assms(5,6) obtain s1 es where
    s1: "act_for (\<lambda>x. write_stream_with_options db ctx now ty key x portable) xs s = (Inr (), s1)" "ok s1"
      "stream_at s1 ?i key = es" "numbered es" "\<forall>e \<in> set es. \<not> se_closed e"
      "map (\<lambda>e. decode_stored_value (cx_codec ctx) ty (se_value e) (se_serialization e)) es = map (from_value ty) vs"
    by auto
  have len: "length es = length xs" using s1(6) assms(7) by (metis length_map list_all2_lengthD)
  obtain u s2 where c: "db_close_stream db now' ?i key s1 = (u, s2)" by fastforce
  have off: "stream_offset (length (stream_at s1 ?i key)) = Inr (int (length es))"
    using len assms(6) s1(3) by (simp add: stream_offset_def)
  have bound: "\<forall>x \<in> set (stream_at s1 ?i key). se_offset x < int (length (stream_at s1 ?i key))"
    using numbered_bound [OF s1(4)] s1(3) by simp
  let ?mark = "closing_entry now' ?i key (int (length es))"
  from stream_store.stream_close [OF assms(1) s1(2) bound off c]
  have s2: "u = Inr ()" "ok s2" "stream_at s2 ?i key = es @ [?mark]" using s1(3) by simp_all
  obtain q t where g: "db_read_stream db ?i key s2 = (q, t)" by fastforce
  from stream_store.stream_read [OF assms(1) s2(2) g] s2(3) have q: "q = Inr (es @ [?mark])" "t = s2" by simp_all
  have fin: "se_closed ?mark" by (simp add: closing_entry_def)
  have "filter (\<lambda>e. int j \<le> se_offset e \<and> \<not> se_closed e) es = filter (\<lambda>e. int j \<le> se_offset e) es"
    using s1(5) by (intro filter_cong) auto
  then have kept: "filter (\<lambda>e. int j \<le> se_offset e \<and> \<not> se_closed e) (es @ [?mark]) = drop j es"
    using fin by (simp add: filter_numbered [OF s1(4)])
  have "decode_entries (cx_codec ctx) ty (drop j es) = Inr (drop j xs)"
    by (rule decode_entries_ok) (use s1(6) assms(8) in \<open>simp flip: drop_map\<close>)
  with s1 c s2(1) g q fin kept assms(3,4) show ?thesis
    by (simp add: close_stream_def current_workflow_id_def act_bind_def read_stream_with_options_def read_entries_def)
qed

theorem stream_round_trip_witness:
  "\<exists>s1 s2. act_for (\<lambda>x. write_stream_with_options (pg_store 0) tiny_context 5 json_serde ''k'' x False) [JBool True, JBool True] empty_sql
      = (Inr (), s1) \<and> close_stream (pg_store 0) tiny_context 6 ''k'' s1 = (Inr (), s2) \<and>
    read_stream_with_options (pg_store 0) tiny_context json_serde ''w1'' ''k'' \<lparr>rs_snapshot = True, rs_from_offset = int 1\<rparr> s2
      = (Inr ([JBool True], True), s2)"
proof -
  have run: "cx_run_state tiny_context = Some tiny_run" "cx_codec tiny_context = tiny_codec"
    by (simp_all add: tiny_context_def)
  have store: "stream_store (pg_store 0) sql_inv sql_stream_at"
    using pg.stream_store_axioms [of 0] by (simp add: pg_store_def)
  have none: "sql_stream_at empty_sql (rs_workflow_id tiny_run) ''k'' = []"
    by (simp add: sql_stream_at_def typed_rows_def empty_sql_def rows_of_def)
  have vals: "list_all2 (carries (cx_codec tiny_context) False json_serde) [JBool True, JBool True] [JBool True, JBool True]"
    using tiny_carries run(2) by simp
  show ?thesis
    using stream_round_trip [where now = 5 and now' = 6 and snap = True and j = 1,
        OF store sql_inv_empty run(1) refl none _ vals]
    by (simp add: json_serde_def tiny_run_def)
qed

end
