(* ===== verification/Workflow_Properties.thy ===== *)
theory Workflow_Properties
  imports Execution_Properties Store_Properties
begin

text \<open>
  The properties of the operations on workflow rows: starting again, cancelling, resuming, recovery
  and the queue supervisor.
\<close>

lemma on_store_run: "m (app_store a) = (r, s') \<Longrightarrow> on_store m a = (r, a\<lparr>app_store := s'\<rparr>)"
  by (simp add: on_store_def)

lemma spawn_run:
  "spawn_workflow_execution i a = (Inr (), a\<lparr>app_spawned := app_spawned a @ [(i, False)]\<rparr>)"
  "spawn_recovered_workflow_execution i a = (Inr (), a\<lparr>app_spawned := app_spawned a @ [(i, True)]\<rparr>)"
  by (simp_all add: spawn_workflow_execution_def spawn_recovered_workflow_execution_def
      spawn_workflow_execution_with_recovery_def)

context workflow_store
begin

lemma existing_run:
  assumes "inv s" "existing_workflow db i s = (r, s')"
  shows "r = ok_or (non_existent_workflow i) (a_workflows (abs s) i)" "inv s'" "abs s' = abs s"
proof -
  obtain q t where g: "db_get_workflow db i s = (q, t)" by fastforce
  note run = get_run [OF assms(1) g]
  with g assms(2) show "r = ok_or (non_existent_workflow i) (a_workflows (abs s) i)" "inv s'" "abs s' = abs s"
    by (auto simp: existing_workflow_def act_bind_def)
qed

lemma save_same:
  assumes "inv s" "db_save_workflow db w s = (r, s')" "wf_workflow_uuid w = i"
  shows "r = Inr ()" "inv s'" "\<exists>d. a_workflows (abs s') = (a_workflows (abs s))(i \<mapsto> w\<lparr>wf_timeout := d\<rparr>)"
    "a_queues (abs s') = a_queues (abs s)"
  using save [OF assms(1,2)] assms(3) by auto

end

section \<open>Starting again\<close>

text \<open>C17:
  Starting a workflow twice under one id is safe. If the id is taken, nothing is written: when the
  name and the encoded input agree, the call succeeds with that id and at most spawns another execution, which the
  claim keeps from running the handler again; otherwise the call fails with \<open>ConflictingWorkflow\<close> and spawns
  nothing.\<close>

theorem start_again_safe:
  assumes "workflow_store db ok view nd dedup" "ok (app_store a)" "wo_workflow_id opts = Some i"
    and "a_workflows (view (app_store a)) i = Some w"
    and "encode_value (cx_codec ctx) input (wo_portable opts \<or> is_portable ctx) = Inr enc"
    and "run_workflow_value db ctx now fresh name input opts a = (r, a')"
  shows "view (app_store a') = view (app_store a) \<and>
    (if wf_name w = name \<and> wf_input w = encoded_to_stored_value enc
     then r = Inr i \<and> (app_spawned a' = app_spawned a \<or> app_spawned a' = app_spawned a @ [(i, False)])
     else (\<exists>e. r = Inl e \<and> err_code e = ConflictingWorkflow) \<and> app_spawned a' = app_spawned a)"
proof -
  let ?w = "initial_workflow_status ctx now i name enc opts"
  have sel: "wf_workflow_uuid ?w = i" "wf_name ?w = name" "wf_input ?w = encoded_to_stored_value enc"
    by (simp_all add: initial_workflow_status_def new_workflow_status_def Let_def)
  obtain q s1 where ins: "db_insert_workflow_with_result db ?w (app_store a) = (q, s1)" by fastforce
  have "a_workflows (view (app_store a)) (wf_workflow_uuid ?w) = Some w" using assms(4) sel(1) by simp
  from workflow_store.insert_existing [OF assms(1,2) this ins]
  have q: "q = ensure_workflow_identity_matches w ?w" "view s1 = view (app_store a)" by simp_all
  have unit: "on_store (db_insert_workflow db ?w) a = (res_map (\<lambda>_. ()) q, a\<lparr>app_store := s1\<rparr>)"
    using workflow_store.insert_unit [OF assms(1), of ?w "app_store a"] ins by (simp add: on_store_def)
  show ?thesis
  proof (cases "wf_name w = name \<and> wf_input w = encoded_to_stored_value enc")
    case True
    with q(1) sel have "q = Inr ExistingExact" by (simp add: ensure_workflow_identity_matches_def)
    with assms(3,5,6) unit q(2) True show ?thesis
      by (auto simp: run_workflow_value_def Let_def act_bind_def spawn_run split: if_splits)
  next
    case False
    with q(1) sel have "\<exists>e. q = Inl e \<and> err_code e = ConflictingWorkflow"
      by (auto simp: ensure_workflow_identity_matches_def new_error_def)
    with assms(3,5,6) unit q(2) False show ?thesis
      by (auto simp: run_workflow_value_def Let_def act_bind_def)
  qed
qed

theorem start_again_safe_witness:
  "\<exists>r a'. run_workflow_value memory_store tiny_context 5 ''u'' ''refunds'' (JBool True)
      (default_workflow_options\<lparr>wo_workflow_id := Some ''w1''\<rparr>)
      \<lparr>app_store = orders_store orders_row, app_spawned = []\<rparr> = (r, a') \<and>
    (\<exists>e. r = Inl e \<and> err_code e = ConflictingWorkflow) \<and> app_spawned a' = []"
proof -
  let ?opts = "default_workflow_options\<lparr>wo_workflow_id := Some ''w1''\<rparr>"
  let ?a = "\<lparr>app_store = orders_store orders_row, app_spawned = []\<rparr>"
  obtain r a' where r: "run_workflow_value memory_store tiny_context 5 ''u'' ''refunds'' (JBool True) ?opts ?a = (r, a')"
    by fastforce
  have inv: "mem_inv (app_store ?a)" by (simp add: orders_store_inv orders_row_simps)
  have row: "a_workflows (mem_abs (app_store ?a)) ''w1'' = Some orders_row" using orders_store_row by simp
  have "encodes (cx_codec tiny_context) (wo_portable ?opts \<or> is_portable tiny_context) (JBool True)"
    using tiny_encodes by (simp add: tiny_context_def)
  then obtain enc where enc: "encode_value (cx_codec tiny_context) (JBool True) (wo_portable ?opts \<or> is_portable tiny_context) = Inr enc"
    by (auto simp: encodes_def)
  have "wo_workflow_id ?opts = Some ''w1''" by simp
  from start_again_safe [OF mem.workflow_store_axioms inv this row enc r] r show ?thesis
    by (simp add: orders_row_simps)
qed

section \<open>Cancelling and resuming\<close>

lemma cancel_rows:
  assumes "workflow_store db ok view nd dedup" "ok s" "cancel_workflow db now now' i s = (r, s')"
  shows "(case a_workflows (view s) i of
       None \<Rightarrow> r = Inl (non_existent_workflow i) \<and> view s' = view s
     | Some w \<Rightarrow> r = Inr () \<and>
         (if is_terminal (wf_status w) then view s' = view s
          else \<exists>d w'. w' = w\<lparr>wf_status := Cancelled, wf_completed_at := Some now, wf_updated_at := now', wf_timeout := d\<rparr> \<and>
            a_workflows (view s') = (a_workflows (view s))(i \<mapsto> w') \<and>
            (\<forall>t e x. wf_execution_id w \<noteq> Some x \<longrightarrow> fst (claim_spec t e x (Some w')) = False)))"
proof -
  obtain q s1 where g: "existing_workflow db i s = (q, s1)" by fastforce
  note run = workflow_store.existing_run [OF assms(1,2) g]
  show ?thesis
  proof (cases "a_workflows (view s) i")
    case None
    with run g assms(3) show ?thesis by (simp add: cancel_workflow_halves)
  next
    case (Some w)
    show ?thesis
    proof (cases "is_terminal (wf_status w)")
      case True
      with Some run g assms(3) show ?thesis by (simp add: cancel_workflow_halves)
    next
      case False
      have "wf_workflow_uuid (cancelled_status now now' w) = i"
        using workflow_store.keyed [OF assms(1,2) Some] by simp
      moreover from False Some run(1) g assms(3) have sv: "db_save_workflow db (cancelled_status now now' w) s1 = (r, s')"
        by (simp add: cancel_workflow_halves)
      ultimately obtain d where d: "r = Inr ()"
        "a_workflows (view s') = (a_workflows (view s1))(i \<mapsto> cancelled_status now now' w\<lparr>wf_timeout := d\<rparr>)"
        using workflow_store.save_same [OF assms(1) run(2) sv] by blast
      with Some False run(3) show ?thesis by (auto simp: cancelled_status_def claim_spec_def)
    qed
  qed
qed

text \<open>C18:
  Cancelling. An unknown workflow is an error and nothing is written; a finished one, a cancelled one included, is
  left as it is; any other becomes cancelled with its completion time and keeps everything else, and from then
  on no execution is granted a claim of it unless it held the claim before.\<close>

theorem cancel_workflow_correct:
  assumes "workflow_store db ok view nd dedup" "ok s" "cancel_workflow db now now' i s = (r, s')"
  shows "(case a_workflows (view s) i of
       None \<Rightarrow> r = Inl (non_existent_workflow i) \<and> view s' = view s
     | Some w \<Rightarrow> r = Inr () \<and>
         (if is_terminal (wf_status w) then view s' = view s
          else \<exists>d w'. w' = w\<lparr>wf_status := Cancelled, wf_completed_at := Some now, wf_updated_at := now', wf_timeout := d\<rparr> \<and>
            a_workflows (view s') = (a_workflows (view s))(i \<mapsto> w') \<and>
            (\<forall>t e x. wf_execution_id w \<noteq> Some x \<longrightarrow> fst (claim_spec t e x (Some w')) = False)))"
  by (rule cancel_rows [OF assms])

theorem cancel_workflow_correct_witness:
  "\<exists>s'. cancel_workflow memory_store 8 9 ''w1'' (orders_store orders_row) = (Inr (), s') \<and>
    (\<exists>w. hm_get (md_workflows s') ''w1'' = Some w \<and> wf_status w = Cancelled)"
proof -
  obtain r s' where r: "cancel_workflow memory_store 8 9 ''w1'' (orders_store orders_row) = (r, s')" by fastforce
  have "\<not> is_terminal (wf_status orders_row)" by (simp add: orders_row_simps)
  with cancel_workflow_correct [OF mem.workflow_store_axioms orders_store_inv r] r
  show ?thesis by (auto simp: orders_store_row [simplified] orders_row_simps)
qed

text \<open>C19:
  Resuming reopens a workflow whatever its state. Also a workflow that has finished, or that an execution is running at the
  moment, becomes pending (or enqueued on the queue asked for) without a claim and without its error; the execution
  that is spawned, or any other with a new id, is then granted the claim, so the handler runs again.\<close>

theorem resume_reopens:
  assumes "workflow_store db ok view nd dedup" "ok (app_store a)" "a_workflows (view (app_store a)) i = Some w"
    and "resume_workflow db now i opts a = (r, a')"
  shows "r = Inr i \<and> app_spawned a' = app_spawned a @ (if ro_queue_name opts = None then [(i, False)] else []) \<and>
    (\<exists>w'. a_workflows (view (app_store a')) i = Some w' \<and> wf_error w' = None \<and> wf_output w' = wf_output w \<and>
      wf_status w' = (if ro_queue_name opts = None then Pending else Enqueued) \<and>
      (\<forall>t e x. fst (claim_spec t e x (Some w'))))"
proof -
  obtain q s1 where g: "existing_workflow db i (app_store a) = (q, s1)" by fastforce
  note run = workflow_store.existing_run [OF assms(1,2) g]
  let ?w = "w\<lparr>wf_queue_name := (case ro_queue_name opts of Some q \<Rightarrow> Some q | None \<Rightarrow> wf_queue_name w),
     wf_status := (if ro_queue_name opts \<noteq> None then Enqueued else Pending),
     wf_completed_at := None, wf_error := None, wf_executor_id := None, wf_execution_id := None, wf_updated_at := now\<rparr>"
  obtain u s2 where sv: "db_save_workflow db ?w s1 = (u, s2)" by fastforce
  have "wf_workflow_uuid ?w = i" using workflow_store.keyed [OF assms(1-3)] by simp
  from workflow_store.save_same [OF assms(1) run(2) sv this] obtain d where
    s2: "u = Inr ()" "a_workflows (view s2) i = Some (?w\<lparr>wf_timeout := d\<rparr>)" by auto
  have "r = Inr i" "app_spawned a' = app_spawned a @ (if ro_queue_name opts = None then [(i, False)] else [])"
    "app_store a' = s2"
    using assms(3,4) g run(1) sv s2(1)
    by (auto simp: resume_workflow_def on_store_def act_bind_def spawn_run split: if_splits)
  with s2(2) show ?thesis by (auto simp: claim_spec_def)
qed

theorem resume_reopens_witness:
  "\<exists>a' w'. resume_workflow memory_store 9 ''w1'' \<lparr>ro_queue_name = None\<rparr>
      \<lparr>app_store = orders_store started_row, app_spawned = []\<rparr> = (Inr ''w1'', a') \<and>
    hm_get (md_workflows (app_store a')) ''w1'' = Some w' \<and> fst (claim_spec 9 ''other'' ''yy'' (Some w'))"
proof -
  let ?a = "\<lparr>app_store = orders_store started_row, app_spawned = []\<rparr>"
  obtain r a' where r: "resume_workflow memory_store 9 ''w1'' \<lparr>ro_queue_name = None\<rparr> ?a = (r, a')" by fastforce
  have inv: "mem_inv (app_store ?a)" by (simp add: orders_store_inv started_row_simps)
  have row: "a_workflows (mem_abs (app_store ?a)) ''w1'' = Some started_row" using orders_store_row by simp
  from resume_reopens [OF mem.workflow_store_axioms inv row r] r show ?thesis by auto
qed

end
