(* ===== verification/Supervisor.thy ===== *)
theory Supervisor
  imports Workflow_Properties Sql_Refinement
begin

text \<open>
  Recovery and the queue supervisor: which workflows are started, and what a round of the supervisor
  does to the delayed ones.
\<close>

section \<open>Loops over listed rows\<close>

lemma matches_no_filter:
  "matches_string_filter v None []" "matches_optional_string_filter u None []" "matches_prefix_filter p None []"
  by (simp_all add: matches_string_filter_def matches_optional_string_filter_def matches_prefix_filter_def)

lemma filter_matches:
  "workflow_matches w recovery_filter \<longleftrightarrow> wf_status w \<in> {Pending, Enqueued}"
  "workflow_matches w delayed_filter \<longleftrightarrow> wf_status w = Delayed"
  "workflow_matches w (queue_filter q) \<longleftrightarrow> wf_status w = Enqueued \<and> wf_queue_name w = Some (q_name q)"
  by (auto simp: workflow_matches_def recovery_filter_def delayed_filter_def queue_filter_def
      default_list_options_def matches_no_filter excluded_by_def is_none_or_def matches_optional_string_filter_def
      matches_string_filter_def split: option.splits)

text \<open>What recovery starts for a row.\<close>

definition recovery_of :: "string list \<Rightarrow> workflow_status \<Rightarrow> (string \<times> bool) list" where
  "recovery_of ids w =
     (if wf_status w = Pending \<and> wf_executor_id w = None then [(wf_workflow_uuid w, False)]
      else if (case wf_executor_id w of Some e \<Rightarrow> e \<in> set ids | None \<Rightarrow> False) then [(wf_workflow_uuid w, True)]
      else [])"

lemma recover_one_run:
  "recover_one ids w a = (Inr (map fst (recovery_of ids w)), a\<lparr>app_spawned := app_spawned a @ recovery_of ids w\<rparr>)"
  by (auto simp: recover_one_def recovery_of_def act_bind_def spawn_run split: option.splits)

lemma recover_map_run:
  "\<exists>hs. act_map (recover_one ids) ws a =
     (Inr hs, a\<lparr>app_spawned := app_spawned a @ concat (map (recovery_of ids) ws)\<rparr>) \<and>
     concat hs = map fst (concat (map (recovery_of ids) ws))"
proof (induction ws arbitrary: a)
  case Nil
  then show ?case by simp
next
  case (Cons w ws)
  from Cons.IH [of "a\<lparr>app_spawned := app_spawned a @ recovery_of ids w\<rparr>"] show ?case
    by (auto simp: act_bind_def recover_one_run)
qed

lemma recovery_distinct:
  "distinct (map wf_workflow_uuid ws) \<Longrightarrow> distinct (map fst (concat (map (recovery_of ids) ws)))"
proof (induction ws)
  case Nil
  then show ?case by simp
next
  case (Cons w ws)
  have fst: "fst x = wf_workflow_uuid w" if "x \<in> set (recovery_of ids w)" for x w
    using that by (auto simp: recovery_of_def split: if_splits)
  then have "set (map fst (concat (map (recovery_of ids) ws))) \<subseteq> wf_workflow_uuid ` set ws" by auto
  moreover have "set (map fst (recovery_of ids w)) \<subseteq> {wf_workflow_uuid w}" using fst by auto
  moreover have "wf_workflow_uuid w \<notin> wf_workflow_uuid ` set ws" using Cons.prems by simp
  ultimately have "set (map fst (recovery_of ids w)) \<inter> set (map fst (concat (map (recovery_of ids) ws))) = {}" by blast
  moreover have "distinct (map fst (recovery_of ids w))" by (simp add: recovery_of_def)
  ultimately show ?case using Cons by (simp del: map_concat set_concat)
qed

text \<open>The workflows that recovery starts, read off the rows.\<close>

definition recoverable :: "string list \<Rightarrow> (string \<rightharpoonup> workflow_status) \<Rightarrow> (string \<times> bool) set" where
  "recoverable ids rows = {(i, resume). \<exists>w. rows i = Some w \<and>
      (if wf_status w = Pending \<and> wf_executor_id w = None then \<not> resume
       else wf_status w \<in> {Pending, Enqueued} \<and> resume \<and> (\<exists>e \<in> set ids. wf_executor_id w = Some e))}"

lemma recovery_set:
  assumes "\<And>i w. rows i = Some w \<Longrightarrow> wf_workflow_uuid w = i"
  shows "(\<Union>w \<in> {w \<in> ran rows. wf_status w \<in> {Pending, Enqueued}}. set (recovery_of ids w)) = recoverable ids rows"
proof (intro equalityI subsetI)
  fix x assume "x \<in> (\<Union>w \<in> {w \<in> ran rows. wf_status w \<in> {Pending, Enqueued}}. set (recovery_of ids w))"
  then obtain i w where w: "rows i = Some w" "wf_status w \<in> {Pending, Enqueued}" "x \<in> set (recovery_of ids w)"
    by (auto simp: ran_def)
  with assms [OF w(1)] show "x \<in> recoverable ids rows"
    by (auto simp: recovery_of_def recoverable_def split: option.splits if_splits)
next
  fix x assume "x \<in> recoverable ids rows"
  then obtain i resume w where w: "x = (i, resume)" "rows i = Some w"
    "if wf_status w = Pending \<and> wf_executor_id w = None then \<not> resume
     else wf_status w \<in> {Pending, Enqueued} \<and> resume \<and> (\<exists>e \<in> set ids. wf_executor_id w = Some e)"
    by (auto simp: recoverable_def)
  then have "x \<in> set (recovery_of ids w)" "wf_status w \<in> {Pending, Enqueued}"
    using assms [OF w(2)] by (auto simp: recovery_of_def split: if_splits)
  with w(2) show "x \<in> (\<Union>w \<in> {w \<in> ran rows. wf_status w \<in> {Pending, Enqueued}}. set (recovery_of ids w))"
    by (auto simp: ran_def)
qed

lemma spawn_for_run:
  "act_for (\<lambda>w. spawn_workflow_execution (wf_workflow_uuid w)) ws a =
     (Inr (), a\<lparr>app_spawned := app_spawned a @ map (\<lambda>w. (wf_workflow_uuid w, False)) ws\<rparr>)"
  by (induction ws arbitrary: a) (simp_all add: act_bind_def spawn_run)

text \<open>An unlimited listing keeps the ids distinct and holds exactly the matching rows.\<close>

lemma select_all:
  assumes "lo_limit opts = None" "lo_offset opts = None" "distinct (map wf_workflow_uuid stored)"
  shows "distinct (map wf_workflow_uuid (select_workflows opts stored))"
    and "set (select_workflows opts stored) = apply_workflow_load_option opts ` {w \<in> set stored. workflow_matches w opts}"
proof -
  note m = list_workflows_correct_parts(4) [OF assms(1,2), of stored]
  from mset_eq_setD [OF m] show "set (select_workflows opts stored) =
      apply_workflow_load_option opts ` {w \<in> set stored. workflow_matches w opts}" by auto
  from arg_cong [OF m, of "image_mset wf_workflow_uuid"]
  have "mset (map wf_workflow_uuid (select_workflows opts stored))
      = mset (map wf_workflow_uuid (filter (\<lambda>w. workflow_matches w opts) stored))"
    by (simp add: multiset.map_comp comp_def)
  moreover have "distinct (map wf_workflow_uuid (filter (\<lambda>w. workflow_matches w opts) stored))"
    using assms(3) by (simp add: distinct_map_filter)
  ultimately show "distinct (map wf_workflow_uuid (select_workflows opts stored))"
    by (metis mset_eq_imp_distinct_iff)
qed

lemma unlimited [simp]:
  "lo_limit recovery_filter = None" "lo_offset recovery_filter = None"
  "lo_limit delayed_filter = None" "lo_offset delayed_filter = None"
  by (simp_all add: recovery_filter_def delayed_filter_def default_list_options_def)

lemma delayed_load: "apply_workflow_load_option delayed_filter = (\<lambda>w. w\<lparr>wf_output := None, wf_error := None\<rparr>)"
  by (simp add: fun_eq_iff apply_workflow_load_option_def delayed_filter_def default_list_options_def)

definition due :: "datetime \<Rightarrow> workflow_status \<Rightarrow> bool" where
  "due now w \<longleftrightarrow> (case wf_delay_until w of Some t \<Rightarrow> t \<le> now | None \<Rightarrow> False)"

text \<open>A spawned execution that the round of one of the queues \<open>qs\<close> may start.\<close>

definition dequeued :: "(string \<rightharpoonup> workflow_status) \<Rightarrow> string set \<Rightarrow> workflow_queue set \<Rightarrow> string \<times> bool \<Rightarrow> bool" where
  "dequeued rows listened qs x \<longleftrightarrow>
     (\<exists>w q. q \<in> qs \<and> x = (wf_workflow_uuid w, False) \<and> rows (wf_workflow_uuid w) = Some w \<and> wf_status w = Enqueued \<and>
        wf_queue_name w = Some (q_name q) \<and> (listened = {} \<or> q_name q \<in> listened))"

text \<open>The workflows enqueued on a queue, and the queues this process serves.\<close>

definition waiting_on :: "(string \<rightharpoonup> workflow_status) \<Rightarrow> string \<Rightarrow> string set" where
  "waiting_on rows name = {i. \<exists>w. rows i = Some w \<and> wf_status w = Enqueued \<and> wf_queue_name w = Some name}"

definition served :: "string set \<Rightarrow> workflow_queue \<Rightarrow> bool" where
  "served listened q \<longleftrightarrow> listened = {} \<or> q_name q \<in> listened"

lemma select_within:
  assumes "lo_offset opts = None" "lo_limit opts = Some l" "length (filter (\<lambda>w. workflow_matches w opts) stored) \<le> l"
  shows "set (select_workflows opts stored) = apply_workflow_load_option opts ` {w \<in> set stored. workflow_matches w opts}"
  using assms
  by (auto simp: select_workflows_def apply_workflow_load_options_def sort_and_page_workflows_def page_rows_def)

lemma dequeued_mono: "dequeued rows listened qs x \<Longrightarrow> qs \<subseteq> qs' \<Longrightarrow> dequeued rows listened qs' x"
  by (auto simp: dequeued_def)

context workflow_store
begin

lemma list_run:
  assumes "inv (app_store a)" "on_store (list_workflows db opts) a = (r, a')"
  obtains stored where "r = Inr (select_workflows opts stored)" "distinct (map wf_workflow_uuid stored)"
    "set stored = ran (a_workflows (abs (app_store a)))" "inv (app_store a')"
    "abs (app_store a') = abs (app_store a)" "app_spawned a' = app_spawned a"
proof -
  obtain q s where l: "db_list_workflows db opts (app_store a) = (q, s)" by fastforce
  from list_rows [OF assms(1) l] obtain stored where "distinct (map wf_workflow_uuid stored)"
    "set stored = ran (a_workflows (abs (app_store a)))" "q = Inr (select_workflows opts stored)"
    "inv s" "abs s = abs (app_store a)" by blast
  moreover from l assms(2) have "r = q" "a' = a\<lparr>app_store := s\<rparr>" by (simp_all add: list_workflows_def on_store_def)
  ultimately show ?thesis using that by simp
qed

lemma enqueue_run:
  assumes "inv (app_store a)" "on_store (enqueue_delayed db now w) a = (r, a')"
  shows "r = Inr ()" "inv (app_store a')" "app_spawned a' = app_spawned a"
    "a_queues (abs (app_store a')) = a_queues (abs (app_store a))"
    "\<not> due now w \<Longrightarrow> a_workflows (abs (app_store a')) = a_workflows (abs (app_store a))"
    "due now w \<Longrightarrow> \<exists>d. a_workflows (abs (app_store a')) = (a_workflows (abs (app_store a)))
       (wf_workflow_uuid w \<mapsto> w\<lparr>wf_status := Enqueued, wf_updated_at := now, wf_timeout := d\<rparr>)"
proof -
  have "r = Inr () \<and> inv (app_store a') \<and> app_spawned a' = app_spawned a \<and>
    a_queues (abs (app_store a')) = a_queues (abs (app_store a)) \<and>
    (\<not> due now w \<longrightarrow> a_workflows (abs (app_store a')) = a_workflows (abs (app_store a))) \<and>
    (due now w \<longrightarrow> (\<exists>d. a_workflows (abs (app_store a')) = (a_workflows (abs (app_store a)))
       (wf_workflow_uuid w \<mapsto> w\<lparr>wf_status := Enqueued, wf_updated_at := now, wf_timeout := d\<rparr>)))"
  proof (cases "due now w")
    case False
    with assms show ?thesis by (auto simp: enqueue_delayed_def due_def on_store_def)
  next
    case True
    let ?w = "w\<lparr>wf_status := Enqueued, wf_updated_at := now\<rparr>"
    obtain q s where sv: "db_save_workflow db ?w (app_store a) = (q, s)" by fastforce
    have "wf_workflow_uuid ?w = wf_workflow_uuid w" by simp
    note saved = save_same [OF assms(1) sv this]
    from True sv assms(2) have "r = q" "a' = a\<lparr>app_store := s\<rparr>"
      by (simp_all add: enqueue_delayed_def due_def on_store_def)
    with saved True show ?thesis by simp
  qed
  then show "r = Inr ()" "inv (app_store a')" "app_spawned a' = app_spawned a"
    "a_queues (abs (app_store a')) = a_queues (abs (app_store a))"
    "\<not> due now w \<Longrightarrow> a_workflows (abs (app_store a')) = a_workflows (abs (app_store a))"
    "due now w \<Longrightarrow> \<exists>d. a_workflows (abs (app_store a')) = (a_workflows (abs (app_store a)))
       (wf_workflow_uuid w \<mapsto> w\<lparr>wf_status := Enqueued, wf_updated_at := now, wf_timeout := d\<rparr>)"
    by blast+
qed

lemma enqueue_all_run:
  assumes "inv (app_store a)" "distinct (map wf_workflow_uuid ws)"
    and "act_for (\<lambda>w. on_store (enqueue_delayed db now w)) ws a = (r, a')"
  shows "r = Inr () \<and> inv (app_store a') \<and> app_spawned a' = app_spawned a \<and>
    a_queues (abs (app_store a')) = a_queues (abs (app_store a)) \<and>
    (\<forall>i. i \<notin> wf_workflow_uuid ` {w \<in> set ws. due now w} \<longrightarrow>
       a_workflows (abs (app_store a')) i = a_workflows (abs (app_store a)) i) \<and>
    (\<forall>w \<in> set ws. due now w \<longrightarrow> (\<exists>d. a_workflows (abs (app_store a')) (wf_workflow_uuid w) =
       Some (w\<lparr>wf_status := Enqueued, wf_updated_at := now, wf_timeout := d\<rparr>)))"
  using assms
proof (induction ws arbitrary: a)
  case Nil
  then show ?case by auto
next
  case (Cons w ws)
  obtain q a1 where e: "on_store (enqueue_delayed db now w) a = (q, a1)" by fastforce
  note one = enqueue_run [OF Cons.prems(1) e]
  from Cons.prems(3) e one(1) have "act_for (\<lambda>w. on_store (enqueue_delayed db now w)) ws a1 = (r, a')"
    by (simp add: act_bind_def)
  from Cons.IH [OF one(2) _ this] Cons.prems(2) have IH: "r = Inr ()" "inv (app_store a')"
    "app_spawned a' = app_spawned a1" "a_queues (abs (app_store a')) = a_queues (abs (app_store a1))"
    "\<And>i. i \<notin> wf_workflow_uuid ` {w \<in> set ws. due now w} \<Longrightarrow>
       a_workflows (abs (app_store a')) i = a_workflows (abs (app_store a1)) i"
    "\<And>w. w \<in> set ws \<Longrightarrow> due now w \<Longrightarrow> \<exists>d. a_workflows (abs (app_store a')) (wf_workflow_uuid w) =
       Some (w\<lparr>wf_status := Enqueued, wf_updated_at := now, wf_timeout := d\<rparr>)" by auto
  have new: "wf_workflow_uuid w \<notin> wf_workflow_uuid ` {w \<in> set ws. due now w}" using Cons.prems(2) by auto
  show ?case
  proof (cases "due now w")
    case False
    with one IH show ?thesis by auto
  next
    case True
    with one(6) obtain d where d: "a_workflows (abs (app_store a1)) = (a_workflows (abs (app_store a)))
       (wf_workflow_uuid w \<mapsto> w\<lparr>wf_status := Enqueued, wf_updated_at := now, wf_timeout := d\<rparr>)" by blast
    with IH(5) [OF new] have "a_workflows (abs (app_store a')) (wf_workflow_uuid w) =
       Some (w\<lparr>wf_status := Enqueued, wf_updated_at := now, wf_timeout := d\<rparr>)" by simp
    moreover have "a_workflows (abs (app_store a')) i = a_workflows (abs (app_store a)) i"
      if "i \<notin> wf_workflow_uuid ` {v \<in> set (w # ws). due now v}" for i
    proof -
      from that True have "i \<noteq> wf_workflow_uuid w" "i \<notin> wf_workflow_uuid ` {v \<in> set ws. due now v}" by auto
      with d IH(5) [of i] show ?thesis by simp
    qed
    ultimately show ?thesis using one IH by auto
  qed
qed

lemma waiting_count:
  assumes "inv s" "set stored = ran (a_workflows (abs s))" "distinct (map wf_workflow_uuid stored)"
  shows "length (filter (\<lambda>w. workflow_matches w (queue_filter q)) stored) = card (waiting_on (a_workflows (abs s)) (q_name q))"
    and "wf_workflow_uuid ` {w \<in> set stored. workflow_matches w (queue_filter q)} = waiting_on (a_workflows (abs s)) (q_name q)"
proof -
  let ?rows = "a_workflows (abs s)" and ?ws = "filter (\<lambda>w. workflow_matches w (queue_filter q)) stored"
  show eq: "wf_workflow_uuid ` {w \<in> set stored. workflow_matches w (queue_filter q)} = waiting_on ?rows (q_name q)"
    using keyed [OF assms(1)] unfolding assms(2) by (force simp: filter_matches waiting_on_def ran_def)
  have "distinct (map wf_workflow_uuid ?ws)" using assms(3) by (simp add: distinct_map_filter)
  from distinct_card [OF this] eq show "length ?ws = card (waiting_on ?rows (q_name q))" by simp
qed

lemma run_queue_run:
  assumes "inv (app_store a)" "run_queue db listened q a = (r, a')"
  shows "\<exists>added. r = Inr () \<and> inv (app_store a') \<and> abs (app_store a') = abs (app_store a) \<and>
    app_spawned a' = app_spawned a @ added \<and>
    (\<forall>x \<in> set added. dequeued (a_workflows (abs (app_store a))) listened {q} x) \<and>
    length added \<le> q_max_tasks_per_iteration q \<and>
    (served listened q \<and> card (waiting_on (a_workflows (abs (app_store a))) (q_name q)) \<le> q_max_tasks_per_iteration q \<longrightarrow>
       (\<forall>i \<in> waiting_on (a_workflows (abs (app_store a))) (q_name q). (i, False) \<in> set added))"
proof (cases "listened \<noteq> {} \<and> q_name q \<notin> listened")
  case True
  with assms show ?thesis by (intro exI [of _ "[]"]) (auto simp: run_queue_def served_def)
next
  case False
  obtain q1 a1 where l: "on_store (list_workflows db (queue_filter q)) a = (q1, a1)" by fastforce
  from list_run [OF assms(1) l] obtain stored where st: "q1 = Inr (select_workflows (queue_filter q) stored)"
    "set stored = ran (a_workflows (abs (app_store a)))" "inv (app_store a1)"
    "abs (app_store a1) = abs (app_store a)" "app_spawned a1 = app_spawned a" "distinct (map wf_workflow_uuid stored)"
    by metis
  let ?ws = "select_workflows (queue_filter q) stored"
  let ?added = "map (\<lambda>w. (wf_workflow_uuid w, False)) ?ws"
  from assms(2) False l st(1) have a': "r = Inr ()" "a' = a1\<lparr>app_spawned := app_spawned a1 @ ?added\<rparr>"
    by (auto simp: run_queue_def act_bind_def spawn_for_run)
  have "dequeued (a_workflows (abs (app_store a))) listened {q} x" if "x \<in> set ?added" for x
  proof -
    from that obtain w where w: "w \<in> set ?ws" "x = (wf_workflow_uuid w, False)" by auto
    from select_workflows_sound [OF w(1)] obtain v where v: "v \<in> set stored" "workflow_matches v (queue_filter q)"
      "w = apply_workflow_load_option (queue_filter q) v" by blast
    from v(1) st(2) obtain i where i: "a_workflows (abs (app_store a)) i = Some v" by (auto simp: ran_def)
    with keyed [OF assms(1)] have "wf_workflow_uuid v = i" by blast
    with i v w False show ?thesis by (auto simp: filter_matches dequeued_def)
  qed
  moreover have "length ?ws \<le> q_max_tasks_per_iteration q"
    using list_workflows_correct_parts(3) [of "queue_filter q" "q_max_tasks_per_iteration q" stored]
    by (simp add: queue_filter_def)
  moreover have "(i, False) \<in> set ?added"
    if "card (waiting_on (a_workflows (abs (app_store a))) (q_name q)) \<le> q_max_tasks_per_iteration q"
      "i \<in> waiting_on (a_workflows (abs (app_store a))) (q_name q)" for i
  proof -
    note waiting = waiting_count [OF assms(1) st(2,6), of q]
    have "set ?ws = apply_workflow_load_option (queue_filter q) ` {w \<in> set stored. workflow_matches w (queue_filter q)}"
      by (rule select_within [of _ "q_max_tasks_per_iteration q"])
         (use that(1) waiting(1) in \<open>simp_all add: queue_filter_def default_list_options_def\<close>)
    with that(2) waiting(2) [symmetric] show ?thesis by (auto simp: image_iff)
  qed
  ultimately show ?thesis using a' st False by (intro exI [of _ ?added]) auto
qed

lemma run_queues_run:
  assumes "inv (app_store a)" "act_for (run_queue db listened) qs a = (r, a')"
  shows "\<exists>added. r = Inr () \<and> inv (app_store a') \<and> abs (app_store a') = abs (app_store a) \<and>
    app_spawned a' = app_spawned a @ added \<and>
    (\<forall>x \<in> set added. dequeued (a_workflows (abs (app_store a))) listened (set qs) x) \<and>
    (\<forall>q \<in> set qs. served listened q \<and>
       card (waiting_on (a_workflows (abs (app_store a))) (q_name q)) \<le> q_max_tasks_per_iteration q \<longrightarrow>
       (\<forall>i \<in> waiting_on (a_workflows (abs (app_store a))) (q_name q). (i, False) \<in> set added))"
  using assms
proof (induction qs arbitrary: a)
  case Nil
  then show ?case by auto
next
  case (Cons q qs)
  let ?rows = "a_workflows (abs (app_store a))"
  obtain q1 a1 where e: "run_queue db listened q a = (q1, a1)" by fastforce
  from run_queue_run [OF Cons.prems(1) e] obtain added1 where one: "q1 = Inr ()" "inv (app_store a1)"
    "abs (app_store a1) = abs (app_store a)" "app_spawned a1 = app_spawned a @ added1"
    "\<forall>x \<in> set added1. dequeued ?rows listened {q} x"
    "served listened q \<and> card (waiting_on ?rows (q_name q)) \<le> q_max_tasks_per_iteration q \<Longrightarrow>
       \<forall>i \<in> waiting_on ?rows (q_name q). (i, False) \<in> set added1" by blast
  from Cons.prems(2) e one(1) have "act_for (run_queue db listened) qs a1 = (r, a')" by (simp add: act_bind_def)
  from Cons.IH [OF one(2) this] one(3) obtain added2 where two: "r = Inr ()" "inv (app_store a')"
    "abs (app_store a') = abs (app_store a)" "app_spawned a' = app_spawned a1 @ added2"
    "\<forall>x \<in> set added2. dequeued ?rows listened (set qs) x"
    "\<forall>q \<in> set qs. served listened q \<and> card (waiting_on ?rows (q_name q)) \<le> q_max_tasks_per_iteration q \<longrightarrow>
       (\<forall>i \<in> waiting_on ?rows (q_name q). (i, False) \<in> set added2)" by auto
  have "\<forall>x \<in> set (added1 @ added2). dequeued ?rows listened (set (q # qs)) x"
    using one(5) two(5) dequeued_mono [of ?rows listened "{q}" _ "set (q # qs)"]
      dequeued_mono [of ?rows listened "set qs" _ "set (q # qs)"] subset_insertI [of "set qs" q] by auto
  moreover have "\<forall>p \<in> set (q # qs). served listened p \<and> card (waiting_on ?rows (q_name p)) \<le> q_max_tasks_per_iteration p \<longrightarrow>
       (\<forall>i \<in> waiting_on ?rows (q_name p). (i, False) \<in> set (added1 @ added2))"
    using one(6) two(6) by auto
  moreover have "app_spawned a' = app_spawned a @ added1 @ added2" using one(4) two(4) by simp
  ultimately show ?case using two(1-3) by blast
qed

end

section \<open>Recovery\<close>

lemma recovery_run:
  assumes "workflow_store db ok view nd dedup" "ok (app_store a)" "recover_pending_workflows db ids a = (r, a')"
  obtains added where "r = Inr (map fst added)" "app_spawned a' = app_spawned a @ added" "distinct (map fst added)"
    "ok (app_store a')" "view (app_store a') = view (app_store a)"
    "set added = recoverable ids (a_workflows (view (app_store a)))"
proof -
  let ?rows = "a_workflows (view (app_store a))"
  obtain q a1 where l: "on_store (list_workflows db recovery_filter) a = (q, a1)" by fastforce
  from workflow_store.list_run [OF assms(1,2) l] obtain stored where st:
    "q = Inr (select_workflows recovery_filter stored)" "distinct (map wf_workflow_uuid stored)"
    "set stored = ran ?rows" "ok (app_store a1)" "view (app_store a1) = view (app_store a)" "app_spawned a1 = app_spawned a"
    by metis
  let ?ws = "select_workflows recovery_filter stored"
  let ?added = "concat (map (recovery_of ids) ?ws)"
  from recover_map_run [of ids ?ws a1] obtain hs where hs:
    "act_map (recover_one ids) ?ws a1 = (Inr hs, a1\<lparr>app_spawned := app_spawned a1 @ ?added\<rparr>)" "concat hs = map fst ?added"
    by blast
  have run: "r = Inr (map fst ?added)" "a' = a1\<lparr>app_spawned := app_spawned a1 @ ?added\<rparr>"
    using assms(3) l st(1) hs by (simp_all add: recover_pending_workflows_def act_bind_def)
  have load: "recovery_of ids (apply_workflow_load_option recovery_filter w) = recovery_of ids w" for w
    by (simp add: recovery_of_def)
  note all = select_all [of recovery_filter, OF _ _ st(2), simplified]
  from recovery_distinct [OF all(1)] have dist: "distinct (map fst ?added)" .
  have uuid: "wf_workflow_uuid w = i" if "?rows i = Some w" for i w
    using workflow_store.keyed [OF assms(1,2) that] .
  have "set ?ws = apply_workflow_load_option recovery_filter ` {w \<in> ran ?rows. wf_status w \<in> {Pending, Enqueued}}"
    using all(2) st(3) by (auto simp: filter_matches)
  then have "set ?added = (\<Union>w \<in> {w \<in> ran ?rows. wf_status w \<in> {Pending, Enqueued}}. set (recovery_of ids w))"
    by (simp add: load)
  also note recovery_set [of ?rows ids, OF uuid]
  finally show thesis using that [of ?added] run st(4-6) dist by simp
qed

text \<open>C20:
  Recovery starts exactly what is to be recovered. \<open>recover_pending_workflows\<close> leaves the database alone and spawns
  one execution for each workflow that is pending without a claim, and one that resumes its claim for each pending or
  enqueued workflow claimed by one of the executors named, and no other; it returns their ids.\<close>

theorem recovery_exact:
  assumes "workflow_store db ok view nd dedup" "ok (app_store a)" "recover_pending_workflows db ids a = (r, a')"
  shows "\<exists>added. r = Inr (map fst added) \<and> app_spawned a' = app_spawned a @ added \<and> distinct (map fst added) \<and>
    view (app_store a') = view (app_store a) \<and>
    set added = recoverable ids (a_workflows (view (app_store a)))"
  by (rule recovery_run [OF assms]) blast

theorem recovery_exact_witness:
  "\<exists>a'. recover_pending_workflows memory_store [''local'']
      \<lparr>app_store = orders_store claimed_row, app_spawned = []\<rparr> = (Inr [''w1''], a') \<and> app_spawned a' = [(''w1'', True)]"
proof -
  let ?a = "\<lparr>app_store = orders_store claimed_row, app_spawned = []\<rparr>"
  obtain r a' where r: "recover_pending_workflows memory_store [''local''] ?a = (r, a')" by fastforce
  have inv: "mem_inv (app_store ?a)" by (simp add: orders_store_inv claimed_row_simps)
  have rows: "a_workflows (mem_abs (app_store ?a)) = [''w1'' \<mapsto> claimed_row]"
    by (auto simp: orders_store_def hm_get_def fun_eq_iff)
  from recovery_exact [OF mem.workflow_store_axioms inv r] obtain added where added:
    "r = Inr (map fst added)" "app_spawned a' = added" "distinct (map fst added)"
    "set added = recoverable [''local''] [''w1'' \<mapsto> claimed_row]" using rows by auto
  have "recoverable [''local''] [''w1'' \<mapsto> claimed_row] = {(''w1'', True)}"
    by (auto simp: recoverable_def claimed_row_simps split: if_splits)
  with added(4) have "set added = {(''w1'', True)}" by simp
  moreover have "distinct added" using added(3) by (simp add: distinct_map)
  ultimately have "added = [(''w1'', True)]" by (cases added; cases "tl added") auto
  with added r show ?thesis by simp
qed

section \<open>A round of the supervisor\<close>

text \<open>What the round needs of the listing of queues.\<close>

locale supervised_store = workflow_store db inv abs nd dedup
  for db :: "'s system_database" and inv :: "'s \<Rightarrow> bool" and abs :: "'s \<Rightarrow> abstract_db"
    and nd :: "duration \<Rightarrow> duration" and dedup :: "'s \<Rightarrow> workflow_status \<Rightarrow> bool" +
  assumes list_queues: "inv s \<Longrightarrow> db_list_queues db s = (rq, s') \<Longrightarrow>
      \<exists>qs. rq = Inr qs \<and> set qs = ran (a_queues (abs s)) \<and> inv s' \<and> abs s' = abs s"

interpretation mem_sup: supervised_store memory_store mem_inv mem_abs "\<lambda>d. d" mem_dedup
proof (unfold_locales, goal_cases)
  case (1 s rq s')
  then show ?case
    by (auto simp: memory_store_def mem_list_queues_def mem_inv_def hm_values_ran)
qed

context healthy_methods
begin

lemma list_queues_law:
  assumes "sql_inv s" "db_list_queues (sql_methods kv migrate insertion claiming) s = (rq, s')"
  shows "\<exists>qs. rq = Inr qs \<and> set qs = ran (a_queues (sql_abs s)) \<and> sql_inv s' \<and> sql_abs s' = sql_abs s"
proof -
  have t: "table_ok (sql_table s)" using assms(1) by (simp add: sql_inv_def)
  from decode_rows [OF t, of "''queue''" PQueue q_name as_queue] obtain qs where qs:
    "decode_all as_queue (rows_of ''queue'' (sql_table s)) = Inr qs"
    "set qs = {q. hm_get (sql_table s) (''queue'', q_name q) = Some (PQueue q)}"
    by (auto simp: row_ok_kind as_queue_def)
  have "set qs = ran (a_queues (sql_abs s))"
  proof (rule set_eqI, unfold qs(2), rule iffI)
    fix q assume "q \<in> {q. hm_get (sql_table s) (''queue'', q_name q) = Some (PQueue q)}"
    then have "a_queues (sql_abs s) (q_name q) = Some q" by (simp add: sql_abs_simps)
    then show "q \<in> ran (a_queues (sql_abs s))" by (rule ranI)
  next
    fix q assume "q \<in> ran (a_queues (sql_abs s))"
    then obtain n where "a_queues (sql_abs s) n = Some q" by (auto simp: ran_def)
    then have row: "hm_get (sql_table s) (''queue'', n) = Some (PQueue q)"
      by (simp add: sql_abs_simps split: option.splits payload.splits)
    from table_okD [OF t row] row show "q \<in> {q. hm_get (sql_table s) (''queue'', q_name q) = Some (PQueue q)}"
      by (simp add: row_ok_kind)
  qed
  moreover have "rq = Inr qs" "s' = s"
    using assms qs(1) by (simp_all add: sql_methods_def sql_list_queues_def list_as_healthy sql_inv_def)
  ultimately show ?thesis using assms(1) by blast
qed

end

sublocale healthy_methods \<subseteq> supervised_store "sql_methods kv migrate insertion claiming" sql_inv sql_abs
    wire_duration "\<lambda>_ _. False"
  by unfold_locales (rule list_queues_law)

lemma enqueued_rows:
  assumes "ws = (\<lambda>w. w\<lparr>wf_output := None, wf_error := None\<rparr>) ` {w \<in> ran rows. wf_status w = Delayed}"
    and "\<And>i w. rows i = Some w \<Longrightarrow> wf_workflow_uuid w = i"
    and "\<forall>i. i \<notin> wf_workflow_uuid ` {w \<in> ws. due now w} \<longrightarrow> rows' i = rows i"
    and "\<forall>w \<in> ws. due now w \<longrightarrow> (\<exists>d. rows' (wf_workflow_uuid w) =
       Some (w\<lparr>wf_status := Enqueued, wf_updated_at := now, wf_timeout := d\<rparr>))"
  shows "case rows i of None \<Rightarrow> rows' i = None
     | Some w \<Rightarrow> if wf_status w = Delayed \<and> due now w
         then \<exists>d. rows' i = Some (w\<lparr>wf_output := None, wf_error := None,
           wf_status := Enqueued, wf_updated_at := now, wf_timeout := d\<rparr>)
         else rows' i = Some w"
proof (cases "\<exists>w. rows i = Some w \<and> wf_status w = Delayed \<and> due now w")
  case True
  then obtain w where w: "rows i = Some w" "wf_status w = Delayed" "due now w" by blast
  let ?w = "w\<lparr>wf_output := None, wf_error := None\<rparr>"
  have "?w \<in> ws" using w(1,2) assms(1) by (auto simp: ran_def)
  moreover have "due now ?w" using w(3) by (simp add: due_def)
  moreover have "wf_workflow_uuid ?w = i" using assms(2) [OF w(1)] by simp
  ultimately show ?thesis using assms(4) w by fastforce
next
  case False
  have "i \<notin> wf_workflow_uuid ` {w \<in> ws. due now w}"
  proof
    assume "i \<in> wf_workflow_uuid ` {w \<in> ws. due now w}"
    then obtain j v where v: "rows j = Some v" "wf_status v = Delayed" "due now v" "wf_workflow_uuid v = i"
      unfolding assms(1) by (auto simp: ran_def due_def)
    with assms(2) False show False by metis
  qed
  with assms(3) have "rows' i = rows i" by blast
  with False show ?thesis by (auto split: option.splits)
qed

context supervised_store
begin

lemma round_run:
  assumes "inv (app_store a)" "transition_and_run_queued_workflows db now listened a = (r, a')"
  shows "r = Inr () \<and> inv (app_store a') \<and> a_queues (abs (app_store a')) = a_queues (abs (app_store a)) \<and>
    (\<forall>i. case a_workflows (abs (app_store a)) i of
       None \<Rightarrow> a_workflows (abs (app_store a')) i = None
     | Some w \<Rightarrow>
         if wf_status w = Delayed \<and> due now w
         then \<exists>d. a_workflows (abs (app_store a')) i = Some (w\<lparr>wf_output := None, wf_error := None,
           wf_status := Enqueued, wf_updated_at := now, wf_timeout := d\<rparr>)
         else a_workflows (abs (app_store a')) i = Some w) \<and>
    (\<exists>added. app_spawned a' = app_spawned a @ added \<and>
       (\<forall>x \<in> set added. dequeued (a_workflows (abs (app_store a'))) listened (ran (a_queues (abs (app_store a)))) x) \<and>
       (\<forall>q \<in> ran (a_queues (abs (app_store a))). served listened q \<and>
          card (waiting_on (a_workflows (abs (app_store a'))) (q_name q)) \<le> q_max_tasks_per_iteration q \<longrightarrow>
          (\<forall>i \<in> waiting_on (a_workflows (abs (app_store a'))) (q_name q). (i, False) \<in> set added)))"
proof -
  let ?rows = "a_workflows (abs (app_store a))"
  obtain q a1 where l: "on_store (list_workflows db delayed_filter) a = (q, a1)" by fastforce
  from list_run [OF assms(1) l] obtain stored where st:
    "q = Inr (select_workflows delayed_filter stored)" "distinct (map wf_workflow_uuid stored)"
    "set stored = ran ?rows" "inv (app_store a1)" "abs (app_store a1) = abs (app_store a)"
    "app_spawned a1 = app_spawned a" by metis
  let ?ws = "select_workflows delayed_filter stored"
  obtain q2 a2 where e: "act_for (\<lambda>w. on_store (enqueue_delayed db now w)) ?ws a1 = (q2, a2)" by fastforce
  note all = select_all [of delayed_filter, OF _ _ st(2), simplified]
  have ws: "set ?ws = (\<lambda>w. w\<lparr>wf_output := None, wf_error := None\<rparr>) ` {w \<in> ran ?rows. wf_status w = Delayed}"
    using all(2) st(3) by (simp add: filter_matches delayed_load)
  note enq = enqueue_all_run [OF st(4) all(1) e]
  obtain rq s2 where lq: "db_list_queues db (app_store a2) = (rq, s2)" by fastforce
  from list_queues [OF _ lq] enq obtain qs where qs: "rq = Inr qs"
    "set qs = ran (a_queues (abs (app_store a2)))" "inv s2" "abs s2 = abs (app_store a2)" by blast
  let ?a3 = "a2\<lparr>app_store := s2\<rparr>"
  have run: "act_for (run_queue db listened) qs ?a3 = (r, a')"
    using assms(2) l st(1) e enq lq qs(1)
    by (simp add: transition_and_run_queued_workflows_def act_bind_def on_store_def)
  from run_queues_run [OF _ run] qs(3) obtain added where added: "r = Inr ()" "inv (app_store a')"
    "abs (app_store a') = abs s2" "app_spawned a' = app_spawned a2 @ added"
    "\<forall>x \<in> set added. dequeued (a_workflows (abs s2)) listened (set qs) x"
    "\<forall>q \<in> set qs. served listened q \<and> card (waiting_on (a_workflows (abs s2)) (q_name q)) \<le> q_max_tasks_per_iteration q \<longrightarrow>
       (\<forall>i \<in> waiting_on (a_workflows (abs s2)) (q_name q). (i, False) \<in> set added)" by auto
  have rows: "case ?rows i of None \<Rightarrow> a_workflows (abs (app_store a2)) i = None
     | Some w \<Rightarrow> if wf_status w = Delayed \<and> due now w
         then \<exists>d. a_workflows (abs (app_store a2)) i = Some (w\<lparr>wf_output := None, wf_error := None,
           wf_status := Enqueued, wf_updated_at := now, wf_timeout := d\<rparr>)
         else a_workflows (abs (app_store a2)) i = Some w" for i
    by (rule enqueued_rows [where ws = "set ?ws" and rows = ?rows])
      (use enq ws st(5) keyed [OF assms(1)] in \<open>simp_all\<close>)
  have eq: "abs (app_store a') = abs (app_store a2)" using added(3) qs(4) by simp
  have queues: "set qs = ran (a_queues (abs (app_store a)))" "a_queues (abs (app_store a')) = a_queues (abs (app_store a))"
    using qs(2) enq st(5) eq by simp_all
  have spawned: "app_spawned a' = app_spawned a @ added" using added(4) enq st(6) by simp
  have started: "\<forall>x \<in> set added. dequeued (a_workflows (abs (app_store a2))) listened (ran (a_queues (abs (app_store a)))) x"
    using added(5) unfolding qs(4) queues(1) .
  have complete: "\<forall>q \<in> ran (a_queues (abs (app_store a))). served listened q \<and>
      card (waiting_on (a_workflows (abs (app_store a2))) (q_name q)) \<le> q_max_tasks_per_iteration q \<longrightarrow>
      (\<forall>i \<in> waiting_on (a_workflows (abs (app_store a2))) (q_name q). (i, False) \<in> set added)"
    using added(6) unfolding qs(4) queues(1) .
  show ?thesis
    unfolding eq
    by (intro conjI allI exI [of _ added], rule added(1), rule added(2), rule queues(2) [unfolded eq], rule rows, rule spawned,
        rule started, rule complete)
qed

end


definition tiny_queue :: workflow_queue where
  "tiny_queue = new_queue ''q''"

definition delayed_store :: memory_data where
  "delayed_store = (orders_store (delayed_row\<lparr>wf_queue_name := Some ''q''\<rparr>))\<lparr>md_queues := [(''q'', tiny_queue)]\<rparr>"


end
