(* ===== verification/Context_Properties.thy ===== *)
theory Context_Properties
  imports Execution_Properties Sql_Refinement
begin

text \<open>
  The properties of registration, queues and the value encoding.
\<close>

section \<open>Registration\<close>

lemma alias_lookup:
  assumes "hm_get (reg_aliases reg) (alias_name name config) = Some f" "hm_get (reg_workflows reg) f = Some h"
  shows "resolve_workflow reg name config = Inr h"
  using assms by (simp add: resolve_workflow_def Let_def)

text \<open>What a lookup sees of the registry.\<close>

lemma resolve_cong:
  assumes "hm_get (reg_aliases reg') (alias_name name config) = hm_get (reg_aliases reg) (alias_name name config)"
    and "\<And>f. hm_get (reg_aliases reg) (alias_name name config) = Some f \<or> f = alias_name name config \<Longrightarrow>
      hm_get (reg_workflows reg') f = hm_get (reg_workflows reg) f"
  shows "resolve_workflow reg' name config = resolve_workflow reg name config"
  using assms by (auto simp: resolve_workflow_def Let_def split: option.splits)

text \<open>
  Registering makes a workflow callable. Before launch, a new function with a valid schedule and a free public name is
  registered; then its public name (with its configuration name) and, unless that alias was already taken, its own
  full name both lead to its handler, and every name that led to another handler still does.\<close>

theorem register_then_resolve:
  assumes "\<not> reg_launched reg" "\<And>sched. wr_schedule opts = Some sched \<Longrightarrow> cron_error sched = None"
    and "hm_get (reg_workflows reg) name = None"
    and "public_name = (case wr_name opts of Some n \<Rightarrow> n | None \<Rightarrow> name)"
    and "hm_get (reg_aliases reg) (alias_name public_name (wr_config_name opts)) = None"
    and "register_workflow cron_error name h opts reg = (r, reg')"
  shows "r = Inr () \<and> resolve_workflow reg' public_name (wr_config_name opts) = Inr h \<and>
    (hm_get (reg_aliases reg) name = None \<longrightarrow> resolve_workflow reg' name None = Inr h) \<and>
    (\<forall>n c g. resolve_workflow reg n c = Inr g \<longrightarrow> alias_name n c \<noteq> alias_name public_name (wr_config_name opts) \<longrightarrow>
       alias_name n c \<noteq> name \<longrightarrow> resolve_workflow reg' n c = Inr g)"
proof -
  let ?nick = "alias_name public_name (wr_config_name opts)"
  have cron: "(case wr_schedule opts of Some sched \<Rightarrow> validate_cron cron_error sched | None \<Rightarrow> Inr ()) = Inr ()"
    using assms(2) by (auto simp: validate_cron_def split: option.splits)
  have run: "r = Inr ()" "reg_workflows reg' = hm_insert name h (reg_workflows reg)"
    "reg_aliases reg' = (if hm_get (hm_insert ?nick name (reg_aliases reg)) name = None
       then hm_insert name name (hm_insert ?nick name (reg_aliases reg)) else hm_insert ?nick name (reg_aliases reg))"
    using assms(1,3,5,6) cron by (auto simp: register_workflow_def Let_def assms(4) [symmetric])
  have own: "hm_get (reg_workflows reg') name = Some h" using run(2) by simp
  have als: "hm_get (reg_aliases reg') ?nick = Some name" using run(3) by auto
  have full: "hm_get (reg_aliases reg') name = Some name" if "hm_get (reg_aliases reg) name = None"
    using run(3) that by auto
  have "alias_name name None = name" by (simp add: alias_name_def nonempty_def)
  then have named: "resolve_workflow reg' name None = Inr h" if "hm_get (reg_aliases reg) name = None"
    using alias_lookup [of reg' name None name h] full [OF that] own by simp
  have others: "resolve_workflow reg' n c = Inr g"
    if "resolve_workflow reg n c = Inr g" "alias_name n c \<noteq> ?nick" "alias_name n c \<noteq> name" for n c g
  proof (cases "hm_get (reg_aliases reg) (alias_name n c)")
    case None
    with that(1) have g: "hm_get (reg_workflows reg) (alias_name n c) = Some g"
      by (auto simp: resolve_workflow_def Let_def ok_or_def split: option.splits)
    have "hm_get (reg_aliases reg') (alias_name n c) = None" using run(3) None that(2,3) by auto
    with g that(3) run(2) show ?thesis by (auto simp: resolve_workflow_def Let_def)
  next
    case (Some f)
    with that(1) have g: "hm_get (reg_workflows reg) f = Some g"
      by (auto simp: resolve_workflow_def Let_def ok_or_def split: option.splits)
    with assms(3) have "f \<noteq> name" by auto
    moreover have "hm_get (reg_aliases reg') (alias_name n c) = Some f" using run(3) Some that(2,3) by auto
    ultimately show ?thesis using g run(2) by (intro alias_lookup) auto
  qed
  from run(1) alias_lookup [OF als own] named others show ?thesis by blast
qed

definition plain_options :: registration_options where
  "plain_options = \<lparr>wr_name = Some ''orders'', wr_class_name = None, wr_config_name = None,
                    wr_max_retries = None, wr_schedule = None\<rparr>"

definition empty_registry :: "memory_data registry" where
  "empty_registry = \<lparr>reg_workflows = [], reg_aliases = [], reg_entries = [], reg_launched = False\<rparr>"

theorem register_then_resolve_witness:
  "\<exists>reg'. register_workflow (\<lambda>_. None) ''app::orders'' echo plain_options empty_registry = (Inr (), reg') \<and>
     resolve_workflow reg' ''orders'' None = Inr echo"
proof -
  obtain r reg' where r: "register_workflow (\<lambda>_. None) ''app::orders'' echo plain_options empty_registry = (r, reg')"
    by fastforce
  have "\<not> reg_launched empty_registry" "hm_get (reg_workflows empty_registry) ''app::orders'' = None"
    "''orders'' = (case wr_name plain_options of Some n \<Rightarrow> n | None \<Rightarrow> ''app::orders'')"
    "hm_get (reg_aliases empty_registry) (alias_name ''orders'' (wr_config_name plain_options)) = None"
    by (simp_all add: empty_registry_def plain_options_def)
  from register_then_resolve [OF this(1) _ this(2,3,4) r] r show ?thesis by (simp add: plain_options_def)
qed

text \<open>
  A refused registration takes the name over. When a second function is registered under a public name that is in
  use, the call fails with \<open>ConflictingRegistration\<close>, but the name leads to the second function from
  then on: the alias is overwritten before the old entry is checked.\<close>

theorem refused_registration_takes_name:
  assumes "\<not> reg_launched reg" "\<And>sched. wr_schedule opts = Some sched \<Longrightarrow> cron_error sched = None"
    and "hm_get (reg_workflows reg) name = None" "wr_name opts = Some public_name"
    and "hm_get (reg_aliases reg) (alias_name public_name (wr_config_name opts)) = Some old"
    and "register_workflow cron_error name h opts reg = (r, reg')"
  shows "(\<exists>e. r = Inl e \<and> err_code e = ConflictingRegistration) \<and>
    resolve_workflow reg' public_name (wr_config_name opts) = Inr h"
proof -
  let ?nick = "alias_name public_name (wr_config_name opts)"
  have cron: "(case wr_schedule opts of Some sched \<Rightarrow> validate_cron cron_error sched | None \<Rightarrow> Inr ()) = Inr ()"
    using assms(2) by (auto simp: validate_cron_def split: option.splits)
  have run: "\<exists>e. r = Inl e \<and> err_code e = ConflictingRegistration"
    "reg_workflows reg' = hm_insert name h (reg_workflows reg)" "reg_aliases reg' = hm_insert ?nick name (reg_aliases reg)"
    using assms(1,3-6) cron by (auto simp: register_workflow_def Let_def new_error_def)
  then show ?thesis by (simp add: alias_lookup [of _ _ _ name])
qed

theorem refused_registration_takes_name_witness:
  "\<exists>e reg'. register_workflow (\<lambda>_. None) ''other::orders'' (\<lambda>ctx input s. (Inr JNull, s))
      (plain_options\<lparr>wr_name := Some ''orders''\<rparr>) (tiny_registry\<lparr>reg_launched := False\<rparr>) = (Inl e, reg') \<and>
    resolve_workflow (tiny_registry\<lparr>reg_launched := False\<rparr>) ''orders'' None = Inr echo \<and>
    resolve_workflow reg' ''orders'' None = Inr (\<lambda>ctx input s. (Inr JNull, s))"
proof -
  let ?h = "\<lambda>ctx input s. (Inr JNull, s)" and ?reg = "tiny_registry\<lparr>reg_launched := False\<rparr>"
  let ?opts = "plain_options\<lparr>wr_name := Some ''orders''\<rparr>"
  obtain r reg' where r: "register_workflow (\<lambda>_. None) ''other::orders'' ?h ?opts ?reg = (r, reg')" by fastforce
  have a: "hm_get (reg_aliases ?reg) (alias_name ''orders'' (wr_config_name ?opts)) = Some ''orders''"
    "hm_get (reg_workflows ?reg) ''other::orders'' = None" "wr_name ?opts = Some ''orders''" "\<not> reg_launched ?reg"
    "wr_config_name ?opts = None"
    by (simp_all add: tiny_registry_def plain_options_def alias_name_def nonempty_def hm_get_def)
  have "resolve_workflow ?reg ''orders'' None = Inr echo"
    by (simp add: resolve_workflow_def tiny_registry_def hm_get_def alias_name_def nonempty_def)
  with refused_registration_takes_name [OF a(4) _ a(2,3,1) r] a(5) r show ?thesis by auto
qed

section \<open>Queues\<close>

text \<open>
  Registering a queue. A queue with an impossible configuration is refused and nothing is written; one that is already
  registered and must never be updated stays as it is and is returned as stored; in all other cases the queue
  is stored under its name and no other queue changes.\<close>

theorem register_queue_correct:
  assumes "config_store db ok view" "ok s" "register_queue db q s = (r, s')"
  shows "ok s' \<and>
    (case validate_queue q of
       Inl e \<Rightarrow> r = Inl e \<and> view s' = view s
     | Inr _ \<Rightarrow>
         (case a_queues (view s) (q_name q) of
            Some old \<Rightarrow>
              if q_on_conflict q = NeverUpdate then r = Inr old \<and> view s' = view s
              else r = Inr q \<and> (\<exists>q'. q_name q' = q_name q \<and> a_queues (view s') = (a_queues (view s))(q_name q \<mapsto> q'))
          | None \<Rightarrow> r = Inr q \<and> (\<exists>q'. q_name q' = q_name q \<and> a_queues (view s') = (a_queues (view s))(q_name q \<mapsto> q'))))"
proof (cases "validate_queue q")
  case (Inl e)
  with assms show ?thesis by (simp add: register_queue_def act_bind_def)
next
  case (Inr u)
  note store = assms(1)
  have put: "x = Inr () \<and> ok t' \<and> (\<exists>q'. q_name q' = q_name q \<and> a_queues (view t') = (a_queues (view t))(q_name q \<mapsto> q'))"
    if "ok t" "db_upsert_queue db q t = (x, t')" for x t t'
    using config_store.upsert_queue [OF store that] by auto
  have get: "x = Inr (a_queues (view t) (q_name q)) \<and> ok t' \<and> view t' = view t"
    if "ok t" "db_get_queue db (q_name q) t = (x, t')" for x t t'
    using config_store.get_queue [OF store that] .
  show ?thesis
  proof (cases "q_on_conflict q = NeverUpdate")
    case False
    obtain x t where p: "db_upsert_queue db q s = (x, t)" by fastforce
    from put [OF assms(2) p] p Inr False assms(3) show ?thesis
      by (auto simp: register_queue_def act_bind_def split: option.splits)
  next
    case True
    obtain x1 t1 where 1: "db_get_queue db (q_name q) s = (x1, t1)" by fastforce
    note g1 = get [OF assms(2) 1]
    obtain x2 t2 where 2: "db_get_queue db (q_name q) t1 = (x2, t2)" by fastforce
    obtain x3 t3 where 3: "db_upsert_queue db q t1 = (x3, t3)" by fastforce
    from g1 get [OF _ 2] put [OF _ 3] 1 2 3 Inr True assms(3) show ?thesis
      by (cases "a_queues (view s) (q_name q)") (auto simp: register_queue_def act_bind_def)
  qed
qed

theorem register_queue_correct_witness:
  "\<exists>s'. register_queue turso_store (new_queue ''q'') empty_sql = (Inr (new_queue ''q''), s') \<and>
     (\<exists>q'. a_queues (sql_abs s') ''q'' = Some q')"
proof -
  obtain r s' where r: "register_queue turso_store (new_queue ''q'') empty_sql = (r, s')" by fastforce
  have store: "config_store turso_store sql_inv sql_abs" using turso.config_store_axioms by (simp add: turso_store_def)
  have "validate_queue (new_queue ''q'') = Inr ()"
    by (simp add: validate_queue_def new_queue_def default_queue_max_polling_interval_def from_secs_def from_millis_def
        nanos_per_milli_def)
  moreover have "a_queues (sql_abs empty_sql) (q_name (new_queue ''q'')) = None" "q_name (new_queue ''q'') = ''q''"
    by (simp_all add: sql_abs_simps empty_sql_def new_queue_def)
  ultimately show ?thesis using register_queue_correct [OF store sql_inv_empty r] r by auto
qed

section \<open>Values\<close>

text \<open>C26:
  A stored value is read back as it was. A value that encodes, in the plain, the portable or a custom format, is decoded from
  what the row holds, its text as a JSON string beside the name of the format, to what deserializing the value
  itself gives. It relies on documented behaviour of the libraries at that value: parsing undoes printing,
  base64 decoding undoes encoding, a base64 text has no underscore, and a custom serializer decodes what it
  encoded under a name of its own.\<close>

theorem stored_value_round_trip:
  assumes "to_value ty x = Inr v" "codec_ok_at c v" "encode_serializable c ty x portable = Inr enc"
  shows "decode_stored_value c ty (encoded_to_stored_value enc) (enc_serialization enc) = from_value ty v"
  using assms decode_encode_value by (auto simp: encode_serializable_def)

theorem stored_value_round_trip_witness:
  "decode_stored_value tiny_codec json_serde
     (encoded_to_stored_value \<lparr>enc_data = Some ''true'', enc_serialization = PORTABLE_JSON\<rparr>) PORTABLE_JSON = Inr (JBool True)"
proof -
  have "codec_ok_at tiny_codec (JBool True)" using tiny_encodes [of "JBool True"] by (simp add: encodes_def)
  moreover have "encode_serializable tiny_codec json_serde (JBool True) True =
      Inr \<lparr>enc_data = Some ''true'', enc_serialization = PORTABLE_JSON\<rparr>"
    by (simp add: encode_serializable_def encode_value_def encode_portable_def json_serde_def tiny_codec_def
        tiny_lib_def tiny_print_def)
  ultimately show ?thesis
    using stored_value_round_trip [of json_serde "JBool True" "JBool True" tiny_codec True] by (simp add: json_serde_def)
qed

end
