(* ===== verification/Import_Export.thy ===== *)
theory Import_Export
  imports Workflow_Ops Memory_Store
begin

text \<open>
  Export and import of a workflow with its history, \<open>src/src/context.rs\<close>. The recursion over the children
  follows parent ids through the database, which nothing keeps from being circular: \<open>export_workflow_inner\<close> takes
  the depth it may reach as fuel, and \<open>None\<close> says that it was not enough.
\<close>

section \<open>Export\<close>

record export_workflow_options =
  exo_include_children :: bool

definition children_filter :: "string \<Rightarrow> list_workflows_options" where
  "children_filter workflow_id =
     default_list_options\<lparr>lo_parent_workflow_ids := [workflow_id], lo_load_input := True, lo_load_output := True\<rparr>"

text \<open>The rows of one workflow, and the list of its children when they are asked for.\<close>

definition export_rows ::
    "'s system_database \<Rightarrow> string \<Rightarrow> export_workflow_options \<Rightarrow>
     ('s, (workflow_export list \<Rightarrow> workflow_export) \<times> workflow_status list) dbact" where
  "export_rows db workflow_id opts =
     act_bind (existing_workflow db workflow_id) (\<lambda>workflow.
     act_bind (get_workflow_steps db workflow_id) (\<lambda>steps.
     act_bind (db_list_events db workflow_id) (\<lambda>events.
     act_bind (db_list_messages db workflow_id) (\<lambda>messages.
     act_bind (db_list_streams db workflow_id) (\<lambda>streams.
     act_bind (if exo_include_children opts then list_workflows db (children_filter workflow_id) else act_return [])
       (\<lambda>child_workflows.
          act_return (WorkflowExport workflow steps events messages streams, child_workflows)))))))"

fun fuel_map :: "('a \<Rightarrow> 's \<Rightarrow> ('b res \<times> 's) option) \<Rightarrow> 'a list \<Rightarrow> 's \<Rightarrow> ('b list res \<times> 's) option" where
  "fuel_map f [] s = Some (Inr [], s)"
| "fuel_map f (x # xs) s =
     (case f x s of
        None \<Rightarrow> None
      | Some (Inl e, s') \<Rightarrow> Some (Inl e, s')
      | Some (Inr y, s') \<Rightarrow> map_option (\<lambda>(r, s''). (res_map (\<lambda>ys. y # ys) r, s'')) (fuel_map f xs s'))"

primrec export_workflow_inner ::
    "'s system_database \<Rightarrow> nat \<Rightarrow> export_workflow_options \<Rightarrow> string \<Rightarrow> 's \<Rightarrow> (workflow_export res \<times> 's) option" where
  "export_workflow_inner db 0 = (\<lambda>opts workflow_id s. None)"
| "export_workflow_inner db (Suc n) = (\<lambda>opts workflow_id s.
     (case export_rows db workflow_id opts s of
        (Inl e, s') \<Rightarrow> Some (Inl e, s')
      | (Inr (export, child_workflows), s') \<Rightarrow>
          map_option (\<lambda>(r, s''). (res_map export r, s''))
            (fuel_map (\<lambda>child. export_workflow_inner db n opts (wf_workflow_uuid child)) child_workflows s')))"

definition export_workflow_with_options ::
    "'s system_database \<Rightarrow> nat \<Rightarrow> string \<Rightarrow> export_workflow_options \<Rightarrow> 's \<Rightarrow> (workflow_export res \<times> 's) option" where
  "export_workflow_with_options db n workflow_id opts = export_workflow_inner db n opts workflow_id"

definition export_workflow ::
    "'s system_database \<Rightarrow> nat \<Rightarrow> string \<Rightarrow> 's \<Rightarrow> (workflow_export res \<times> 's) option" where
  "export_workflow db n workflow_id =
     export_workflow_with_options db n workflow_id \<lparr>exo_include_children = False\<rparr>"

section \<open>Import\<close>

definition import_step :: "'s system_database \<Rightarrow> string \<Rightarrow> step_info \<Rightarrow> ('s, unit) dbact" where
  "import_step db workflow_id step =
     (if step_workflow_uuid step \<noteq> workflow_id
      then act_fail (invalid_argument (''imported step '' @ show_int (step_id step) @ '' belongs to workflow ''
             @ step_workflow_uuid step @ '', expected '' @ workflow_id))
      else db_record_step db step)"

definition import_event :: "'s system_database \<Rightarrow> string \<Rightarrow> workflow_event \<Rightarrow> ('s, unit) dbact" where
  "import_event db workflow_id event =
     (if ev_workflow_uuid event \<noteq> workflow_id
      then act_fail (invalid_argument (''imported event '' @ ev_key event @ '' belongs to workflow ''
             @ ev_workflow_uuid event @ '', expected '' @ workflow_id))
      else db_set_event db event)"

definition import_stream :: "'s system_database \<Rightarrow> string \<Rightarrow> stream_entry \<Rightarrow> ('s, unit) dbact" where
  "import_stream db workflow_id stream =
     (if se_workflow_uuid stream \<noteq> workflow_id
      then act_fail (invalid_argument (''imported stream '' @ se_key stream @ '' belongs to workflow ''
             @ se_workflow_uuid stream @ '', expected '' @ workflow_id))
      else db_write_stream db stream)"

definition import_message :: "'s system_database \<Rightarrow> string \<Rightarrow> workflow_message \<Rightarrow> ('s, unit) dbact" where
  "import_message db workflow_id message =
     (if msg_destination_id message \<noteq> workflow_id
      then act_fail (invalid_argument (''imported message for workflow '' @ msg_destination_id message
             @ '', expected '' @ workflow_id))
      else db_send_message db message)"

lemma act_for_cong [fundef_cong]:
  assumes "xs = ys" "\<And>x. x \<in> set ys \<Longrightarrow> f x = g x"
  shows "act_for f xs = act_for g ys"
  unfolding assms(1) using assms(2) by (induction ys) auto

fun import_workflow_inner :: "'s system_database \<Rightarrow> workflow_export \<Rightarrow> ('s, unit) dbact" where
  "import_workflow_inner db (WorkflowExport workflow steps events messages streams children) =
     (let workflow_id = wf_workflow_uuid workflow in
      act_bind (db_insert_workflow_with_result db workflow) (\<lambda>result.
      act_bind (case result of
          Inserted \<Rightarrow> act_return ()
        | ExistingExact \<Rightarrow> act_fail (new_error ConflictingWorkflow (''workflow '' @ workflow_id
              @ '' already exists; refusing to overwrite imported workflow history''))) (\<lambda>_.
      act_bind (act_for (import_step db workflow_id) steps) (\<lambda>_.
      act_bind (act_for (import_event db workflow_id) events) (\<lambda>_.
      act_bind (act_for (import_stream db workflow_id) streams) (\<lambda>_.
      act_bind (act_for (import_message db workflow_id) messages) (\<lambda>_.
        act_for (import_workflow_inner db) children)))))))"

definition import_workflow :: "'s system_database \<Rightarrow> workflow_export \<Rightarrow> ('s, unit) dbact" where
  "import_workflow db export = import_workflow_inner db export"

end
