(* ===== verification/Import_Properties.thy ===== *)
theory Import_Properties
  imports Import_Export
begin

text \<open>
  What export and import preserve, on the in-memory store: \<open>history s i\<close> is all the store knows of workflow
  \<open>i\<close>, with the entries of a stream by offset and the messages by time.
\<close>

record history =
  hist_workflow :: "workflow_status option"
  hist_steps :: "int \<Rightarrow> step_info option"
  hist_events :: "string \<Rightarrow> workflow_event option"
  hist_streams :: "string \<Rightarrow> stream_entry list"
  hist_messages :: "workflow_message list"

definition history :: "memory_data \<Rightarrow> string \<Rightarrow> history" where
  "history s i =
     \<lparr>hist_workflow = hm_get (md_workflows s) i,
      hist_steps = (\<lambda>n. hm_get (md_steps s) (i, n)),
      hist_events = (\<lambda>k. hm_get (md_events s) (i, k)),
      hist_streams = (\<lambda>k. sort_key se_offset (stream_entries s (i, k))),
      hist_messages = sort_key msg_created_at (filter (\<lambda>m. msg_destination_id m = i) (md_messages s))\<rparr>"

definition no_history :: history where
  "no_history = \<lparr>hist_workflow = None, hist_steps = (\<lambda>_. None), hist_events = (\<lambda>_. None),
                 hist_streams = (\<lambda>_. []), hist_messages = []\<rparr>"

text \<open>The stream entries are stored under their own workflow and key.\<close>

definition streams_keyed :: "memory_data \<Rightarrow> bool" where
  "streams_keyed s \<longleftrightarrow>
     (\<forall>i k. \<forall>e \<in> set (stream_entries s (i, k)). se_workflow_uuid e = i \<and> se_key e = k)"

lemma stream_entries_update:
  "stream_entries (s\<lparr>md_streams := hm_insert k v (md_streams s)\<rparr>) k' = (if k' = k then v else stream_entries s k')"
  by (simp add: stream_entries_def)

lemma streams_keyed_update:
  assumes "streams_keyed s" "\<And>e. e \<in> set v \<Longrightarrow> se_workflow_uuid e = i \<and> se_key e = k"
  shows "streams_keyed (s\<lparr>md_streams := hm_insert (i, k) v (md_streams s)\<rparr>)"
  using assms by (auto simp: streams_keyed_def stream_entries_update split: if_splits)

lemma streams_keyedD:
  "streams_keyed s \<Longrightarrow> e \<in> set (stream_entries s (i, k)) \<Longrightarrow> se_workflow_uuid e = i \<and> se_key e = k"
  by (simp add: streams_keyed_def)

lemma streams_keyed_write:
  assumes "streams_keyed s" "mem_write_stream e s = (r, s')"
  shows "streams_keyed s'"
  using assms by (auto simp: mem_write_stream_def Let_def intro!: streams_keyed_update dest: streams_keyedD)

lemma streams_keyed_close:
  assumes "streams_keyed s" "mem_close_stream now i k s = (r, s')"
  shows "streams_keyed s'"
  using assms by (auto simp: mem_close_stream_def Let_def closing_entry_def intro!: streams_keyed_update
      dest: streams_keyedD split: sum.splits)

text \<open>The nodes of an export.\<close>

fun export_workflows :: "workflow_export \<Rightarrow> workflow_status list" where
  "export_workflows (WorkflowExport w steps events messages streams children) =
     w # concat (map export_workflows children)"

definition export_ids :: "workflow_export \<Rightarrow> string list" where
  "export_ids e = map wf_workflow_uuid (export_workflows e)"

lemma export_ids_simps [simp]:
  "export_ids (WorkflowExport w steps events messages streams children) =
     wf_workflow_uuid w # concat (map export_ids children)"
  by (simp add: export_ids_def map_concat o_def export_ids_def [abs_def])

text \<open>\<open>exported s e\<close>: every node of \<open>e\<close> holds the rows that \<open>s\<close> has of its workflow.\<close>

fun exported :: "memory_data \<Rightarrow> workflow_export \<Rightarrow> bool" where
  "exported s (WorkflowExport w steps events messages streams children) \<longleftrightarrow>
     (let i = wf_workflow_uuid w in
      hm_get (md_workflows s) i = Some w \<and>
      distinct (map step_id steps) \<and> (\<forall>st \<in> set steps. step_workflow_uuid st = i) \<and>
      (\<forall>n. map_of (map (\<lambda>st. (step_id st, st)) steps) n = hm_get (md_steps s) (i, n)) \<and>
      distinct (map ev_key events) \<and> (\<forall>ev \<in> set events. ev_workflow_uuid ev = i) \<and>
      (\<forall>k. map_of (map (\<lambda>ev. (ev_key ev, ev)) events) k = hm_get (md_events s) (i, k)) \<and>
      (\<forall>x \<in> set streams. se_workflow_uuid x = i) \<and>
      (\<forall>k. filter (\<lambda>x. se_key x = k) streams = sort_key se_offset (stream_entries s (i, k))) \<and>
      messages = sort_key msg_created_at (filter (\<lambda>m. msg_destination_id m = i) (md_messages s)) \<and>
      (\<forall>c \<in> set children. exported s c))"

section \<open>Exporting\<close>

lemma map_of_keyed_list:
  assumes "distinct (map f xs)"
  shows "map_of (map (\<lambda>x. (f x, x)) xs) k = Some v \<longleftrightarrow> v \<in> set xs \<and> f v = k"
  using assms by (induction xs) (auto simp: rev_image_eqI)

lemma map_of_keyed_list_eq:
  assumes "distinct (map f xs)" "\<And>v k. m k = Some v \<longleftrightarrow> v \<in> set xs \<and> f v = k"
  shows "map_of (map (\<lambda>x. (f x, x)) xs) k = m k"
proof (cases "m k")
  case None
  have "map_of (map (\<lambda>x. (f x, x)) xs) k \<noteq> Some v" for v
    using map_of_keyed_list [OF assms(1), of k v] assms(2) [of k v] None by simp
  then have "map_of (map (\<lambda>x. (f x, x)) xs) k = None" by (metis option.exhaust)
  with None show ?thesis by simp
next
  case (Some v)
  then show ?thesis using map_of_keyed_list [OF assms(1), of k v] assms(2) [of k v] by simp
qed

lemma sort_key_pair_const:
  fixes f :: "'a \<Rightarrow> 'k::linorder" and g :: "'a \<Rightarrow> 'b::linorder"
  assumes "\<And>x. x \<in> set xs \<Longrightarrow> f x = k"
  shows "sort_key (\<lambda>x. (f x, g x)) xs = sort_key g xs"
proof -
  have ins: "insort_key (\<lambda>x. (f x, g x)) x ys = insort_key g x ys"
    if "f x = k" "\<And>y. y \<in> set ys \<Longrightarrow> f y = k" for x ys
    using that(2) by (induction ys) (simp_all add: that(1))
  show ?thesis using assms
  proof (induction xs)
    case (Cons x xs)
    then show ?case using ins [of x "sort_key g xs"] by simp
  qed simp
qed

lemma filter_own_bucket:
  assumes "hm_ok m" "\<And>k' es e. (k', es) \<in> set m \<Longrightarrow> e \<in> set es \<Longrightarrow> f e = k'"
  shows "filter (\<lambda>x. f x = k) (concat (hm_values m)) = (case hm_get m k of None \<Rightarrow> [] | Some es \<Rightarrow> es)"
  using assms
proof (induction m)
  case Nil
  then show ?case by (simp add: hm_values_def)
next
  case (Cons kv m)
  obtain k' es where kv: "kv = (k', es)" by (cases kv)
  have ok: "hm_ok m" "hm_get m k' = None" using Cons.prems(1) kv
    by (auto simp: hm_ok_def hm_get_def map_of_eq_None_iff)
  have es: "\<And>e. e \<in> set es \<Longrightarrow> f e = k'" using Cons.prems(2) [of k' es] kv by simp
  have split: "filter (\<lambda>x. f x = k) es = (if k' = k then es else [])"
    by (cases "k' = k") (auto simp: filter_id_conv filter_empty_conv es)
  have "filter (\<lambda>x. f x = k) (concat (hm_values m)) = (case hm_get m k of None \<Rightarrow> [] | Some es \<Rightarrow> es)"
    by (rule Cons.IH [OF ok(1)]) (use Cons.prems(2) in \<open>meson list.set_intros(2)\<close>)
  with split kv ok(2) show ?case by (auto simp: hm_values_def hm_get_def)
qed

lemma listed_streams:
  assumes "mem_inv s" "streams_keyed s"
  shows "filter (\<lambda>x. se_key x = k) (sort_key (\<lambda>e. (se_key e, se_offset e))
           (filter (\<lambda>e. se_workflow_uuid e = i) (concat (hm_values (md_streams s)))))
         = sort_key se_offset (stream_entries s (i, k))"
proof -
  have ok: "hm_ok (md_streams s)" using assms(1) by (simp add: mem_inv_def)
  have keyed: "(se_workflow_uuid e, se_key e) = k'" if "(k', es) \<in> set (md_streams s)" "e \<in> set es" for k' es e
  proof -
    have "stream_entries s k' = es" using that(1) ok
      by (simp add: stream_entries_def hm_get_def hm_ok_def)
    with that(2) streams_keyedD [OF assms(2), of e "fst k'" "snd k'"] show ?thesis by (cases k') simp
  qed
  have "filter (\<lambda>x. se_key x = k) (sort_key (\<lambda>e. (se_key e, se_offset e))
           (filter (\<lambda>e. se_workflow_uuid e = i) (concat (hm_values (md_streams s)))))
      = sort_key (\<lambda>e. (se_key e, se_offset e)) (filter (\<lambda>x. (se_workflow_uuid x, se_key x) = (i, k))
          (concat (hm_values (md_streams s))))"
    by (simp add: filter_sort conj_commute)
  also have "\<dots> = sort_key (\<lambda>e. (se_key e, se_offset e)) (stream_entries s (i, k))"
    using filter_own_bucket [where f = "\<lambda>x. (se_workflow_uuid x, se_key x)" and k = "(i, k)", OF ok keyed] by (simp only: stream_entries_def)
  also have "\<dots> = sort_key se_offset (stream_entries s (i, k))"
    by (rule sort_key_pair_const) (use assms(2) in \<open>simp add: streams_keyed_def\<close>)
  finally show ?thesis .
qed

text \<open>The rows of one owner in a table whose keys pair the owner with a key of its own.\<close>

lemma owned_rows:
  fixes g :: "'v \<Rightarrow> 'b::linorder"
  assumes "hm_ok m" "hm_keyed (\<lambda>x. (owner x, key x)) m"
    and "rows = sort_key g (filter (\<lambda>x. owner x = i) (hm_values m))"
  shows "distinct (map key rows)" "\<forall>x \<in> set rows. owner x = i"
    "map_of (map (\<lambda>x. (key x, x)) rows) k = hm_get m (i, k)"
proof -
  have vals: "distinct (map (\<lambda>x. (owner x, key x)) (hm_values m))" by (rule hm_values_distinct [OF assms(1,2)])
  have "distinct (map key (filter (\<lambda>x. owner x = i) (hm_values m)))"
    using vals by (auto simp: distinct_map inj_on_def)
  moreover have "mset (map key rows) = mset (map key (filter (\<lambda>x. owner x = i) (hm_values m)))"
    using assms(3) by simp
  ultimately show keys: "distinct (map key rows)" by (metis mset_eq_imp_distinct_iff)
  show "\<forall>x \<in> set rows. owner x = i" using assms(3) by simp
  have "hm_get m (i, k) = Some v \<longleftrightarrow> v \<in> set rows \<and> key v = k" for v k
  proof -
    have "v \<in> set (hm_values m) \<longleftrightarrow> hm_get m (owner v, key v) = Some v"
      by (rule hm_keyed_values [OF assms(1,2)])
    moreover have "owner v = i \<and> key v = k" if "hm_get m (i, k) = Some v"
      using assms(2) that unfolding hm_keyed_def by blast
    ultimately show ?thesis using assms(3) by auto
  qed
  from map_of_keyed_list_eq [OF keys this] show "map_of (map (\<lambda>x. (key x, x)) rows) k = hm_get m (i, k)" .
qed

text \<open>Reading the rows of a workflow for an export.\<close>

lemma mem_export_reads:
  "db_get_workflow memory_store i s = (Inr (hm_get (md_workflows s) i), s)"
  "db_list_steps memory_store i s =
     (Inr (sort_key step_id (filter (\<lambda>st. step_workflow_uuid st = i) (hm_values (md_steps s)))), s)"
  "db_list_events memory_store i s =
     (Inr (sort_key ev_created_at (filter (\<lambda>ev. ev_workflow_uuid ev = i) (hm_values (md_events s)))), s)"
  "db_list_messages memory_store i s =
     (Inr (sort_key msg_created_at (filter (\<lambda>m. msg_destination_id m = i) (md_messages s))), s)"
  "db_list_streams memory_store i s =
     (Inr (sort_key (\<lambda>e. (se_key e, se_offset e))
        (filter (\<lambda>e. se_workflow_uuid e = i) (concat (hm_values (md_streams s))))), s)"
  "db_list_workflows memory_store opts s = (Inr (select_workflows opts (hm_values (md_workflows s))), s)"
  by (simp_all add: memory_store_def mem_get_workflow_def mem_list_steps_def mem_list_events_def
      mem_list_messages_def mem_list_streams_def mem_list_workflows_def)

lemma page_all: "page_rows None None xs = xs"
  by (simp add: page_rows_def)

lemma exported_rows:
  assumes "mem_inv s" "streams_keyed s" "export_rows memory_store i opts s = (r, s')"
    and "r = Inr (export, children)"
  shows "s' = s \<and> (\<forall>cs. (\<forall>c \<in> set cs. exported s c) \<longrightarrow> exported s (export cs))
    \<and> (\<forall>cs. ex_children (export cs) = cs)"
proof -
  let ?steps = "sort_key step_id (filter (\<lambda>st. step_workflow_uuid st = i) (hm_values (md_steps s)))"
  let ?events = "sort_key ev_created_at (filter (\<lambda>ev. ev_workflow_uuid ev = i) (hm_values (md_events s)))"
  let ?streams = "sort_key (\<lambda>e. (se_key e, se_offset e))
        (filter (\<lambda>e. se_workflow_uuid e = i) (concat (hm_values (md_streams s))))"
  let ?messages = "sort_key msg_created_at (filter (\<lambda>m. msg_destination_id m = i) (md_messages s))"
  obtain w where w: "hm_get (md_workflows s) i = Some w"
    using assms(3,4) by (cases "hm_get (md_workflows s) i")
      (simp_all add: export_rows_def existing_workflow_def act_bind_def mem_export_reads)
  with assms(1) have i: "wf_workflow_uuid w = i" by (auto simp: mem_inv_def hm_keyed_def)
  have s': "s' = s" and export: "export = WorkflowExport w ?steps ?events ?messages ?streams"
    using assms(3,4) w
    by (auto simp: export_rows_def existing_workflow_def act_bind_def mem_export_reads get_workflow_steps_def
        get_workflow_steps_with_options_def default_get_workflow_steps_options_def page_all sort_key_id_if_sorted list_workflows_def
        Let_def split: if_splits)
  have tables: "hm_ok (md_steps s)" "hm_keyed (\<lambda>st. (step_workflow_uuid st, step_id st)) (md_steps s)"
    "hm_ok (md_events s)" "hm_keyed (\<lambda>ev. (ev_workflow_uuid ev, ev_key ev)) (md_events s)"
    using assms(1) by (simp_all add: mem_inv_def)
  note steps = owned_rows [OF tables(1,2) refl, where g = step_id and i = i]
  note events = owned_rows [OF tables(3,4) refl, where g = ev_created_at and i = i]
  have "exported s (export cs)" if "\<forall>c \<in> set cs. exported s c" for cs
    unfolding export exported.simps Let_def i
    by (intro conjI allI)
      (rule w steps(1,2,3) events(1,2,3) listed_streams [OF assms(1,2)] refl that | simp)+
  with s' export show ?thesis by simp
qed

lemma exported_tree:
  assumes "mem_inv s" "streams_keyed s" "export_workflow_inner memory_store n opts i s = Some (Inr e, s')"
  shows "s' = s \<and> exported s e"
  using assms(3)
proof (induction n arbitrary: i e s')
  case 0
  then show ?case by simp
next
  case (Suc n)
  obtain r t where r: "export_rows memory_store i opts s = (r, t)" by fastforce
  with Suc.prems obtain export children where x: "r = Inr (export, children)"
    by (cases r) auto
  note rows = exported_rows [OF assms(1,2) r x]
  have list: "t' = s \<and> (\<forall>c \<in> set cs. exported s c)"
    if "fuel_map (\<lambda>child. export_workflow_inner memory_store n opts (wf_workflow_uuid child)) ws s = Some (Inr cs, t')"
    for ws cs t'
    using that
  proof (induction ws arbitrary: cs t')
    case Nil
    then show ?case by simp
  next
    case (Cons w ws)
    then obtain c t1 where c: "export_workflow_inner memory_store n opts (wf_workflow_uuid w) s = Some (Inr c, t1)"
      by (auto split: option.splits sum.splits prod.splits)
    from Suc.IH [OF this] have c': "t1 = s" "exported s c" by simp_all
    with Cons.prems c obtain cs' where cs: "cs = c # cs'"
      "fuel_map (\<lambda>child. export_workflow_inner memory_store n opts (wf_workflow_uuid child)) ws s = Some (Inr cs', t')"
      by (auto simp: res_map_eq_Inr)
    from Cons.IH [OF this(2)] c'(2) cs(1) show ?case by simp
  qed
  from Suc.prems r x rows obtain cs t' where "e = export cs" "s' = t'"
    "fuel_map (\<lambda>child. export_workflow_inner memory_store n opts (wf_workflow_uuid child)) children s = Some (Inr cs, t')"
    by (auto simp: res_map_eq_Inr)
  with list rows show ?case by blast
qed

section \<open>Importing\<close>

lemma sort_key_Nil_iff [simp]: "sort_key f xs = [] \<longleftrightarrow> xs = []"
  by (metis set_empty set_sort)

lemma act_for_updates:
  assumes "\<And>x s. x \<in> set xs \<Longrightarrow> f x s = (Inr (), g x s)"
  shows "act_for f xs s = (Inr (), fold g xs s)"
  using assms by (induction xs arbitrary: s) (simp_all add: act_bind_def)

lemma hm_get_fold_insert:
  assumes "distinct (map f xs)"
  shows "hm_get (fold (\<lambda>x. hm_insert (f x) x) xs m) = hm_get m ++ map_of (map (\<lambda>x. (f x, x)) xs)"
  using assms
proof (induction xs arbitrary: m)
  case (Cons x xs)
  then have "f x \<notin> dom (map_of (map (\<lambda>x. (f x, x)) xs))" by (auto simp: dom_map_of_conv_image_fst)
  with Cons show ?case by (auto simp: fun_eq_iff map_add_def split: option.splits)
qed simp

lemma hm_fold_insert_ok:
  "hm_ok m \<Longrightarrow> hm_ok (fold (\<lambda>x. hm_insert (f x) x) xs m)"
  "hm_keyed f m \<Longrightarrow> hm_keyed f (fold (\<lambda>x. hm_insert (f x) x) xs m)"
  by (induction xs arbitrary: m) simp_all

definition stream_put ::
    "stream_entry \<Rightarrow> (string \<times> string, stream_entry list) hashmap \<Rightarrow> (string \<times> string, stream_entry list) hashmap" where
  "stream_put x m =
     (let k = (se_workflow_uuid x, se_key x)
      in hm_insert k ((case hm_get m k of None \<Rightarrow> [] | Some es \<Rightarrow> es) @ [x]) m)"

definition with_rows :: "workflow_export \<Rightarrow> memory_data \<Rightarrow> memory_data" where
  "with_rows e t =
     t\<lparr>md_workflows := hm_insert (wf_workflow_uuid (ex_workflow e)) (ex_workflow e) (md_workflows t),
       md_steps := fold (\<lambda>st. hm_insert (step_workflow_uuid st, step_id st) st) (ex_steps e) (md_steps t),
       md_events := fold (\<lambda>ev. hm_insert (ev_workflow_uuid ev, ev_key ev) ev) (ex_events e) (md_events t),
       md_streams := fold stream_put (ex_streams e) (md_streams t),
       md_messages := md_messages t @ ex_messages e\<rparr>"

lemma fold_updates:
  "fold (\<lambda>st d. snd (mem_record_step st d)) sts t =
     t\<lparr>md_steps := fold (\<lambda>st. hm_insert (step_workflow_uuid st, step_id st) st) sts (md_steps t)\<rparr>"
  "fold (\<lambda>ev d. snd (mem_set_event ev d)) evs t =
     t\<lparr>md_events := fold (\<lambda>ev. hm_insert (ev_workflow_uuid ev, ev_key ev) ev) evs (md_events t)\<rparr>"
  "fold (\<lambda>m d. snd (mem_send_message m d)) ms t = t\<lparr>md_messages := md_messages t @ ms\<rparr>"
  by (induction sts arbitrary: t, simp_all add: mem_record_step_def)
    (induction evs arbitrary: t, simp_all add: mem_set_event_def,
      induction ms arbitrary: t, simp_all add: mem_send_message_def)

lemma fold_streams:
  "fold (\<lambda>x d. snd (mem_write_stream x d)) xs t = t\<lparr>md_streams := fold stream_put xs (md_streams t)\<rparr>"
  by (induction xs arbitrary: t) (simp_all add: mem_write_stream_def Let_def stream_put_def stream_entries_def)

lemma stream_put_rows:
  "stream_entries (t\<lparr>md_streams := fold stream_put xs m\<rparr>) k =
     stream_entries (t\<lparr>md_streams := m\<rparr>) k @ filter (\<lambda>x. (se_workflow_uuid x, se_key x) = k) xs"
  by (induction xs arbitrary: m) (auto simp add: stream_put_def stream_entries_def Let_def)

lemma stream_put_ok: "hm_ok m \<Longrightarrow> hm_ok (fold stream_put xs m)"
  by (induction xs arbitrary: m) (simp_all add: stream_put_def Let_def)

text \<open>The rows of one node are written, before its children.\<close>

lemma import_node:
  assumes "exported s (WorkflowExport w steps events messages streams children)"
    and "hm_get (md_workflows t) (wf_workflow_uuid w) = None" "wf_deduplication_id w = None"
  shows "import_workflow_inner memory_store (WorkflowExport w steps events messages streams children) t =
    act_for (import_workflow_inner memory_store) children
      (with_rows (WorkflowExport w steps events messages streams children) t)"
proof -
  let ?i = "wf_workflow_uuid w"
  let ?t1 = "t\<lparr>md_workflows := hm_insert ?i w (md_workflows t)\<rparr>"
  have insert: "db_insert_workflow_with_result memory_store w t = (Inr Inserted, ?t1)"
    using assms(2,3) by (simp add: memory_store_def mem_insert_workflow_with_result_def split: option.splits)
  have steps: "act_for (import_step memory_store ?i) steps t' = (Inr (), fold (\<lambda>st d. snd (mem_record_step st d)) steps t')"
    for t'
    by (rule act_for_updates) (use assms(1) in \<open>simp add: import_step_def memory_store_def mem_record_step_def Let_def\<close>)
  have events: "act_for (import_event memory_store ?i) events t' = (Inr (), fold (\<lambda>ev d. snd (mem_set_event ev d)) events t')"
    for t'
    by (rule act_for_updates) (use assms(1) in \<open>simp add: import_event_def memory_store_def mem_set_event_def Let_def\<close>)
  have streams: "act_for (import_stream memory_store ?i) streams t' =
      (Inr (), fold (\<lambda>x d. snd (mem_write_stream x d)) streams t')" for t'
    by (rule act_for_updates) (use assms(1) in \<open>simp add: import_stream_def memory_store_def mem_write_stream_def Let_def\<close>)
  have messages: "act_for (import_message memory_store ?i) messages t' =
      (Inr (), fold (\<lambda>m d. snd (mem_send_message m d)) messages t')" for t'
    by (rule act_for_updates) (use assms(1) in \<open>simp add: import_message_def memory_store_def mem_send_message_def Let_def\<close>)
  have "fold (\<lambda>m d. snd (mem_send_message m d)) messages
      (fold (\<lambda>x d. snd (mem_write_stream x d)) streams
        (fold (\<lambda>ev d. snd (mem_set_event ev d)) events
          (fold (\<lambda>st d. snd (mem_record_step st d)) steps ?t1))) =
      with_rows (WorkflowExport w steps events messages streams children) t" (is "?run = _")
    by (simp add: with_rows_def fold_updates fold_streams)
  then show ?thesis
    by (simp add: Let_def act_bind_def insert steps events streams messages del: act_for.simps)
qed

lemma with_rows_history:
  assumes "exported s e" "i = wf_workflow_uuid (ex_workflow e)" "history t i = no_history"
  shows "history (with_rows e t) j = (if j = i then history s i else history t j)"
proof -
  obtain w steps events messages streams children
    where e: "e = WorkflowExport w steps events messages streams children" by (cases e)
  note ex = assms(1) [unfolded e exported.simps Let_def] assms(2) [unfolded e workflow_export.sel]
  have step_keys: "distinct (map (\<lambda>st. (step_workflow_uuid st, step_id st)) steps)"
    and event_keys: "distinct (map (\<lambda>ev. (ev_workflow_uuid ev, ev_key ev)) events)"
    using ex by (auto simp: distinct_map inj_on_def)
  have step_rows: "map_of (map (\<lambda>st. ((step_workflow_uuid st, step_id st), st)) steps) (j, n) =
      (if j = i then hm_get (md_steps s) (i, n) else None)" for n
  proof -
    have own: "map (\<lambda>st. ((step_workflow_uuid st, step_id st), st)) steps = map (\<lambda>st. ((i, step_id st), st)) steps"
      using ex by simp
    have "map_of (map (\<lambda>st. ((i, step_id st), st)) steps) (j, n) =
        (if j = i then map_of (map (\<lambda>st. (step_id st, st)) steps) n else None)"
      by (induction steps) auto
    with own show ?thesis using ex by (simp del: map_eq_conv)
  qed
  have event_rows: "map_of (map (\<lambda>ev. ((ev_workflow_uuid ev, ev_key ev), ev)) events) (j, k) =
      (if j = i then hm_get (md_events s) (i, k) else None)" for k
  proof -
    have own: "map (\<lambda>ev. ((ev_workflow_uuid ev, ev_key ev), ev)) events = map (\<lambda>ev. ((i, ev_key ev), ev)) events"
      using ex by simp
    have "map_of (map (\<lambda>ev. ((i, ev_key ev), ev)) events) (j, k) =
        (if j = i then map_of (map (\<lambda>ev. (ev_key ev, ev)) events) k else None)"
      by (induction events) auto
    with own show ?thesis using ex by (simp del: map_eq_conv)
  qed
  have stream_rows: "filter (\<lambda>x. (se_workflow_uuid x, se_key x) = (j, k)) streams =
      (if j = i then sort_key se_offset (stream_entries s (i, k)) else [])" for k
    using ex by (auto simp: filter_empty_conv cong: filter_cong)
  have message_rows: "filter (\<lambda>m. msg_destination_id m = j) messages = (if j = i then messages else [])"
    using ex by (auto simp: filter_empty_conv filter_id_conv)
  have fresh: "hm_get (md_steps t) (i, n) = None" "hm_get (md_events t) (i, k) = None"
    "stream_entries t (i, k) = []" "filter (\<lambda>m. msg_destination_id m = i) (md_messages t) = []" for n k
  proof -
    show "hm_get (md_steps t) (i, n) = None" "hm_get (md_events t) (i, k) = None"
      using assms(3) by (auto simp: history_def no_history_def dest!: fun_cong)
    show "stream_entries t (i, k) = []"
      using assms(3) fun_cong [of "\<lambda>k. sort_key se_offset (stream_entries t (i, k))" "\<lambda>_. []" k]
      by (simp add: history_def no_history_def)
    show "filter (\<lambda>m. msg_destination_id m = i) (md_messages t) = []"
      using assms(3) by (simp add: history_def no_history_def)
  qed
  have "hist_workflow (history (with_rows e t) j) = hist_workflow (if j = i then history s i else history t j)"
    using ex by (auto simp: history_def with_rows_def e)
  moreover have "hist_steps (history (with_rows e t) j) = hist_steps (if j = i then history s i else history t j)"
    using fresh(1) by (auto simp: history_def with_rows_def e hm_get_fold_insert [OF step_keys] step_rows map_add_def
        fun_eq_iff split: option.splits)
  moreover have "hist_events (history (with_rows e t) j) = hist_events (if j = i then history s i else history t j)"
    using fresh(2) by (auto simp: history_def with_rows_def e hm_get_fold_insert [OF event_keys] event_rows map_add_def
        fun_eq_iff split: option.splits)
  moreover have "hist_streams (history (with_rows e t) j) = hist_streams (if j = i then history s i else history t j)"
  proof -
    have "stream_entries (with_rows e t) (j, k) = stream_entries t (j, k) @
        (if j = i then sort_key se_offset (stream_entries s (i, k)) else [])" for k
      using stream_put_rows [of streams "md_streams t" t "(j, k)"] stream_rows [of k]
      by (simp add: with_rows_def e stream_entries_def)
    then show ?thesis using fresh(3) by (simp add: history_def sort_key_id_if_sorted)
  qed
  moreover have "hist_messages (history (with_rows e t) j) = hist_messages (if j = i then history s i else history t j)"
    using fresh(4) message_rows ex by (simp add: history_def with_rows_def e sort_key_id_if_sorted)
  ultimately show ?thesis by simp
qed

lemma with_rows_inv:
  assumes "mem_inv t" shows "mem_inv (with_rows e t)"
  using assms hm_fold_insert_ok [where f = "\<lambda>st. (step_workflow_uuid st, step_id st)" and xs = "ex_steps e"]
    hm_fold_insert_ok [where f = "\<lambda>ev. (ev_workflow_uuid ev, ev_key ev)" and xs = "ex_events e"]
  by (simp add: mem_inv_def with_rows_def stream_put_ok)

lemma import_tree:
  assumes "exported s e" "mem_inv t" "distinct (export_ids e)"
    and "\<And>j. j \<in> set (export_ids e) \<Longrightarrow> history t j = no_history"
    and "\<And>w. w \<in> set (export_workflows e) \<Longrightarrow> wf_deduplication_id w = None"
  shows "\<exists>t'. import_workflow_inner memory_store e t = (Inr (), t') \<and> mem_inv t' \<and>
    (\<forall>j. history t' j = (if j \<in> set (export_ids e) then history s j else history t j))"
  using assms
proof (induction e arbitrary: t)
  case (WorkflowExport w steps events messages streams children)
  let ?e = "WorkflowExport w steps events messages streams children"
  let ?i = "wf_workflow_uuid w"
  have loop: "\<exists>t'. act_for (import_workflow_inner memory_store) cs t = (Inr (), t') \<and> mem_inv t' \<and>
      (\<forall>j. history t' j = (if j \<in> set (concat (map export_ids cs)) then history s j else history t j))"
    if "set cs \<subseteq> set children" "mem_inv t" "distinct (concat (map export_ids cs))"
      "\<And>j. j \<in> set (concat (map export_ids cs)) \<Longrightarrow> history t j = no_history" for cs t
    using that
  proof (induction cs arbitrary: t)
    case Nil
    then show ?case by simp
  next
    case (Cons c cs)
    have c: "c \<in> set children" using Cons.prems(1) by simp
    have "exported s c" using c WorkflowExport.prems(1) by (simp add: Let_def)
    moreover have "wf_deduplication_id v = None" if "v \<in> set (export_workflows c)" for v
      using that c WorkflowExport.prems(5) by auto
    ultimately obtain t1 where t1: "import_workflow_inner memory_store c t = (Inr (), t1)" "mem_inv t1"
      "\<forall>j. history t1 j = (if j \<in> set (export_ids c) then history s j else history t j)"
      using WorkflowExport.IH [OF c, of t] Cons.prems(2-4) by auto
    have apart: "set (export_ids c) \<inter> set (concat (map export_ids cs)) = {}" using Cons.prems(3) by simp
    have "history t1 j = no_history" if "j \<in> set (concat (map export_ids cs))" for j
      using that apart t1(3) Cons.prems(4) [of j] by auto
    from Cons.IH [OF _ t1(2) _ this] Cons.prems(1,3)
    obtain t2 where t2: "act_for (import_workflow_inner memory_store) cs t1 = (Inr (), t2)" "mem_inv t2"
      "\<forall>j. history t2 j = (if j \<in> set (concat (map export_ids cs)) then history s j else history t1 j)"
      by auto
    from t1 t2 show ?case by (auto simp: act_bind_def)
  qed
  have fresh: "history t ?i = no_history" using WorkflowExport.prems(4) by simp
  then have row: "hm_get (md_workflows t) ?i = None" by (simp add: history_def no_history_def)
  have dedup: "wf_deduplication_id w = None" using WorkflowExport.prems(5) by simp
  note node = import_node [OF WorkflowExport.prems(1) row dedup]
  have rows: "history (with_rows ?e t) j = (if j = ?i then history s ?i else history t j)" for j
    by (rule with_rows_history [OF WorkflowExport.prems(1)]) (use fresh in simp_all)
  have "history (with_rows ?e t) j = no_history" if "j \<in> set (concat (map export_ids children))" for j
    using that rows WorkflowExport.prems(3) WorkflowExport.prems(4) [of j] by auto
  from loop [OF subset_refl with_rows_inv [OF WorkflowExport.prems(2)] _ this] WorkflowExport.prems(3)
  obtain t' where "act_for (import_workflow_inner memory_store) children (with_rows ?e t) = (Inr (), t')" "mem_inv t'"
    "\<forall>j. history t' j = (if j \<in> set (concat (map export_ids children)) then history s j
       else history (with_rows ?e t) j)" by auto
  with node rows show ?case by auto
qed


definition family_row :: "string \<Rightarrow> string option \<Rightarrow> workflow_status" where
  "family_row i parent =
     (new_workflow_status i ''orders'' ''v1'' ''DBOS_JSON'' 5)\<lparr>wf_status := Success, wf_parent_workflow_id := parent\<rparr>"

definition family_step :: step_info where
  "family_step = \<lparr>step_workflow_uuid = ''a'', step_id = 0, step_name = ''pay'', step_output = Some (JBool True),
     step_error = None, step_child_workflow_id = None, step_serialization = ''DBOS_JSON'',
     step_started_at = 6, step_completed_at = 7\<rparr>"

definition family_entry :: stream_entry where
  "family_entry = \<lparr>se_workflow_uuid = ''b'', se_key = ''k'', se_offset = 0, se_value = None,
     se_serialization = ''DBOS_JSON'', se_closed = True, se_created_at = 8\<rparr>"

definition family_store :: memory_data where
  "family_store = empty_memory\<lparr>
     md_workflows := [(''a'', family_row ''a'' None), (''b'', family_row ''b'' (Some ''a''))],
     md_steps := [((''a'', 0), family_step)],
     md_streams := [((''b'', ''k''), [family_entry])]\<rparr>"

definition family_export :: workflow_export where
  "family_export = WorkflowExport (family_row ''a'' None) [family_step] [] [] []
     [WorkflowExport (family_row ''b'' (Some ''a'')) [] [] [] [family_entry] []]"

lemmas family_defs = family_row_def family_step_def family_entry_def new_workflow_status_def

lemma family_store_ok: "mem_inv family_store \<and> streams_keyed family_store"
  by (simp add: mem_inv_def hm_ok_def hm_keyed_def hm_get_def streams_keyed_def stream_entries_def family_store_def
      empty_memory_def family_defs)

lemma family_exported:
  "export_workflow_with_options memory_store 3 ''a'' \<lparr>exo_include_children = True\<rparr> family_store =
     Some (Inr family_export, family_store)"
  by code_simp

lemma no_history_empty: "history empty_memory i = no_history"
  by (simp add: history_def no_history_def empty_memory_def stream_entries_def)


end
