(* ===== verification/Aggregates.thy ===== *)
theory Aggregates
  imports Workflow_Ops Memory_Store
begin

text \<open>
  Grouped counts of workflows and steps, \<open>src/src/context.rs\<close>: each row gets a bucket, the object of the
  values it is grouped by, and the rows are counted per bucket in a map keyed by the bucket's JSON text.
  The rendering of a time is chrono's, a parameter: it gives \<open>None\<close> for a time chrono cannot represent.
\<close>

section \<open>Buckets\<close>

definition time_bucket_value :: "(int \<Rightarrow> string option) \<Rightarrow> datetime \<Rightarrow> duration \<Rightarrow> json res" where
  "time_bucket_value rfc3339_of_millis timestamp width =
     (if width = 0 then Inl (invalid_argument ''time bucket size must be positive'')
      else if as_millis width \<ge> 2 ^ 63 then Inl (invalid_argument ''time bucket size is too large'')
      else if as_millis width = 0
      then Inl (invalid_argument ''time bucket size must be at least one millisecond'')
      else
        let timestamp_ms = timestamp div int nanos_per_milli;
            bucket_ms = timestamp_ms - timestamp_ms mod int (as_millis width)
        in Inr (case rfc3339_of_millis bucket_ms of Some t \<Rightarrow> JString t | None \<Rightarrow> JNumber (NInt bucket_ms)))"

record workflow_aggregates_input =
  wai_workflow_ids :: "string list"
  wai_workflow_id_prefix :: "string option"
  wai_workflow_id_prefixes :: "string list"
  wai_workflow_names :: "string list"
  wai_queue_names :: "string list"
  wai_executor_ids :: "string list"
  wai_application_versions :: "string list"
  wai_status :: "workflow_status_type list"
  wai_start_time :: "datetime option"
  wai_end_time :: "datetime option"
  wai_completed_after :: "datetime option"
  wai_completed_before :: "datetime option"
  wai_time_bucket_size :: "duration option"
  wai_group_by_status :: bool
  wai_group_by_workflow_name :: bool
  wai_group_by_queue_name :: bool
  wai_group_by_executor_id :: bool
  wai_group_by_application_version :: bool

record step_aggregates_input =
  sai_workflow_ids :: "string list"
  sai_workflow_id_prefix :: "string option"
  sai_workflow_id_prefixes :: "string list"
  sai_function_names :: "string list"
  sai_statuses :: "string list"
  sai_completed_after :: "datetime option"
  sai_completed_before :: "datetime option"
  sai_time_bucket_size :: "duration option"
  sai_group_by_function_name :: bool
  sai_group_by_status :: bool
  sai_select_count :: bool
  sai_select_max_duration_ms :: bool

type_synonym bucket = "(string, json) btreemap"

definition insert_if :: "bool \<Rightarrow> string \<Rightarrow> json \<Rightarrow> bucket \<Rightarrow> bucket" where
  "insert_if c k v b = (if c then bt_insert k v b else b)"

definition text_or_null :: "string option \<Rightarrow> json" where
  "text_or_null x = (case x of Some v \<Rightarrow> JString v | None \<Rightarrow> JNull)"

definition add_time_bucket ::
    "(int \<Rightarrow> string option) \<Rightarrow> duration option \<Rightarrow> string \<Rightarrow> datetime \<Rightarrow> bucket \<Rightarrow> bucket res" where
  "add_time_bucket rfc3339_of_millis width name timestamp b =
     (case width of
        None \<Rightarrow> Inr b
      | Some width \<Rightarrow> res_map (\<lambda>v. bt_insert name v b) (time_bucket_value rfc3339_of_millis timestamp width))"

definition workflow_bucket ::
    "(int \<Rightarrow> string option) \<Rightarrow> workflow_aggregates_input \<Rightarrow> workflow_status \<Rightarrow> bucket res" where
  "workflow_bucket rfc3339_of_millis input workflow =
     (let group_any = (wai_group_by_status input \<or> wai_group_by_workflow_name input \<or> wai_group_by_queue_name input
            \<or> wai_group_by_executor_id input \<or> wai_group_by_application_version input
            \<or> wai_time_bucket_size input \<noteq> None);
          b1 = insert_if (\<not> group_any \<or> wai_group_by_status input) ''status''
                 (JString (status_debug (wf_status workflow))) [];
          b2 = insert_if (wai_group_by_workflow_name input) ''workflow_name'' (JString (wf_name workflow)) b1;
          b3 = insert_if (wai_group_by_queue_name input) ''queue_name'' (text_or_null (wf_queue_name workflow)) b2;
          b4 = insert_if (wai_group_by_executor_id input) ''executor_id'' (text_or_null (wf_executor_id workflow)) b3;
          b5 = insert_if (wai_group_by_application_version input) ''application_version''
                 (JString (wf_application_version workflow)) b4
      in add_time_bucket rfc3339_of_millis (wai_time_bucket_size input) ''created_at_bucket''
           (wf_created_at workflow) b5)"

section \<open>Counting workflows\<close>

definition bump_bucket :: "bucket \<Rightarrow> (bucket \<times> nat) option \<Rightarrow> bucket \<times> nat" where
  "bump_bucket b old = (case old of None \<Rightarrow> (b, 1) | Some (b', n) \<Rightarrow> (b', n + 1))"

fun count_buckets ::
    "json_lib \<Rightarrow> ('a \<Rightarrow> bucket res) \<Rightarrow> 'a list \<Rightarrow> (string, bucket \<times> nat) btreemap \<Rightarrow>
     (string, bucket \<times> nat) btreemap res" where
  "count_buckets lib bucket_of [] counts = Inr counts"
| "count_buckets lib bucket_of (row # rows) counts =
     (case bucket_of row of
        Inl e \<Rightarrow> Inl e
      | Inr b \<Rightarrow> count_buckets lib bucket_of rows (bt_update (print_json lib (JObject b)) (bump_bucket b) counts))"

definition workflow_aggregates_filter :: "workflow_aggregates_input \<Rightarrow> list_workflows_options" where
  "workflow_aggregates_filter input =
     default_list_options\<lparr>
       lo_workflow_ids := wai_workflow_ids input, lo_workflow_id_prefix := wai_workflow_id_prefix input,
       lo_workflow_id_prefixes := wai_workflow_id_prefixes input, lo_workflow_names := wai_workflow_names input,
       lo_queue_names := wai_queue_names input, lo_executor_ids := wai_executor_ids input,
       lo_application_versions := wai_application_versions input, lo_status := wai_status input,
       lo_start_time := wai_start_time input, lo_end_time := wai_end_time input,
       lo_completed_after := wai_completed_after input, lo_completed_before := wai_completed_before input\<rparr>"

definition get_workflow_aggregates ::
    "'s system_database \<Rightarrow> list_workflows_options \<Rightarrow> ('s, workflow_aggregate_row list) dbact" where
  "get_workflow_aggregates db opts =
     act_bind (list_workflows db opts) (\<lambda>workflows. act_return (workflow_counts_by_status workflows))"

definition get_workflow_aggregates_with_input ::
    "json_lib \<Rightarrow> (int \<Rightarrow> string option) \<Rightarrow> 's system_database \<Rightarrow> workflow_aggregates_input \<Rightarrow>
     ('s, workflow_aggregate_row list) dbact" where
  "get_workflow_aggregates_with_input lib rfc3339_of_millis db input =
     act_bind (list_workflows db (workflow_aggregates_filter input)) (\<lambda>workflows.
     act_bind (act_lift (count_buckets lib (workflow_bucket rfc3339_of_millis input) workflows [])) (\<lambda>counts.
       act_return (map (\<lambda>(_, b, n). \<lparr>wa_bucket = b, wa_count = n\<rparr>) counts)))"

section \<open>Counting steps\<close>

definition step_status :: "step_info \<Rightarrow> string" where
  "step_status step = (if step_error step \<noteq> None then ''ERROR'' else ''SUCCESS'')"

definition step_selected :: "step_aggregates_input \<Rightarrow> step_info \<Rightarrow> bool" where
  "step_selected input step \<longleftrightarrow>
     (sai_function_names input = [] \<or> step_name step \<in> set (sai_function_names input)) \<and>
     (sai_statuses input = [] \<or> list_ex (\<lambda>st. eq_ignore_ascii_case st (step_status step)) (sai_statuses input)) \<and>
     (case sai_completed_after input of Some t \<Rightarrow> t \<le> step_completed_at step | None \<Rightarrow> True) \<and>
     (case sai_completed_before input of Some t \<Rightarrow> step_completed_at step \<le> t | None \<Rightarrow> True)"

definition step_bucket ::
    "(int \<Rightarrow> string option) \<Rightarrow> step_aggregates_input \<Rightarrow> step_info \<Rightarrow> bucket res" where
  "step_bucket rfc3339_of_millis input step =
     (let group_any = (sai_group_by_function_name input \<or> sai_group_by_status input
            \<or> sai_time_bucket_size input \<noteq> None);
          b1 = insert_if (\<not> group_any \<or> sai_group_by_function_name input) ''function_name'' (JString (step_name step)) [];
          b2 = insert_if (sai_group_by_status input) ''status'' (JString (step_status step)) b1
      in add_time_bucket rfc3339_of_millis (sai_time_bucket_size input) ''completed_at_bucket''
           (step_completed_at step) b2)"

type_synonym step_aggregate_bucket = "bucket \<times> nat \<times> int option"

definition bump_step_bucket ::
    "bool \<Rightarrow> bucket \<Rightarrow> int \<Rightarrow> step_aggregate_bucket option \<Rightarrow> step_aggregate_bucket" where
  "bump_step_bucket with_max b duration old =
     (case (case old of None \<Rightarrow> (b, 0, None) | Some entry \<Rightarrow> entry) of
        (b', n, longest) \<Rightarrow>
          (b', n + 1,
           (if with_max then Some (case longest of None \<Rightarrow> duration | Some current \<Rightarrow> max current duration)
            else longest)))"

fun count_steps ::
    "json_lib \<Rightarrow> (int \<Rightarrow> string option) \<Rightarrow> step_aggregates_input \<Rightarrow> step_info list \<Rightarrow>
     (string, step_aggregate_bucket) btreemap \<Rightarrow> (string, step_aggregate_bucket) btreemap res" where
  "count_steps lib rfc3339_of_millis input [] aggregates = Inr aggregates"
| "count_steps lib rfc3339_of_millis input (step # steps) aggregates =
     (if \<not> step_selected input step then count_steps lib rfc3339_of_millis input steps aggregates
      else case step_bucket rfc3339_of_millis input step of
        Inl e \<Rightarrow> Inl e
      | Inr b \<Rightarrow>
          count_steps lib rfc3339_of_millis input steps
            (bt_update (print_json lib (JObject b))
              (bump_step_bucket (sai_select_max_duration_ms input \<or> \<not> sai_select_count input) b
                (step_duration_ms step)) aggregates))"

fun count_workflow_steps ::
    "json_lib \<Rightarrow> (int \<Rightarrow> string option) \<Rightarrow> 's system_database \<Rightarrow> step_aggregates_input \<Rightarrow> workflow_status list \<Rightarrow>
     (string, step_aggregate_bucket) btreemap \<Rightarrow> ('s, (string, step_aggregate_bucket) btreemap) dbact" where
  "count_workflow_steps lib rfc3339_of_millis db input [] aggregates = act_return aggregates"
| "count_workflow_steps lib rfc3339_of_millis db input (workflow # workflows) aggregates =
     act_bind (get_workflow_steps db (wf_workflow_uuid workflow)) (\<lambda>steps.
     act_bind (act_lift (count_steps lib rfc3339_of_millis input steps aggregates)) (\<lambda>aggregates'.
       count_workflow_steps lib rfc3339_of_millis db input workflows aggregates'))"

definition get_step_aggregates ::
    "'s system_database \<Rightarrow> string \<Rightarrow> ('s, step_aggregate_row list) dbact" where
  "get_step_aggregates db workflow_id =
     act_bind (get_workflow_steps db workflow_id) (\<lambda>steps. act_return (step_counts_by_name steps))"

definition get_step_aggregates_with_input ::
    "json_lib \<Rightarrow> (int \<Rightarrow> string option) \<Rightarrow> 's system_database \<Rightarrow> step_aggregates_input \<Rightarrow>
     ('s, step_aggregate_row list) dbact" where
  "get_step_aggregates_with_input lib rfc3339_of_millis db input =
     act_bind (list_workflows db (default_list_options\<lparr>
         lo_workflow_ids := sai_workflow_ids input, lo_workflow_id_prefix := sai_workflow_id_prefix input,
         lo_workflow_id_prefixes := sai_workflow_id_prefixes input\<rparr>)) (\<lambda>workflows.
     act_bind (count_workflow_steps lib rfc3339_of_millis db input workflows []) (\<lambda>aggregates.
       act_return (map (\<lambda>(_, b, n, longest). \<lparr>sa_bucket = b, sa_count = n, sa_max_duration_ms = longest\<rparr>)
         aggregates)))"

section \<open>Counts are exact\<close>

text \<open>
  The map while counting: the rows seen so far have the buckets \<open>seen\<close>, and the entry of the text of a bucket holds
  that bucket and how often it was seen. It needs that different objects have different texts.
\<close>

definition bucket_counts :: "bucket set \<Rightarrow> json_lib \<Rightarrow> bucket list \<Rightarrow> (string, bucket \<times> nat) btreemap \<Rightarrow> bool" where
  "bucket_counts U lib seen counts \<longleftrightarrow> bt_ok counts \<and> set seen \<subseteq> U \<and>
     (\<forall>k b n. map_of counts k = Some (b, n) \<longleftrightarrow>
        b \<in> set seen \<and> k = print_json lib (JObject b) \<and> n = count_list seen b)"

lemma bump_counts:
  assumes "inj_on (\<lambda>b. print_json lib (JObject b)) U" "bucket_counts U lib seen counts" "b \<in> U"
  shows "bucket_counts U lib (b # seen) (bt_update (print_json lib (JObject b)) (bump_bucket b) counts)"
proof -
  let ?txt = "\<lambda>b. print_json lib (JObject b)"
  have ok: "bt_ok counts" "set seen \<subseteq> U"
    and rows: "\<And>k b n. map_of counts k = Some (b, n) \<longleftrightarrow> b \<in> set seen \<and> k = ?txt b \<and> n = count_list seen b"
    using assms(2) by (simp_all add: bucket_counts_def)
  have inj: "?txt b = ?txt b' \<longleftrightarrow> b = b'" if "b' \<in> U" for b'
    using assms(1,3) that by (auto simp: inj_on_def)
  have old: "map_of counts (?txt b) = (if b \<in> set seen then Some (b, count_list seen b) else None)"
  proof (cases "map_of counts (?txt b)")
    case None
    with rows [of "?txt b" b "count_list seen b"] show ?thesis by auto
  next
    case (Some e)
    obtain b' n where e: "e = (b', n)" by (cases e)
    with Some rows [of "?txt b" b' n] ok(2) inj [of b'] show ?thesis by auto
  qed
  have bump: "bump_bucket b (map_of counts (?txt b)) = (b, count_list (b # seen) b)"
    using old by (auto simp: bump_bucket_def)
  have "map_of (bt_update (?txt b) (bump_bucket b) counts) k = Some (b', n) \<longleftrightarrow>
      b' \<in> set (b # seen) \<and> k = ?txt b' \<and> n = count_list (b # seen) b'" for k b' n
  proof (cases "k = ?txt b")
    case True
    then show ?thesis using ok(2) inj [of b'] assms(3)
      by (auto simp: map_of_bt_update [OF ok(1)] bump)
  next
    case False
    then show ?thesis using rows [of k b' n] by (auto simp: map_of_bt_update [OF ok(1)])
  qed
  with ok assms(3) show ?thesis by (simp add: bucket_counts_def)
qed

lemma count_buckets_run:
  assumes "inj_on (\<lambda>b. print_json lib (JObject b)) U" "\<And>row b. bucket_of row = Inr b \<Longrightarrow> b \<in> U"
    and "bucket_counts U lib seen counts" "count_buckets lib bucket_of rows counts = Inr counts'"
  shows "\<exists>bs. map Inr bs = map bucket_of rows \<and> bucket_counts U lib (rev bs @ seen) counts'"
  using assms(3,4)
proof (induction rows arbitrary: seen counts)
  case Nil
  then show ?case by simp
next
  case (Cons row rows)
  then obtain b where b: "bucket_of row = Inr b"
    "count_buckets lib bucket_of rows (bt_update (print_json lib (JObject b)) (bump_bucket b) counts) = Inr counts'"
    by (auto split: sum.splits)
  from Cons.IH [OF bump_counts [OF assms(1) Cons.prems(1) assms(2) [OF b(1)]] b(2)]
  obtain bs where "map Inr bs = map bucket_of rows" "bucket_counts U lib (rev bs @ b # seen) counts'" by auto
  with b(1) show ?case by (intro exI [of _ "b # bs"]) simp
qed

lemma counted_rows:
  "map Inr bs = map g rows \<Longrightarrow> count_list bs b = length (filter (\<lambda>v. g v = Inr b) rows)"
  "map Inr bs = map g rows \<Longrightarrow> Inr b \<in> g ` set rows \<longleftrightarrow> b \<in> set bs"
  "map Inr bs = map g rows \<Longrightarrow> length bs = length rows"
proof (induction rows arbitrary: bs)
  case (Cons row rows)
  {
    case 1
    then obtain b' bs' where "bs = b' # bs'" "g row = Inr b'" "map Inr bs' = map g rows" by (cases bs) auto
    with Cons.IH(1) show ?case by auto
  next
    case 2
    then obtain b' bs' where "bs = b' # bs'" "g row = Inr b'" "map Inr bs' = map g rows" by (cases bs) auto
    with Cons.IH(2) show ?case by auto
  next
    case 3
    then show ?case using Cons.IH(3) by (cases bs) auto
  }
qed simp_all

text \<open>What a final map says, as the list of rows returned.\<close>

lemma bucket_counts_rows:
  assumes "bucket_counts U lib bs counts" "aggs = map (\<lambda>(_, b, n). \<lparr>wa_bucket = b, wa_count = n\<rparr>) counts"
  shows "distinct (map wa_bucket aggs)" "set (map wa_bucket aggs) = set bs"
    "\<And>a. a \<in> set aggs \<longleftrightarrow> wa_bucket a \<in> set bs \<and> wa_count a = count_list bs (wa_bucket a)"
    "sum_list (map wa_count aggs) = length bs"
proof -
  have keys: "distinct (map fst counts)"
    using assms(1) by (auto simp: bucket_counts_def bt_ok_def strict_sorted_iff)
  have entry: "(k, b, n) \<in> set counts \<longleftrightarrow>
      b \<in> set bs \<and> k = print_json lib (JObject b) \<and> n = count_list bs b" for k b n
    using assms(1) map_of_eq_Some_iff [OF keys, of k "(b, n)"] by (simp add: bucket_counts_def)
  show rows: "a \<in> set aggs \<longleftrightarrow> wa_bucket a \<in> set bs \<and> wa_count a = count_list bs (wa_bucket a)" for a
    using entry assms(2) by (cases a) (auto simp: image_iff Bex_def)
  have "map wa_bucket aggs = map (\<lambda>e. fst (snd e)) counts" by (auto simp: assms(2))
  moreover have "inj_on (\<lambda>e. fst (snd e)) (set counts)" using entry by (auto simp: inj_on_def)
  ultimately show distinct: "distinct (map wa_bucket aggs)"
    using keys by (simp add: distinct_map)
  show bs: "set (map wa_bucket aggs) = set bs"
  proof
    show "set (map wa_bucket aggs) \<subseteq> set bs" using rows by auto
    show "set bs \<subseteq> set (map wa_bucket aggs)"
    proof
      fix b assume "b \<in> set bs"
      with rows [of "\<lparr>wa_bucket = b, wa_count = count_list bs b\<rparr>"] show "b \<in> set (map wa_bucket aggs)"
        by (force simp: image_iff)
    qed
  qed
  have "map wa_count aggs = map (count_list bs) (map wa_bucket aggs)" using rows by auto
  then have "sum_list (map wa_count aggs) = sum (count_list bs) (set (map wa_bucket aggs))"
    using sum_list_distinct_conv_sum_set [OF distinct, of "count_list bs"] by (simp only: set_map)
  also have "\<dots> = length bs" using sum_count_set [of bs "set bs"] bs by simp
  finally show "sum_list (map wa_count aggs) = length bs" .
qed

text \<open>
  Grouped counts are exact. When \<open>get_workflow_aggregates_with_input\<close> succeeds, every listed workflow has a bucket, each
  bucket that occurs is reported once and with the number of listed workflows that have it, and the counts add
  up to the number of listed workflows. It relies on different objects having different JSON texts.\<close>

theorem workflow_aggregates_exact:
  assumes "inj_on (\<lambda>b. print_json lib (JObject b)) {b. \<exists>w. workflow_bucket r input w = Inr b}"
    and "get_workflow_aggregates_with_input lib r db input s = (Inr aggs, s')"
  shows "\<exists>rows. fst (db_list_workflows db (workflow_aggregates_filter input) s) = Inr rows \<and>
    distinct (map wa_bucket aggs) \<and> sum_list (map wa_count aggs) = length rows \<and>
    set aggs = {\<lparr>wa_bucket = b, wa_count = length (filter (\<lambda>v. workflow_bucket r input v = Inr b) rows)\<rparr> | b.
                  Inr b \<in> workflow_bucket r input ` set rows}"
proof -
  let ?bucket = "workflow_bucket r input"
  from assms(2) obtain rows counts where rows: "fst (db_list_workflows db (workflow_aggregates_filter input) s) = Inr rows"
    and counts: "count_buckets lib ?bucket rows [] = Inr counts"
    and aggs: "aggs = map (\<lambda>(_, b, n). \<lparr>wa_bucket = b, wa_count = n\<rparr>) counts"
    by (auto simp: get_workflow_aggregates_with_input_def list_workflows_def act_bind_def split: sum.splits prod.splits)
  let ?U = "{b. \<exists>w. ?bucket w = Inr b}"
  have "bucket_counts ?U lib [] []" by (simp add: bucket_counts_def)
  from count_buckets_run [OF assms(1) _ this counts]
  obtain bs where bs: "map Inr bs = map ?bucket rows" and final: "bucket_counts ?U lib (rev bs) counts" by auto
  note seen = counted_rows [OF bs] and reported = bucket_counts_rows [OF final aggs]
  have "a \<in> set aggs \<longleftrightarrow> (\<exists>b. a = \<lparr>wa_bucket = b, wa_count = length (filter (\<lambda>v. ?bucket v = Inr b) rows)\<rparr> \<and>
      Inr b \<in> ?bucket ` set rows)" for a
    using reported(3) [of a] seen(1,2) by (cases a) auto
  then show ?thesis using rows reported(1,4) seen(3) by (intro exI [of _ rows]) auto
qed

text \<open>Two workflows of different states, grouped by state.\<close>

definition by_status :: workflow_aggregates_input where
  "by_status = \<lparr>wai_workflow_ids = [], wai_workflow_id_prefix = None, wai_workflow_id_prefixes = [],
     wai_workflow_names = [], wai_queue_names = [], wai_executor_ids = [], wai_application_versions = [],
     wai_status = [], wai_start_time = None, wai_end_time = None, wai_completed_after = None,
     wai_completed_before = None, wai_time_bucket_size = None, wai_group_by_status = True,
     wai_group_by_workflow_name = False, wai_group_by_queue_name = False, wai_group_by_executor_id = False,
     wai_group_by_application_version = False\<rparr>"

definition member_lib :: json_lib where
  "member_lib = \<lparr>print_json = (\<lambda>v. case v of JObject [(k, JString t)] \<Rightarrow> t | _ \<Rightarrow> ''''),
     parse_json = (\<lambda>t. Some (JString t)), base64_encode = (\<lambda>t. t), base64_decode = Some\<rparr>"

definition three_rows :: memory_data where
  "three_rows = empty_memory\<lparr>md_workflows :=
     [(''a'', new_workflow_status ''a'' ''orders'' ''v1'' ''DBOS_JSON'' 5),
      (''b'', (new_workflow_status ''b'' ''orders'' ''v1'' ''DBOS_JSON'' 6)\<lparr>wf_status := Success\<rparr>),
      (''c'', new_workflow_status ''c'' ''orders'' ''v1'' ''DBOS_JSON'' 7)]\<rparr>"

theorem workflow_aggregates_exact_witness:
  "\<exists>aggs. get_workflow_aggregates_with_input member_lib (\<lambda>_. None) memory_store by_status three_rows
       = (Inr aggs, three_rows) \<and>
     \<lparr>wa_bucket = [(''status'', JString ''Pending'')], wa_count = 2\<rparr> \<in> set aggs \<and> sum_list (map wa_count aggs) = 3"
proof -
  have bucket: "workflow_bucket (\<lambda>_. None) by_status w = Inr [(''status'', JString (status_debug (wf_status w)))]" for w
    by (simp add: workflow_bucket_def by_status_def insert_if_def add_time_bucket_def bt_insert_def)
  have inj: "inj_on (\<lambda>b. print_json member_lib (JObject b)) {b. \<exists>w. workflow_bucket (\<lambda>_. None) by_status w = Inr b}"
    by (auto simp: inj_on_def bucket member_lib_def)
  have run: "get_workflow_aggregates_with_input member_lib (\<lambda>_. None) memory_store by_status three_rows =
      (Inr [\<lparr>wa_bucket = [(''status'', JString ''Pending'')], wa_count = 2\<rparr>,
            \<lparr>wa_bucket = [(''status'', JString ''Success'')], wa_count = 1\<rparr>], three_rows)"
    by code_simp
  from workflow_aggregates_exact [OF inj run] run show ?thesis by auto
qed

end
