(* ===== verification/Schedules.thy ===== *)
theory Schedules
  imports Workflow_Ops
begin

text \<open>
  Schedules, application versions and patches of \<open>src/src/context.rs\<close>. The cron parser and the rendering of a time
  are third-party code: \<open>cron_lib\<close> parses a specification and gives its first occurrence strictly after a
  time, \<open>time_lib\<close> renders a time as text and as JSON. A loop that asks for one occurrence after another
  need not end for every such library, so \<open>backfill_loop\<close> has an optional result.
\<close>

record 'c cron_lib =
  cron_parse :: "string \<Rightarrow> string + 'c"
  cron_after :: "'c \<Rightarrow> datetime \<Rightarrow> datetime option"

record time_lib =
  to_rfc3339 :: "datetime \<Rightarrow> string"
  datetime_json :: "datetime \<Rightarrow> json"

definition cron_error :: "'c cron_lib \<Rightarrow> string \<Rightarrow> string option" where
  "cron_error cron spec = (case cron_parse cron spec of Inl err \<Rightarrow> Some err | Inr _ \<Rightarrow> None)"

section \<open>Creating and changing schedules\<close>

definition create_schedule ::
    "'c cron_lib \<Rightarrow> 's system_database \<Rightarrow> string \<Rightarrow> create_schedule_request \<Rightarrow> ('s, unit) dbact" where
  "create_schedule cron db fresh request =
     act_bind (act_lift (validate_cron (cron_error cron) (csr_schedule request))) (\<lambda>_.
       db_upsert_schedule db
         \<lparr>sch_schedule_id = fresh, sch_schedule_name = csr_schedule_name request,
          sch_workflow_name = csr_workflow_name request, sch_workflow_class_name = csr_workflow_class_name request,
          sch_schedule = csr_schedule request, sch_status = Active, sch_context = csr_context request,
          sch_last_fired_at = None, sch_automatic_backfill = csr_automatic_backfill request,
          sch_cron_timezone = csr_cron_timezone request, sch_queue_name = csr_queue_name request\<rparr>)"

definition apply_schedules ::
    "'c cron_lib \<Rightarrow> 's system_database \<Rightarrow> (string \<times> create_schedule_request) list \<Rightarrow> ('s, unit) dbact" where
  "apply_schedules cron db requests = act_for (\<lambda>(fresh, request). create_schedule cron db fresh request) requests"

definition get_schedule :: "'s system_database \<Rightarrow> string \<Rightarrow> ('s, workflow_schedule option) dbact" where
  "get_schedule db schedule_name = db_get_schedule db schedule_name"

definition list_schedules :: "'s system_database \<Rightarrow> list_schedules_options \<Rightarrow> ('s, workflow_schedule list) dbact" where
  "list_schedules db opts = db_list_schedules db opts"

definition schedule_not_found :: "string \<Rightarrow> dbos_error" where
  "schedule_not_found schedule_name = invalid_argument (''schedule not found: '' @ schedule_name)"

definition update_schedule_status ::
    "'s system_database \<Rightarrow> string \<Rightarrow> schedule_status \<Rightarrow> ('s, unit) dbact" where
  "update_schedule_status db schedule_name status =
     act_bind (db_get_schedule db schedule_name) (\<lambda>found.
     act_bind (act_lift (ok_or (schedule_not_found schedule_name) found)) (\<lambda>schedule.
       db_upsert_schedule db (schedule\<lparr>sch_status := status\<rparr>)))"

definition pause_schedule :: "'s system_database \<Rightarrow> string \<Rightarrow> ('s, unit) dbact" where
  "pause_schedule db schedule_name = update_schedule_status db schedule_name Paused"

definition resume_schedule :: "'s system_database \<Rightarrow> string \<Rightarrow> ('s, unit) dbact" where
  "resume_schedule db schedule_name = update_schedule_status db schedule_name Active"

definition delete_schedule :: "'s system_database \<Rightarrow> string \<Rightarrow> ('s, unit) dbact" where
  "delete_schedule db schedule_name = db_delete_schedule db schedule_name"

section \<open>Firing\<close>

text \<open>The derived \<open>Serialize\<close> of \<open>ScheduledWorkflowInput\<close>, with the members in key order.\<close>

definition scheduled_input :: "time_lib \<Rightarrow> scheduled_workflow_input \<Rightarrow> json" where
  "scheduled_input tm input =
     JObject [(''context'', case swi_context input of Some c \<Rightarrow> c | None \<Rightarrow> JNull),
              (''scheduled_time'', datetime_json tm (swi_scheduled_time input))]"

definition scheduled_workflow_id :: "time_lib \<Rightarrow> string \<Rightarrow> datetime \<Rightarrow> string" where
  "scheduled_workflow_id tm schedule_name scheduled_time =
     ''sched-'' @ schedule_name @ ''-'' @ to_rfc3339 tm scheduled_time"

definition internal_queue :: string where
  "internal_queue = ''_dbos_internal_queue''"

definition scheduled_options ::
    "time_lib \<Rightarrow> dbos_context \<Rightarrow> workflow_schedule \<Rightarrow> datetime \<Rightarrow> workflow_options" where
  "scheduled_options tm ctx schedule scheduled_time =
     default_workflow_options\<lparr>
       wo_workflow_id := Some (scheduled_workflow_id tm (sch_schedule_name schedule) scheduled_time),
       wo_queue_name := (case sch_queue_name schedule of Some q \<Rightarrow> Some q | None \<Rightarrow> Some internal_queue),
       wo_application_version := Some (application_version ctx),
       wo_class_name := sch_workflow_class_name schedule\<rparr>"

definition enqueue_scheduled_workflow ::
    "time_lib \<Rightarrow> 's system_database \<Rightarrow> dbos_context \<Rightarrow> datetime \<Rightarrow> string \<Rightarrow> workflow_schedule \<Rightarrow> datetime \<Rightarrow>
     ('s app, string) dbact" where
  "enqueue_scheduled_workflow tm db ctx now fresh schedule scheduled_time =
     act_bind (run_workflow_value db ctx now fresh (sch_workflow_name schedule)
         (scheduled_input tm \<lparr>swi_scheduled_time = scheduled_time, swi_context = sch_context schedule\<rparr>)
         (scheduled_options tm ctx schedule scheduled_time)) (\<lambda>_.
       act_return (scheduled_workflow_id tm (sch_schedule_name schedule) scheduled_time))"

text \<open>
  \<open>cron.after(&start).take_while(|time| *time <= end)\<close> with the body of the loop: the occurrences one after the
  other until one is past the end, or an enqueue fails.
\<close>

partial_function (option) backfill_loop ::
    "(datetime \<Rightarrow> datetime option) \<Rightarrow> datetime \<Rightarrow> (datetime \<Rightarrow> ('s, string) dbact) \<Rightarrow> datetime \<Rightarrow> string list \<Rightarrow> 's \<Rightarrow>
     (string list res \<times> 's) option" where
  [code]: "backfill_loop next final enqueue t ids s =
     (case next t of
        None \<Rightarrow> Some (Inr ids, s)
      | Some scheduled_time \<Rightarrow>
          if scheduled_time \<le> final
          then (case enqueue scheduled_time s of
                  (Inl e, s') \<Rightarrow> Some (Inl e, s')
                | (Inr i, s') \<Rightarrow> backfill_loop next final enqueue scheduled_time (ids @ [i]) s')
          else Some (Inr ids, s))"

definition backfill_schedule ::
    "'c cron_lib \<Rightarrow> time_lib \<Rightarrow> 's system_database \<Rightarrow> dbos_context \<Rightarrow> datetime \<Rightarrow> string \<Rightarrow> string \<Rightarrow> datetime \<Rightarrow> datetime \<Rightarrow>
     's app \<Rightarrow> (string list res \<times> 's app) option" where
  "backfill_schedule cron tm db ctx now fresh schedule_name start final a =
     (case on_store (get_schedule db schedule_name) a of
        (Inl e, a') \<Rightarrow> Some (Inl e, a')
      | (Inr found, a') \<Rightarrow>
          (case ok_or (schedule_not_found schedule_name) found of
             Inl e \<Rightarrow> Some (Inl e, a')
           | Inr schedule \<Rightarrow>
               (case cron_parse cron (sch_schedule schedule) of
                  Inl err \<Rightarrow> Some (Inl (invalid_argument (''invalid cron schedule: '' @ err)), a')
                | Inr c \<Rightarrow>
                    backfill_loop (cron_after cron c) final
                      (enqueue_scheduled_workflow tm db ctx now fresh schedule) start [] a')))"

definition trigger_schedule ::
    "time_lib \<Rightarrow> 's system_database \<Rightarrow> dbos_context \<Rightarrow> datetime \<Rightarrow> string \<Rightarrow> string \<Rightarrow> ('s app, string) dbact" where
  "trigger_schedule tm db ctx now fresh schedule_name =
     act_bind (on_store (get_schedule db schedule_name)) (\<lambda>found.
     act_bind (act_lift (ok_or (schedule_not_found schedule_name) found)) (\<lambda>schedule.
       enqueue_scheduled_workflow tm db ctx now fresh schedule now))"

section \<open>The schedule supervisor\<close>

text \<open>
  One round of \<open>reconcile_schedules\<close>; the random pause before a schedule fires is left out. A schedule that has
  never fired counts as fired one second before the round.
\<close>

definition active_schedules :: list_schedules_options where
  "active_schedules = default_list_schedules_options\<lparr>ls_statuses := [Active]\<rparr>"

definition should_fire :: "'c cron_lib \<Rightarrow> 'c \<Rightarrow> datetime \<Rightarrow> workflow_schedule \<Rightarrow> bool" where
  "should_fire cron c now schedule =
     (let fired = (case sch_last_fired_at schedule of Some t \<Rightarrow> t | None \<Rightarrow> now - int (from_secs 1))
      in case cron_after cron c fired of Some t \<Rightarrow> t \<le> now | None \<Rightarrow> False)"

definition reconcile_one ::
    "'c cron_lib \<Rightarrow> time_lib \<Rightarrow> 's system_database \<Rightarrow> dbos_context \<Rightarrow> datetime \<Rightarrow> string \<Rightarrow> workflow_schedule \<Rightarrow>
     ('s app, unit) dbact" where
  "reconcile_one cron tm db ctx now fresh schedule =
     (case cron_parse cron (sch_schedule schedule) of
        Inl err \<Rightarrow> act_return ()
      | Inr c \<Rightarrow>
          if should_fire cron c now schedule
          then act_bind (enqueue_scheduled_workflow tm db ctx now fresh schedule now) (\<lambda>_.
                 on_store (db_upsert_schedule db (schedule\<lparr>sch_last_fired_at := Some now\<rparr>)))
          else act_return ())"

definition reconcile_schedules ::
    "'c cron_lib \<Rightarrow> time_lib \<Rightarrow> 's system_database \<Rightarrow> dbos_context \<Rightarrow> datetime \<Rightarrow> string \<Rightarrow> ('s app, unit) dbact" where
  "reconcile_schedules cron tm db ctx now fresh =
     act_bind (on_store (list_schedules db active_schedules)) (\<lambda>schedules.
       act_for (reconcile_one cron tm db ctx now fresh) schedules)"

section \<open>Versions and patches\<close>

definition list_application_versions :: "'s system_database \<Rightarrow> ('s, version_info list) dbact" where
  "list_application_versions db = db_list_application_versions db"

definition get_latest_application_version :: "'s system_database \<Rightarrow> ('s, version_info option) dbact" where
  "get_latest_application_version db =
     act_bind (db_list_application_versions db) (\<lambda>versions.
       act_return (case versions of v # _ \<Rightarrow> Some v | [] \<Rightarrow> None))"

definition set_latest_application_version :: "'s system_database \<Rightarrow> datetime \<Rightarrow> string \<Rightarrow> ('s, unit) dbact" where
  "set_latest_application_version db now version_name = db_set_latest_application_version db now version_name"

definition patching_not_enabled :: dbos_error where
  "patching_not_enabled = new_error PatchingNotEnabled ''patching system is not enabled''"

definition patch :: "'s system_database \<Rightarrow> dbos_context \<Rightarrow> string \<Rightarrow> ('s, bool) dbact" where
  "patch db ctx patch_name =
     (if \<not> cfg_enable_patching (cx_config ctx) then act_fail patching_not_enabled
      else act_bind (db_get_patch db patch_name) (\<lambda>p.
             act_return (case p of Some active \<Rightarrow> active | None \<Rightarrow> False)))"

definition deprecate_patch :: "'s system_database \<Rightarrow> dbos_context \<Rightarrow> string \<Rightarrow> ('s, unit) dbact" where
  "deprecate_patch db ctx patch_name =
     (if \<not> cfg_enable_patching (cx_config ctx) then act_fail patching_not_enabled
      else db_set_patch db patch_name False)"

end
