(* ===== verification/Schedule_Properties.thy ===== *)
theory Schedule_Properties
  imports Schedules Workflow_Properties Step_Properties
begin

text \<open>
  Backfilling a schedule: every occurrence in the window becomes one enqueued workflow whose id is made of the
  schedule and the time, so that doing it again changes nothing.
\<close>

text \<open>\<open>occurrences next final t ts\<close>: \<open>ts\<close> are the occurrences after \<open>t\<close> and up to \<open>final\<close>.\<close>

fun occurrences :: "(datetime \<Rightarrow> datetime option) \<Rightarrow> datetime \<Rightarrow> datetime \<Rightarrow> datetime list \<Rightarrow> bool" where
  "occurrences next final t [] \<longleftrightarrow> (case next t of None \<Rightarrow> True | Some u \<Rightarrow> \<not> u \<le> final)"
| "occurrences next final t (u # us) \<longleftrightarrow> next t = Some u \<and> u \<le> final \<and> occurrences next final u us"

lemma occurrences_unique:
  "occurrences next final t ts \<Longrightarrow> occurrences next final t us \<Longrightarrow> ts = us"
proof (induction ts arbitrary: t us)
  case Nil
  then show ?case by (cases us) auto
next
  case (Cons u ts)
  then show ?case by (cases us) auto
qed

lemma occurrences_exist:
  assumes "\<And>t u. next t = Some u \<Longrightarrow> t < u"
  shows "\<exists>ts. occurrences next final t ts"
proof (induction "nat (final - t)" arbitrary: t rule: less_induct)
  case less
  show ?case
  proof (cases "\<exists>u. next t = Some u \<and> u \<le> final")
    case True
    then obtain u where u: "next t = Some u" "u \<le> final" by blast
    with assms have "nat (final - u) < nat (final - t)" by fastforce
    from less [OF this] obtain us where "occurrences next final u us" by blast
    with u have "occurrences next final t (u # us)" by simp
    then show ?thesis by blast
  next
    case False
    then have "occurrences next final t []" by (auto split: option.splits)
    then show ?thesis by blast
  qed
qed

text \<open>A loop whose body never fails visits all the occurrences.\<close>

lemma backfill_loop_run:
  assumes "occurrences next final t ts" "P a"
    and "\<forall>u a. P a \<longrightarrow> fst (enqueue u a) = Inr (name_of u) \<and> P (snd (enqueue u a))"
  shows "backfill_loop next final enqueue t ids a =
      Some (Inr (ids @ map name_of ts), fold (\<lambda>u a. snd (enqueue u a)) ts a)"
    and "P (fold (\<lambda>u a. snd (enqueue u a)) ts a)"
  using assms(1,2)
proof (induction ts arbitrary: t ids a)
  case Nil
  {
    case 1
    then show ?case by (subst backfill_loop.simps) (auto split: option.splits)
  next
    case 2
    then show ?case by simp
  }
next
  case (Cons u ts)
  {
    case 1
    with assms(3) [rule_format, of a u] obtain a1 where u: "enqueue u a = (Inr (name_of u), a1)" "P a1"
      by (cases "enqueue u a") auto
    from 1 have o: "next t = Some u" "u \<le> final" "occurrences next final u ts" by simp_all
    have "backfill_loop next final enqueue t ids a =
        backfill_loop next final enqueue u (ids @ [name_of u]) a1"
      using o(1,2) by (subst backfill_loop.simps) (simp add: u(1))
    with Cons.IH(1) [OF o(3) u(2), of "ids @ [name_of u]"] u(1) show ?case by simp
  next
    case 2
    with assms(3) Cons.IH(2) [of u "snd (enqueue u a)"] show ?case by simp
  }
qed

definition scheduled_row ::
    "time_lib \<Rightarrow> dbos_context \<Rightarrow> datetime \<Rightarrow> workflow_schedule \<Rightarrow> (datetime \<Rightarrow> encoded_value) \<Rightarrow> datetime \<Rightarrow> workflow_status" where
  "scheduled_row tm ctx now sch enc t =
     initial_workflow_status ctx now (scheduled_workflow_id tm (sch_schedule_name sch) t) (sch_workflow_name sch) (enc t)
       (scheduled_options tm ctx sch t)"

lemma scheduled_row_simps:
  "wf_workflow_uuid (scheduled_row tm ctx now sch enc t) = scheduled_workflow_id tm (sch_schedule_name sch) t"
  "wf_name (scheduled_row tm ctx now sch enc t) = sch_workflow_name sch"
  "wf_input (scheduled_row tm ctx now sch enc t) = encoded_to_stored_value (enc t)"
  "wf_status (scheduled_row tm ctx now sch enc t) = Enqueued"
  "wf_deduplication_id (scheduled_row tm ctx now sch enc t) = None"
  "wf_timeout (scheduled_row tm ctx now sch enc t) = None"
  by (auto simp: scheduled_row_def initial_workflow_status_def new_workflow_status_def scheduled_options_def
      default_workflow_options_def Let_def split: option.splits)

lemma untimed_row: "wf_timeout w = None \<Longrightarrow> w\<lparr>wf_timeout := None\<rparr> = w"
  by (cases w) simp

text \<open>The rows after the loop: what was there stays, what was missing is enqueued.\<close>

definition fill_in :: "('t \<Rightarrow> 'k) \<Rightarrow> ('t \<Rightarrow> 'v) \<Rightarrow> 't \<Rightarrow> ('k \<rightharpoonup> 'v) \<Rightarrow> ('k \<rightharpoonup> 'v)" where
  "fill_in f R t m = m(f t := Some (case m (f t) of Some w \<Rightarrow> w | None \<Rightarrow> R t))"

lemma fill_in_all:
  assumes "inj f"
  shows "fold (fill_in f R) ts m (f t) =
      (if t \<in> set ts then Some (case m (f t) of Some w \<Rightarrow> w | None \<Rightarrow> R t) else m (f t))"
    and "(\<And>t. t \<in> set ts \<Longrightarrow> f t \<noteq> i) \<Longrightarrow> fold (fill_in f R) ts m i = m i"
  using assms by (induction ts arbitrary: m) (auto simp: fill_in_def inj_eq split: option.splits)

lemma fill_in_again:
  assumes "inj f"
  shows "fold (fill_in f R') ts (fold (fill_in f R) ts m) = fold (fill_in f R) ts m"
proof
  fix i
  show "fold (fill_in f R') ts (fold (fill_in f R) ts m) i = fold (fill_in f R) ts m i"
  proof (cases "\<exists>t \<in> set ts. f t = i")
    case True
    then show ?thesis by (auto simp: fill_in_all(1) [OF assms] split: option.splits)
  next
    case False
    then show ?thesis using fill_in_all(2) [OF assms, of ts i] by (metis (no_types))
  qed
qed

context workflow_store
begin

lemma enqueue_scheduled_run:
  assumes "inv (app_store a)" "\<forall>s w. wf_deduplication_id w = None \<longrightarrow> \<not> dedup s w"
    and "encode_value (cx_codec ctx) (scheduled_input tm \<lparr>swi_scheduled_time = t, swi_context = sch_context sch\<rparr>)
           (is_portable ctx) = Inr (enc t)"
    and "\<forall>w. a_workflows (abs (app_store a)) (scheduled_workflow_id tm (sch_schedule_name sch) t) = Some w \<longrightarrow>
           wf_name w = sch_workflow_name sch \<and> wf_input w = encoded_to_stored_value (enc t)"
    and "enqueue_scheduled_workflow tm db ctx now fresh sch t a = (r, a')"
  shows "r = Inr (scheduled_workflow_id tm (sch_schedule_name sch) t)" "inv (app_store a')"
    "app_spawned a' = app_spawned a"
    "a_workflows (abs (app_store a')) =
       fill_in (scheduled_workflow_id tm (sch_schedule_name sch)) (scheduled_row tm ctx now sch enc) t
         (a_workflows (abs (app_store a)))"
    "a_schedules (abs (app_store a')) = a_schedules (abs (app_store a))"
proof -
  let ?i = "scheduled_workflow_id tm (sch_schedule_name sch) t" and ?w = "scheduled_row tm ctx now sch enc t"
  let ?rows = "a_workflows (abs (app_store a))"
  obtain q s1 where ins: "db_insert_workflow_with_result db ?w (app_store a) = (q, s1)" by fastforce
  have ins': "on_store (db_insert_workflow db ?w) a = (res_map (\<lambda>_. ()) q, a\<lparr>app_store := s1\<rparr>)"
    using insert_unit [of ?w "app_store a"] ins by (simp add: on_store_def)
  have row: "(\<exists>x. q = Inr x) \<and> inv s1 \<and>
      a_workflows (abs s1) = fill_in (scheduled_workflow_id tm (sch_schedule_name sch)) (scheduled_row tm ctx now sch enc) t ?rows
      \<and> a_schedules (abs s1) = a_schedules (abs (app_store a))"
  proof (cases "?rows ?i")
    case None
    then have "?rows (wf_workflow_uuid ?w) = None" by (simp add: scheduled_row_simps)
    moreover have "\<not> dedup (app_store a) ?w" using assms(2) by (simp add: scheduled_row_simps)
    ultimately show ?thesis using insert_new [OF assms(1) _ _ ins] None
      by (simp add: scheduled_row_simps fill_in_def untimed_row)
  next
    case (Some w)
    then have "?rows (wf_workflow_uuid ?w) = Some w" by (simp add: scheduled_row_simps)
    from insert_existing [OF assms(1) this ins] assms(4) Some show ?thesis
      by (auto simp: ensure_workflow_identity_matches_def scheduled_row_simps fill_in_def)
  qed
  have opts: "wo_workflow_id (scheduled_options tm ctx sch t) = Some ?i" "\<not> wo_portable (scheduled_options tm ctx sch t)"
    "wo_queue_name (scheduled_options tm ctx sch t) \<noteq> None"
    by (auto simp: scheduled_options_def default_workflow_options_def split: option.splits)
  have "(r, a') = (Inr ?i, a\<lparr>app_store := s1\<rparr>)"
    using assms(3,5) ins' row opts
    by (auto simp: enqueue_scheduled_workflow_def run_workflow_value_def act_bind_def Let_def scheduled_row_def [symmetric])
  with row show "r = Inr ?i" "inv (app_store a')" "app_spawned a' = app_spawned a"
    "a_workflows (abs (app_store a')) =
       fill_in (scheduled_workflow_id tm (sch_schedule_name sch)) (scheduled_row tm ctx now sch enc) t ?rows"
    "a_schedules (abs (app_store a')) = a_schedules (abs (app_store a))"
    by simp_all
qed

end

text \<open>A state that a schedule can be backfilled in: the rows under its ids are the ones it starts.\<close>

definition backfillable ::
    "('s \<Rightarrow> bool) \<Rightarrow> ('s \<Rightarrow> abstract_db) \<Rightarrow> time_lib \<Rightarrow> string \<Rightarrow> workflow_schedule \<Rightarrow> (datetime \<Rightarrow> encoded_value) \<Rightarrow>
     's app \<Rightarrow> bool" where
  "backfillable ok view tm name sch enc a \<longleftrightarrow>
     ok (app_store a) \<and> a_schedules (view (app_store a)) name = Some sch \<and>
     (\<forall>t w. a_workflows (view (app_store a)) (scheduled_workflow_id tm (sch_schedule_name sch) t) = Some w \<longrightarrow>
        wf_name w = sch_workflow_name sch \<and> wf_input w = encoded_to_stored_value (enc t))"

definition schedule_encodes ::
    "time_lib \<Rightarrow> dbos_context \<Rightarrow> workflow_schedule \<Rightarrow> (datetime \<Rightarrow> encoded_value) \<Rightarrow> bool" where
  "schedule_encodes tm ctx sch enc \<longleftrightarrow>
     (\<forall>t. encode_value (cx_codec ctx) (scheduled_input tm \<lparr>swi_scheduled_time = t, swi_context = sch_context sch\<rparr>)
        (is_portable ctx) = Inr (enc t))"

context durable_store
begin

lemma backfill_enqueues:
  assumes "backfillable inv abs tm name sch enc a" "\<forall>s w. wf_deduplication_id w = None \<longrightarrow> \<not> dedup s w"
    and "inj (scheduled_workflow_id tm (sch_schedule_name sch))" "schedule_encodes tm ctx sch enc"
    and "enqueue_scheduled_workflow tm db ctx now fresh sch t a = (r, a')"
  shows "r = Inr (scheduled_workflow_id tm (sch_schedule_name sch) t)" "backfillable inv abs tm name sch enc a'"
    "app_spawned a' = app_spawned a"
    "a_workflows (abs (app_store a')) = fill_in (scheduled_workflow_id tm (sch_schedule_name sch))
       (scheduled_row tm ctx now sch enc) t (a_workflows (abs (app_store a)))"
proof -
  have enc: "encode_value (cx_codec ctx) (scheduled_input tm \<lparr>swi_scheduled_time = t, swi_context = sch_context sch\<rparr>)
      (is_portable ctx) = Inr (enc t)" using assms(4) by (simp add: schedule_encodes_def)
  have ok: "inv (app_store a)" "\<forall>w. a_workflows (abs (app_store a)) (scheduled_workflow_id tm (sch_schedule_name sch) t) = Some w \<longrightarrow>
      wf_name w = sch_workflow_name sch \<and> wf_input w = encoded_to_stored_value (enc t)"
    using assms(1) by (simp_all add: backfillable_def)
  note run = enqueue_scheduled_run
    [where t = t and enc = enc and tm = tm and sch = sch and ctx = ctx, OF ok(1) assms(2) enc ok(2) assms(5)]
  from run show "r = Inr (scheduled_workflow_id tm (sch_schedule_name sch) t)" "app_spawned a' = app_spawned a"
    "a_workflows (abs (app_store a')) = fill_in (scheduled_workflow_id tm (sch_schedule_name sch))
       (scheduled_row tm ctx now sch enc) t (a_workflows (abs (app_store a)))" by blast+
  show "backfillable inv abs tm name sch enc a'"
    using run(2,4,5) assms(1,3)
    by (auto simp: backfillable_def fill_in_def scheduled_row_simps inj_eq split: option.splits if_splits)
qed

lemma backfill_fills:
  assumes "backfillable inv abs tm name sch enc a" "\<forall>s w. wf_deduplication_id w = None \<longrightarrow> \<not> dedup s w"
    and "inj (scheduled_workflow_id tm (sch_schedule_name sch))" "schedule_encodes tm ctx sch enc"
  shows "a_workflows (abs (app_store (fold (\<lambda>u a. snd (enqueue_scheduled_workflow tm db ctx now fresh sch u a)) ts a))) =
      fold (fill_in (scheduled_workflow_id tm (sch_schedule_name sch)) (scheduled_row tm ctx now sch enc)) ts
        (a_workflows (abs (app_store a))) \<and>
    app_spawned (fold (\<lambda>u a. snd (enqueue_scheduled_workflow tm db ctx now fresh sch u a)) ts a) = app_spawned a"
  using assms(1)
proof (induction ts arbitrary: a)
  case (Cons u us)
  obtain r a' where r: "enqueue_scheduled_workflow tm db ctx now fresh sch u a = (r, a')" by fastforce
  note one = backfill_enqueues [OF Cons.prems assms(2-4) r]
  from Cons.IH [OF one(2)] one r show ?case by simp
qed simp

lemma backfill_run:
  assumes "backfillable inv abs tm name sch enc a" "\<forall>s w. wf_deduplication_id w = None \<longrightarrow> \<not> dedup s w"
    and "inj (scheduled_workflow_id tm (sch_schedule_name sch))" "schedule_encodes tm ctx sch enc"
    and "cron_parse cron (sch_schedule sch) = Inr c" "occurrences (cron_after cron c) final start ts"
  shows "\<exists>a'. backfill_schedule cron tm db ctx now fresh name start final a =
      Some (Inr (map (scheduled_workflow_id tm (sch_schedule_name sch)) ts), a') \<and>
    backfillable inv abs tm name sch enc a' \<and> app_spawned a' = app_spawned a \<and>
    a_workflows (abs (app_store a')) = fold (fill_in (scheduled_workflow_id tm (sch_schedule_name sch))
      (scheduled_row tm ctx now sch enc)) ts (a_workflows (abs (app_store a)))"
proof -
  let ?P = "backfillable inv abs tm name sch enc" and ?enqueue = "enqueue_scheduled_workflow tm db ctx now fresh sch"
  obtain r s1 where get: "db_get_schedule db name (app_store a) = (r, s1)" by fastforce
  with get_schedule [OF _ get] assms(1) have s1: "r = Inr (Some sch)" "inv s1" "abs s1 = abs (app_store a)"
    by (simp_all add: backfillable_def)
  let ?a = "a\<lparr>app_store := s1\<rparr>"
  have P: "?P ?a" using assms(1) s1 by (simp add: backfillable_def)
  have found: "on_store (get_schedule db name) a = (Inr (Some sch), ?a)"
    using get s1(1) by (simp add: on_store_def get_schedule_def)
  have body: "\<forall>u a. ?P a \<longrightarrow> fst (?enqueue u a) = Inr (scheduled_workflow_id tm (sch_schedule_name sch) u) \<and> ?P (snd (?enqueue u a))"
    using backfill_enqueues [OF _ assms(2-4)] by (metis prod.collapse)
  note loop = backfill_loop_run [where P = ?P and enqueue = ?enqueue, OF assms(6) P body]
  have "backfill_schedule cron tm db ctx now fresh name start final a =
      backfill_loop (cron_after cron c) final ?enqueue start [] ?a"
    unfolding backfill_schedule_def by (simp add: found assms(5))
  with loop(1) [where ids = "[]"] loop(2) backfill_fills [OF P assms(2-4), of now fresh ts] s1(3) show ?thesis by simp
qed

end

text \<open>C28:
  Backfilling is exact and can be repeated. When the occurrences of a schedule advance and chrono renders different times
  differently, \<open>backfill_schedule\<close> ends, returns the ids of exactly the occurrences after the start and up to
  the end, in order, and leaves one workflow for each of them: the one that was there, or a new enqueued one.
  All other rows stay, nothing is spawned, and backfilling the window again returns the same ids and
  changes no row.\<close>

theorem backfill_exact:
  assumes "durable_store db ok view nd dedup" "ok (app_store a)"
    and "\<And>s w. wf_deduplication_id w = None \<Longrightarrow> \<not> dedup s w"
    and "a_schedules (view (app_store a)) name = Some sch" "cron_parse cron (sch_schedule sch) = Inr c"
    and "\<And>t u. cron_after cron c t = Some u \<Longrightarrow> t < u"
    and "inj (scheduled_workflow_id tm (sch_schedule_name sch))"
    and "\<And>t. encode_value (cx_codec ctx) (scheduled_input tm \<lparr>swi_scheduled_time = t, swi_context = sch_context sch\<rparr>)
           (is_portable ctx) = Inr (enc t)"
    and "\<And>t w. a_workflows (view (app_store a)) (scheduled_workflow_id tm (sch_schedule_name sch) t) = Some w \<Longrightarrow>
           wf_name w = sch_workflow_name sch \<and> wf_input w = encoded_to_stored_value (enc t)"
  shows "\<exists>ts a'. occurrences (cron_after cron c) final start ts \<and>
    backfill_schedule cron tm db ctx now fresh name start final a =
      Some (Inr (map (scheduled_workflow_id tm (sch_schedule_name sch)) ts), a') \<and>
    app_spawned a' = app_spawned a \<and>
    (\<forall>t. a_workflows (view (app_store a')) (scheduled_workflow_id tm (sch_schedule_name sch) t) =
       (case a_workflows (view (app_store a)) (scheduled_workflow_id tm (sch_schedule_name sch) t) of
          Some w \<Rightarrow> Some w
        | None \<Rightarrow> if t \<in> set ts then Some (scheduled_row tm ctx now sch enc t) else None)) \<and>
    (\<forall>i. i \<notin> range (scheduled_workflow_id tm (sch_schedule_name sch)) \<longrightarrow>
       a_workflows (view (app_store a')) i = a_workflows (view (app_store a)) i) \<and>
    (\<exists>a''. backfill_schedule cron tm db ctx now' fresh' name start final a' =
        Some (Inr (map (scheduled_workflow_id tm (sch_schedule_name sch)) ts), a'') \<and>
      a_workflows (view (app_store a'')) = a_workflows (view (app_store a')))"
proof -
  let ?f = "scheduled_workflow_id tm (sch_schedule_name sch)"
  obtain ts where ts: "occurrences (cron_after cron c) final start ts"
    using occurrences_exist [of "cron_after cron c"] assms(6) by blast
  have start: "backfillable ok view tm name sch enc a" using assms(2,4,9) by (simp add: backfillable_def)
  have dedup: "\<forall>s w. wf_deduplication_id w = None \<longrightarrow> \<not> dedup s w" using assms(3) by blast
  have enc: "schedule_encodes tm ctx sch enc" using assms(8) by (simp add: schedule_encodes_def)
  note run = durable_store.backfill_run [OF assms(1) _ dedup assms(7) enc assms(5) ts]
  from run [OF start, of now fresh] obtain a' where a':
    "backfill_schedule cron tm db ctx now fresh name start final a = Some (Inr (map ?f ts), a')"
    "backfillable ok view tm name sch enc a'" "app_spawned a' = app_spawned a"
    "a_workflows (view (app_store a')) = fold (fill_in ?f (scheduled_row tm ctx now sch enc)) ts (a_workflows (view (app_store a)))"
    by blast
  from run [OF a'(2), of now' fresh'] obtain a'' where a'':
    "backfill_schedule cron tm db ctx now' fresh' name start final a' = Some (Inr (map ?f ts), a'')"
    "a_workflows (view (app_store a'')) = a_workflows (view (app_store a'))"
    by (auto simp: a'(4) fill_in_again [OF assms(7)])
  have at: "a_workflows (view (app_store a')) (?f t) = (case a_workflows (view (app_store a)) (?f t) of Some w \<Rightarrow> Some w
      | None \<Rightarrow> if t \<in> set ts then Some (scheduled_row tm ctx now sch enc t) else None)" for t
    unfolding a'(4) fill_in_all(1) [OF assms(7)] by (auto split: option.splits)
  have elsewhere: "a_workflows (view (app_store a')) i = a_workflows (view (app_store a)) i" if "i \<notin> range ?f" for i
    unfolding a'(4) by (rule fill_in_all(2) [OF assms(7)]) (use that in blast)
  show ?thesis
    by (intro exI [of _ ts] exI [of _ a'] conjI allI impI ts a'(1,3) at elsewhere exI [of _ a''] a'')
qed

definition ticks :: "unit cron_lib" where
  "ticks = \<lparr>cron_parse = (\<lambda>_. Inr ()),
     cron_after = (\<lambda>_ t. if t < 10 then Some 10 else if t < 20 then Some 20 else None)\<rparr>"

definition seconds :: time_lib where
  "seconds = \<lparr>to_rfc3339 = show_int, datetime_json = (\<lambda>t. JNumber (NInt t))\<rparr>"

definition tick_schedule :: workflow_schedule where
  "tick_schedule = \<lparr>sch_schedule_id = ''1'', sch_schedule_name = ''tick'', sch_workflow_name = ''orders'',
     sch_workflow_class_name = None, sch_schedule = ''* * *'', sch_status = Active, sch_context = None,
     sch_last_fired_at = None, sch_automatic_backfill = False, sch_cron_timezone = None, sch_queue_name = None\<rparr>"

definition tick_app :: "memory_data app" where
  "tick_app = \<lparr>app_store = empty_memory\<lparr>md_schedules := [(''tick'', tick_schedule)]\<rparr>, app_spawned = []\<rparr>"

theorem backfill_exact_witness:
  "\<exists>a'. backfill_schedule ticks seconds memory_store tiny_context 30 ''x'' ''tick'' 0 15 tick_app =
     Some (Inr [scheduled_workflow_id seconds ''tick'' 10], a') \<and>
     (\<exists>w. hm_get (md_workflows (app_store a')) (scheduled_workflow_id seconds ''tick'' 10) = Some w \<and>
       wf_status w = Enqueued)"
proof -
  let ?enc = "\<lambda>t::datetime. \<lparr>enc_data = Some ''A?'', enc_serialization = DBOS_JSON\<rparr>"
  have inv: "mem_inv (app_store tick_app)"
    by (simp add: tick_app_def mem_inv_def empty_memory_def hm_ok_def hm_keyed_def hm_get_def)
  have dedup: "\<not> mem_dedup s w" if "wf_deduplication_id w = None" for s w
    using that by (simp add: mem_dedup_def)
  have found: "a_schedules (mem_abs (app_store tick_app)) ''tick'' = Some tick_schedule"
    by (simp add: tick_app_def hm_get_def)
  have parse: "cron_parse ticks (sch_schedule tick_schedule) = Inr ()" by (simp add: ticks_def)
  have later: "t < u" if "cron_after ticks () t = Some u" for t u
    using that by (auto simp: ticks_def split: if_splits)
  have inj: "inj (scheduled_workflow_id seconds (sch_schedule_name tick_schedule))"
    by (auto simp: inj_on_def scheduled_workflow_id_def seconds_def show_int_inj)
  have enc: "encode_value (cx_codec tiny_context)
      (scheduled_input seconds \<lparr>swi_scheduled_time = t, swi_context = sch_context tick_schedule\<rparr>)
      (is_portable tiny_context) = Inr (?enc t)" for t
    by (simp add: tiny_context_def is_portable_def tiny_run_def encode_value_def tiny_codec_def encode_json_value_def
        scheduled_input_def json_is_null_def tiny_lib_def tiny_print_def)
  have none: "a_workflows (mem_abs (app_store tick_app)) i = None" for i
    by (simp add: tick_app_def empty_memory_def)
  have ts: "ts = [10]" if "occurrences (cron_after ticks ()) 15 0 ts" for ts
    by (rule occurrences_unique [OF that]) (simp add: ticks_def)
  from backfill_exact [where enc = ?enc, OF mem.durable_store_axioms inv dedup found parse later inj enc, where final = 15 and start = 0]
  show ?thesis using none ts by (fastforce simp: scheduled_row_simps tick_schedule_def)
qed

end
