(* ===== verification/Wire.thy ===== *)
theory Wire
  imports Import_Export Aggregates Schedules Messaging
begin

text \<open>
  What the two remote interfaces share, the admin server and the conductor: JSON objects built by \<open>json!\<close>, the
  accessors of \<open>serde_json::Value\<close>, and as parameters the JSON forms that serde derives for the types of
  \<open>src/src/types.rs\<close> (\<open>wire_types\<close>) and what the two interfaces ask of the machine they run on
  (\<open>environment\<close>).
\<close>

section \<open>JSON values\<close>

text \<open>An object keeps its members sorted by key; a later member replaces an earlier one of the same key.\<close>

definition json_members :: "(string \<times> json) list \<Rightarrow> (string, json) btreemap" where
  "json_members members = fold (\<lambda>(k, v) m. bt_insert k v m) members []"

definition json_object :: "(string \<times> json) list \<Rightarrow> json" where
  "json_object members = JObject (json_members members)"

definition json_as_bool :: "json \<Rightarrow> bool option" where
  "json_as_bool v = (case v of JBool b \<Rightarrow> Some b | _ \<Rightarrow> None)"

definition json_strings :: "string list \<Rightarrow> json" where
  "json_strings xs = JArray (map JString xs)"

definition json_option :: "('a \<Rightarrow> json) \<Rightarrow> 'a option \<Rightarrow> json" where
  "json_option f x = (case x of Some v \<Rightarrow> f v | None \<Rightarrow> JNull)"

definition json_rows :: "('a \<Rightarrow> json) \<Rightarrow> 'a list \<Rightarrow> json" where
  "json_rows f xs = JArray (map f xs)"

section \<open>Derived forms and environment\<close>

record wire_types =
  wt_workflow :: "workflow_status \<Rightarrow> json"
  wt_step :: "step_info \<Rightarrow> json"
  wt_queue :: "workflow_queue \<Rightarrow> json"
  wt_schedule :: "workflow_schedule \<Rightarrow> json"
  wt_schedule_status :: "schedule_status \<Rightarrow> json"
  wt_version :: "version_info \<Rightarrow> json"
  wt_workflow_aggregate :: "workflow_aggregate_row \<Rightarrow> json"
  wt_step_aggregate :: "step_aggregate_row \<Rightarrow> json"
  wt_export :: "workflow_export \<Rightarrow> json"
  wt_error_code :: "dbos_error_code \<Rightarrow> json"
  wt_list_options :: "json \<Rightarrow> list_workflows_options res"
  wt_resume_options :: "json \<Rightarrow> resume_workflow_options res"
  wt_fork_input :: "json \<Rightarrow> fork_workflow_input res"
  wt_export_options :: "json \<Rightarrow> export_workflow_options res"
  wt_import :: "json \<Rightarrow> workflow_export res"
  wt_list_schedules_options :: "json \<Rightarrow> list_schedules_options res"
  wt_workflow_aggregates_input :: "json \<Rightarrow> workflow_aggregates_input res"
  wt_step_aggregates_input :: "json \<Rightarrow> step_aggregates_input res"

text \<open>
  The clock reading, the fresh id and the depth for an export that a request is served with, the environment
  variable \<open>HOSTNAME\<close>, the crate's version, chrono and cron.
\<close>

record 'c environment =
  env_types :: wire_types
  env_cron :: "'c cron_lib"
  env_time :: time_lib
  env_rfc3339_of_millis :: "int \<Rightarrow> string option"
  env_parse_rfc3339 :: "string \<Rightarrow> string + datetime"
  env_now :: datetime
  env_fresh :: string
  env_depth :: nat
  env_hostname :: "string option"
  env_package_version :: string

definition default_fork_input :: fork_workflow_input where
  "default_fork_input =
     \<lparr>fi_original_workflow_id = '''', fi_start_step = None, fi_forked_workflow_id = None, fi_application_version = None\<rparr>"

definition default_workflow_aggregates_input :: workflow_aggregates_input where
  "default_workflow_aggregates_input =
     \<lparr>wai_workflow_ids = [], wai_workflow_id_prefix = None, wai_workflow_id_prefixes = [], wai_workflow_names = [],
      wai_queue_names = [], wai_executor_ids = [], wai_application_versions = [], wai_status = [],
      wai_start_time = None, wai_end_time = None, wai_completed_after = None, wai_completed_before = None,
      wai_time_bucket_size = None, wai_group_by_status = False, wai_group_by_workflow_name = False,
      wai_group_by_queue_name = False, wai_group_by_executor_id = False, wai_group_by_application_version = False\<rparr>"

definition default_step_aggregates_input :: step_aggregates_input where
  "default_step_aggregates_input =
     \<lparr>sai_workflow_ids = [], sai_workflow_id_prefix = None, sai_workflow_id_prefixes = [], sai_function_names = [],
      sai_statuses = [], sai_completed_after = None, sai_completed_before = None, sai_time_bucket_size = None,
      sai_group_by_function_name = False, sai_group_by_status = False, sai_select_count = False,
      sai_select_max_duration_ms = False\<rparr>"

section \<open>Actions that need not end\<close>

text \<open>An export needs fuel and a backfill may not end: \<open>None\<close> is no answer.\<close>

type_synonym ('s, 'a) partial_act = "'s \<Rightarrow> ('a res \<times> 's) option"

definition ending :: "('s, 'a) dbact \<Rightarrow> ('s, 'a) partial_act" where
  "ending m s = Some (m s)"

definition partial_map :: "('a \<Rightarrow> 'b) \<Rightarrow> ('s, 'a) partial_act \<Rightarrow> ('s, 'b) partial_act" where
  "partial_map f m s = map_option (\<lambda>(r, s'). (res_map f r, s')) (m s)"

definition act_then :: "('s, 'a) dbact \<Rightarrow> ('a \<Rightarrow> 'b) \<Rightarrow> ('s, 'b) dbact" where
  "act_then m f = act_bind m (\<lambda>x. act_return (f x))"

definition partial_on_store :: "('s, 'a) partial_act \<Rightarrow> ('s app, 'a) partial_act" where
  "partial_on_store m a = map_option (\<lambda>(r, s'). (r, a\<lparr>app_store := s'\<rparr>)) (m (app_store a))"

end
