(* ===== verification/Conductor_Wire.thy ===== *)
theory Conductor_Wire
  imports Wire
begin

text \<open>
  The messages of \<open>src/src/conductor.rs\<close>: kinds and their names, the two forms of a request, the
  flat form of a response, and the address of the conductor. \<open>serde_json\<close> is the \<open>json_lib\<close> of the codec.
\<close>

section \<open>Kinds\<close>

datatype conductor_kind =
    KExecutorInfo | KRecovery | KExistPendingWorkflows | KCancelWorkflow | KResumeWorkflow | KListWorkflows
  | KListQueuedWorkflows | KListSteps | KGetWorkflow | KForkWorkflow | KRetention | KGetMetrics | KExportWorkflow
  | KImportWorkflow | KDeleteWorkflow | KAlert | KListSchedules | KGetSchedule | KPauseSchedule | KResumeSchedule
  | KBackfillSchedule | KTriggerSchedule | KGetWorkflowEvents | KGetWorkflowNotifications | KGetWorkflowStreams
  | KGetWorkflowAggregates | KGetStepAggregates | KListApplicationVersions | KSetLatestApplicationVersion
  | KListQueues | KGetQueue

fun wire_name :: "conductor_kind \<Rightarrow> string" where
  "wire_name KExecutorInfo = ''executor_info''"
| "wire_name KRecovery = ''recovery''"
| "wire_name KExistPendingWorkflows = ''exist_pending_workflows''"
| "wire_name KCancelWorkflow = ''cancel''"
| "wire_name KResumeWorkflow = ''resume''"
| "wire_name KListWorkflows = ''list_workflows''"
| "wire_name KListQueuedWorkflows = ''list_queued_workflows''"
| "wire_name KListSteps = ''list_steps''"
| "wire_name KGetWorkflow = ''get_workflow''"
| "wire_name KForkWorkflow = ''fork_workflow''"
| "wire_name KRetention = ''retention''"
| "wire_name KGetMetrics = ''get_metrics''"
| "wire_name KExportWorkflow = ''export_workflow''"
| "wire_name KImportWorkflow = ''import_workflow''"
| "wire_name KDeleteWorkflow = ''delete''"
| "wire_name KAlert = ''alert''"
| "wire_name KListSchedules = ''list_schedules''"
| "wire_name KGetSchedule = ''get_schedule''"
| "wire_name KPauseSchedule = ''pause_schedule''"
| "wire_name KResumeSchedule = ''resume_schedule''"
| "wire_name KBackfillSchedule = ''backfill_schedule''"
| "wire_name KTriggerSchedule = ''trigger_schedule''"
| "wire_name KGetWorkflowEvents = ''get_workflow_events''"
| "wire_name KGetWorkflowNotifications = ''get_workflow_notifications''"
| "wire_name KGetWorkflowStreams = ''get_workflow_streams''"
| "wire_name KGetWorkflowAggregates = ''get_workflow_aggregates''"
| "wire_name KGetStepAggregates = ''get_step_aggregates''"
| "wire_name KListApplicationVersions = ''list_application_versions''"
| "wire_name KSetLatestApplicationVersion = ''set_latest_application_version''"
| "wire_name KListQueues = ''list_queues''"
| "wire_name KGetQueue = ''get_queue''"

definition all_kinds :: "conductor_kind list" where
  "all_kinds =
     [KExecutorInfo, KRecovery, KExistPendingWorkflows, KCancelWorkflow, KResumeWorkflow, KListWorkflows,
      KListQueuedWorkflows, KListSteps, KGetWorkflow, KForkWorkflow, KRetention, KGetMetrics, KExportWorkflow,
      KImportWorkflow, KDeleteWorkflow, KAlert, KListSchedules, KGetSchedule, KPauseSchedule, KResumeSchedule,
      KBackfillSchedule, KTriggerSchedule, KGetWorkflowEvents, KGetWorkflowNotifications, KGetWorkflowStreams,
      KGetWorkflowAggregates, KGetStepAggregates, KListApplicationVersions, KSetLatestApplicationVersion,
      KListQueues, KGetQueue]"

text \<open>
  The derived \<open>Deserialize\<close>: the snake case name of the variant, its rename or an alias. The renamed
  variants are the ones whose \<open>wire_name\<close> is not the snake case name.
\<close>

definition kind_aliases :: "(string \<times> conductor_kind) list" where
  "kind_aliases =
     [(''cancel_workflow'', KCancelWorkflow), (''resume_workflow'', KResumeWorkflow),
      (''delete_workflow'', KDeleteWorkflow)]"

definition kind_of_name :: "string \<Rightarrow> conductor_kind res" where
  "kind_of_name name =
     (case map_of (map (\<lambda>k. (wire_name k, k)) all_kinds @ kind_aliases) name of
        Some k \<Rightarrow> Inr k
      | None \<Rightarrow> Inl (from_serde_error (''unknown variant `'' @ name @ ''`'')))"

text \<open>A unit variant is its name, or an object with that one member and no content.\<close>

definition kind_of_json :: "json \<Rightarrow> conductor_kind res" where
  "kind_of_json v =
     (case v of
        JString name \<Rightarrow> kind_of_name name
      | JObject [(name, JNull)] \<Rightarrow> kind_of_name name
      | _ \<Rightarrow> Inl (from_serde_error ''invalid type: expected string or map''))"

section \<open>Requests\<close>

record conductor_request =
  crq_request_id :: "string option"
  crq_kind :: conductor_kind
  crq_payload :: json

record conductor_error_payload =
  cep_code :: dbos_error_code
  cep_message :: string

record conductor_response =
  crs_request_id :: "string option"
  crs_kind :: conductor_kind
  crs_ok :: bool
  crs_payload :: json
  crs_error :: "conductor_error_payload option"

text \<open>
  The derived \<open>Deserialize\<close> of \<open>ConductorRequest\<close> on an object: \<open>type\<close> is an alias of \<open>kind\<close>, an absent
  payload is null, other members are ignored.
\<close>

definition request_of_json :: "json \<Rightarrow> conductor_request res" where
  "request_of_json v =
     (case v of
        JObject members \<Rightarrow>
          if map_of members ''kind'' \<noteq> None \<and> map_of members ''type'' \<noteq> None
          then Inl (from_serde_error ''duplicate field `kind`'')
          else res_bind (case map_of members ''request_id'' of
                   None \<Rightarrow> Inr None
                 | Some JNull \<Rightarrow> Inr None
                 | Some (JString i) \<Rightarrow> Inr (Some i)
                 | Some _ \<Rightarrow> Inl (from_serde_error ''invalid type: expected a string'')) (\<lambda>request_id.
               res_bind (case (case map_of members ''kind'' of Some k \<Rightarrow> Some k | None \<Rightarrow> map_of members ''type'') of
                   Some k \<Rightarrow> kind_of_json k
                 | None \<Rightarrow> Inl (from_serde_error ''missing field `kind`'')) (\<lambda>kind.
               Inr \<lparr>crq_request_id = request_id, crq_kind = kind,
                    crq_payload = (case map_of members ''payload'' of Some p \<Rightarrow> p | None \<Rightarrow> JNull)\<rparr>))
      | _ \<Rightarrow> Inl (from_serde_error ''invalid type: expected struct ConductorRequest''))"

definition decode_conductor_request :: "json_lib \<Rightarrow> string \<Rightarrow> conductor_request res" where
  "decode_conductor_request lib input = res_bind (from_slice lib input) request_of_json"

definition normalize_wire_request_key :: "conductor_kind \<Rightarrow> string \<Rightarrow> string" where
  "normalize_wire_request_key kind key =
     (if kind = KForkWorkflow \<and> key = ''workflow_id'' then ''original_workflow_id''
      else if kind = KForkWorkflow \<and> key = ''new_workflow_id'' then ''forked_workflow_id''
      else key)"

text \<open>The members of a \<open>body\<close> are lifted, then all keys are normalized, in key order.\<close>

definition normalize_wire_payload :: "conductor_kind \<Rightarrow> json \<Rightarrow> json" where
  "normalize_wire_payload kind raw =
     (case raw of
        JObject members \<Rightarrow>
          let rest = filter (\<lambda>(k, v). k \<noteq> ''body'') members;
              lifted = (case map_of members ''body'' of
                  Some (JObject body) \<Rightarrow>
                    fold (\<lambda>(k, v) m. bt_insert (normalize_wire_request_key kind k) v m) body rest
                | _ \<Rightarrow> rest)
          in json_object (map (\<lambda>(k, v). (normalize_wire_request_key kind k, v))
               (filter (\<lambda>(k, v). k \<noteq> ''type'' \<and> k \<noteq> ''request_id'') lifted))
      | _ \<Rightarrow> raw)"

definition decode_conductor_wire_request :: "json_lib \<Rightarrow> string \<Rightarrow> conductor_request res" where
  "decode_conductor_wire_request lib input =
     res_bind (from_slice lib input) (\<lambda>raw.
       if json_get raw ''payload'' \<noteq> None \<or> json_get raw ''kind'' \<noteq> None then request_of_json raw
       else res_bind (ok_or (invalid_argument ''missing conductor message type'') (json_get raw ''type'')) (\<lambda>t.
            res_bind (kind_of_json t) (\<lambda>kind.
              Inr \<lparr>crq_request_id = Option.bind (json_get raw ''request_id'') json_as_str,
                   crq_kind = kind, crq_payload = normalize_wire_payload kind raw\<rparr>)))"

section \<open>Responses\<close>

definition conductor_wire_payload_key :: "conductor_kind \<Rightarrow> string \<Rightarrow> string" where
  "conductor_wire_payload_key kind key =
     (if kind \<in> {KListWorkflows, KListQueuedWorkflows} \<and> key = ''workflows'' then ''output''
      else if kind = KListSteps \<and> key = ''steps'' then ''output''
      else if kind = KGetWorkflow \<and> key = ''workflow'' then ''output''
      else if kind \<in> {KGetWorkflowAggregates, KGetStepAggregates} \<and> key = ''aggregates'' then ''output''
      else key)"

definition wire_response_members :: "conductor_response \<Rightarrow> (string \<times> json) list" where
  "wire_response_members response =
     [(''type'', JString (wire_name (crs_kind response)))]
     @ (case crs_request_id response of Some i \<Rightarrow> [(''request_id'', JString i)] | None \<Rightarrow> [])
     @ (case crs_error response of Some e \<Rightarrow> [(''error_message'', JString (cep_message e))] | None \<Rightarrow> [])
     @ (if crs_ok response
        then (case crs_payload response of
                JObject payload \<Rightarrow> map (\<lambda>(k, v). (conductor_wire_payload_key (crs_kind response) k, v)) payload
              | JNull \<Rightarrow> []
              | payload \<Rightarrow> [(''output'', payload)])
        else [])"

definition encode_conductor_wire_response :: "json_lib \<Rightarrow> conductor_response \<Rightarrow> string" where
  "encode_conductor_wire_response lib response = print_json lib (json_object (wire_response_members response))"

text \<open>The derived \<open>Serialize\<close> of \<open>ConductorResponse\<close>; a struct keeps the order of its fields.\<close>

definition encode_conductor_response :: "json_lib \<Rightarrow> wire_types \<Rightarrow> conductor_response \<Rightarrow> string" where
  "encode_conductor_response lib types response =
     print_json lib (JObject
       [(''request_id'', json_option JString (crs_request_id response)),
        (''kind'', JString (wire_name (crs_kind response))),
        (''ok'', JBool (crs_ok response)),
        (''payload'', crs_payload response),
        (''error'', json_option (\<lambda>e. JObject [(''code'', wt_error_code types (cep_code e)),
           (''message'', JString (cep_message e))]) (crs_error response))])"

section \<open>Fields of a payload\<close>

definition value_field :: "json \<Rightarrow> string \<Rightarrow> json option" where
  "value_field payload field = json_get payload field"

definition string_field_optional :: "json \<Rightarrow> string \<Rightarrow> string option" where
  "string_field_optional payload field = nonempty (Option.bind (json_get payload field) json_as_str)"

definition string_field :: "json \<Rightarrow> string \<Rightarrow> string res" where
  "string_field payload field =
     ok_or (invalid_argument (''missing required field '' @ field))
       (nonempty (Option.bind (json_get payload field) json_as_str))"

definition string_vec_field :: "json \<Rightarrow> string \<Rightarrow> string list" where
  "string_vec_field payload field =
     (case json_get payload field of Some (JArray vs) \<Rightarrow> List.map_filter json_as_str vs | _ \<Rightarrow> [])"

definition json_scalar_to_string :: "json_lib \<Rightarrow> json \<Rightarrow> string" where
  "json_scalar_to_string lib v = (case json_as_str v of Some s \<Rightarrow> s | None \<Rightarrow> print_json lib v)"

definition string_map_field :: "json_lib \<Rightarrow> json \<Rightarrow> string \<Rightarrow> (string \<times> string) list" where
  "string_map_field lib payload field =
     (case json_get payload field of
        Some (JObject members) \<Rightarrow> map (\<lambda>(k, v). (k, json_scalar_to_string lib v)) members
      | _ \<Rightarrow> [])"

definition workflow_ids_from_payload :: "json \<Rightarrow> string list res" where
  "workflow_ids_from_payload payload =
     (let workflow_ids = string_vec_field payload ''workflow_ids''
            @ (case string_field_optional payload ''workflow_id'' of Some i \<Rightarrow> [i] | None \<Rightarrow> []);
          workflow_ids = remdups_adj (sort workflow_ids)
      in if workflow_ids = []
         then Inl (invalid_argument ''missing required field workflow_id or workflow_ids'')
         else Inr workflow_ids)"

definition chrono_field :: "(string \<Rightarrow> string + datetime) \<Rightarrow> json \<Rightarrow> string \<Rightarrow> datetime res" where
  "chrono_field parse_rfc3339 payload field =
     res_bind (string_field payload field) (\<lambda>raw.
       case parse_rfc3339 raw of
         Inl err \<Rightarrow> Inl (invalid_argument (''invalid RFC3339 timestamp in '' @ field @ '': '' @ err))
       | Inr t \<Rightarrow> Inr t)"

definition from_value_or_default :: "(json \<Rightarrow> 'a res) \<Rightarrow> 'a \<Rightarrow> json \<Rightarrow> 'a res" where
  "from_value_or_default parse default_value payload =
     (if json_is_null payload then Inr default_value else parse payload)"

definition options_payload :: "(json \<Rightarrow> 'a res) \<Rightarrow> 'a \<Rightarrow> json \<Rightarrow> 'a res" where
  "options_payload parse default_value payload =
     (case value_field payload ''options'' of
        Some opts \<Rightarrow> from_value_or_default parse default_value opts
      | None \<Rightarrow> from_value_or_default parse default_value payload)"

section \<open>Address\<close>

definition trim_end_slashes :: "string \<Rightarrow> string" where
  "trim_end_slashes s = rev (dropWhile (\<lambda>c. c = CHR ''/'') (rev s))"

definition conductor_websocket_url_with_key :: "(string \<Rightarrow> string) \<Rightarrow> conductor_config \<Rightarrow> string \<Rightarrow> string" where
  "conductor_websocket_url_with_key url_encode config api_key =
     (let base = trim_end_slashes (cc_url config);
          base = (case strip_prefix ''http://'' base of
              Some rest \<Rightarrow> ''ws://'' @ rest
            | None \<Rightarrow> (case strip_prefix ''https://'' base of Some rest \<Rightarrow> ''wss://'' @ rest | None \<Rightarrow> base))
      in base @ ''/websocket/'' @ url_encode (cc_app_name config) @ ''/'' @ url_encode api_key)"

definition conductor_websocket_url :: "(string \<Rightarrow> string) \<Rightarrow> conductor_config \<Rightarrow> string" where
  "conductor_websocket_url url_encode config = conductor_websocket_url_with_key url_encode config (cc_api_key config)"

definition conductor_websocket_url_redacted :: "(string \<Rightarrow> string) \<Rightarrow> conductor_config \<Rightarrow> string" where
  "conductor_websocket_url_redacted url_encode config = conductor_websocket_url_with_key url_encode config ''REDACTED''"

section \<open>Lemmas\<close>

lemma kind_of_wire_name: "kind_of_name (wire_name k) = Inr k"
  by (cases k) (simp_all add: kind_of_name_def all_kinds_def)

lemma wire_name_inj: "wire_name k = wire_name l \<longleftrightarrow> k = l"
  using kind_of_wire_name by (metis sum.inject(2))

end
