(* ===== verification/Conductor.thy ===== *)
theory Conductor
  imports Conductor_Wire
begin

text \<open>
  Serving the conductor, \<open>src/src/conductor.rs\<close>: the dispatch of a request to the operations of the context, the
  response to it, and the reply to a message of the socket. An operation that may not end
  (a backfill, an export deeper than the fuel) gives \<open>None\<close>.
\<close>

section \<open>Dispatch\<close>

definition retrieved_status :: "'s system_database \<Rightarrow> string \<Rightarrow> ('s, workflow_status) dbact" where
  "retrieved_status db workflow_id = get_status db workflow_id"

text \<open>\<open>get_event\<close> with no time to wait asks once.\<close>

definition event_now ::
    "'s system_database \<Rightarrow> dbos_context \<Rightarrow> string \<Rightarrow> string \<Rightarrow> ('s, json) partial_act" where
  "event_now db ctx workflow_id key s =
     (case get_event db ctx json_serde workflow_id key [(True, \<lambda>s. s)] s of
        (answer, s') \<Rightarrow> map_option (\<lambda>r. (r, s')) answer)"

definition metrics_body :: "wire_types \<Rightarrow> workflow_aggregate_row list \<Rightarrow> step_aggregate_row list \<Rightarrow> json" where
  "metrics_body types workflow_aggregates step_aggregates =
     json_object [(''workflow_aggregates'', json_rows (wt_workflow_aggregate types) workflow_aggregates),
                  (''step_aggregates'', json_rows (wt_step_aggregate types) step_aggregates)]"

definition metrics_of ::
    "wire_types \<Rightarrow> 's system_database \<Rightarrow> list_workflows_options \<Rightarrow> string option \<Rightarrow> ('s, json) dbact" where
  "metrics_of types db opts workflow_id =
     act_bind (get_workflow_aggregates db opts) (\<lambda>workflow_aggregates.
     act_bind (case workflow_id of Some i \<Rightarrow> get_step_aggregates db i | None \<Rightarrow> act_return []) (\<lambda>step_aggregates.
       act_return (metrics_body types workflow_aggregates step_aggregates)))"

definition versions_body :: "wire_types \<Rightarrow> 's system_database \<Rightarrow> ('s, json) dbact" where
  "versions_body types db =
     act_bind (list_application_versions db) (\<lambda>versions.
     act_bind (get_latest_application_version db) (\<lambda>latest.
       act_return (json_object [(''versions'', json_rows (wt_version types) versions),
                                (''latest'', json_option (wt_version types) latest)])))"

text \<open>The requests whose operation always ends.\<close>

definition dispatch_reading ::
    "'c environment \<Rightarrow> json_lib \<Rightarrow> 's system_database \<Rightarrow> dbos_context \<Rightarrow> conductor_kind \<Rightarrow> json \<Rightarrow> ('s, json) dbact" where
  "dispatch_reading env lib db ctx kind payload =
     (let types = env_types env in
      case kind of
        KExecutorInfo \<Rightarrow> act_return (json_object
          [(''app_name'', JString (cfg_app_name (cx_config ctx))),
           (''application_version'', JString (application_version ctx)),
           (''application_id'', json_option JString (cfg_application_id (cx_config ctx))),
           (''executor_id'', JString (executor_id ctx)),
           (''dbos_version'', JString (env_package_version env)),
           (''language'', JString ''rust''),
           (''hostname'', json_option JString (env_hostname env)),
           (''executor_metadata'', json_option (\<lambda>m. m) (cfg_conductor_executor_metadata (cx_config ctx)))])
      | KExistPendingWorkflows \<Rightarrow>
          act_then (list_workflows db (default_list_options\<lparr>
              lo_status := [Pending],
              lo_application_version := string_field_optional payload ''application_version'',
              lo_executor_ids := (case string_field_optional payload ''executor_id'' of Some e \<Rightarrow> [e] | None \<Rightarrow> []),
              lo_limit := Some 1\<rparr>))
            (\<lambda>workflows. json_object [(''exist'', JBool (workflows \<noteq> []))])
      | KListWorkflows \<Rightarrow>
          act_bind (act_lift (options_payload (wt_list_options types) default_list_options payload)) (\<lambda>opts.
            act_then (list_workflows db opts)
              (\<lambda>workflows. json_object [(''workflows'', json_rows (wt_workflow types) workflows)]))
      | KListQueuedWorkflows \<Rightarrow>
          act_bind (act_lift (options_payload (wt_list_options types) default_list_options payload)) (\<lambda>opts.
            let opts = opts\<lparr>lo_status := [Enqueued], lo_queues_only := True\<rparr>;
                opts = (case Option.bind (json_get payload ''queue_name'') json_as_str of
                          Some q \<Rightarrow> opts\<lparr>lo_queue_name := Some q\<rparr> | None \<Rightarrow> opts) in
            act_then (list_workflows db opts)
              (\<lambda>workflows. json_object [(''workflows'', json_rows (wt_workflow types) workflows)]))
      | KListSteps \<Rightarrow>
          act_bind (act_lift (string_field payload ''workflow_id'')) (\<lambda>workflow_id.
            act_then (get_workflow_steps db workflow_id) (\<lambda>steps. json_object [(''steps'', json_rows (wt_step types) steps)]))
      | KGetWorkflow \<Rightarrow>
          act_bind (act_lift (string_field payload ''workflow_id'')) (\<lambda>workflow_id.
            act_then (retrieved_status db workflow_id) (\<lambda>workflow. json_object [(''workflow'', wt_workflow types workflow)]))
      | KRetention \<Rightarrow> act_return (json_object [(''retention'', JString ''accepted'')])
      | KGetMetrics \<Rightarrow>
          act_bind (act_lift (case value_field payload ''workflow_options'' of
              Some v \<Rightarrow> from_value_or_default (wt_list_options types) default_list_options v
            | None \<Rightarrow> Inr default_list_options)) (\<lambda>opts.
            metrics_of types db opts (Option.bind (json_get payload ''workflow_id'') json_as_str))
      | KAlert \<Rightarrow> act_return (json_object [(''alert'', JString ''accepted'')])
      | KListSchedules \<Rightarrow>
          act_bind (act_lift (options_payload (wt_list_schedules_options types) default_list_schedules_options payload)) (\<lambda>opts.
            act_then (list_schedules db opts)
              (\<lambda>schedules. json_object [(''schedules'', json_rows (wt_schedule types) schedules)]))
      | KGetSchedule \<Rightarrow>
          act_bind (act_lift (string_field payload ''schedule_name'')) (\<lambda>schedule_name.
            act_then (get_schedule db schedule_name)
              (\<lambda>schedule. json_object [(''schedule'', json_option (wt_schedule types) schedule)]))
      | KGetWorkflowStreams \<Rightarrow>
          act_bind (act_lift (string_field payload ''workflow_id'')) (\<lambda>workflow_id.
          act_bind (act_lift (string_field payload ''key'')) (\<lambda>key.
            act_then (read_stream db ctx json_serde workflow_id key)
              (\<lambda>(vs, closed). json_object
                 [(''workflow_id'', JString workflow_id), (''key'', JString key), (''values'', JArray vs),
                  (''closed'', JBool closed)])))
      | KGetWorkflowAggregates \<Rightarrow>
          act_bind (act_lift (options_payload (wt_workflow_aggregates_input types) default_workflow_aggregates_input payload)) (\<lambda>input.
            act_then (get_workflow_aggregates_with_input lib (env_rfc3339_of_millis env) db input)
              (\<lambda>aggregates. json_object [(''aggregates'', json_rows (wt_workflow_aggregate types) aggregates)]))
      | KGetStepAggregates \<Rightarrow>
          act_bind (act_lift (options_payload (wt_step_aggregates_input types) default_step_aggregates_input payload)) (\<lambda>input.
            let nested = (case json_get payload ''options'' of
                            Some opts \<Rightarrow> string_field_optional opts ''workflow_id'' | None \<Rightarrow> None);
                workflow_id = (case string_field_optional payload ''workflow_id'' of Some i \<Rightarrow> Some i | None \<Rightarrow> nested);
                input = (case workflow_id of
                           Some i \<Rightarrow> if sai_workflow_ids input = [] then input\<lparr>sai_workflow_ids := [i]\<rparr> else input
                         | None \<Rightarrow> input) in
            act_then (get_step_aggregates_with_input lib (env_rfc3339_of_millis env) db input)
              (\<lambda>aggregates. json_object [(''aggregates'', json_rows (wt_step_aggregate types) aggregates)]))
      | KListApplicationVersions \<Rightarrow> versions_body types db
      | KListQueues \<Rightarrow>
          act_then (list_queues db) (\<lambda>queues. json_object [(''queues'', json_rows (wt_queue types) queues)])
      | KGetQueue \<Rightarrow>
          act_bind (act_lift (string_field payload ''queue_name'')) (\<lambda>queue_name.
            act_then (retrieve_queue db queue_name) (\<lambda>queue. json_object [(''queue'', json_option (wt_queue types) queue)]))
      | _ \<Rightarrow> act_fail (unsupported ''not a reading request''))"

definition reading_kinds :: "conductor_kind list" where
  "reading_kinds =
     [KExecutorInfo, KExistPendingWorkflows, KListWorkflows, KListQueuedWorkflows, KListSteps, KGetWorkflow, KRetention,
      KGetMetrics, KAlert, KListSchedules, KGetSchedule, KGetWorkflowStreams, KGetWorkflowAggregates,
      KGetStepAggregates, KListApplicationVersions, KListQueues, KGetQueue]"

definition schedule_changed :: "wire_types \<Rightarrow> string \<Rightarrow> schedule_status \<Rightarrow> json" where
  "schedule_changed types schedule_name status =
     json_object [(''schedule_name'', JString schedule_name), (''status'', wt_schedule_status types status)]"

definition dispatch_writing ::
    "'c environment \<Rightarrow> 's system_database \<Rightarrow> dbos_context \<Rightarrow> conductor_kind \<Rightarrow> json \<Rightarrow> ('s app, json) dbact" where
  "dispatch_writing env db ctx kind payload =
     (let types = env_types env; now = env_now env in
      case kind of
        KRecovery \<Rightarrow>
          act_then (recover_pending_workflows db (string_vec_field payload ''executor_ids''))
            (\<lambda>workflow_ids. json_object [(''workflow_ids'', json_strings workflow_ids)])
      | KCancelWorkflow \<Rightarrow>
          act_bind (act_lift (workflow_ids_from_payload payload)) (\<lambda>workflow_ids.
            act_then (on_store (cancel_workflows db now now workflow_ids)) (\<lambda>_. json_object
              [(''workflow_ids'', json_strings workflow_ids), (''cancelled'', JBool True), (''success'', JBool True)]))
      | KResumeWorkflow \<Rightarrow>
          act_bind (act_lift (workflow_ids_from_payload payload)) (\<lambda>workflow_ids.
          act_bind (act_lift (case value_field payload ''options'' of
              Some v \<Rightarrow> from_value_or_default (wt_resume_options types) \<lparr>ro_queue_name = None\<rparr> v
            | None \<Rightarrow> Inr \<lparr>ro_queue_name = None\<rparr>)) (\<lambda>opts.
            act_then (act_map (\<lambda>workflow_id. resume_workflow db now workflow_id opts) workflow_ids)
              (\<lambda>resumed. json_object [(''workflow_ids'', json_strings resumed), (''success'', JBool True)])))
      | KForkWorkflow \<Rightarrow>
          act_bind (act_lift (from_value_or_default (wt_fork_input types) default_fork_input payload)) (\<lambda>input.
            act_then (fork_workflow db ctx now (env_fresh env) input)
              (\<lambda>workflow_id. json_object [(''workflow_id'', JString workflow_id)]))
      | KImportWorkflow \<Rightarrow>
          act_bind (act_lift (wt_import types payload)) (\<lambda>export.
            act_then (on_store (import_workflow db export)) (\<lambda>_. json_object
              [(''workflow_id'', JString (wf_workflow_uuid (ex_workflow export))), (''imported'', JBool True)]))
      | KDeleteWorkflow \<Rightarrow>
          act_bind (act_lift (workflow_ids_from_payload payload)) (\<lambda>workflow_ids.
            let force = (case Option.bind (json_get payload ''force'') json_as_bool of Some b \<Rightarrow> b | None \<Rightarrow> False) in
            act_then (on_store (delete_workflows db workflow_ids \<lparr>do_force = force\<rparr>)) (\<lambda>_. json_object
              [(''workflow_ids'', json_strings workflow_ids), (''deleted'', JBool True), (''success'', JBool True)]))
      | KPauseSchedule \<Rightarrow>
          act_bind (act_lift (string_field payload ''schedule_name'')) (\<lambda>schedule_name.
            act_then (on_store (pause_schedule db schedule_name)) (\<lambda>_. schedule_changed types schedule_name Paused))
      | KResumeSchedule \<Rightarrow>
          act_bind (act_lift (string_field payload ''schedule_name'')) (\<lambda>schedule_name.
            act_then (on_store (resume_schedule db schedule_name)) (\<lambda>_. schedule_changed types schedule_name Active))
      | KTriggerSchedule \<Rightarrow>
          act_bind (act_lift (string_field payload ''schedule_name'')) (\<lambda>schedule_name.
            act_then (trigger_schedule (env_time env) db ctx now (env_fresh env) schedule_name)
              (\<lambda>workflow_id. json_object [(''workflow_id'', JString workflow_id)]))
      | KSetLatestApplicationVersion \<Rightarrow>
          act_bind (act_lift (string_field payload ''version'')) (\<lambda>version.
            act_then (on_store (set_latest_application_version db now version))
              (\<lambda>_. json_object [(''version'', JString version)]))
      | _ \<Rightarrow> act_fail (unsupported ''not a writing request''))"

definition dispatch_conductor_request ::
    "'c environment \<Rightarrow> json_lib \<Rightarrow> 's system_database \<Rightarrow> dbos_context \<Rightarrow> conductor_request \<Rightarrow>
     ('s app, json) partial_act" where
  "dispatch_conductor_request env lib db ctx request =
     (let payload = crq_payload request; kind = crq_kind request; types = env_types env in
      case kind of
        KExportWorkflow \<Rightarrow>
          (case string_field payload ''workflow_id'' of
             Inl e \<Rightarrow> ending (act_fail e)
           | Inr workflow_id \<Rightarrow>
               (case options_payload (wt_export_options types) \<lparr>exo_include_children = False\<rparr> payload of
                  Inl e \<Rightarrow> ending (act_fail e)
                | Inr opts \<Rightarrow>
                    partial_map (wt_export types)
                      (partial_on_store (export_workflow_with_options db (env_depth env) workflow_id opts))))
      | KBackfillSchedule \<Rightarrow>
          (case res_bind (string_field payload ''schedule_name'') (\<lambda>schedule_name.
                res_bind (chrono_field (env_parse_rfc3339 env) payload ''start'') (\<lambda>start.
                res_bind (chrono_field (env_parse_rfc3339 env) payload ''end'') (\<lambda>end_time.
                  Inr (schedule_name, start, end_time)))) of
             Inl e \<Rightarrow> ending (act_fail e)
           | Inr (schedule_name, start, end_time) \<Rightarrow>
               partial_map (\<lambda>workflow_ids. json_object [(''workflow_ids'', json_strings workflow_ids)])
                 (backfill_schedule (env_cron env) (env_time env) db ctx (env_now env) (env_fresh env)
                    schedule_name start end_time))
      | _ \<Rightarrow>
          if kind \<in> {KGetWorkflowEvents, KGetWorkflowNotifications}
          then (case res_bind (string_field payload ''workflow_id'') (\<lambda>workflow_id.
                     res_map (\<lambda>key. (workflow_id, key)) (string_field payload ''key'')) of
                  Inl e \<Rightarrow> ending (act_fail e)
                | Inr (workflow_id, key) \<Rightarrow>
                    partial_map (\<lambda>v. json_object
                        [(''workflow_id'', JString workflow_id), (''key'', JString key), (''value'', v)])
                      (partial_on_store (event_now db ctx workflow_id key)))
          else if kind \<in> set reading_kinds
          then ending (on_store (dispatch_reading env lib db ctx kind payload))
          else ending (dispatch_writing env db ctx kind payload))"

section \<open>Responses\<close>

definition response_to :: "conductor_request \<Rightarrow> json res \<Rightarrow> conductor_response" where
  "response_to request result =
     (case result of
        Inr payload \<Rightarrow>
          \<lparr>crs_request_id = crq_request_id request, crs_kind = crq_kind request, crs_ok = True, crs_payload = payload,
           crs_error = None\<rparr>
      | Inl e \<Rightarrow>
          \<lparr>crs_request_id = crq_request_id request, crs_kind = crq_kind request, crs_ok = False, crs_payload = JNull,
           crs_error = Some \<lparr>cep_code = err_code e, cep_message = err_message e\<rparr>\<rparr>)"

definition handle_conductor_request ::
    "'c environment \<Rightarrow> json_lib \<Rightarrow> 's system_database \<Rightarrow> dbos_context \<Rightarrow> conductor_request \<Rightarrow> 's app \<Rightarrow>
     (conductor_response \<times> 's app) option" where
  "handle_conductor_request env lib db ctx request a =
     map_option (\<lambda>(result, a'). (response_to request result, a')) (dispatch_conductor_request env lib db ctx request a)"

text \<open>The call of the alert handler, when one is configured: severity, message and metadata.\<close>

definition alert_of :: "json_lib \<Rightarrow> bool \<Rightarrow> conductor_request \<Rightarrow> (string \<times> string \<times> (string \<times> string) list) list" where
  "alert_of lib has_alert_handler request =
     (let payload = crq_payload request in
      if crq_kind request = KAlert \<and> has_alert_handler
      then [(case string_field_optional payload ''severity'' of Some s \<Rightarrow> s | None \<Rightarrow> ''info'',
             case string_field_optional payload ''message'' of
               Some m \<Rightarrow> m
             | None \<Rightarrow> (case string_field_optional payload ''alert'' of Some m \<Rightarrow> m | None \<Rightarrow> ''DBOS conductor alert''),
             string_map_field lib payload ''metadata'')]
      else [])"

text \<open>The alert is raised before the request is served.\<close>

type_synonym alerts = "(string \<times> string \<times> (string \<times> string) list) list"

definition handle_conductor_request_with_config ::
    "'c environment \<Rightarrow> json_lib \<Rightarrow> 's system_database \<Rightarrow> dbos_context \<Rightarrow> bool \<Rightarrow> conductor_request \<Rightarrow> 's app \<Rightarrow>
     ((conductor_response \<times> alerts) \<times> 's app) option" where
  "handle_conductor_request_with_config env lib db ctx has_alert_handler request a =
     (let raised = alert_of lib has_alert_handler request
      in map_option (\<lambda>(result, a'). ((response_to request result, raised), a'))
           (dispatch_conductor_request env lib db ctx request a))"

lemma handle_with_config:
  "handle_conductor_request_with_config env lib db ctx has_alert_handler request a =
     map_option (\<lambda>(response, a'). ((response, alert_of lib has_alert_handler request), a'))
       (handle_conductor_request env lib db ctx request a)"
  by (simp add: handle_conductor_request_with_config_def handle_conductor_request_def option.map_comp comp_def
      case_prod_unfold)

text \<open>A message of the socket: the reply text and the alerts raised.\<close>

definition process_websocket_conductor_message ::
    "'c environment \<Rightarrow> json_lib \<Rightarrow> 's system_database \<Rightarrow> dbos_context \<Rightarrow> bool \<Rightarrow> string \<Rightarrow> 's app \<Rightarrow>
     ((string \<times> (string \<times> string \<times> (string \<times> string) list) list) res \<times> 's app) option" where
  "process_websocket_conductor_message env lib db ctx has_alert_handler input a =
     (case decode_conductor_wire_request lib input of
        Inl e \<Rightarrow> Some (Inl e, a)
      | Inr request \<Rightarrow>
          map_option (\<lambda>((response, raised), a').
              (Inr (encode_conductor_wire_response lib response, raised), a'))
            (handle_conductor_request_with_config env lib db ctx has_alert_handler request a))"

lemma processed_message:
  "process_websocket_conductor_message env lib db ctx has_alert_handler input a =
     (case decode_conductor_wire_request lib input of
        Inl e \<Rightarrow> Some (Inl e, a)
      | Inr request \<Rightarrow>
          map_option (\<lambda>(response, a').
              (Inr (encode_conductor_wire_response lib response, alert_of lib has_alert_handler request), a'))
            (handle_conductor_request env lib db ctx request a))"
  by (simp add: process_websocket_conductor_message_def handle_with_config option.map_comp comp_def case_prod_unfold
      split: sum.split)

end
