(* ===== verification/Admin.thy ===== *)
theory Admin
  imports Conductor
begin

text \<open>
  The admin server of \<open>src/src/admin.rs\<close>: parsing of a request line and its query, routing, and the HTTP
  response. A request is the text read from the socket (after the lossy UTF-8 conversion, the identity on valid
  text). The listener, the sockets and the feature switches are not modelled.
\<close>

section \<open>Queries\<close>

type_synonym query = "(string, string) btreemap"

definition query_get :: "query \<Rightarrow> string \<Rightarrow> string option" where
  "query_get query key = map_of query key"

definition query_part :: "string \<Rightarrow> (string \<times> string) option" where
  "query_part part =
     (let (key, v) = (case split_once CHR ''='' part of Some kv \<Rightarrow> kv | None \<Rightarrow> (part, ''''))
      in if key = '''' then None else Some (key, v))"

definition parse_query :: "string \<Rightarrow> query" where
  "parse_query query =
     fold (\<lambda>(k, v) m. bt_insert k v m)
       (List.map_filter query_part (filter (\<lambda>part. part \<noteq> '''') (split_on CHR ''&'' query))) []"

definition query_bool :: "query \<Rightarrow> string \<Rightarrow> bool" where
  "query_bool query key =
     (case query_get query key of Some v \<Rightarrow> v \<in> {''1'', ''true'', ''TRUE'', ''yes''} | None \<Rightarrow> False)"

definition split_csv :: "string \<Rightarrow> string list" where
  "split_csv v = filter (\<lambda>x. x \<noteq> '''') (split_on CHR '','' v)"

text \<open>\<open>str::parse::<usize>\<close>: an optional plus sign and digits, up to \<open>u64::MAX\<close>.\<close>

definition parse_usize :: "string \<Rightarrow> nat option" where
  "parse_usize v =
     (let ds = (case v of c # rest \<Rightarrow> if c = CHR ''+'' then rest else v | [] \<Rightarrow> [])
      in if ds \<noteq> [] \<and> list_all is_digit ds \<and> digits_value ds < 2 ^ 64 then Some (digits_value ds) else None)"

definition parse_workflow_status :: "string \<Rightarrow> workflow_status_type option" where
  "parse_workflow_status raw =
     map_of [(''PENDING'', Pending), (''ENQUEUED'', Enqueued), (''DELAYED'', Delayed), (''SUCCESS'', Success),
             (''ERROR'', Error), (''CANCELLED'', Cancelled),
             (''MAX_RECOVERY_ATTEMPTS_EXCEEDED'', MaxRecoveryAttemptsExceeded)] (to_ascii_uppercase raw)"

definition parse_schedule_status :: "string \<Rightarrow> schedule_status option" where
  "parse_schedule_status raw = map_of [(''ACTIVE'', Active), (''PAUSED'', Paused)] (to_ascii_uppercase raw)"

definition query_list :: "query \<Rightarrow> string \<Rightarrow> string list" where
  "query_list query key = (case query_get query key of Some v \<Rightarrow> split_csv v | None \<Rightarrow> [])"

definition query_time :: "(string \<Rightarrow> string + datetime) \<Rightarrow> query \<Rightarrow> string \<Rightarrow> datetime option" where
  "query_time parse_rfc3339 query key =
     (case query_get query key of
        Some v \<Rightarrow> (case parse_rfc3339 v of Inr t \<Rightarrow> Some t | Inl _ \<Rightarrow> None)
      | None \<Rightarrow> None)"

definition query_list_workflows_options ::
    "(string \<Rightarrow> string + datetime) \<Rightarrow> query \<Rightarrow> list_workflows_options" where
  "query_list_workflows_options parse_rfc3339 query =
     default_list_options\<lparr>
       lo_workflow_name := query_get query ''workflow_name'',
       lo_workflow_id_prefix := query_get query ''workflow_id_prefix'',
       lo_queue_name := query_get query ''queue_name'',
       lo_deduplication_id := query_get query ''deduplication_id'',
       lo_authenticated_user := query_get query ''authenticated_user'',
       lo_application_version := query_get query ''application_version'',
       lo_queues_only := query_bool query ''queues_only'',
       lo_load_input := query_bool query ''load_input'',
       lo_load_output := query_bool query ''load_output'',
       lo_sort_desc := query_bool query ''sort_desc'',
       lo_limit := Option.bind (query_get query ''limit'') parse_usize,
       lo_offset := Option.bind (query_get query ''offset'') parse_usize,
       lo_workflow_ids := query_list query ''workflow_ids'',
       lo_status := (case query_get query ''status'' of
           Some statuses \<Rightarrow> List.map_filter parse_workflow_status (split_on CHR '','' statuses) | None \<Rightarrow> []),
       lo_workflow_names := query_list query ''workflow_names'',
       lo_workflow_id_prefixes := query_list query ''workflow_id_prefixes'',
       lo_queue_names := query_list query ''queue_names'',
       lo_authenticated_users := query_list query ''authenticated_users'',
       lo_application_versions := query_list query ''application_versions'',
       lo_deduplication_ids := query_list query ''deduplication_ids'',
       lo_executor_ids := query_list query ''executor_ids'',
       lo_forked_from := query_list query ''forked_from'',
       lo_parent_workflow_ids := query_list query ''parent_workflow_ids'',
       lo_completed_after := query_time parse_rfc3339 query ''completed_after'',
       lo_completed_before := query_time parse_rfc3339 query ''completed_before'',
       lo_dequeued_after := query_time parse_rfc3339 query ''dequeued_after'',
       lo_dequeued_before := query_time parse_rfc3339 query ''dequeued_before'',
       lo_was_forked_from := map_option (\<lambda>_. query_bool query ''was_forked_from'') (query_get query ''was_forked_from''),
       lo_has_parent := map_option (\<lambda>_. query_bool query ''has_parent'') (query_get query ''has_parent'')\<rparr>"

definition query_list_schedules_options :: "query \<Rightarrow> list_schedules_options" where
  "query_list_schedules_options query =
     \<lparr>ls_statuses = (case query_get query ''status'' of
          Some statuses \<Rightarrow> List.map_filter parse_schedule_status (split_on CHR '','' statuses) | None \<Rightarrow> []),
      ls_workflow_names = query_list query ''workflow_names'',
      ls_schedule_name_prefixes = query_list query ''schedule_name_prefixes''\<rparr>"

section \<open>Routing\<close>

definition path_segments :: "string \<Rightarrow> string list" where
  "path_segments path =
     filter (\<lambda>segment. segment \<noteq> '''') (split_on CHR ''/'' (dropWhile (\<lambda>c. c = CHR ''/'') path))"

text \<open>
  \<open>telemetry\<close> is \<open>None\<close> when observability is off, and otherwise the snapshot (its conversion may fail) and the
  Prometheus text.
\<close>

type_synonym telemetry = "(json res \<times> string) option"

definition with_telemetry :: "telemetry \<Rightarrow> json \<Rightarrow> json res" where
  "with_telemetry telemetry body =
     (case (telemetry, body) of
        (Some (snapshot, prometheus), JObject members) \<Rightarrow>
          res_map (\<lambda>t. JObject (bt_insert ''prometheus'' (JString prometheus) (bt_insert ''telemetry'' t members))) snapshot
      | _ \<Rightarrow> Inr body)"

definition admin_get ::
    "'c environment \<Rightarrow> telemetry \<Rightarrow> 's system_database \<Rightarrow> string list \<Rightarrow> query \<Rightarrow>
     ('s, json) dbact option" where
  "admin_get env telemetry db segments query =
     (let types = env_types env; parse_time = env_parse_rfc3339 env in
      case segments of
        [] \<Rightarrow> Some (act_return (json_object [(''status'', JString ''ok'')]))
      | [s] \<Rightarrow>
          if s \<in> {''healthz'', ''dbos-healthz''} then Some (act_return (json_object [(''status'', JString ''ok'')]))
          else if s = ''workflows''
          then Some (act_then (list_workflows db (query_list_workflows_options parse_time query))
                 (\<lambda>workflows. json_object [(''workflows'', json_rows (wt_workflow types) workflows)]))
          else if s = ''queues''
          then Some (act_then (list_queues db) (\<lambda>queues. json_object [(''queues'', json_rows (wt_queue types) queues)]))
          else if s = ''schedules''
          then Some (act_then (list_schedules db (query_list_schedules_options query))
                 (\<lambda>schedules. json_object [(''schedules'', json_rows (wt_schedule types) schedules)]))
          else if s = ''app-versions'' then Some (versions_body types db)
          else if s = ''metrics''
          then Some (act_bind (metrics_of types db (query_list_workflows_options parse_time query)
                                (query_get query ''workflow_id''))
                 (\<lambda>body. act_lift (with_telemetry telemetry body)))
          else None
      | [s, name] \<Rightarrow>
          if s = ''workflows''
          then Some (act_then (retrieved_status db name) (\<lambda>status. json_object [(''workflow'', wt_workflow types status)]))
          else if s = ''queues''
          then Some (act_then (retrieve_queue db name)
                 (\<lambda>queue. json_object [(''queue'', json_option (wt_queue types) queue)]))
          else if s = ''schedules''
          then Some (act_then (get_schedule db name)
                 (\<lambda>schedule. json_object [(''schedule'', json_option (wt_schedule types) schedule)]))
          else None
      | [s, name, op] \<Rightarrow>
          if s = ''workflows'' \<and> op = ''steps''
          then Some (act_then (get_workflow_steps db name) (\<lambda>steps. json_object [(''steps'', json_rows (wt_step types) steps)]))
          else None
      | _ \<Rightarrow> None)"

definition admin_post ::
    "'c environment \<Rightarrow> 's system_database \<Rightarrow> dbos_context \<Rightarrow> string list \<Rightarrow> ('s app, json) dbact option" where
  "admin_post env db ctx segments =
     (let now = env_now env in
      case segments of
        [s, name, op] \<Rightarrow>
          if s = ''workflows'' \<and> op = ''cancel''
          then Some (act_then (on_store (cancel_workflow db now now name)) (\<lambda>_.
                 json_object [(''workflow_id'', JString name), (''status'', JString ''cancelled'')]))
          else if s = ''workflows'' \<and> op = ''resume''
          then Some (act_then (resume_workflow db now name \<lparr>ro_queue_name = None\<rparr>) (\<lambda>workflow_id.
                 json_object [(''workflow_id'', JString workflow_id)]))
          else if s = ''schedules'' \<and> op = ''pause''
          then Some (act_then (on_store (pause_schedule db name)) (\<lambda>_.
                 json_object [(''schedule'', JString name), (''status'', JString ''paused'')]))
          else if s = ''schedules'' \<and> op = ''resume''
          then Some (act_then (on_store (resume_schedule db name)) (\<lambda>_.
                 json_object [(''schedule'', JString name), (''status'', JString ''active'')]))
          else if s = ''schedules'' \<and> op = ''trigger''
          then Some (act_then (trigger_schedule (env_time env) db ctx now (env_fresh env) name) (\<lambda>workflow_id.
                 json_object [(''workflow_id'', JString workflow_id)]))
          else None
      | _ \<Rightarrow> None)"

definition admin_delete ::
    "'s system_database \<Rightarrow> string list \<Rightarrow> query \<Rightarrow> ('s, json) dbact option" where
  "admin_delete db segments query =
     (case segments of
        [s, name] \<Rightarrow>
          if s = ''workflows''
          then Some (act_then (delete_workflows db [name] \<lparr>do_force = query_bool query ''force''\<rparr>) (\<lambda>_.
                 json_object [(''workflow_id'', JString name), (''deleted'', JBool True)]))
          else if s = ''queues''
          then Some (act_then (delete_queue db name) (\<lambda>_.
                 json_object [(''queue'', JString name), (''deleted'', JBool True)]))
          else if s = ''schedules''
          then Some (act_then (delete_schedule db name) (\<lambda>_.
                 json_object [(''schedule'', JString name), (''deleted'', JBool True)]))
          else None
      | _ \<Rightarrow> None)"

definition route_admin_request ::
    "'c environment \<Rightarrow> telemetry \<Rightarrow> 's system_database \<Rightarrow> dbos_context \<Rightarrow> string \<Rightarrow> string \<Rightarrow> string \<Rightarrow>
     ('s app, nat \<times> json) dbact" where
  "route_admin_request env telemetry db ctx verb path query =
     (let segments = path_segments path;
          query = parse_query query;
          handler =
            (if verb = ''GET'' then map_option (\<lambda>m. act_then (on_store m) (\<lambda>body. (200, body))) (admin_get env telemetry db segments query)
             else if verb = ''POST'' then map_option (\<lambda>m. act_then m (\<lambda>body. (202, body))) (admin_post env db ctx segments)
             else if verb = ''DELETE'' then map_option (\<lambda>m. act_then (on_store m) (\<lambda>body. (202, body))) (admin_delete db segments query)
             else None)
      in case handler of
           Some m \<Rightarrow> m
         | None \<Rightarrow> act_fail (unsupported (''unsupported admin endpoint '' @ verb @ '' '' @ path)))"

section \<open>Responses\<close>

definition status_for_error :: "dbos_error \<Rightarrow> nat" where
  "status_for_error e =
     (case err_code e of
        InvalidArgument \<Rightarrow> 400
      | ConflictingWorkflow \<Rightarrow> 400
      | NonExistentWorkflow \<Rightarrow> 404
      | Timeout \<Rightarrow> 504
      | Unsupported \<Rightarrow> 501
      | _ \<Rightarrow> 500)"

definition status_text :: "nat \<Rightarrow> string" where
  "status_text status =
     (if status = 200 then ''OK'' else if status = 202 then ''Accepted'' else if status = 400 then ''Bad Request''
      else if status = 404 then ''Not Found'' else if status = 500 then ''Internal Server Error''
      else if status = 501 then ''Not Implemented'' else if status = 504 then ''Gateway Timeout'' else ''OK'')"

definition crlf :: string where
  "crlf = [char_of (13::nat), char_of (10::nat)]"

definition response_header :: "nat \<Rightarrow> string \<Rightarrow> string" where
  "response_header status body =
     ''HTTP/1.1 '' @ show_nat status @ '' '' @ status_text status @ crlf
     @ ''content-type: application/json'' @ crlf
     @ ''content-length: '' @ show_nat (length body) @ crlf
     @ ''connection: close'' @ crlf @ crlf"

definition write_json_response :: "json_lib \<Rightarrow> nat \<Rightarrow> json \<Rightarrow> string" where
  "write_json_response lib status body = response_header status (print_json lib body) @ print_json lib body"

definition error_body :: "wire_types \<Rightarrow> dbos_error \<Rightarrow> json" where
  "error_body types e =
     json_object [(''error'', json_object
       [(''code'', wt_error_code types (err_code e)), (''message'', JString (err_message e)),
        (''workflow_id'', json_option JString (err_workflow_id e)),
        (''queue_name'', json_option JString (err_queue_name e)),
        (''deduplication_id'', json_option JString (err_deduplication_id e))])]"

text \<open>
  The first line, without its line end, cut at white space (here: the ASCII white space characters).
\<close>

definition first_line :: "string \<Rightarrow> string option" where
  "first_line request =
     (if request = [] then None
      else let line = takeWhile (\<lambda>c. c \<noteq> char_of (10::nat)) request
           in Some (if line \<noteq> [] \<and> length line < length request \<and> last line = char_of (13::nat) then butlast line else line))"

definition is_white :: "char \<Rightarrow> bool" where
  "is_white c = (let n = of_char c :: nat in 9 \<le> n \<and> n \<le> 13 \<or> n = 32)"

definition split_whitespace :: "string \<Rightarrow> string list" where
  "split_whitespace s =
     filter (\<lambda>w. w \<noteq> '''') (split_on CHR '' '' (map (\<lambda>c. if is_white c then CHR '' '' else c) s))"

definition message_body :: "string \<Rightarrow> json" where
  "message_body text = json_object [(''error'', JString text)]"

text \<open>What one connection answers: nothing when the client sent nothing.\<close>

definition handle_admin_connection ::
    "'c environment \<Rightarrow> telemetry \<Rightarrow> json_lib \<Rightarrow> 's system_database \<Rightarrow> dbos_context \<Rightarrow> string \<Rightarrow> 's app \<Rightarrow>
     string option \<times> 's app" where
  "handle_admin_connection env telemetry lib db ctx request a =
     (if request = [] then (None, a)
      else case first_line request of
        None \<Rightarrow> (Some (write_json_response lib 400 (message_body ''empty request'')), a)
      | Some line \<Rightarrow>
          (case split_whitespace line of
             [] \<Rightarrow> (Some (write_json_response lib 400 (message_body ''missing method'')), a)
           | [_] \<Rightarrow> (Some (write_json_response lib 400 (message_body ''missing target'')), a)
           | verb # target # _ \<Rightarrow>
               (let (path, query) = (case split_once CHR ''?'' target of Some pq \<Rightarrow> pq | None \<Rightarrow> (target, ''''))
                in case route_admin_request env telemetry db ctx verb path query a of
                     (Inr (status, body), a') \<Rightarrow> (Some (write_json_response lib status body), a')
                   | (Inl e, a') \<Rightarrow>
                       (Some (write_json_response lib (status_for_error e) (error_body (env_types env) e)), a'))))"

section \<open>The published endpoints\<close>

datatype admin_endpoint =
    Health | WorkflowRecovery | Deactivate | WorkflowQueuesMetadata | GarbageCollect | GlobalTimeout | QueuedWorkflows
  | Workflows | Workflow | WorkflowSteps | WorkflowCancel | WorkflowResume | WorkflowFork | ConductorEndpoint

fun endpoint_path :: "admin_endpoint \<Rightarrow> string" where
  "endpoint_path Health = ''/healthz''"
| "endpoint_path WorkflowRecovery = ''/workflows/recovery''"
| "endpoint_path Deactivate = ''/deactivate''"
| "endpoint_path WorkflowQueuesMetadata = ''/queues''"
| "endpoint_path GarbageCollect = ''/gc''"
| "endpoint_path GlobalTimeout = ''/timeout''"
| "endpoint_path QueuedWorkflows = ''/workflows?queues_only=true''"
| "endpoint_path Workflows = ''/workflows''"
| "endpoint_path Workflow = ''/workflows/{workflow_id}''"
| "endpoint_path WorkflowSteps = ''/workflows/{workflow_id}/steps''"
| "endpoint_path WorkflowCancel = ''/workflows/{workflow_id}/cancel''"
| "endpoint_path WorkflowResume = ''/workflows/{workflow_id}/resume''"
| "endpoint_path WorkflowFork = ''/workflows/{workflow_id}/fork''"
| "endpoint_path ConductorEndpoint = ''/conductor''"

end
