(* ===== verification/Console_Properties.thy ===== *)
theory Console_Properties
  imports Admin Workflow_Properties
begin

text \<open>
  The two remote interfaces, the admin server and the conductor: requests that only ask do not write. The interface
  between the consoles and a store is \<open>reading_store\<close>: its queries leave the database alone. All three stores meet
  it, the SQL stores under any failures of statements and connections.
\<close>

named_theorems reads_intros \<open>compositions of reading actions\<close>

definition reads :: "('s \<Rightarrow> 'v) \<Rightarrow> ('s, 'a) dbact \<Rightarrow> bool" where
  "reads view m \<longleftrightarrow> (\<forall>s r s'. m s = (r, s') \<longrightarrow> view s' = view s)"

lemma readsD: "reads view m \<Longrightarrow> m s = (r, s') \<Longrightarrow> view s' = view s"
  unfolding reads_def by blast

lemma reads_return [reads_intros]: "reads view (act_return x)"
  by (simp add: reads_def)

lemma reads_fail [reads_intros]: "reads view (act_fail e)"
  by (simp add: reads_def)

lemma reads_lift [reads_intros]: "reads view (act_lift r)"
  by (simp add: reads_def)

lemma reads_bind [reads_intros]:
  assumes "reads view m" "\<And>x. reads view (k x)"
  shows "reads view (act_bind m k)"
  unfolding reads_def
proof (intro allI impI)
  fix s r s'
  assume run: "act_bind m k s = (r, s')"
  obtain q t where q: "m s = (q, t)" by fastforce
  with assms(1) have t: "view t = view s" by (rule readsD)
  show "view s' = view s"
  proof (cases q)
    case (Inl e)
    with run q t show ?thesis by (simp add: act_bind_def)
  next
    case (Inr x)
    with run q have "k x t = (r, s')" by (simp add: act_bind_def)
    with assms(2) have "view s' = view t" by (rule readsD)
    with t show ?thesis by simp
  qed
qed

lemma reads_then [reads_intros]: "reads view m \<Longrightarrow> reads view (act_then m f)"
  unfolding act_then_def by (auto intro!: reads_intros)

lemma reads_if [reads_intros]: "reads view m \<Longrightarrow> reads view n \<Longrightarrow> reads view (if b then m else n)"
  by simp

lemma reads_option [reads_intros]:
  "reads view m \<Longrightarrow> (\<And>x. reads view (f x)) \<Longrightarrow> reads view (case v of None \<Rightarrow> m | Some x \<Rightarrow> f x)"
  by (cases v) simp_all

lemma reads_let [reads_intros]: "(\<And>x. reads view (f x)) \<Longrightarrow> reads view (Let v f)"
  by (simp add: Let_def)

section \<open>The interface\<close>

locale reading_store =
  fixes db :: "'s system_database"
    and view :: "'s \<Rightarrow> 'v"
  assumes reads_get_workflow: "reads view (db_get_workflow db i)"
    and reads_list_workflows: "reads view (db_list_workflows db opts)"
    and reads_list_steps: "reads view (db_list_steps db i)"
    and reads_get_queue: "reads view (db_get_queue db i)"
    and reads_list_queues: "reads view (db_list_queues db)"
    and reads_get_schedule: "reads view (db_get_schedule db i)"
    and reads_list_schedules: "reads view (db_list_schedules db sopts)"
    and reads_get_event: "reads view (db_get_event db i k)"
    and reads_list_events: "reads view (db_list_events db i)"
    and reads_read_stream: "reads view (db_read_stream db i k)"
    and reads_list_streams: "reads view (db_list_streams db i)"
    and reads_list_messages: "reads view (db_list_messages db i)"
    and reads_list_versions: "reads view (db_list_application_versions db)"
begin

lemmas store_reads = reads_get_workflow reads_list_workflows reads_list_steps reads_get_queue reads_list_queues
  reads_get_schedule reads_list_schedules reads_get_event reads_list_events reads_read_stream reads_list_streams
  reads_list_messages reads_list_versions

lemma reads_steps: "reads view (get_workflow_steps db i)"
  by (auto simp: get_workflow_steps_def get_workflow_steps_with_options_def Let_def intro!: reads_intros store_reads)

lemma reads_count_workflow_steps: "reads view (count_workflow_steps lib r db input ws agg)"
  by (induction ws arbitrary: agg) (auto intro!: reads_intros reads_steps)

lemma reads_aggregates:
  "reads view (get_workflow_aggregates db opts)"
  "reads view (get_step_aggregates db i)"
  "reads view (get_workflow_aggregates_with_input lib r db winput)"
  "reads view (get_step_aggregates_with_input lib r db input)"
  by (auto simp: get_workflow_aggregates_def get_step_aggregates_def get_workflow_aggregates_with_input_def
      get_step_aggregates_with_input_def list_workflows_def
      intro!: reads_intros store_reads reads_steps reads_count_workflow_steps)

lemma reads_queries:
  "reads view (list_workflows db opts)" "reads view (list_queues db)" "reads view (retrieve_queue db q)"
  "reads view (get_schedule db q)" "reads view (list_schedules db sopts)"
  "reads view (retrieved_status db i)" "reads view (read_stream db ctx ty i k)"
  "reads view (versions_body types db)" "reads view (metrics_of types db opts wi)"
  by (auto simp: list_workflows_def list_queues_def retrieve_queue_def get_schedule_def list_schedules_def
      retrieved_status_def get_status_def existing_workflow_def read_stream_def read_stream_with_options_def
      versions_body_def list_application_versions_def get_latest_application_version_def metrics_of_def
      intro!: reads_intros store_reads reads_aggregates)

lemma reads_admin_get: "admin_get env telemetry db segments query = Some m \<Longrightarrow> reads view m"
  by (auto simp: admin_get_def Let_def split: list.splits if_splits
      intro!: reads_intros reads_queries reads_steps)

lemma reads_dispatch: "reads view (dispatch_reading env lib db ctx kind payload)"
  by (cases kind)
    (simp_all add: dispatch_reading_def,
      (intro reads_intros reads_queries reads_steps reads_aggregates)+)

text \<open>The requests that need not end.\<close>

lemma reads_event_now:
  assumes "event_now db ctx i k s = Some (r, s')" shows "view s' = view s"
proof -
  obtain q t where q: "db_get_event db i k s = (q, t)" by fastforce
  from readsD [OF reads_get_event q] q assms show ?thesis
    by (auto simp: event_now_def get_event_def split: sum.splits option.splits if_splits)
qed

lemma reads_export_rows: "reads view (export_rows db i opts)"
  by (auto simp: export_rows_def existing_workflow_def list_workflows_def
      intro!: reads_intros store_reads reads_steps)

lemma reads_fuel_map:
  assumes "\<And>x s r s'. f x s = Some (r, s') \<Longrightarrow> view s' = view s" "fuel_map f xs s = Some (r, s')"
  shows "view s' = view s"
  using assms(2)
proof (induction xs arbitrary: s r)
  case Nil
  then show ?case by simp
next
  case (Cons x xs)
  then obtain q t where q: "f x s = Some (q, t)" by (auto split: option.splits)
  with assms(1) have "view t = view s" by blast
  with q Cons show ?case by (auto split: sum.splits)
qed

lemma reads_export: "export_workflow_inner db n opts i s = Some (r, s') \<Longrightarrow> view s' = view s"
proof (induction n arbitrary: i s r s')
  case 0
  then show ?case by simp
next
  case (Suc n)
  obtain q t where q: "export_rows db i opts s = (q, t)" by fastforce
  with reads_export_rows have t: "view t = view s" by (rule readsD)
  show ?case
  proof (cases q)
    case (Inl e)
    with Suc.prems q t show ?thesis by simp
  next
    case (Inr x)
    obtain export children where x: "x = (export, children)" by (cases x)
    let ?f = "\<lambda>child. export_workflow_inner db n opts (wf_workflow_uuid child)"
    from Suc.prems q Inr x obtain r' where "fuel_map ?f children t = Some (r', s')" by auto
    from reads_fuel_map [where f = ?f, OF Suc.IH this] t show ?thesis by simp
  qed
qed

end

section \<open>The stores\<close>

interpretation mem_reading: reading_store memory_store "\<lambda>s. s"
  by unfold_locales
    (simp_all add: reads_def memory_store_def mem_get_workflow_def mem_list_workflows_def mem_list_steps_def
      mem_get_queue_def mem_list_queues_def mem_get_schedule_def mem_list_schedules_def mem_get_event_def
      mem_list_events_def mem_read_stream_def mem_list_streams_def mem_list_messages_def mem_list_application_versions_def)

lemma reads_keeps:
  assumes "\<And>t0. keeps (\<lambda>t. t = t0) (\<lambda>t. t = t0) (\<lambda>_ t. t = t0) m"
  shows "reads sql_table m"
  using assms unfolding reads_def keeps_def by (metis (mono_tags, lifting) old.sum.exhaust old.sum.simps(5,6))

lemma reads_tables:
  "reads sql_table (pg_get timeout kind i)" "reads sql_table (pg_list timeout kind)"
  "reads sql_table (turso_get kind i)" "reads sql_table (turso_list kind)"
  unfolding pg_get_def pg_list_def turso_get_def turso_list_def
  by (rule reads_keeps, rule keeps_pg_attempts keeps_turso_once, rule keeps_statement,
      simp add: sql_select_def sql_select_kind_def)+

lemma reads_kv:
  assumes "\<And>kind i. reads sql_table (kv_get kv kind i)" "\<And>kind. reads sql_table (kv_list kv kind)"
  shows "reads sql_table (get_as decode kv kind i)" "reads sql_table (list_as decode' kv kind)"
  unfolding get_as_def list_as_def by (auto intro!: reads_intros assms)

lemma reads_sql:
  assumes "\<And>kind i. reads sql_table (kv_get kv kind i)" "\<And>kind. reads sql_table (kv_list kv kind)"
  shows "reads sql_table (sql_get_workflow kv i)" "reads sql_table (sql_list_workflows kv opts)"
    "reads sql_table (sql_list_steps kv i)" "reads sql_table (sql_get_queue kv i)" "reads sql_table (sql_list_queues kv)"
    "reads sql_table (sql_get_schedule kv i)" "reads sql_table (sql_list_schedules kv sopts)"
    "reads sql_table (sql_get_event kv i k)" "reads sql_table (sql_list_events kv i)"
    "reads sql_table (sql_read_stream kv i k)" "reads sql_table (sql_list_streams kv i)"
    "reads sql_table (sql_list_messages kv i)" "reads sql_table (sql_list_application_versions kv)"
  by (auto simp: sql_get_workflow_def sql_list_workflows_def sql_list_steps_def sql_get_queue_def sql_list_queues_def
      sql_get_schedule_def sql_list_schedules_def sql_get_event_def sql_list_events_def sql_read_stream_def
      sql_list_streams_def sql_list_messages_def sql_list_application_versions_def
      intro!: reads_intros reads_kv [OF assms])

lemma reads_methods:
  assumes "\<And>kind i. reads sql_table (kv_get kv kind i)" "\<And>kind. reads sql_table (kv_list kv kind)"
  shows "reading_store (sql_methods kv migrate insertion claim) sql_table"
  by unfold_locales (simp_all add: sql_methods_def reads_sql [OF assms])

interpretation pg_reading: reading_store "pg_store timeout" sql_table
  unfolding pg_store_def by (rule reads_methods) (simp_all add: pg_kv_def reads_tables)

interpretation turso_reading: reading_store turso_store sql_table
  unfolding turso_store_def by (rule reads_methods) (simp_all add: turso_kv_def reads_tables)

section \<open>Requests that ask\<close>

text \<open>The kinds of conductor requests that ask; an alert and a retention notice are acknowledged only.\<close>

definition asking_kinds :: "conductor_kind list" where
  "asking_kinds = reading_kinds @ [KGetWorkflowEvents, KGetWorkflowNotifications, KExportWorkflow]"

lemma on_store_reads:
  assumes "reads view m" "on_store m a = (r, a')"
  shows "view (app_store a') = view (app_store a) \<and> app_spawned a' = app_spawned a"
  using assms readsD [OF assms(1)] by (auto simp: on_store_def split: prod.splits)

lemma asking_dispatch:
  assumes "reading_store db view" "crq_kind request \<in> set asking_kinds"
    and "dispatch_conductor_request env lib db ctx request a = Some (r, a')"
  shows "view (app_store a') = view (app_store a) \<and> app_spawned a' = app_spawned a"
proof (cases "crq_kind request \<in> set reading_kinds")
  case True
  then have "dispatch_conductor_request env lib db ctx request =
      ending (on_store (dispatch_reading env lib db ctx (crq_kind request) (crq_payload request)))"
    by (auto simp: dispatch_conductor_request_def reading_kinds_def Let_def)
  with assms(3) have "on_store (dispatch_reading env lib db ctx (crq_kind request) (crq_payload request)) a = (r, a')"
    by (simp add: ending_def)
  with reading_store.reads_dispatch [OF assms(1)] show ?thesis by (rule on_store_reads)
next
  case False
  with assms(2) have kind: "crq_kind request \<in> {KGetWorkflowEvents, KGetWorkflowNotifications, KExportWorkflow}"
    by (auto simp: asking_kinds_def)
  have lifted: "view (app_store a') = view (app_store a) \<and> app_spawned a' = app_spawned a"
    if "\<And>s q s'. m s = Some (q, s') \<Longrightarrow> view s' = view s" "partial_map f (partial_on_store m) a = Some (r, a')" for m f
    using that by (auto simp: partial_map_def partial_on_store_def)
  show ?thesis
    using kind assms(3) reading_store.reads_event_now [OF assms(1)] reading_store.reads_export [OF assms(1)]
    by (auto simp: dispatch_conductor_request_def Let_def ending_def export_workflow_with_options_def reading_kinds_def
        split: sum.splits dest!: lifted [rotated])
qed

text \<open>C29:
  Asking does not change anything. An admin request with the method GET, whatever its path and query, and a conductor
  request of a kind that asks leave the database alone and spawn no workflow, whatever they answer; on the SQL stores
  also when statements and connections fail.\<close>

theorem asking_changes_nothing:
  assumes "reading_store db view"
  shows "(route_admin_request env telemetry db ctx ''GET'' path query a = (r, a') \<longrightarrow>
      view (app_store a') = view (app_store a) \<and> app_spawned a' = app_spawned a) \<and>
    (crq_kind request \<in> set asking_kinds \<longrightarrow>
      handle_conductor_request env lib db ctx request a = Some (response, a'') \<longrightarrow>
      view (app_store a'') = view (app_store a) \<and> app_spawned a'' = app_spawned a)"
proof (intro conjI impI)
  assume run: "route_admin_request env telemetry db ctx ''GET'' path query a = (r, a')"
  have "view (app_store a') = view (app_store a) \<and> app_spawned a' = app_spawned a"
  proof (cases "admin_get env telemetry db (path_segments path) (parse_query query)")
    case None
    with run show ?thesis by (simp add: route_admin_request_def Let_def)
  next
    case (Some m)
    obtain q a1 where q: "on_store m a = (q, a1)" by fastforce
    with run Some have "a1 = a'" by (auto simp: route_admin_request_def Let_def act_then_def act_bind_def split: sum.splits)
    with on_store_reads [OF reading_store.reads_admin_get [OF assms Some] q] show ?thesis by simp
  qed
  then show "view (app_store a') = view (app_store a)" "app_spawned a' = app_spawned a" by blast+
next
  assume kind: "crq_kind request \<in> set asking_kinds"
    and "handle_conductor_request env lib db ctx request a = Some (response, a'')"
  then obtain r where "dispatch_conductor_request env lib db ctx request a = Some (r, a'')"
    by (auto simp: handle_conductor_request_def)
  from asking_dispatch [OF assms kind this]
  show "view (app_store a'') = view (app_store a)" "app_spawned a'' = app_spawned a" by blast+
qed

text \<open>A service to try the theorems on: constant JSON forms, no time and no cron.\<close>

definition plain_types :: wire_types where
  "plain_types = \<lparr>wt_workflow = (\<lambda>w. JString (wf_workflow_uuid w)), wt_step = (\<lambda>st. JString (step_name st)),
     wt_queue = (\<lambda>q. JString (q_name q)), wt_schedule = (\<lambda>sc. JString (sch_schedule_name sc)),
     wt_schedule_status = (\<lambda>st. JString (case st of Active \<Rightarrow> ''ACTIVE'' | Paused \<Rightarrow> ''PAUSED'')),
     wt_version = (\<lambda>v. JString (ver_name v)), wt_workflow_aggregate = (\<lambda>a. JNumber (NInt (int (wa_count a)))),
     wt_step_aggregate = (\<lambda>a. JNumber (NInt (int (sa_count a)))),
     wt_export = (\<lambda>e. JString (wf_workflow_uuid (ex_workflow e))), wt_error_code = (\<lambda>c. JNumber (NInt (code_num c))),
     wt_list_options = (\<lambda>_. Inr default_list_options), wt_resume_options = (\<lambda>_. Inr \<lparr>ro_queue_name = None\<rparr>),
     wt_fork_input = (\<lambda>_. Inr default_fork_input), wt_export_options = (\<lambda>_. Inr \<lparr>exo_include_children = False\<rparr>),
     wt_import = (\<lambda>_. Inl (from_serde_error ''import'')),
     wt_list_schedules_options = (\<lambda>_. Inr default_list_schedules_options),
     wt_workflow_aggregates_input = (\<lambda>_. Inr default_workflow_aggregates_input),
     wt_step_aggregates_input = (\<lambda>_. Inr default_step_aggregates_input)\<rparr>"

definition plain_env :: "unit environment" where
  "plain_env = \<lparr>env_types = plain_types, env_cron = \<lparr>cron_parse = (\<lambda>_. Inr ()), cron_after = (\<lambda>_ _. None)\<rparr>,
     env_time = \<lparr>to_rfc3339 = show_int, datetime_json = (\<lambda>t. JNumber (NInt t))\<rparr>,
     env_rfc3339_of_millis = (\<lambda>_. None), env_parse_rfc3339 = (\<lambda>_. Inl ''no time''), env_now = 9,
     env_fresh = ''fresh'', env_depth = 1, env_hostname = None, env_package_version = ''0.1.0''\<rparr>"

theorem asking_changes_nothing_witness:
  "\<exists>r a'. route_admin_request plain_env None memory_store tiny_context ''GET'' ''/workflows/w1'' ''''
       \<lparr>app_store = orders_store orders_row, app_spawned = []\<rparr> = (r, a') \<and> app_store a' = orders_store orders_row"
proof -
  let ?a = "\<lparr>app_store = orders_store orders_row, app_spawned = []\<rparr>"
  obtain r a' where r: "route_admin_request plain_env None memory_store tiny_context ''GET'' ''/workflows/w1'' '''' ?a = (r, a')"
    by fastforce
  with asking_changes_nothing [OF mem_reading.reading_store_axioms, of plain_env None tiny_context "''/workflows/w1''" "''''" ?a r a']
  show ?thesis by auto
qed

section \<open>A request that writes, over the wire\<close>

definition cancel_message :: "string \<Rightarrow> string \<Rightarrow> json" where
  "cancel_message r i = JObject [(''request_id'', JString r), (''type'', JString ''cancel''), (''workflow_id'', JString i)]"

lemma cancel_message_decoded:
  assumes "parse_json lib input = Some (cancel_message r i)"
  shows "decode_conductor_wire_request lib input =
    Inr \<lparr>crq_request_id = Some r, crq_kind = KCancelWorkflow, crq_payload = JObject [(''workflow_id'', JString i)]\<rparr>"
  using kind_of_wire_name [of KCancelWorkflow] assms
  by (simp add: decode_conductor_wire_request_def from_slice_def cancel_message_def json_get_def kind_of_json_def
      json_as_str_def normalize_wire_payload_def Let_def json_object_def json_members_def bt_insert_def
      normalize_wire_request_key_def)

lemma cancel_ids:
  "i \<noteq> '''' \<Longrightarrow> workflow_ids_from_payload (JObject [(''workflow_id'', JString i)]) = Inr [i]"
  by (simp add: workflow_ids_from_payload_def string_vec_field_def string_field_optional_def json_get_def json_as_str_def
      nonempty_def)

text \<open>A cancellation ordered by the conductor. For the message that names one workflow, the reply carries the kind and the
  id of the request; a workflow that is not finished is cancelled and no other row changes; a finished one is
  left as it is and the reply is the same; for an unknown one the reply carries the error message and nothing changes.
  No workflow is spawned and no alert is raised.\<close>

theorem conductor_cancels:
  assumes "workflow_store db ok view nd dedup" "ok (app_store a)" "i \<noteq> ''''"
    and "parse_json lib input = Some (cancel_message r i)"
  shows "\<exists>reply a'. process_websocket_conductor_message env lib db ctx alerts input a = Some (Inr (print_json lib reply, []), a') \<and>
    app_spawned a' = app_spawned a \<and>
    (case a_workflows (view (app_store a)) i of
       None \<Rightarrow> view (app_store a') = view (app_store a) \<and>
         reply = JObject [(''error_message'', JString (err_message (non_existent_workflow i))),
                          (''request_id'', JString r), (''type'', JString ''cancel'')]
     | Some w \<Rightarrow>
         reply = JObject [(''cancelled'', JBool True), (''request_id'', JString r), (''success'', JBool True),
                          (''type'', JString ''cancel''), (''workflow_ids'', JArray [JString i])] \<and>
         (if is_terminal (wf_status w) then view (app_store a') = view (app_store a)
          else \<exists>w'. wf_status w' = Cancelled \<and> wf_output w' = wf_output w \<and> wf_input w' = wf_input w \<and>
            a_workflows (view (app_store a')) = (a_workflows (view (app_store a)))(i \<mapsto> w')))"
proof -
  obtain q s1 where q: "cancel_workflow db (env_now env) (env_now env) i (app_store a) = (q, s1)" by fastforce
  let ?request = "\<lparr>crq_request_id = Some r, crq_kind = KCancelWorkflow, crq_payload = JObject [(''workflow_id'', JString i)]\<rparr>"
  let ?a' = "a\<lparr>app_store := s1\<rparr>"
  let ?body = "json_object [(''workflow_ids'', json_strings [i]), (''cancelled'', JBool True), (''success'', JBool True)]"
  have "dispatch_conductor_request env lib db ctx ?request a = Some (res_map (\<lambda>_. ?body) q, ?a')"
    using cancel_ids [OF assms(3)] q
    by (auto simp: dispatch_conductor_request_def Let_def ending_def reading_kinds_def dispatch_writing_def act_then_def
        act_bind_def on_store_def cancel_workflows_def split: sum.splits)
  then have reply: "process_websocket_conductor_message env lib db ctx alerts input a =
      Some (Inr (encode_conductor_wire_response lib (response_to ?request (res_map (\<lambda>_. ?body) q)), []), ?a')"
    by (simp add: processed_message cancel_message_decoded [OF assms(4)] handle_conductor_request_def
        alert_of_def Let_def)
  have shown: "encode_conductor_wire_response lib (response_to ?request (res_map (\<lambda>_. ?body) q)) =
      print_json lib (case q of
        Inr _ \<Rightarrow> JObject [(''cancelled'', JBool True), (''request_id'', JString r), (''success'', JBool True),
                         (''type'', JString ''cancel''), (''workflow_ids'', JArray [JString i])]
      | Inl e \<Rightarrow> JObject [(''error_message'', JString (err_message e)), (''request_id'', JString r),
                         (''type'', JString ''cancel'')])"
    by (cases q) (simp_all add: encode_conductor_wire_response_def response_to_def wire_response_members_def
        json_object_def json_members_def bt_insert_def json_strings_def conductor_wire_payload_key_def)
  note rows = cancel_rows [OF assms(1,2) q]
  show ?thesis
  proof (cases "\<exists>w. a_workflows (view (app_store a)) i = Some w \<and> \<not> is_terminal (wf_status w)")
    case True
    then obtain w where w: "a_workflows (view (app_store a)) i = Some w" "\<not> is_terminal (wf_status w)" by blast
    with rows obtain d w' where w': "q = Inr ()"
      "w' = w\<lparr>wf_status := Cancelled, wf_completed_at := Some (env_now env), wf_updated_at := env_now env, wf_timeout := d\<rparr>"
      "a_workflows (view s1) = (a_workflows (view (app_store a)))(i \<mapsto> w')" by auto
    have "wf_status w' = Cancelled \<and> wf_output w' = wf_output w \<and> wf_input w' = wf_input w" using w'(2) by simp
    with w w'(1,3) shown reply show ?thesis by auto
  next
    case False
    with rows shown reply show ?thesis by (auto split: option.splits if_splits)
  qed
qed

definition cancel_lib :: json_lib where
  "cancel_lib = tiny_lib\<lparr>parse_json := (\<lambda>_. Some (cancel_message ''7'' ''w1''))\<rparr>"

theorem conductor_cancels_witness:
  "\<exists>reply a'. process_websocket_conductor_message plain_env cancel_lib memory_store tiny_context False ''cancel it''
       \<lparr>app_store = orders_store orders_row, app_spawned = []\<rparr> = Some (Inr (reply, []), a') \<and>
     (\<exists>w. hm_get (md_workflows (app_store a')) ''w1'' = Some w \<and> wf_status w = Cancelled)"
proof -
  let ?a = "\<lparr>app_store = orders_store orders_row, app_spawned = []\<rparr>"
  have inv: "mem_inv (app_store ?a)" using orders_store_inv by (simp add: orders_row_simps)
  have "parse_json cancel_lib ''cancel it'' = Some (cancel_message ''7'' ''w1'')" by (simp add: cancel_lib_def)
  from conductor_cancels [OF mem.workflow_store_axioms inv _ this, of plain_env tiny_context False]
  show ?thesis by (auto simp: orders_store_row [simplified] orders_row_simps)
qed

end
