(* ===== verification/Observability.thy ===== *)
theory Observability
  imports Errors
begin

text \<open>
  \<open>src/src/observability.rs\<close>: the counters of started and finished operations, the guard that finishes an operation
  once, the snapshot and the Prometheus text of the counters. The sharded counters, distributions and gauges of
  \<open>fast-telemetry\<close> are what they add up to, unbounded; its span collector is the list of the spans
  completed so far, its own exporters are arguments.
\<close>

section \<open>Operations and outcomes\<close>

datatype dbos_operation =
    OpLaunch | OpRunWorkflow | OpExecuteWorkflow | OpWorkflowResult | OpRunStep | OpQueueSupervisor | OpQueueDequeue
  | OpScheduleReconcile | OpScheduleTrigger | OpMessageSend | OpMessageReceive | OpEventSet | OpEventGet
  | OpStreamWrite | OpStreamRead

fun op_index :: "dbos_operation \<Rightarrow> nat" where
  "op_index OpLaunch = 0"
| "op_index OpRunWorkflow = 1"
| "op_index OpExecuteWorkflow = 2"
| "op_index OpWorkflowResult = 3"
| "op_index OpRunStep = 4"
| "op_index OpQueueSupervisor = 5"
| "op_index OpQueueDequeue = 6"
| "op_index OpScheduleReconcile = 7"
| "op_index OpScheduleTrigger = 8"
| "op_index OpMessageSend = 9"
| "op_index OpMessageReceive = 10"
| "op_index OpEventSet = 11"
| "op_index OpEventGet = 12"
| "op_index OpStreamWrite = 13"
| "op_index OpStreamRead = 14"

fun op_as_str :: "dbos_operation \<Rightarrow> string" where
  "op_as_str OpLaunch = ''launch''"
| "op_as_str OpRunWorkflow = ''workflow.run''"
| "op_as_str OpExecuteWorkflow = ''workflow.execute''"
| "op_as_str OpWorkflowResult = ''workflow.result''"
| "op_as_str OpRunStep = ''step.run''"
| "op_as_str OpQueueSupervisor = ''queue.supervisor''"
| "op_as_str OpQueueDequeue = ''queue.dequeue''"
| "op_as_str OpScheduleReconcile = ''schedule.reconcile''"
| "op_as_str OpScheduleTrigger = ''schedule.trigger''"
| "op_as_str OpMessageSend = ''message.send''"
| "op_as_str OpMessageReceive = ''message.receive''"
| "op_as_str OpEventSet = ''event.set''"
| "op_as_str OpEventGet = ''event.get''"
| "op_as_str OpStreamWrite = ''stream.write''"
| "op_as_str OpStreamRead = ''stream.read''"

fun op_span_name :: "dbos_operation \<Rightarrow> string" where
  "op_span_name OpLaunch = ''dbos.launch''"
| "op_span_name OpRunWorkflow = ''dbos.workflow.run''"
| "op_span_name OpExecuteWorkflow = ''dbos.workflow.execute''"
| "op_span_name OpWorkflowResult = ''dbos.workflow.result''"
| "op_span_name OpRunStep = ''dbos.step.run''"
| "op_span_name OpQueueSupervisor = ''dbos.queue.supervisor''"
| "op_span_name OpQueueDequeue = ''dbos.queue.dequeue''"
| "op_span_name OpScheduleReconcile = ''dbos.schedule.reconcile''"
| "op_span_name OpScheduleTrigger = ''dbos.schedule.trigger''"
| "op_span_name OpMessageSend = ''dbos.message.send''"
| "op_span_name OpMessageReceive = ''dbos.message.receive''"
| "op_span_name OpEventSet = ''dbos.event.set''"
| "op_span_name OpEventGet = ''dbos.event.get''"
| "op_span_name OpStreamWrite = ''dbos.stream.write''"
| "op_span_name OpStreamRead = ''dbos.stream.read''"

datatype span_kind = Internal | Producer | Consumer

definition op_span_kind :: "dbos_operation \<Rightarrow> span_kind" where
  "op_span_kind operation =
     (if operation \<in> {OpMessageSend, OpStreamWrite} then Producer
      else if operation \<in> {OpMessageReceive, OpStreamRead} then Consumer
      else Internal)"

definition dbos_operations :: "dbos_operation list" where
  "dbos_operations =
     [OpLaunch, OpRunWorkflow, OpExecuteWorkflow, OpWorkflowResult, OpRunStep, OpQueueSupervisor, OpQueueDequeue,
      OpScheduleReconcile, OpScheduleTrigger, OpMessageSend, OpMessageReceive, OpEventSet, OpEventGet, OpStreamWrite,
      OpStreamRead]"

datatype operation_outcome = OutSuccess | OutError | OutCached | OutCancelled | OutDropped

fun outcome_index :: "operation_outcome \<Rightarrow> nat" where
  "outcome_index OutSuccess = 0"
| "outcome_index OutError = 1"
| "outcome_index OutCached = 2"
| "outcome_index OutCancelled = 3"
| "outcome_index OutDropped = 4"

fun outcome_as_str :: "operation_outcome \<Rightarrow> string" where
  "outcome_as_str OutSuccess = ''success''"
| "outcome_as_str OutError = ''error''"
| "outcome_as_str OutCached = ''cached''"
| "outcome_as_str OutCancelled = ''cancelled''"
| "outcome_as_str OutDropped = ''dropped''"

definition operation_outcomes :: "operation_outcome list" where
  "operation_outcomes = [OutSuccess, OutError, OutCached, OutCancelled, OutDropped]"

definition operation_count :: nat where "operation_count = 15"
definition outcome_count :: nat where "outcome_count = 5"
definition started_counter_offset :: nat where "started_counter_offset = 0"
definition finished_counter_offset :: nat where "finished_counter_offset = started_counter_offset + operation_count"
definition operation_counter_count :: nat where
  "operation_counter_count = finished_counter_offset + operation_count * outcome_count"

definition started_counter_index :: "dbos_operation \<Rightarrow> nat" where
  "started_counter_index operation = started_counter_offset + op_index operation"

definition finished_counter_index :: "dbos_operation \<Rightarrow> operation_outcome \<Rightarrow> nat" where
  "finished_counter_index operation outcome =
     finished_counter_offset + op_index operation * outcome_count + outcome_index outcome"

section \<open>Metrics\<close>

record span =
  sp_name :: string
  sp_kind :: span_kind
  sp_attributes :: "(string \<times> string) list"
  sp_status :: "string option option"

text \<open>
  \<open>sp_status\<close> is \<open>None\<close> while unset, \<open>Some None\<close> for ok and \<open>Some (Some message)\<close> for an error.
\<close>

record metrics =
  mt_counters :: "int list"
  mt_durations :: "((dbos_operation \<times> operation_outcome) \<times> nat) list"
  mt_active :: "dbos_operation \<Rightarrow> int"
  mt_spans :: "span list"
  mt_drained :: nat

text \<open>\<open>mt_spans\<close> is all that was ever completed; the first \<open>mt_drained\<close> of them have left the collector.\<close>

definition new_metrics :: metrics where
  "new_metrics =
     \<lparr>mt_counters = replicate operation_counter_count 0, mt_durations = [], mt_active = (\<lambda>_. 0), mt_spans = [],
      mt_drained = 0\<rparr>"

text \<open>A handle is \<open>None\<close> when it is disabled. The number of shards does not show in the sums.\<close>

definition disabled_observability :: "metrics option" where
  "disabled_observability = None"

definition new_observability :: "metrics option" where
  "new_observability = Some new_metrics"

definition is_enabled :: "metrics option \<Rightarrow> bool" where
  "is_enabled handle \<longleftrightarrow> handle \<noteq> None"

definition inc_counter :: "nat \<Rightarrow> metrics \<Rightarrow> metrics" where
  "inc_counter i m = m\<lparr>mt_counters := (mt_counters m)[i := mt_counters m ! i + 1]\<rparr>"

definition inc_operation_started :: "dbos_operation \<Rightarrow> metrics \<Rightarrow> metrics" where
  "inc_operation_started operation = inc_counter (started_counter_index operation)"

definition inc_operation_finished :: "dbos_operation \<Rightarrow> operation_outcome \<Rightarrow> metrics \<Rightarrow> metrics" where
  "inc_operation_finished operation outcome = inc_counter (finished_counter_index operation outcome)"

definition record_operation_duration ::
    "dbos_operation \<Rightarrow> operation_outcome \<Rightarrow> nat \<Rightarrow> metrics \<Rightarrow> metrics" where
  "record_operation_duration operation outcome duration_us m =
     m\<lparr>mt_durations := mt_durations m @ [((operation, outcome), duration_us)]\<rparr>"

definition add_active_operation :: "dbos_operation \<Rightarrow> int \<Rightarrow> metrics \<Rightarrow> metrics" where
  "add_active_operation operation v m = m\<lparr>mt_active := (mt_active m)(operation := mt_active m operation + v)\<rparr>"

definition operations_started_sum :: "metrics \<Rightarrow> int" where
  "operations_started_sum m =
     sum_list (map (\<lambda>operation. mt_counters m ! started_counter_index operation) dbos_operations)"

definition operation_pairs :: "(dbos_operation \<times> operation_outcome) list" where
  "operation_pairs = concat (map (\<lambda>operation. map (\<lambda>outcome. (operation, outcome)) operation_outcomes) dbos_operations)"

definition operations_finished_sum :: "metrics \<Rightarrow> int" where
  "operations_finished_sum m =
     sum_list (map (\<lambda>(operation, outcome). mt_counters m ! finished_counter_index operation outcome) operation_pairs)"

definition operations_finished_with_outcome :: "operation_outcome \<Rightarrow> metrics \<Rightarrow> int" where
  "operations_finished_with_outcome outcome m =
     sum_list (map (\<lambda>operation. mt_counters m ! finished_counter_index operation outcome) dbos_operations)"

text \<open>Both sums saturate at \<open>u64::MAX\<close>.\<close>

definition operation_duration_count_sum :: "metrics \<Rightarrow> nat \<times> nat" where
  "operation_duration_count_sum m =
     (min (length (mt_durations m)) (2 ^ 64 - 1), min (sum_list (map snd (mt_durations m))) (2 ^ 64 - 1))"

section \<open>Guards\<close>

record guard =
  gd_operation :: dbos_operation
  gd_started_at :: nat
  gd_span :: span
  gd_finished :: bool

text \<open>A disabled handle and a no-op guard are \<open>None\<close>. Times are microseconds on a monotonic clock.\<close>

definition start_operation ::
    "dbos_operation \<Rightarrow> (string \<times> string) list \<Rightarrow> nat \<Rightarrow> metrics option \<Rightarrow> guard option \<times> metrics option" where
  "start_operation operation attributes now handle =
     (case handle of
        None \<Rightarrow> (None, None)
      | Some m \<Rightarrow>
          (Some \<lparr>gd_operation = operation, gd_started_at = now,
                 gd_span = \<lparr>sp_name = op_span_name operation, sp_kind = op_span_kind operation,
                            sp_attributes = (''dbos.operation'', op_as_str operation) # attributes, sp_status = None\<rparr>,
                 gd_finished = False\<rparr>,
           Some (add_active_operation operation 1 (inc_operation_started operation m))))"

definition duration_us :: "nat \<Rightarrow> nat \<Rightarrow> nat" where
  "duration_us now started_at = min (now - started_at) (2 ^ 64 - 1)"

text \<open>\<open>duration_us as i64\<close> wraps.\<close>

definition as_i64 :: "nat \<Rightarrow> int" where
  "as_i64 n = (let k = int n mod 2 ^ 64 in if k < 2 ^ 63 then k else k - 2 ^ 64)"

definition outcome_message :: "operation_outcome \<Rightarrow> string option \<Rightarrow> span \<Rightarrow> span" where
  "outcome_message outcome error sp =
     (case outcome of
        OutError \<Rightarrow>
          let message = (case error of Some e \<Rightarrow> e | None \<Rightarrow> ''DBOS operation failed'')
          in sp\<lparr>sp_attributes := sp_attributes sp @ [(''error.message'', message)], sp_status := Some (Some message)\<rparr>
      | OutSuccess \<Rightarrow> sp\<lparr>sp_status := Some None\<rparr>
      | OutCached \<Rightarrow> sp\<lparr>sp_status := Some None\<rparr>
      | _ \<Rightarrow> sp)"

definition finish_guard ::
    "operation_outcome \<Rightarrow> string option \<Rightarrow> nat \<Rightarrow> guard \<Rightarrow> metrics \<Rightarrow> guard \<times> metrics" where
  "finish_guard outcome error now g m =
     (if gd_finished g then (g, m)
      else
        let elapsed = duration_us now (gd_started_at g);
            sp = gd_span g;
            sp = sp\<lparr>sp_attributes := sp_attributes sp @ [(''dbos.outcome'', outcome_as_str outcome),
                     (''dbos.duration_us'', show_int (as_i64 elapsed))]\<rparr>
        in (g\<lparr>gd_finished := True, gd_span := outcome_message outcome error sp\<rparr>,
            add_active_operation (gd_operation g) (- 1)
              (record_operation_duration (gd_operation g) outcome elapsed
                (inc_operation_finished (gd_operation g) outcome m))))"

definition finish_success :: "nat \<Rightarrow> guard \<Rightarrow> metrics \<Rightarrow> guard \<times> metrics" where
  "finish_success now = finish_guard OutSuccess None now"

definition finish_cached :: "nat \<Rightarrow> guard \<Rightarrow> metrics \<Rightarrow> guard \<times> metrics" where
  "finish_cached now = finish_guard OutCached None now"

definition finish_cancelled :: "nat \<Rightarrow> guard \<Rightarrow> metrics \<Rightarrow> guard \<times> metrics" where
  "finish_cancelled now = finish_guard OutCancelled None now"

definition finish_error :: "dbos_error \<Rightarrow> nat \<Rightarrow> guard \<Rightarrow> metrics \<Rightarrow> guard \<times> metrics" where
  "finish_error e now = finish_guard OutError (Some (error_to_string e)) now"

text \<open>Dropping the guard finishes it if nothing else has, and then its span, which is collected.\<close>

definition drop_guard :: "nat \<Rightarrow> guard \<Rightarrow> metrics \<Rightarrow> metrics" where
  "drop_guard now g m =
     (case finish_guard OutDropped None now g m of (g', m') \<Rightarrow> m'\<lparr>mt_spans := mt_spans m' @ [gd_span g']\<rparr>)"

text \<open>\<open>observe_result\<close> around an action of the program, with the two clock readings.\<close>

definition observe_result ::
    "dbos_operation \<Rightarrow> (string \<times> string) list \<Rightarrow> nat \<Rightarrow> nat \<Rightarrow> ('s, dbos_error, 'a) act \<Rightarrow>
     ('s \<times> metrics option) \<Rightarrow> (dbos_error + 'a) \<times> 's \<times> metrics option" where
  "observe_result operation attributes now now' future s =
     (case start_operation operation attributes now (snd s) of
        (None, _) \<Rightarrow> (case future (fst s) of (r, s') \<Rightarrow> (r, s', None))
      | (Some g, m) \<Rightarrow>
          (case future (fst s) of
             (r, s') \<Rightarrow>
               (case (case r of Inr _ \<Rightarrow> finish_success now' g (the m) | Inl e \<Rightarrow> finish_error e now' g (the m)) of
                  (g', m') \<Rightarrow> (r, s', Some (drop_guard now' g' m')))))"

section \<open>Snapshot and export\<close>

record telemetry_snapshot =
  ts_operations_started :: int
  ts_operations_finished :: int
  ts_operations_failed :: int
  ts_operations_cached :: int
  ts_active_operations :: int
  ts_operation_duration_count :: nat
  ts_operation_duration_sum_us :: nat
  ts_spans_recorded :: nat
  ts_spans_sampled_out :: nat

text \<open>\<open>span_counts\<close> is what the span collector reports as recorded and as sampled out.\<close>

definition snapshot :: "(span list \<Rightarrow> nat \<times> nat) \<Rightarrow> metrics option \<Rightarrow> telemetry_snapshot" where
  "snapshot span_counts handle =
     (case handle of
        None \<Rightarrow> \<lparr>ts_operations_started = 0, ts_operations_finished = 0, ts_operations_failed = 0,
                 ts_operations_cached = 0, ts_active_operations = 0, ts_operation_duration_count = 0,
                 ts_operation_duration_sum_us = 0, ts_spans_recorded = 0, ts_spans_sampled_out = 0\<rparr>
      | Some m \<Rightarrow> \<lparr>ts_operations_started = operations_started_sum m, ts_operations_finished = operations_finished_sum m,
                 ts_operations_failed = operations_finished_with_outcome OutError m,
                 ts_operations_cached = operations_finished_with_outcome OutCached m,
                 ts_active_operations = sum_list (map (mt_active m) dbos_operations),
                 ts_operation_duration_count = fst (operation_duration_count_sum m),
                 ts_operation_duration_sum_us = snd (operation_duration_count_sum m),
                 ts_spans_recorded = fst (span_counts (mt_spans m)),
                 ts_spans_sampled_out = snd (span_counts (mt_spans m))\<rparr>)"

text \<open>
  \<open>drain_spans\<close> takes out what the collector holds: the spans completed since it was drained before, as far as its
  bounded buffers retain them.
\<close>

definition drain_spans :: "(span list \<Rightarrow> span list) \<Rightarrow> metrics option \<Rightarrow> span list \<times> metrics option" where
  "drain_spans retained handle =
     (case handle of
        None \<Rightarrow> ([], None)
      | Some m \<Rightarrow> (retained (drop (mt_drained m) (mt_spans m)), Some (m\<lparr>mt_drained := length (mt_spans m)\<rparr>)))"

definition newline :: string where
  "newline = [char_of (10::nat)]"

definition quoted :: "string \<Rightarrow> string" where
  "quoted s = [CHR 0x22] @ s @ [CHR 0x22]"

definition export_counter_header :: "string \<Rightarrow> string \<Rightarrow> string" where
  "export_counter_header name help =
     ''# HELP '' @ name @ '' '' @ help @ newline @ ''# TYPE '' @ name @ '' counter'' @ newline"

definition push_operation_counter_sample :: "string \<Rightarrow> dbos_operation \<Rightarrow> int \<Rightarrow> string" where
  "push_operation_counter_sample name operation v =
     name @ ''{operation='' @ quoted (op_as_str operation) @ ''} '' @ show_int v @ newline"

definition push_operation_outcome_counter_sample ::
    "string \<Rightarrow> dbos_operation \<Rightarrow> operation_outcome \<Rightarrow> int \<Rightarrow> string" where
  "push_operation_outcome_counter_sample name operation outcome v =
     name @ ''{operation='' @ quoted (op_as_str operation) @ '',outcome='' @ quoted (outcome_as_str outcome) @ ''} ''
     @ show_int v @ newline"

definition export_operations_started_prometheus :: "metrics \<Rightarrow> string" where
  "export_operations_started_prometheus m =
     export_counter_header ''dbos_operations_started_total'' ''Total DBOS operations started, labelled by operation.''
     @ concat (map (\<lambda>operation.
         let v = mt_counters m ! started_counter_index operation
         in if v \<noteq> 0 then push_operation_counter_sample ''dbos_operations_started_total'' operation v else [])
       dbos_operations)"

definition export_operations_finished_prometheus :: "metrics \<Rightarrow> string" where
  "export_operations_finished_prometheus m =
     export_counter_header ''dbos_operations_finished_total''
       ''Total DBOS operations finished, labelled by operation and outcome.''
     @ concat (map (\<lambda>(operation, outcome).
         let v = mt_counters m ! finished_counter_index operation outcome
         in if v \<noteq> 0 then push_operation_outcome_counter_sample ''dbos_operations_finished_total'' operation outcome v else [])
       operation_pairs)"

definition export_prometheus :: "(metrics \<Rightarrow> string) \<Rightarrow> (metrics \<Rightarrow> string) \<Rightarrow> metrics option \<Rightarrow> string" where
  "export_prometheus export_distribution export_gauge handle =
     (case handle of
        None \<Rightarrow> []
      | Some m \<Rightarrow> export_operations_started_prometheus m @ export_operations_finished_prometheus m
                  @ export_distribution m @ export_gauge m)"

end
