(* ===== verification/Observability_Properties.thy ===== *)
theory Observability_Properties
  imports Observability
begin

text \<open>
  Properties of \<open>Observability\<close>: whatever a program does with its guards, each operation it started is counted once as
  started, once as finished under one outcome, and is in the gauge exactly while its guard is neither finished nor
  dropped. Draining returns every span once.
\<close>

section \<open>The layout of the counters\<close>

lemma op_index_less: "op_index operation < 15"
  by (cases operation) simp_all

lemma outcome_index_less: "outcome_index outcome < 5"
  by (cases outcome) simp_all

lemma op_index_inj: "op_index a = op_index b \<longleftrightarrow> a = b"
  by (cases a; cases b; simp)

lemma outcome_index_inj: "outcome_index a = outcome_index b \<longleftrightarrow> a = b"
  by (cases a; cases b; simp)

lemmas counter_layout = started_counter_index_def finished_counter_index_def operation_counter_count_def
  started_counter_offset_def finished_counter_offset_def operation_count_def outcome_count_def

lemma started_index_less: "started_counter_index operation < operation_counter_count"
  using op_index_less [of operation] by (simp add: counter_layout)

lemma finished_index_less: "finished_counter_index operation outcome < operation_counter_count"
  using op_index_less [of operation] outcome_index_less [of outcome] by (simp add: counter_layout)

lemma started_index_eq: "started_counter_index a = started_counter_index b \<longleftrightarrow> a = b"
  by (simp add: counter_layout op_index_inj)

lemma started_finished_index: "started_counter_index a \<noteq> finished_counter_index b outcome"
  using op_index_less [of a] by (simp add: counter_layout)

lemma finished_index_eq:
  "finished_counter_index a outcome = finished_counter_index b outcome' \<longleftrightarrow> a = b \<and> outcome = outcome'"
proof
  assume e: "finished_counter_index a outcome = finished_counter_index b outcome'"
  have l: "outcome_index outcome < 5" "outcome_index outcome' < 5"
    by (rule outcome_index_less)+
  have s: "op_index a * 5 + outcome_index outcome = op_index b * 5 + outcome_index outcome'"
    using e by (simp add: counter_layout)
  have "op_index a = op_index b" and "outcome_index outcome = outcome_index outcome'"
    using s l by presburger+
  then show "a = b \<and> outcome = outcome'"
    by (simp add: op_index_inj outcome_index_inj)
qed simp

lemmas counter_index = started_index_less finished_index_less started_index_eq finished_index_eq
  started_finished_index started_finished_index [symmetric]

lemma dbos_operations_all: "operation \<in> set dbos_operations" and dbos_operations_distinct: "distinct dbos_operations"
  by (cases operation; simp add: dbos_operations_def) (simp add: dbos_operations_def)

lemma operation_outcomes_all: "outcome \<in> set operation_outcomes"
  and operation_outcomes_distinct: "distinct operation_outcomes"
  by (cases outcome; simp add: operation_outcomes_def) (simp add: operation_outcomes_def)

section \<open>What a program does with its guards\<close>

text \<open>
  A program starts operations, finishes guards it holds, any number of times, and drops them, which in Rust is the last
  thing done to a guard. \<open>i\<close> is the position among the guards that are held.
\<close>

datatype guard_event =
    StartOp dbos_operation "(string \<times> string) list" nat
  | FinishGuard nat operation_outcome "string option" nat
  | DropGuard nat nat

fun remove_at :: "nat \<Rightarrow> 'a list \<Rightarrow> 'a list" where
  "remove_at i xs = take i xs @ drop (Suc i) xs"

fun guard_step :: "guard_event \<Rightarrow> metrics \<times> guard list \<Rightarrow> metrics \<times> guard list" where
  "guard_step (StartOp operation attributes now) (m, gs) =
     (case start_operation operation attributes now (Some m) of
        (Some g, Some m') \<Rightarrow> (m', gs @ [g])
      | _ \<Rightarrow> (m, gs))"
| "guard_step (FinishGuard i outcome error now) (m, gs) =
     (if i < length gs then (case finish_guard outcome error now (gs ! i) m of (g, m') \<Rightarrow> (m', gs[i := g])) else (m, gs))"
| "guard_step (DropGuard i now) (m, gs) =
     (if i < length gs then (drop_guard now (gs ! i) m, remove_at i gs) else (m, gs))"

definition guard_run :: "guard_event list \<Rightarrow> metrics \<times> guard list \<Rightarrow> metrics \<times> guard list" where
  "guard_run events s = fold guard_step events s"

definition starts :: "dbos_operation \<Rightarrow> guard_event list \<Rightarrow> nat" where
  "starts operation events = length (filter (\<lambda>e. case e of StartOp o' _ _ \<Rightarrow> o' = operation | _ \<Rightarrow> False) events)"

definition running :: "dbos_operation \<Rightarrow> guard list \<Rightarrow> nat" where
  "running operation gs = length (filter (\<lambda>g. gd_operation g = operation \<and> \<not> gd_finished g) gs)"

section \<open>The balance of the counters\<close>

definition finished_of :: "metrics \<Rightarrow> dbos_operation \<Rightarrow> int" where
  "finished_of m operation = (\<Sum>outcome\<leftarrow>operation_outcomes. mt_counters m ! finished_counter_index operation outcome)"

definition observed :: "dbos_operation \<Rightarrow> operation_outcome \<Rightarrow> metrics \<Rightarrow> nat" where
  "observed operation outcome m = length (filter (\<lambda>d. fst d = (operation, outcome)) (mt_durations m))"

definition accounts :: "(dbos_operation \<Rightarrow> nat) \<Rightarrow> metrics \<Rightarrow> (dbos_operation \<Rightarrow> int) \<Rightarrow> bool" where
  "accounts started m live \<longleftrightarrow>
     length (mt_counters m) = operation_counter_count
     \<and> (\<forall>operation. mt_counters m ! started_counter_index operation = int (started operation)
          \<and> int (started operation) = finished_of m operation + live operation
          \<and> mt_active m operation = live operation
          \<and> (\<forall>outcome. mt_counters m ! finished_counter_index operation outcome = int (observed operation outcome m)))"

definition live_of :: "guard list \<Rightarrow> dbos_operation \<Rightarrow> int" where
  "live_of gs operation = int (running operation gs)"

definition balanced :: "(dbos_operation \<Rightarrow> nat) \<Rightarrow> metrics \<times> guard list \<Rightarrow> bool" where
  "balanced started s \<longleftrightarrow>
     accounts started (fst s) (live_of (snd s))
     \<and> length (mt_spans (fst s)) + length (snd s) = sum_list (map started dbos_operations)"

lemma nth_inc_counter:
  "j < length (mt_counters m) \<Longrightarrow> mt_counters (inc_counter i m) ! j = mt_counters m ! j + (if i = j then 1 else 0)"
  by (auto simp: inc_counter_def nth_list_update)

lemma inc_counter_fields [simp]:
  "length (mt_counters (inc_counter i m)) = length (mt_counters m)"
  "mt_durations (inc_counter i m) = mt_durations m"
  "mt_active (inc_counter i m) = mt_active m"
  "mt_spans (inc_counter i m) = mt_spans m"
  by (simp_all add: inc_counter_def)

lemmas metric_ops = inc_operation_started_def inc_operation_finished_def record_operation_duration_def
  add_active_operation_def

lemma finished_of_five:
  "finished_of m operation = mt_counters m ! finished_counter_index operation OutSuccess
     + mt_counters m ! finished_counter_index operation OutError
     + mt_counters m ! finished_counter_index operation OutCached
     + mt_counters m ! finished_counter_index operation OutCancelled
     + mt_counters m ! finished_counter_index operation OutDropped"
  by (simp add: finished_of_def operation_outcomes_def)

lemma account_start:
  assumes "accounts started m live"
  shows "accounts (started(operation := Suc (started operation)))
           (add_active_operation operation 1 (inc_operation_started operation m))
           (live(operation := live operation + 1))"
  using assms
  by (auto simp: accounts_def metric_ops nth_inc_counter counter_index finished_of_five observed_def)

lemma account_finish:
  assumes "accounts started m live"
  shows "accounts started
           (add_active_operation operation (- 1)
             (record_operation_duration operation outcome elapsed (inc_operation_finished operation outcome m)))
           (live(operation := live operation - 1))"
  using assms
  by (cases outcome)
     (auto simp: accounts_def metric_ops nth_inc_counter counter_index finished_of_five observed_def)

lemma account_spans [simp]: "accounts started (m\<lparr>mt_spans := sps\<rparr>) live = accounts started m live"
  by (simp add: accounts_def finished_of_five observed_def)

section \<open>The steps of a program\<close>

lemma live_of_Nil: "live_of [] = (\<lambda>_. 0)"
  by (simp add: live_of_def running_def fun_eq_iff)

lemma live_of_append: "live_of (gs @ hs) operation = live_of gs operation + live_of hs operation"
  by (simp add: live_of_def running_def)

lemma live_of_Cons:
  "live_of (g # gs) operation = (if gd_operation g = operation \<and> \<not> gd_finished g then 1 else 0) + live_of gs operation"
  by (simp add: live_of_def running_def)

lemmas live_simps = live_of_Nil live_of_append live_of_Cons

lemma live_remove_at:
  assumes "i < length gs"
  shows "live_of gs operation = live_of [gs ! i] operation + live_of (remove_at i gs) operation"
proof -
  have "live_of gs operation = live_of (take i gs @ gs ! i # drop (Suc i) gs) operation"
    by (simp only: id_take_nth_drop [OF assms, symmetric])
  then show ?thesis
    by (simp add: live_simps)
qed

lemma live_update:
  "i < length gs \<Longrightarrow>
   live_of (gs[i := g]) operation = live_of [g] operation + live_of gs operation - live_of [gs ! i] operation"
  using live_remove_at [of i gs operation] by (simp add: upd_conv_take_nth_drop live_simps)

lemma sum_started_succ:
  "sum_list (map (started(operation := Suc (started operation))) dbos_operations) =
   Suc (sum_list (map started dbos_operations))"
  by (cases operation) (simp_all add: dbos_operations_def)

lemma finish_guard_accounts:
  assumes "accounts started m live" and "finish_guard outcome error now g m = (g', m')"
  shows "accounts started m' (\<lambda>operation. live operation - live_of [g] operation) \<and> gd_finished g'
    \<and> mt_spans m' = mt_spans m"
proof (cases "gd_finished g")
  case True
  then show ?thesis
    using assms by (simp add: finish_guard_def live_simps)
next
  case False
  have "(\<lambda>operation. live operation - live_of [g] operation) = live(gd_operation g := live (gd_operation g) - 1)"
    using False by (auto simp: live_simps fun_eq_iff)
  then show ?thesis
    using assms False account_finish [OF assms(1)] by (auto simp: finish_guard_def Let_def metric_ops)
qed

lemma start_step:
  assumes "balanced started (m, gs)"
  shows "balanced (started(operation := Suc (started operation))) (guard_step (StartOp operation attributes now) (m, gs))"
proof -
  obtain g where g: "start_operation operation attributes now (Some m) =
      (Some g, Some (add_active_operation operation 1 (inc_operation_started operation m)))"
      and og: "gd_operation g = operation" "\<not> gd_finished g"
    by (simp add: start_operation_def)
  have "live_of (gs @ [g]) = (live_of gs)(operation := live_of gs operation + 1)"
    using og by (auto simp: live_simps fun_eq_iff)
  then show ?thesis
    using assms account_start [of started m "live_of gs" operation]
    by (simp add: balanced_def g sum_started_succ del: fun_upd_apply) (simp add: metric_ops)
qed

lemma finish_step:
  assumes "balanced started (m, gs)"
  shows "balanced started (guard_step (FinishGuard i outcome error now) (m, gs))"
proof (cases "i < length gs")
  case True
  obtain g m' where f: "finish_guard outcome error now (gs ! i) m = (g, m')"
    by fastforce
  from finish_guard_accounts [OF _ f, of started "live_of gs"] assms
  have a: "accounts started m' (\<lambda>operation. live_of gs operation - live_of [gs ! i] operation)"
      and fin: "gd_finished g" and sp: "mt_spans m' = mt_spans m"
    by (simp_all add: balanced_def)
  have "live_of (gs[i := g]) = (\<lambda>operation. live_of gs operation - live_of [gs ! i] operation)"
    using fin by (simp add: live_update [OF True] live_simps fun_eq_iff)
  then show ?thesis
    using True a sp assms by (simp add: f balanced_def)
qed (use assms in simp)

lemma drop_step:
  assumes "balanced started (m, gs)"
  shows "balanced started (guard_step (DropGuard i now) (m, gs))"
proof (cases "i < length gs")
  case True
  obtain g m' where f: "finish_guard OutDropped None now (gs ! i) m = (g, m')"
    by fastforce
  from finish_guard_accounts [OF _ f, of started "live_of gs"] assms
  have a: "accounts started m' (\<lambda>operation. live_of gs operation - live_of [gs ! i] operation)"
      and sp: "mt_spans m' = mt_spans m"
    by (simp_all add: balanced_def)
  have "live_of (remove_at i gs) = (\<lambda>operation. live_of gs operation - live_of [gs ! i] operation)"
    using live_remove_at [OF True] by (simp add: fun_eq_iff)
  then show ?thesis
    using True a sp assms by (simp add: f balanced_def drop_guard_def)
qed (use assms in simp)

lemma starts_Cons:
  "starts operation (e # events) =
     (case e of StartOp o' _ _ \<Rightarrow> if o' = operation then 1 else 0 | _ \<Rightarrow> 0) + starts operation events"
  by (simp add: starts_def split: guard_event.splits)

lemma step_balanced:
  assumes "balanced started s"
  shows "balanced (\<lambda>operation. started operation + starts operation [e]) (guard_step e s)"
proof (cases e)
  case (StartOp operation attributes now)
  have "(\<lambda>x. started x + starts x [e]) = started(operation := Suc (started operation))"
    by (auto simp: StartOp starts_def fun_eq_iff)
  then show ?thesis
    using start_step assms StartOp by (metis surj_pair)
next
  case (FinishGuard i outcome error now)
  then show ?thesis
    using finish_step assms by (cases s) (simp add: starts_def)
next
  case (DropGuard i now)
  then show ?thesis
    using drop_step assms by (cases s) (simp add: starts_def)
qed

lemma run_balanced:
  "balanced started s \<Longrightarrow> balanced (\<lambda>operation. started operation + starts operation events) (guard_run events s)"
proof (induction events arbitrary: started s)
  case Nil
  then show ?case
    by (simp add: guard_run_def starts_def)
next
  case (Cons e events)
  have "(\<lambda>x. started x + starts x [e] + starts x events) = (\<lambda>x. started x + starts x (e # events))"
    by (simp add: starts_def fun_eq_iff)
  then show ?case
    using Cons.IH [OF step_balanced [OF Cons.prems, of e]] by (simp add: guard_run_def)
qed

lemma new_metrics_balanced: "balanced (\<lambda>_. 0) (new_metrics, [])"
proof -
  have "\<And>j. j < operation_counter_count \<Longrightarrow> mt_counters new_metrics ! j = 0"
    by (simp add: new_metrics_def)
  moreover have "sum_list (map (\<lambda>_. 0::nat) dbos_operations) = 0"
    by (simp add: dbos_operations_def)
  ultimately show ?thesis
    by (simp add: balanced_def accounts_def finished_of_five observed_def counter_index live_of_Nil)
       (simp add: new_metrics_def)
qed

section \<open>What the snapshot reports\<close>

definition is_start :: "guard_event \<Rightarrow> bool" where
  "is_start e = (case e of StartOp _ _ _ \<Rightarrow> True | _ \<Rightarrow> False)"

lemma sum_starts: "(\<Sum>operation\<leftarrow>dbos_operations. starts operation events) = length (filter is_start events)"
proof (induction events)
  case Nil
  then show ?case
    by (simp add: starts_def dbos_operations_def)
next
  case (Cons e events)
  have "(\<Sum>operation\<leftarrow>dbos_operations. starts operation [e]) = length (filter is_start [e])"
  proof (cases e)
    case (StartOp operation attributes now)
    then show ?thesis
      by (cases operation) (simp_all add: starts_def is_start_def dbos_operations_def)
  qed (simp_all add: starts_def is_start_def dbos_operations_def)
  moreover have "(\<Sum>operation\<leftarrow>dbos_operations. starts operation (e # events)) =
      (\<Sum>operation\<leftarrow>dbos_operations. starts operation [e]) + (\<Sum>operation\<leftarrow>dbos_operations. starts operation events)"
    by (simp add: starts_def dbos_operations_def)
  ultimately show ?case
    using Cons.IH by simp
qed

lemma sum_live: "(\<Sum>operation\<leftarrow>dbos_operations. live_of gs operation) = int (length (filter (\<lambda>g. \<not> gd_finished g) gs))"
proof (induction gs)
  case Nil
  then show ?case
    by (simp add: live_simps dbos_operations_def)
next
  case (Cons g gs)
  have "(\<Sum>operation\<leftarrow>dbos_operations. live_of [g] operation) = (if gd_finished g then 0 else 1)"
    by (cases "gd_operation g") (simp_all add: live_simps dbos_operations_def)
  moreover have "(\<Sum>operation\<leftarrow>dbos_operations. live_of (g # gs) operation) =
      (\<Sum>operation\<leftarrow>dbos_operations. live_of [g] operation) + (\<Sum>operation\<leftarrow>dbos_operations. live_of gs operation)"
    by (simp add: live_simps dbos_operations_def)
  ultimately show ?case
    using Cons.IH by simp
qed

lemma finished_sum_by_operation:
  "operations_finished_sum m = (\<Sum>operation\<leftarrow>dbos_operations. finished_of m operation)"
  unfolding operations_finished_sum_def operation_pairs_def finished_of_def
  by (simp add: dbos_operations_def operation_outcomes_def)

lemma sum_observed:
  "(\<Sum>operation\<leftarrow>dbos_operations. \<Sum>outcome\<leftarrow>operation_outcomes. int (observed operation outcome m)) =
   int (length (mt_durations m))"
proof -
  have "(\<Sum>operation\<leftarrow>dbos_operations. \<Sum>outcome\<leftarrow>operation_outcomes.
           int (length (filter (\<lambda>d. fst d = (operation, outcome)) ds))) = int (length ds)" for ds
  proof (induction ds)
    case Nil
    then show ?case
      by (simp add: dbos_operations_def operation_outcomes_def)
  next
    case (Cons d ds)
    have one: "(\<Sum>operation\<leftarrow>dbos_operations. \<Sum>outcome\<leftarrow>operation_outcomes.
        (if fst d = (operation, outcome) then 1 else (0::int))) = 1"
      by (cases "fst (fst d)"; cases "snd (fst d)"; simp add: prod_eq_iff dbos_operations_def operation_outcomes_def)
    have "int (length (filter (\<lambda>d. fst d = (operation, outcome)) (d # ds))) =
        (if fst d = (operation, outcome) then 1 else 0) + int (length (filter (\<lambda>d. fst d = (operation, outcome)) ds))"
      for operation outcome
      by simp
    then show ?case
      using one Cons.IH by (simp only: sum_list_addf) simp
  qed
  then show ?thesis
    by (simp add: observed_def)
qed

lemma observed_with_outcome:
  "(\<Sum>operation\<leftarrow>dbos_operations. int (observed operation outcome m)) =
   int (length (filter (\<lambda>d. snd (fst d) = outcome) (mt_durations m)))"
proof -
  have "(\<Sum>operation\<leftarrow>dbos_operations. int (length (filter (\<lambda>d. fst d = (operation, outcome)) ds))) =
        int (length (filter (\<lambda>d. snd (fst d) = outcome) ds))" for ds
  proof (induction ds)
    case Nil
    then show ?case
      by (simp add: dbos_operations_def)
  next
    case (Cons d ds)
    have one: "(\<Sum>operation\<leftarrow>dbos_operations. (if fst d = (operation, outcome) then 1 else (0::int))) =
        (if snd (fst d) = outcome then 1 else 0)"
      by (cases "fst (fst d)"; simp add: prod_eq_iff dbos_operations_def)
    have "int (length (filter (\<lambda>d. fst d = (operation, outcome)) (d # ds))) =
        (if fst d = (operation, outcome) then 1 else 0) + int (length (filter (\<lambda>d. fst d = (operation, outcome)) ds))"
      for operation
      by simp
    then show ?case
      using one Cons.IH by (simp only: sum_list_addf) simp
  qed
  then show ?thesis
    by (simp add: observed_def)
qed

text \<open>C30: Start from new metrics and let the program start operations, finish the guards it holds, also repeatedly, and
  drop them, in any order. Then the snapshot shows as started exactly the operations that were started; started is
  finished plus active; the gauge of every operation is the number of its guards that are still unfinished; every
  finished operation has recorded one duration; the failed and the cached ones are those whose guards finished with that
  outcome; and every guard has sent its span exactly once when it was dropped.\<close>

theorem observability_balanced:
  "case guard_run events (new_metrics, []) of (m, gs) \<Rightarrow>
     ts_operations_started (snapshot span_counts (Some m)) = int (length (filter is_start events))
     \<and> ts_operations_started (snapshot span_counts (Some m)) =
         ts_operations_finished (snapshot span_counts (Some m)) + ts_active_operations (snapshot span_counts (Some m))
     \<and> ts_active_operations (snapshot span_counts (Some m)) = int (length (filter (\<lambda>g. \<not> gd_finished g) gs))
     \<and> (\<forall>operation. mt_active m operation =
           int (length (filter (\<lambda>g. gd_operation g = operation \<and> \<not> gd_finished g) gs)))
     \<and> ts_operations_finished (snapshot span_counts (Some m)) = int (length (mt_durations m))
     \<and> ts_operations_failed (snapshot span_counts (Some m)) = int (length (filter (\<lambda>d. snd (fst d) = OutError) (mt_durations m)))
     \<and> ts_operations_cached (snapshot span_counts (Some m)) = int (length (filter (\<lambda>d. snd (fst d) = OutCached) (mt_durations m)))
     \<and> length (mt_spans m) + length gs = length (filter is_start events)"
proof -
  obtain m gs where r: "guard_run events (new_metrics, []) = (m, gs)"
    by fastforce
  have b: "balanced (\<lambda>operation. starts operation events) (m, gs)"
    using run_balanced [OF new_metrics_balanced, of events] by (simp add: r)
  then have started: "operations_started_sum m = int (length (filter is_start events))"
    unfolding sum_starts [symmetric] by (simp add: balanced_def accounts_def operations_started_sum_def dbos_operations_def)
  have active: "sum_list (map (mt_active m) dbos_operations) = int (length (filter (\<lambda>g. \<not> gd_finished g) gs))"
    unfolding sum_live [symmetric] using b by (simp add: balanced_def accounts_def dbos_operations_def)
  have fin: "operations_finished_sum m = int (length (mt_durations m))"
    unfolding sum_observed [symmetric] finished_sum_by_operation finished_of_def
    using b by (simp add: balanced_def accounts_def)
  have sums: "operations_started_sum m = operations_finished_sum m + sum_list (map (mt_active m) dbos_operations)"
    using b by (simp add: balanced_def accounts_def operations_started_sum_def finished_sum_by_operation dbos_operations_def)
  have out: "operations_finished_with_outcome outcome m =
      int (length (filter (\<lambda>d. snd (fst d) = outcome) (mt_durations m)))" for outcome
    using b observed_with_outcome [of outcome m]
    by (simp add: balanced_def accounts_def operations_finished_with_outcome_def)
  show ?thesis
    using b started active fin sums out
    by (simp add: r snapshot_def balanced_def accounts_def sum_starts live_of_def running_def)
qed

section \<open>Draining\<close>

lemma inc_counter_drained [simp]: "mt_drained (inc_counter i m) = mt_drained m"
  by (simp add: inc_counter_def)

lemma finish_guard_spans: "finish_guard outcome error now g m = (g', m') \<Longrightarrow> mt_spans m' = mt_spans m \<and> mt_drained m' = mt_drained m"
  by (auto simp: finish_guard_def metric_ops Let_def split: if_splits)

lemma guard_step_spans:
  assumes "guard_step e (m, gs) = (m', gs')"
  shows "\<exists>new. mt_spans m' = mt_spans m @ new \<and> mt_drained m' = mt_drained m \<and>
    length new + length gs' = length gs + (if is_start e then 1 else 0)"
proof (cases e)
  case (StartOp operation attributes now)
  with assms show ?thesis by (auto simp: start_operation_def metric_ops is_start_def)
next
  case (FinishGuard i outcome error now)
  with assms show ?thesis
    by (auto simp: is_start_def dest: finish_guard_spans split: if_splits prod.splits)
next
  case (DropGuard i now)
  obtain g m1 where f: "finish_guard OutDropped None now (gs ! i) m = (g, m1)" by fastforce
  from finish_guard_spans [OF f] f DropGuard assms show ?thesis
    by (auto simp: is_start_def drop_guard_def split: if_splits)
qed

lemma guard_run_spans:
  "guard_run events (m, gs) = (m', gs') \<Longrightarrow> \<exists>new. mt_spans m' = mt_spans m @ new \<and> mt_drained m' = mt_drained m \<and>
    length new + length gs' = length gs + length (filter is_start events)"
proof (induction events arbitrary: m gs)
  case Nil
  then show ?case by (simp add: guard_run_def)
next
  case (Cons e events)
  obtain m1 gs1 where one: "guard_step e (m, gs) = (m1, gs1)" by fastforce
  with Cons.prems have "guard_run events (m1, gs1) = (m', gs')" by (simp add: guard_run_def)
  from Cons.IH [OF this] guard_step_spans [OF one] show ?case by auto
qed

text \<open>
  Between two drains a program starts, finishes and drops guards. With buffers that retain everything, the second drain returns
  the spans of exactly the guards dropped in between, and a third one, right after it, none.
\<close>

theorem drained_once:
  assumes "drain_spans id (Some m) = (before, Some m1)" "guard_run events (m1, gs) = (m2, gs2)"
    and "drain_spans id (Some m2) = (between, Some m3)"
  shows "mt_spans m2 = mt_spans m @ between \<and> length between + length gs2 = length gs + length (filter is_start events) \<and>
    fst (drain_spans id (Some m3)) = []"
  using guard_run_spans [OF assms(2)] assms(1,3) by (auto simp: drain_spans_def)

end
