(* ===== verification/Lifecycle.thy ===== *)
theory Lifecycle
  imports Workflow_Ops Schedules Conductor_Wire
begin

text \<open>
  The life of a \<open>DbosContext\<close> (\<open>src/src/context.rs\<close>): how it is built, the contexts derived from it with their values,
  deadlines and cancellation flags, \<open>launch\<close> and \<open>shutdown\<close>, and the loops of the two supervisors. Flags that
  Rust shares behind an \<open>Arc\<close> are cells of a heap, named by their position. The tasks themselves, the conductor's
  transport and the logging are not modelled: a task is present or it is not.
\<close>

section \<open>Building a context\<close>

text \<open>\<open>DbosContext::new\<close>; \<open>db\<close> is the store that \<open>build_store\<close> chose.\<close>

definition new_context ::
    "(string \<Rightarrow> string option) \<Rightarrow> bool \<Rightarrow> bool \<Rightarrow> (store_choice \<Rightarrow> 's system_database res) \<Rightarrow> codec \<Rightarrow> dbos_config \<Rightarrow>
     ('s system_database \<times> dbos_context) res" where
  "new_context env turso postgres open_store c config =
     res_bind (normalize_config env config) (\<lambda>config.
     res_bind (build_store turso postgres config) (\<lambda>choice.
     res_bind (open_store choice) (\<lambda>db.
     res_bind (check_claims db) (\<lambda>_.
       Inr (db, \<lparr>cx_config = config, cx_codec = c, cx_run_state = None\<rparr>)))))"

section \<open>Derived contexts\<close>

type_synonym cancel_cells = "(bool \<times> string option) list"

record scope =
  sc_context :: dbos_context
  sc_values :: "(string, json) btreemap"
  sc_deadline :: "datetime option"
  sc_cell :: nat

definition fresh_cell :: "cancel_cells \<Rightarrow> nat \<times> cancel_cells" where
  "fresh_cell cells = (length cells, cells @ [(False, None)])"

definition root_scope :: "dbos_context \<Rightarrow> cancel_cells \<Rightarrow> scope \<times> cancel_cells" where
  "root_scope ctx cells =
     (case fresh_cell cells of
        (cell, cells') \<Rightarrow> (\<lparr>sc_context = ctx, sc_values = [], sc_deadline = None, sc_cell = cell\<rparr>, cells'))"

definition with_value :: "string \<Rightarrow> json res \<Rightarrow> scope \<Rightarrow> scope res" where
  "with_value key v sc = res_map (\<lambda>v. sc\<lparr>sc_values := bt_insert key v (sc_values sc)\<rparr>) v"

definition context_value :: "'a serde \<Rightarrow> string \<Rightarrow> scope \<Rightarrow> 'a option res" where
  "context_value ty key sc =
     (case map_of (sc_values sc) key of
        None \<Rightarrow> Inr None
      | Some v \<Rightarrow> res_map Some (from_value ty v))"

text \<open>The second component is the cancel handle.\<close>

definition with_cancel :: "scope \<Rightarrow> cancel_cells \<Rightarrow> (scope \<times> nat) \<times> cancel_cells" where
  "with_cancel sc cells =
     (case fresh_cell cells of (cell, cells') \<Rightarrow> ((sc\<lparr>sc_cell := cell\<rparr>, cell), cells'))"

definition with_cancel_cause :: "scope \<Rightarrow> cancel_cells \<Rightarrow> (scope \<times> nat) \<times> cancel_cells" where
  "with_cancel_cause = with_cancel"

definition without_cancel :: "scope \<Rightarrow> cancel_cells \<Rightarrow> scope \<times> cancel_cells" where
  "without_cancel sc cells = (case fresh_cell cells of (cell, cells') \<Rightarrow> (sc\<lparr>sc_cell := cell\<rparr>, cells'))"

definition with_timeout_scope :: "datetime \<Rightarrow> duration \<Rightarrow> scope \<Rightarrow> cancel_cells \<Rightarrow> (scope \<times> nat) \<times> cancel_cells" where
  "with_timeout_scope now timeout sc cells =
     (case with_cancel sc cells of
        ((sc', cell), cells') \<Rightarrow>
          ((sc'\<lparr>sc_deadline := map_option (\<lambda>d. now + d) (chrono_from_std timeout)\<rparr>, cell), cells'))"

definition cancel :: "nat \<Rightarrow> cancel_cells \<Rightarrow> cancel_cells" where
  "cancel cell cells = cells[cell := (True, snd (cells ! cell))]"

definition cancel_with_cause :: "nat \<Rightarrow> string \<Rightarrow> cancel_cells \<Rightarrow> cancel_cells" where
  "cancel_with_cause cell cause cells = cancel cell (cells[cell := (fst (cells ! cell), Some cause)])"

definition handle_is_cancelled :: "nat \<Rightarrow> cancel_cells \<Rightarrow> bool" where
  "handle_is_cancelled cell cells = fst (cells ! cell)"

definition handle_cause :: "nat \<Rightarrow> cancel_cells \<Rightarrow> string option" where
  "handle_cause cell cells = snd (cells ! cell)"

definition is_cancelled :: "scope \<Rightarrow> cancel_cells \<Rightarrow> bool" where
  "is_cancelled sc = handle_is_cancelled (sc_cell sc)"

definition cancel_cause :: "scope \<Rightarrow> cancel_cells \<Rightarrow> string option" where
  "cancel_cause sc = handle_cause (sc_cell sc)"

section \<open>Launch and shutdown\<close>

datatype supervisor_task = QueueSupervisor | ScheduleSupervisor

record conductor_handle =
  ch_url :: string
  ch_config :: conductor_config

text \<open>\<open>connect_conductor\<close>, with the compile-time feature as an argument; its task runs the transport.\<close>

definition connect_conductor :: "bool \<Rightarrow> conductor_config \<Rightarrow> conductor_handle res" where
  "connect_conductor feature config =
     (if \<not> feature then Inl (unsupported ''conductor support requires the conductor feature'')
      else if cc_url config = '''' then Inl (invalid_argument ''conductor URL is required'')
      else if cc_api_key config = '''' then Inl (invalid_argument ''conductor API key is required'')
      else Inr \<lparr>ch_url = cc_url config, ch_config = config\<rparr>)"

record 's lifecycle =
  lc_app :: "'s app"
  lc_launched :: bool
  lc_tasks :: "supervisor_task list"
  lc_conductor :: "conductor_handle option"

definition new_lifecycle :: "'s app \<Rightarrow> 's lifecycle" where
  "new_lifecycle a = \<lparr>lc_app = a, lc_launched = False, lc_tasks = [], lc_conductor = None\<rparr>"

definition on_app :: "('s app, 'a) dbact \<Rightarrow> ('s lifecycle, 'a) dbact" where
  "on_app m lc = (case m (lc_app lc) of (r, a') \<Rightarrow> (r, lc\<lparr>lc_app := a'\<rparr>))"

definition start_supervisors :: "('s lifecycle, unit) dbact" where
  "start_supervisors lc = (Inr (), lc\<lparr>lc_tasks := lc_tasks lc @ [QueueSupervisor, ScheduleSupervisor]\<rparr>)"

definition start_conductor :: "bool \<Rightarrow> conductor_config option \<Rightarrow> ('s lifecycle, unit) dbact" where
  "start_conductor feature config lc =
     (case config of
        None \<Rightarrow> (Inr (), lc)
      | Some cc \<Rightarrow>
          (case connect_conductor feature cc of
             Inl e \<Rightarrow> (Inl e, lc)
           | Inr handle \<Rightarrow> (Inr (), lc\<lparr>lc_conductor := Some handle\<rparr>)))"

definition launch_steps ::
    "'s system_database \<Rightarrow> bool \<Rightarrow> dbos_context \<Rightarrow> conductor_config option \<Rightarrow> datetime \<Rightarrow> ('s lifecycle, unit) dbact" where
  "launch_steps db feature ctx config now =
     act_bind (on_app (on_store (initialize_system_database db ctx now))) (\<lambda>_.
     act_bind start_supervisors (\<lambda>_.
     act_bind (start_conductor feature config) (\<lambda>_.
     act_bind (on_app (recover_pending_workflows db [executor_id ctx])) (\<lambda>_.
       act_return ()))))"

text \<open>
  The list of tasks holds the supervisors and every execution that was spawned, \<open>app_spawned\<close>; all are aborted.
\<close>

definition shutdown :: "'s lifecycle \<Rightarrow> 's lifecycle" where
  "shutdown lc =
     lc\<lparr>lc_launched := False, lc_conductor := None, lc_tasks := [], lc_app := (lc_app lc)\<lparr>app_spawned := []\<rparr>\<rparr>"

definition launch ::
    "'s system_database \<Rightarrow> bool \<Rightarrow> dbos_context \<Rightarrow> datetime \<Rightarrow> ('s lifecycle, unit) dbact" where
  "launch db feature ctx now lc =
     (case conductor_config_of (cx_config ctx) of
        Inl e \<Rightarrow> (Inl e, lc)
      | Inr config \<Rightarrow>
          if lc_launched lc then (Inl (initialization_error ''DBOS is already launched''), lc)
          else (case launch_steps db feature ctx config now (lc\<lparr>lc_launched := True\<rparr>) of
                  (Inl e, lc') \<Rightarrow> (Inl e, shutdown lc')
                | (Inr _, lc') \<Rightarrow> (Inr (), lc')))"

section \<open>The supervisors\<close>

text \<open>
  A supervisor does a round while the context is launched, logs a failed one and goes on. A round of the
  list is whether the context is still launched, the clock, and what other tasks do during the pause after it.
  The list ends where the observation ends; the errors logged are returned.
\<close>

fun supervisor_rounds ::
    "(datetime \<Rightarrow> ('s app, unit) dbact) \<Rightarrow> (bool \<times> datetime \<times> ('s app \<Rightarrow> 's app)) list \<Rightarrow> 's app \<Rightarrow>
     dbos_error list \<times> 's app" where
  "supervisor_rounds body [] a = ([], a)"
| "supervisor_rounds body ((launched, now, others) # rounds) a =
     (if \<not> launched then ([], a)
      else case body now a of
             (r, a') \<Rightarrow>
               (case supervisor_rounds body rounds (others a') of
                  (errors, a'') \<Rightarrow> (case r of Inl e \<Rightarrow> (e # errors, a'') | Inr _ \<Rightarrow> (errors, a''))))"

definition queue_supervisor ::
    "'s system_database \<Rightarrow> string set \<Rightarrow> (bool \<times> datetime \<times> ('s app \<Rightarrow> 's app)) list \<Rightarrow> 's app \<Rightarrow>
     dbos_error list \<times> 's app" where
  "queue_supervisor db listened = supervisor_rounds (\<lambda>now. transition_and_run_queued_workflows db now listened)"

definition schedule_supervisor ::
    "'c cron_lib \<Rightarrow> time_lib \<Rightarrow> 's system_database \<Rightarrow> dbos_context \<Rightarrow> string \<Rightarrow>
     (bool \<times> datetime \<times> ('s app \<Rightarrow> 's app)) list \<Rightarrow> 's app \<Rightarrow> dbos_error list \<times> 's app" where
  "schedule_supervisor cron tm db ctx fresh = supervisor_rounds (\<lambda>now. reconcile_schedules cron tm db ctx now fresh)"

end
