(* ===== verification/Client.thy ===== *)
theory Client
  imports Lifecycle
begin

text \<open>
  The standalone client, \<open>src/src/client.rs\<close>, and the debouncers, \<open>src/src/debouncer.rs\<close>. A client is a context that is
  initialised but never launched; its other methods hand their arguments to the operation of the context of the same
  name (\<open>Client_Calls\<close>).
\<close>

section \<open>The client\<close>

record client_config =
  cl_database_url :: "string option"
  cl_turso_path :: "string option"
  cl_database_schema :: string
  cl_system_database :: bool

definition default_client_config :: client_config where
  "default_client_config =
     \<lparr>cl_database_url = None, cl_turso_path = None, cl_database_schema = ''dbos'', cl_system_database = False\<rparr>"

definition client_context_config :: "client_config \<Rightarrow> dbos_config" where
  "client_context_config config =
     (new_config ''dbos-client'')\<lparr>
       cfg_database_url := cl_database_url config, cfg_turso_path := cl_turso_path config,
       cfg_database_schema := cl_database_schema config, cfg_system_database := cl_system_database config\<rparr>"

text \<open>Building the context does not touch the store it opens; initialising it does.\<close>

definition new_client ::
    "(string \<Rightarrow> string option) \<Rightarrow> bool \<Rightarrow> bool \<Rightarrow> (store_choice \<Rightarrow> 's system_database res) \<Rightarrow> codec \<Rightarrow> datetime \<Rightarrow>
     client_config \<Rightarrow> ('s, 's system_database \<times> dbos_context) dbact" where
  "new_client env turso postgres open_store c now config =
     act_bind (act_lift (new_context env turso postgres open_store c (client_context_config config))) (\<lambda>(db, ctx).
     act_bind (initialize_system_database db ctx now) (\<lambda>_.
       act_return (db, ctx)))"

definition enqueue_workflow_options :: "string \<Rightarrow> enqueue_options \<Rightarrow> workflow_options" where
  "enqueue_workflow_options queue_name opts =
     \<lparr>wo_workflow_id = eo_workflow_id opts, wo_queue_name = Some queue_name,
      wo_application_version = eo_application_version opts, wo_deduplication_id = eo_deduplication_id opts,
      wo_priority = eo_priority opts, wo_timeout = eo_timeout opts, wo_delay = eo_delay opts,
      wo_authenticated_user = eo_authenticated_user opts, wo_assumed_role = eo_assumed_role opts,
      wo_authenticated_roles = eo_authenticated_roles opts, wo_queue_partition_key = eo_queue_partition_key opts,
      wo_class_name = eo_class_name opts, wo_config_name = eo_config_name opts, wo_parent_workflow_id = None,
      wo_max_retries = None, wo_portable = eo_portable opts\<rparr>"

definition client_enqueue ::
    "'s system_database \<Rightarrow> dbos_context \<Rightarrow> datetime \<Rightarrow> string \<Rightarrow> string \<Rightarrow> string \<Rightarrow> 'a serde \<Rightarrow> 'a \<Rightarrow> enqueue_options \<Rightarrow>
     ('s app, string) dbact" where
  "client_enqueue db ctx now fresh queue_name workflow_name ty input opts =
     run_workflow db ctx now fresh workflow_name ty input (enqueue_workflow_options queue_name opts)"

section \<open>Debouncers\<close>

record debouncer =
  de_workflow_name :: string
  de_timeout :: "duration option"
  de_queue_name :: string

definition new_debouncer :: "string \<Rightarrow> debouncer" where
  "new_debouncer workflow_name =
     \<lparr>de_workflow_name = workflow_name, de_timeout = None, de_queue_name = internal_queue\<rparr>"

definition debouncer_with_timeout :: "debouncer \<Rightarrow> duration \<Rightarrow> debouncer" where
  "debouncer_with_timeout d timeout = d\<lparr>de_timeout := Some timeout\<rparr>"

definition debouncer_with_queue :: "debouncer \<Rightarrow> string \<Rightarrow> debouncer" where
  "debouncer_with_queue d queue_name = d\<lparr>de_queue_name := queue_name\<rparr>"

definition debounce_options ::
    "debouncer \<Rightarrow> string \<Rightarrow> string \<Rightarrow> duration \<Rightarrow> workflow_options \<Rightarrow> workflow_options" where
  "debounce_options d uuid key delay opts =
     opts\<lparr>wo_workflow_id := or_default (wo_workflow_id opts) uuid,
          wo_queue_name := Some (de_queue_name d),
          wo_deduplication_id := Some key,
          wo_delay := Some delay,
          wo_timeout := or_else (wo_timeout opts) (de_timeout d)\<rparr>"

definition debounce ::
    "'s system_database \<Rightarrow> dbos_context \<Rightarrow> datetime \<Rightarrow> string \<Rightarrow> debouncer \<Rightarrow> string \<Rightarrow> duration \<Rightarrow> 'a serde \<Rightarrow> 'a \<Rightarrow>
     workflow_options \<Rightarrow> ('s app, string) dbact" where
  "debounce db ctx now uuid d key delay ty input opts =
     run_workflow db ctx now uuid (de_workflow_name d) ty input (debounce_options d uuid key delay opts)"

text \<open>\<open>DebouncerClient\<close>, with the client it calls left to \<open>client_debounce\<close>.\<close>

record debouncer_client =
  dc_workflow_name :: string
  dc_timeout :: "duration option"
  dc_queue_name :: string

definition new_debouncer_client :: "string \<Rightarrow> debouncer_client" where
  "new_debouncer_client workflow_name =
     \<lparr>dc_workflow_name = workflow_name, dc_timeout = None, dc_queue_name = internal_queue\<rparr>"

definition debouncer_client_with_timeout :: "debouncer_client \<Rightarrow> duration \<Rightarrow> debouncer_client" where
  "debouncer_client_with_timeout d timeout = d\<lparr>dc_timeout := Some timeout\<rparr>"

definition debouncer_client_with_queue :: "debouncer_client \<Rightarrow> string \<Rightarrow> debouncer_client" where
  "debouncer_client_with_queue d queue_name = d\<lparr>dc_queue_name := queue_name\<rparr>"

definition client_debounce_options ::
    "debouncer_client \<Rightarrow> string \<Rightarrow> string \<Rightarrow> duration \<Rightarrow> enqueue_options \<Rightarrow> enqueue_options" where
  "client_debounce_options d uuid key delay opts =
     opts\<lparr>eo_workflow_id := or_default (eo_workflow_id opts) uuid,
          eo_deduplication_id := Some key,
          eo_delay := Some delay,
          eo_timeout := or_else (eo_timeout opts) (dc_timeout d)\<rparr>"

definition client_debounce ::
    "'s system_database \<Rightarrow> dbos_context \<Rightarrow> datetime \<Rightarrow> string \<Rightarrow> debouncer_client \<Rightarrow> string \<Rightarrow> duration \<Rightarrow> 'a serde \<Rightarrow> 'a \<Rightarrow>
     enqueue_options \<Rightarrow> ('s app, string) dbact" where
  "client_debounce db ctx now uuid d key delay ty input opts =
     client_enqueue db ctx now uuid (dc_queue_name d) (dc_workflow_name d) ty input
       (client_debounce_options d uuid key delay opts)"

end
