(* ===== verification/Client_Properties.thy ===== *)
theory Client_Properties
  imports Client Workflow_Properties Store_Properties
begin

text \<open>
  Properties of \<open>Client\<close>: what the second call of a debouncer does while the workflow of the first is still waiting.
\<close>

section \<open>Starting under a fresh id\<close>

context workflow_store
begin

text \<open>Starting a queued or delayed workflow inserts its row, or is refused as a duplicate of its queue.\<close>

lemma queued_start:
  assumes "inv (app_store a)" "a_workflows (abs (app_store a)) i = None" "wo_workflow_id opts = Some i"
    and "wo_queue_name opts \<noteq> None \<or> wo_delay opts \<noteq> None"
    and "encode_value (cx_codec ctx) v (wo_portable opts \<or> is_portable ctx) = Inr enc"
    and "run_workflow_value db ctx now fresh name v opts a = (r, a')"
  shows "inv (app_store a') \<and> app_spawned a' = app_spawned a \<and>
    (if dedup (app_store a) (initial_workflow_status ctx now i name enc opts)
     then (\<exists>e. r = Inl e \<and> err_code e = QueueDeduplicated) \<and> abs (app_store a') = abs (app_store a)
     else r = Inr i \<and> (\<exists>d. abs (app_store a') = (abs (app_store a))\<lparr>a_workflows := (a_workflows (abs (app_store a)))
            (i \<mapsto> (initial_workflow_status ctx now i name enc opts)\<lparr>wf_timeout := d\<rparr>)\<rparr>))"
proof -
  let ?w = "initial_workflow_status ctx now i name enc opts"
  have i: "wf_workflow_uuid ?w = i"
    by (simp add: initial_workflow_status_def new_workflow_status_def Let_def)
  obtain q s1 where ins: "db_insert_workflow_with_result db ?w (app_store a) = (q, s1)" by fastforce
  have unit: "on_store (db_insert_workflow db ?w) a = (res_map (\<lambda>_. ()) q, a\<lparr>app_store := s1\<rparr>)"
    using insert_unit [of ?w "app_store a"] ins by (simp add: on_store_def)
  have spawn: "\<not> (wo_queue_name opts = None \<and> wo_delay opts = None)" using assms(4) by blast
  have free: "a_workflows (abs (app_store a)) (wf_workflow_uuid ?w) = None" using assms(2) i by simp
  show ?thesis
  proof (cases "dedup (app_store a) ?w")
    case True
    from insert_dedup [OF assms(1) free True ins] obtain e where
      q: "q = Inl e" "err_code e = QueueDeduplicated" "inv s1" "abs s1 = abs (app_store a)" by blast
    then have "r = Inl e" "a' = a\<lparr>app_store := s1\<rparr>"
      using assms(3,5,6) unit by (simp_all add: run_workflow_value_def Let_def act_bind_def)
    with q True show ?thesis by simp
  next
    case False
    from insert_new [OF assms(1) free False ins] i have
      q: "q = Inr Inserted" "inv s1" "abs s1 = (abs (app_store a))\<lparr>a_workflows := (a_workflows (abs (app_store a)))
            (i \<mapsto> ?w\<lparr>wf_timeout := map_option nd (wf_timeout ?w)\<rparr>)\<rparr>" by simp_all
    then have "r = Inr i" "a' = a\<lparr>app_store := s1\<rparr>"
      using assms(3,5,6) unit spawn by (auto simp: run_workflow_value_def Let_def act_bind_def act_return_def)
    with q False show ?thesis by auto
  qed
qed

end

section \<open>Debouncing\<close>

text \<open>The row of a debounced call, apart from its timeout.\<close>

definition debounced_row ::
    "dbos_context \<Rightarrow> datetime \<Rightarrow> string \<Rightarrow> debouncer \<Rightarrow> string \<Rightarrow> duration \<Rightarrow> encoded_value \<Rightarrow> workflow_options \<Rightarrow> workflow_status" where
  "debounced_row ctx now i d key delay enc opts =
     initial_workflow_status ctx now i (de_workflow_name d) enc (debounce_options d i key delay opts)"

lemma debounced_row_simps [simp]:
  "wf_queue_name (debounced_row ctx now i d key delay enc opts) = Some (de_queue_name d)"
  "wf_deduplication_id (debounced_row ctx now i d key delay enc opts) = Some key"
  "wf_status (debounced_row ctx now i d key delay enc opts) = Delayed"
  "wf_input (debounced_row ctx now i d key delay enc opts) = encoded_to_stored_value enc"
  "wf_delay_until (debounced_row ctx now i d key delay enc opts) = Some (add_duration now delay)"
  by (simp_all add: debounced_row_def initial_workflow_status_def debounce_options_def Let_def)

lemma debounce_run:
  assumes "workflow_store db ok view nd dedup" "ok (app_store a)" "a_workflows (view (app_store a)) i = None"
    and "wo_workflow_id opts = None" "to_value ty x = Inr v"
    and "encode_value (cx_codec ctx) v (wo_portable opts \<or> is_portable ctx) = Inr enc"
    and "debounce db ctx now i d key delay ty x opts a = (r, a')"
  shows "ok (app_store a') \<and> app_spawned a' = app_spawned a \<and>
    (if dedup (app_store a) (debounced_row ctx now i d key delay enc opts)
     then (\<exists>e. r = Inl e \<and> err_code e = QueueDeduplicated) \<and> view (app_store a') = view (app_store a)
     else r = Inr i \<and> (\<exists>t. a_workflows (view (app_store a')) = (a_workflows (view (app_store a)))
            (i \<mapsto> (debounced_row ctx now i d key delay enc opts)\<lparr>wf_timeout := t\<rparr>)))"
proof -
  let ?opts = "debounce_options d i key delay opts"
  have o: "wo_workflow_id ?opts = Some i" "wo_queue_name ?opts \<noteq> None \<or> wo_delay ?opts \<noteq> None"
    "wo_portable ?opts = wo_portable opts"
    using assms(4) by (simp_all add: debounce_options_def or_default_def)
  have run: "run_workflow_value db ctx now i (de_workflow_name d) v ?opts a = (r, a')"
    using assms(5,7) by (simp add: debounce_def run_workflow_def act_bind_def act_lift_def)
  show ?thesis
    using workflow_store.queued_start [OF assms(1-3) o(1,2) _ run] assms(6) o(3)
    by (auto simp: debounced_row_def split: if_splits)
qed

text \<open>In the in-memory store a waiting row of the same queue and key refuses the next.\<close>

lemma mem_dedup_waiting:
  assumes "a_workflows (mem_abs s) i = Some w" "wf_queue_name w = wf_queue_name w'" "wf_queue_name w \<noteq> None"
    and "wf_deduplication_id w = wf_deduplication_id w'" "wf_deduplication_id w \<noteq> None" "\<not> is_terminal (wf_status w)"
  shows "mem_dedup s w'"
  using assms hm_get_in_values [of "md_workflows s" i w]
  by (auto simp: mem_dedup_def mem_duplicate_def mem_abs_def list_ex_iff)

lemma mem_dedup_free:
  assumes "mem_inv s" "\<And>k w. a_workflows (mem_abs s) k = Some w \<Longrightarrow> wf_deduplication_id w \<noteq> wf_deduplication_id w'"
  shows "\<not> mem_dedup s w'"
  using assms hm_values_get [of "md_workflows s"]
  by (fastforce simp: mem_dedup_def mem_duplicate_def mem_abs_def list_ex_iff mem_inv_def)

text \<open>C33: Debouncing does not coalesce calls. The first call under a key stores a delayed workflow with its input and
  its delay. A second call while that one waits neither extends the delay nor replaces the input: on the in-memory
  store it fails with \<open>QueueDeduplicated\<close> and changes nothing, and on a store without queue deduplication, as
  both SQL stores are, it stores a second delayed workflow, so that both will run.\<close>

theorem debounce_second_call:
  assumes "mem_inv (app_store a)" "a_workflows (mem_abs (app_store a)) i = None" "a_workflows (mem_abs (app_store a)) j = None"
    and "\<And>k w. a_workflows (mem_abs (app_store a)) k = Some w \<Longrightarrow> wf_deduplication_id w \<noteq> Some key"
    and "workflow_store db ok view nd (\<lambda>_ _. False)" "ok (app_store b)"
    and "a_workflows (view (app_store b)) i = None" "a_workflows (view (app_store b)) j = None" "i \<noteq> j"
    and "wo_workflow_id opts = None" "to_value ty x = Inr v" "to_value ty y = Inr u"
    and "encode_value (cx_codec ctx) v (wo_portable opts \<or> is_portable ctx) = Inr enc"
    and "encode_value (cx_codec ctx) u (wo_portable opts \<or> is_portable ctx) = Inr enc'"
  shows "(\<exists>a1 a2 e w. debounce memory_store ctx now i d key delay ty x opts a = (Inr i, a1) \<and>
      debounce memory_store ctx now' j d key delay' ty y opts a1 = (Inl e, a2) \<and> err_code e = QueueDeduplicated \<and>
      mem_abs (app_store a2) = mem_abs (app_store a1) \<and> a_workflows (mem_abs (app_store a2)) i = Some w \<and>
      wf_status w = Delayed \<and> wf_delay_until w = Some (add_duration now delay) \<and> wf_input w = encoded_to_stored_value enc) \<and>
    (\<exists>b1 b2 w w'. debounce db ctx now i d key delay ty x opts b = (Inr i, b1) \<and>
      debounce db ctx now' j d key delay' ty y opts b1 = (Inr j, b2) \<and>
      a_workflows (view (app_store b2)) i = Some w \<and> a_workflows (view (app_store b2)) j = Some w' \<and>
      wf_status w = Delayed \<and> wf_input w = encoded_to_stored_value enc \<and>
      wf_status w' = Delayed \<and> wf_input w' = encoded_to_stored_value enc')"
proof (rule conjI)
  let ?w = "debounced_row ctx now i d key delay enc opts" and ?w' = "debounced_row ctx now' j d key delay' enc' opts"
  note run = debounce_run [OF _ _ _ assms(10)]
  have free: "\<not> mem_dedup (app_store a) ?w"
    using mem_dedup_free [OF assms(1), of ?w] assms(4) by simp
  obtain r a1 where r: "debounce memory_store ctx now i d key delay ty x opts a = (r, a1)" by fastforce
  from run [OF mem.workflow_store_axioms assms(1,2,11,13) r] free obtain t where
    a1: "mem_inv (app_store a1)" "r = Inr i"
    "a_workflows (mem_abs (app_store a1)) = (a_workflows (mem_abs (app_store a)))(i \<mapsto> ?w\<lparr>wf_timeout := t\<rparr>)"
    by auto
  have none: "a_workflows (mem_abs (app_store a1)) j = None" using a1(3) assms(3,9) by simp
  have dup: "mem_dedup (app_store a1) ?w'"
    by (rule mem_dedup_waiting [of _ i "?w\<lparr>wf_timeout := t\<rparr>"]) (simp_all only: a1(3) fun_upd_same, simp_all)
  obtain q a2 where q: "debounce memory_store ctx now' j d key delay' ty y opts a1 = (q, a2)" by fastforce
  from run [OF mem.workflow_store_axioms a1(1) none assms(12,14) q] dup obtain e where
    e: "q = Inl e" "err_code e = QueueDeduplicated" "mem_abs (app_store a2) = mem_abs (app_store a1)" by auto
  have "a_workflows (mem_abs (app_store a2)) i = Some (?w\<lparr>wf_timeout := t\<rparr>)" by (simp only: e(3) a1(3) fun_upd_same)
  with r q e a1(2)
  show "\<exists>a1 a2 e w. debounce memory_store ctx now i d key delay ty x opts a = (Inr i, a1) \<and>
      debounce memory_store ctx now' j d key delay' ty y opts a1 = (Inl e, a2) \<and> err_code e = QueueDeduplicated \<and>
      mem_abs (app_store a2) = mem_abs (app_store a1) \<and> a_workflows (mem_abs (app_store a2)) i = Some w \<and>
      wf_status w = Delayed \<and> wf_delay_until w = Some (add_duration now delay) \<and> wf_input w = encoded_to_stored_value enc"
    by (intro exI [of _ a1] exI [of _ a2] exI [of _ e] exI [of _ "?w\<lparr>wf_timeout := t\<rparr>"]) (simp del: mem_abs_simps)
next
  let ?w = "debounced_row ctx now i d key delay enc opts" and ?w' = "debounced_row ctx now' j d key delay' enc' opts"
  note run = debounce_run [OF assms(5) _ _ assms(10)]
  obtain r b1 where r: "debounce db ctx now i d key delay ty x opts b = (r, b1)" by fastforce
  from run [OF assms(6,7,11,13) r] obtain t where
    b1: "ok (app_store b1)" "r = Inr i"
    "a_workflows (view (app_store b1)) = (a_workflows (view (app_store b)))(i \<mapsto> ?w\<lparr>wf_timeout := t\<rparr>)"
    by auto
  have none: "a_workflows (view (app_store b1)) j = None" using b1(3) assms(8,9) by simp
  obtain q b2 where q: "debounce db ctx now' j d key delay' ty y opts b1 = (q, b2)" by fastforce
  from run [OF b1(1) none assms(12,14) q] r b1(2,3) q assms(9)
  show "\<exists>b1 b2 w w'. debounce db ctx now i d key delay ty x opts b = (Inr i, b1) \<and>
      debounce db ctx now' j d key delay' ty y opts b1 = (Inr j, b2) \<and>
      a_workflows (view (app_store b2)) i = Some w \<and> a_workflows (view (app_store b2)) j = Some w' \<and>
      wf_status w = Delayed \<and> wf_input w = encoded_to_stored_value enc \<and>
      wf_status w' = Delayed \<and> wf_input w' = encoded_to_stored_value enc'"
    by auto
qed

theorem debounce_second_call_witness:
  "\<exists>a1 a2 e b1 b2 w. debounce memory_store tiny_context 5 ''a'' (new_debouncer ''orders'') ''k'' 7 json_serde (JBool True)
        default_workflow_options \<lparr>app_store = empty_memory, app_spawned = []\<rparr> = (Inr ''a'', a1) \<and>
      debounce memory_store tiny_context 6 ''b'' (new_debouncer ''orders'') ''k'' 7 json_serde (JBool False)
        default_workflow_options a1 = (Inl e, a2) \<and> err_code e = QueueDeduplicated \<and>
      debounce turso_store tiny_context 5 ''a'' (new_debouncer ''orders'') ''k'' 7 json_serde (JBool True)
        default_workflow_options \<lparr>app_store = empty_sql, app_spawned = []\<rparr> = (Inr ''a'', b1) \<and>
      debounce turso_store tiny_context 6 ''b'' (new_debouncer ''orders'') ''k'' 7 json_serde (JBool False)
        default_workflow_options b1 = (Inr ''b'', b2) \<and> a_workflows (sql_abs (app_store b2)) ''b'' = Some w"
proof -
  have turso: "workflow_store turso_store sql_inv sql_abs wire_duration (\<lambda>_ _. False)"
    using stores_refine_parts(3) by (rule durable_store.axioms(1))
  have none: "wo_workflow_id default_workflow_options = None" "wo_portable default_workflow_options = False"
    by (simp_all add: default_workflow_options_def)
  obtain enc enc' where enc: "encode_value (cx_codec tiny_context) (JBool True) (False \<or> is_portable tiny_context) = Inr enc"
      "encode_value (cx_codec tiny_context) (JBool False) (False \<or> is_portable tiny_context) = Inr enc'"
    using tiny_encodes [of "JBool True"] tiny_encodes [of "JBool False"] by (force simp: encodes_def tiny_context_def)
  have v: "to_value json_serde (JBool True) = Inr (JBool True)" "to_value json_serde (JBool False) = Inr (JBool False)"
    by (simp_all add: json_serde_def)
  have mem: "mem_inv (app_store \<lparr>app_store = empty_memory, app_spawned = []\<rparr>)"
    "\<And>k. a_workflows (mem_abs (app_store \<lparr>app_store = empty_memory, app_spawned = []\<rparr>)) k = None"
    by (simp_all add: mem_abs_def empty_memory_def hm_get_def mem_inv_empty [unfolded empty_memory_def])
  have sql: "sql_inv (app_store \<lparr>app_store = empty_sql, app_spawned = []\<rparr>)"
    "\<And>k. a_workflows (sql_abs (app_store \<lparr>app_store = empty_sql, app_spawned = []\<rparr>)) k = None"
    using sql_inv_empty by (simp_all add: sql_abs_def sql_row_def empty_sql_def hm_get_def)
  note both = debounce_second_call
    [OF mem(1,2,2) _ turso sql(1,2,2) _ none(1) v, unfolded none(2), OF _ _ enc,
     of "''k''" "''a''" "''b''" 5 "new_debouncer ''orders''" 7 6 7]
  show ?thesis using both mem(2) by auto
qed

end
