(* ===== verification/Client_Calls.thy ===== *)
theory Client_Calls
  imports Client Messaging Import_Export Aggregates
begin

text \<open>
  The methods of the client that hand their arguments to its context, \<open>src/src/client.rs\<close>, and the methods of the context
  that only they and the free functions of the crate wrap. A workflow handle is its workflow's id; the database, the context, the clocks and
  the codecs are the arguments of the operation that is called.
\<close>

section \<open>Handles, registered workflows and typed handlers\<close>

definition retrieve_workflow :: "string \<Rightarrow> string" where
  "retrieve_workflow workflow_id = workflow_id"

definition list_registered_queues :: "'s system_database \<Rightarrow> ('s, workflow_queue list) dbact" where
  "list_registered_queues db = list_queues db"

text \<open>\<open>TypedWorkflow::run\<close>: a registered function of a typed input, as a handler of JSON.\<close>

definition typed_workflow :: "string \<Rightarrow> 'i serde \<Rightarrow> (dbos_context \<Rightarrow> 'i \<Rightarrow> ('s, json) dbact) \<Rightarrow> 's handler" where
  "typed_workflow name ty handler ctx input s =
     (case from_value ty input of
        Inl err \<Rightarrow>
          (Inl (with_source WorkflowUnexpectedType (''workflow '' @ name @ '' received an unexpected input type'')
                  (case err_source err of Some cause \<Rightarrow> cause | None \<Rightarrow> '''')), s)
      | Inr i \<Rightarrow> handler ctx i s)"

section \<open>The methods of the client\<close>

definition client_list_workflows where "client_list_workflows = list_workflows"

definition client_list_registered_workflows where "client_list_registered_workflows = list_registered_workflows"

definition client_list_registered_queues where "client_list_registered_queues = list_registered_queues"

definition client_send where "client_send = send"

definition client_send_with_options where "client_send_with_options = send_with_options"

definition client_get_event where "client_get_event = get_event"

definition client_retrieve_workflow where "client_retrieve_workflow = retrieve_workflow"

definition client_cancel_workflow where "client_cancel_workflow = cancel_workflow"

definition client_cancel_workflows where "client_cancel_workflows = cancel_workflows"

definition client_set_workflow_delay where "client_set_workflow_delay = set_workflow_delay"

definition client_delete_workflows where "client_delete_workflows = delete_workflows"

definition client_resume_workflow where "client_resume_workflow = resume_workflow"

definition client_resume_workflows where "client_resume_workflows = resume_workflows"

definition client_fork_workflow where "client_fork_workflow = fork_workflow"

definition client_get_workflow_steps where "client_get_workflow_steps = get_workflow_steps"

definition client_get_workflow_steps_with_options where "client_get_workflow_steps_with_options = get_workflow_steps_with_options"

definition client_export_workflow where "client_export_workflow = export_workflow"

definition client_export_workflow_with_options where "client_export_workflow_with_options = export_workflow_with_options"

definition client_import_workflow where "client_import_workflow = import_workflow"

definition client_read_stream where "client_read_stream = read_stream"

definition client_read_stream_with_options where "client_read_stream_with_options = read_stream_with_options"

definition client_create_schedule where "client_create_schedule = create_schedule"

definition client_apply_schedules where "client_apply_schedules = apply_schedules"

definition client_get_schedule where "client_get_schedule = get_schedule"

definition client_list_schedules where "client_list_schedules = list_schedules"

definition client_pause_schedule where "client_pause_schedule = pause_schedule"

definition client_resume_schedule where "client_resume_schedule = resume_schedule"

definition client_delete_schedule where "client_delete_schedule = delete_schedule"

definition client_backfill_schedule where "client_backfill_schedule = backfill_schedule"

definition client_trigger_schedule where "client_trigger_schedule = trigger_schedule"

definition client_register_queue where "client_register_queue = register_queue"

definition client_retrieve_queue where "client_retrieve_queue = retrieve_queue"

definition client_list_queues where "client_list_queues = list_queues"

definition client_delete_queue where "client_delete_queue = delete_queue"

definition client_update_queue where "client_update_queue = update_queue"

definition client_list_application_versions where "client_list_application_versions = list_application_versions"

definition client_get_latest_application_version where "client_get_latest_application_version = get_latest_application_version"

definition client_set_latest_application_version where "client_set_latest_application_version = set_latest_application_version"

definition client_get_workflow_aggregates_with_input where "client_get_workflow_aggregates_with_input = get_workflow_aggregates_with_input"

definition client_get_step_aggregates_with_input where "client_get_step_aggregates_with_input = get_step_aggregates_with_input"

definition client_shutdown where "client_shutdown = shutdown"

end
