(* ===== verification/Claim_Properties.thy ===== *)
theory Claim_Properties
  imports Client_Calls Workflow_Properties Execution_Properties
begin

text \<open>
  Claims of processes that cannot run the workflow they claim: an execution takes its claim before it looks for the
  handler, and a client has none.
\<close>

section \<open>An execution without a handler\<close>

context workflow_store
begin

text \<open>It claims the row, fails, and leaves the claim.\<close>

lemma unresolved_execution:
  assumes "inv s" "a_workflows (abs s) i = Some w" "claimable (ex_execution_id x) w" "ex_workflow_id x = i"
    and "resolve_workflow (ex_registry x) (wf_name w) (wf_config_name w) = Inl e"
  shows "\<exists>s'. execute_workflow db t x s = (Inl e, s') \<and> inv s' \<and>
    a_workflows (abs s') i = Some (claimed_status (t 5) (executor_id (ex_context x)) (ex_execution_id x) w)"
proof -
  let ?c = "claimed_status (t 5) (executor_id (ex_context x)) (ex_execution_id x) w"
  obtain r1 s1 where 1: "db_get_workflow db i s = (r1, s1)" by fastforce
  note g1 = get_run [OF assms(1) 1]
  obtain r2 s2 where 2: "db_claim_workflow_execution db (t 5) i (executor_id (ex_context x)) (ex_execution_id x) s1 = (r2, s2)"
    by fastforce
  have cons: "claim_consistent v" if "a_workflows (abs s1) i = Some v" for v
    using that g1 assms(2,3) by (auto simp: claimable_def claim_consistent_def)
  have row1: "a_workflows (abs s1) i = Some w" using g1 assms(2) by simp
  have spec: "claim_spec (t 5) (executor_id (ex_context x)) (ex_execution_id x) (a_workflows (abs s1) i) = (True, Some ?c)"
    unfolding row1 by (rule claim_spec_claimable [OF assms(3)])
  have "inv s1" using g1 by simp
  note c = claim_row [OF this cons 2]
  have row2: "r2 = Inr True" "a_workflows (abs s2) i = Some ?c" "inv s2" using c spec by simp_all
  obtain r3 s3 where 3: "db_get_workflow db i s2 = (r3, s3)" by fastforce
  note g3 = get_run [OF row2(3) 3]
  have sel: "\<not> is_terminal (wf_status w)" "wf_executor_id w = None" "\<not> is_terminal (wf_status ?c)" "wf_name ?c = wf_name w"
    "wf_config_name ?c = wf_config_name w"
    using assms(3) by (auto simp: claimable_def claimed_status_def)
  have finished: "exec_step db now x (Finished r) s = (Finished r, s)" for now r s by (simp add: exec_step_def)
  have steps: "exec_step db (t 6) x ReadRow s = (ClaimRow, s1)" "exec_step db (t 5) x ClaimRow s1 = (RereadRow, s2)"
    "exec_step db (t 4) x RereadRow s2 = (StartRow ?c, s3)" "exec_step db (t 3) x (StartRow ?c) s3 = (Finished (Inl e), s3)"
    using 1 2 3 g1 g3 row2 assms(2,4,5) sel by (auto simp: exec_step_def existing_def after_read_def Let_def)
  have "execute_workflow db t x s = (Inl e, s3)"
    using steps by (simp add: execute_workflow_def eval_nat_numeral finished)
  with g3 row2(2) show ?thesis by simp
qed

end
text \<open>The row that a resume without a queue leaves.\<close>

lemma resumed_row:
  assumes "workflow_store db ok view nd dedup" "ok (app_store a)" "a_workflows (view (app_store a)) i = Some w"
    and "ro_queue_name opts = None" "resume_workflow db now i opts a = (r, a')"
  shows "\<exists>w'. r = Inr i \<and> app_spawned a' = app_spawned a @ [(i, False)] \<and> ok (app_store a') \<and>
    a_workflows (view (app_store a')) i = Some w' \<and> wf_status w' = Pending \<and> claimable xid w' \<and> wf_name w' = wf_name w \<and>
    wf_config_name w' = wf_config_name w"
proof -
  obtain q s1 where g: "existing_workflow db i (app_store a) = (q, s1)" by fastforce
  note run = workflow_store.existing_run [OF assms(1,2) g]
  let ?w = "w\<lparr>wf_queue_name := wf_queue_name w, wf_status := Pending,
     wf_completed_at := None, wf_error := None, wf_executor_id := None, wf_execution_id := None, wf_updated_at := now\<rparr>"
  obtain u s2 where sv: "db_save_workflow db ?w s1 = (u, s2)" by fastforce
  have "wf_workflow_uuid ?w = i" using workflow_store.keyed [OF assms(1-3)] by simp
  from workflow_store.save_same [OF assms(1) run(2) sv this] obtain d where
    s2: "u = Inr ()" "ok s2" "a_workflows (view s2) i = Some (?w\<lparr>wf_timeout := d\<rparr>)" by auto
  have "r = Inr i" "app_spawned a' = app_spawned a @ [(i, False)]" "app_store a' = s2"
    using assms(3-5) g run(1) sv s2(1)
    by (auto simp: resume_workflow_def on_store_def act_bind_def spawn_run)
  with s2 show ?thesis by (simp add: claimable_def)
qed

text \<open>C40:
  A client that resumes a workflow without naming a queue takes it away from those who could run it. The resume reports
  success and spawns the execution in the client's own process; without a handler there, that execution claims the
  workflow for the client's executor and fails. The workflow is left pending and claimed: no execution of another
  executor, and none that does not resume a claim, does anything from then on.\<close>

theorem client_resume_strands:
  assumes "workflow_store db ok view nd dedup" "ok (app_store a)" "a_workflows (view (app_store a)) i = Some w"
    and "ro_queue_name opts = None" "resolve_workflow reg (wf_name w) (wf_config_name w) = Inl e"
  shows "\<exists>a' s' row. client_resume_workflow db now i opts a = (Inr i, a') \<and> app_spawned a' = app_spawned a @ [(i, False)] \<and>
    execute_workflow db t \<lparr>ex_context = client, ex_registry = reg, ex_workflow_id = i, ex_resume_claim = False,
      ex_execution_id = xid\<rparr> (app_store a') = (Inl e, s') \<and>
    a_workflows (view s') i = Some row \<and> wf_status row = Pending \<and> wf_executor_id row = Some (executor_id client) \<and>
    (\<forall>x t'. ex_workflow_id x = i \<and> (executor_id (ex_context x) = executor_id client \<longrightarrow> \<not> ex_resume_claim x) \<longrightarrow>
      (\<exists>s''. execute_workflow db t' x s' = (Inr (), s'') \<and> view s'' = view s'))"
proof -
  let ?x = "\<lparr>ex_context = client, ex_registry = reg, ex_workflow_id = i, ex_resume_claim = False, ex_execution_id = xid\<rparr>"
  obtain r a' where r: "client_resume_workflow db now i opts a = (r, a')" by fastforce
  from resumed_row [OF assms(1-4), of now r a' xid] r obtain w' where w': "r = Inr i"
    "app_spawned a' = app_spawned a @ [(i, False)]" "ok (app_store a')" "a_workflows (view (app_store a')) i = Some w'"
    "claimable (ex_execution_id ?x) w'" "wf_name w' = wf_name w" "wf_config_name w' = wf_config_name w"
    by (auto simp: client_resume_workflow_def)
  from workflow_store.unresolved_execution [OF assms(1) w'(3-5), of e t] assms(5) w'(6,7) obtain s' where
    s': "execute_workflow db t ?x (app_store a') = (Inl e, s')" "ok s'"
      "a_workflows (view s') i = Some (claimed_status (t 5) (executor_id client) xid w')" by auto
  let ?row = "claimed_status (t 5) (executor_id client) xid w'"
  have row: "wf_status ?row = Pending" "wf_executor_id ?row = Some (executor_id client)" by (simp_all add: claimed_status_def)
  have refused: "\<exists>s''. execute_workflow db t' x s' = (Inr (), s'') \<and> view s'' = view s'"
    if "ex_workflow_id x = i" "executor_id (ex_context x) = executor_id client \<longrightarrow> \<not> ex_resume_claim x" for x t'
  proof -
    obtain q s'' where q: "execute_workflow db t' x s' = (q, s'')" by fastforce
    from execution_refused [OF assms(1) s'(2) refl _ q] that s'(3) row(2) q show ?thesis by auto
  qed
  show ?thesis
    using r w'(1,2) s'(1,3) row refused by (intro exI [of _ a'] exI [of _ s'] exI [of _ ?row]) blast
qed

definition client_registry :: "memory_data registry" where
  "client_registry = \<lparr>reg_workflows = [], reg_aliases = [], reg_entries = [], reg_launched = False\<rparr>"

theorem client_resume_strands_witness:
  "\<exists>a' s' e row. client_resume_workflow memory_store 7 ''w1'' \<lparr>ro_queue_name = None\<rparr>
      \<lparr>app_store = orders_store orders_row, app_spawned = []\<rparr> = (Inr ''w1'', a') \<and>
    execute_workflow memory_store (\<lambda>n. 9) \<lparr>ex_context = tiny_context, ex_registry = client_registry, ex_workflow_id = ''w1'',
      ex_resume_claim = False, ex_execution_id = ''x''\<rparr> (app_store a') = (Inl e, s') \<and>
    hm_get (md_workflows s') ''w1'' = Some row \<and> wf_status row = Pending \<and> wf_executor_id row = Some (executor_id tiny_context)"
proof -
  let ?a = "\<lparr>app_store = orders_store orders_row, app_spawned = []\<rparr>"
  have inv: "mem_inv (app_store ?a)" using orders_store_inv by (simp add: orders_row_simps)
  have row: "a_workflows (mem_abs (app_store ?a)) ''w1'' = Some orders_row" by (simp add: orders_store_row [simplified])
  have none: "resolve_workflow client_registry (wf_name orders_row) (wf_config_name orders_row) =
      Inl (non_existent_workflow (wf_name orders_row))"
    by (simp add: resolve_workflow_def client_registry_def hm_get_def ok_or_def Let_def)
  from client_resume_strands [OF mem.workflow_store_axioms inv row _ none, of "\<lparr>ro_queue_name = None\<rparr>" 7 "\<lambda>n. 9" tiny_context "''x''"]
  show ?thesis by fastforce
qed

end
