(* ===== verification/Lifecycle_Properties.thy ===== *)
theory Lifecycle_Properties
  imports Lifecycle Execution_Properties
begin

text \<open>
  Properties of \<open>Lifecycle\<close>: whatever is launched, shut down and run, a context is launched exactly while its two
  supervisors are up, and a launch that fails leaves nothing running; and which contexts a cancel handle cancels.
\<close>

section \<open>Launching\<close>

text \<open>What happens to a context: launches, shutdowns, and everything that works on its store and spawns executions.\<close>

inductive lifecycle_reachable :: "'s system_database \<Rightarrow> bool \<Rightarrow> dbos_context \<Rightarrow> 's lifecycle \<Rightarrow> bool"
  for db :: "'s system_database" and feature :: bool and ctx :: dbos_context where
  built: "lifecycle_reachable db feature ctx (new_lifecycle a)"
| launched: "lifecycle_reachable db feature ctx lc \<Longrightarrow> launch db feature ctx now lc = (r, lc') \<Longrightarrow>
    lifecycle_reachable db feature ctx lc'"
| stopped: "lifecycle_reachable db feature ctx lc \<Longrightarrow> lifecycle_reachable db feature ctx (shutdown lc)"
| worked: "lifecycle_reachable db feature ctx lc \<Longrightarrow> lifecycle_reachable db feature ctx (lc\<lparr>lc_app := a\<rparr>)"

definition lifecycle_ok :: "dbos_context \<Rightarrow> 's lifecycle \<Rightarrow> bool" where
  "lifecycle_ok ctx lc \<longleftrightarrow>
     (if lc_launched lc
      then lc_tasks lc = [QueueSupervisor, ScheduleSupervisor] \<and>
        conductor_config_of (cx_config ctx) = Inr (map_option ch_config (lc_conductor lc))
      else lc_tasks lc = [] \<and> lc_conductor lc = None)"

lemma lifecycle_ok_new: "lifecycle_ok ctx (new_lifecycle a)"
  by (simp add: lifecycle_ok_def new_lifecycle_def)

lemma lifecycle_ok_shutdown: "lifecycle_ok ctx (shutdown lc)"
  by (simp add: lifecycle_ok_def shutdown_def)

lemma lifecycle_ok_app [simp]: "lifecycle_ok ctx (lc\<lparr>lc_app := a\<rparr>) = lifecycle_ok ctx lc"
  by (simp add: lifecycle_ok_def)

text \<open>What a successful launch has done.\<close>

lemma launch_steps_run:
  assumes "launch_steps db feature ctx config now lc = (Inr u, lc')"
  shows "\<exists>a1 ids. on_store (initialize_system_database db ctx now) (lc_app lc) = (Inr (), a1) \<and>
      recover_pending_workflows db [executor_id ctx] a1 = (Inr ids, lc_app lc')"
    "lc_launched lc' = lc_launched lc" "lc_tasks lc' = lc_tasks lc @ [QueueSupervisor, ScheduleSupervisor]"
    "map_option ch_config (lc_conductor lc') =
       (case config of None \<Rightarrow> map_option ch_config (lc_conductor lc) | Some cc \<Rightarrow> Some cc)"
  using assms
  by (auto simp: launch_steps_def act_bind_def act_return_def on_app_def start_supervisors_def start_conductor_def
      connect_conductor_def split: prod.splits sum.splits option.splits if_splits)

lemma launch_run:
  assumes "launch db feature ctx now lc = (r, lc')" "lifecycle_ok ctx lc"
  shows "lifecycle_ok ctx lc'"
    and "lc_launched lc \<Longrightarrow> lc' = lc \<and> (\<exists>e. r = Inl e)"
    and "r = Inl e \<Longrightarrow> lc_launched lc' = lc_launched lc \<and> lc_tasks lc' = lc_tasks lc \<and> lc_conductor lc' = lc_conductor lc \<and>
      (lc' = lc \<or> app_spawned (lc_app lc') = [])"
    and "r = Inr u \<Longrightarrow> \<not> lc_launched lc \<and> lc_launched lc' \<and>
      (\<exists>a1 ids. on_store (initialize_system_database db ctx now) (lc_app lc) = (Inr (), a1) \<and>
        recover_pending_workflows db [executor_id ctx] a1 = (Inr ids, lc_app lc'))"
proof -
  consider (config) e where "conductor_config_of (cx_config ctx) = Inl e" "r = Inl e" "lc' = lc"
    | (again) "lc_launched lc" "r = Inl (initialization_error ''DBOS is already launched'')" "lc' = lc"
    | (failed) e lc1 where "\<not> lc_launched lc" "r = Inl e" "lc' = shutdown lc1"
    | (succeeded) config u where "\<not> lc_launched lc" "conductor_config_of (cx_config ctx) = Inr config" "r = Inr ()"
        "launch_steps db feature ctx config now (lc\<lparr>lc_launched := True\<rparr>) = (Inr u, lc')"
  proof (cases "conductor_config_of (cx_config ctx)")
    case (Inl e)
    then show thesis using that(1) assms(1) by (simp add: launch_def)
  next
    case (Inr config)
    obtain q lc1 where q: "launch_steps db feature ctx config now (lc\<lparr>lc_launched := True\<rparr>) = (q, lc1)" by fastforce
    show thesis
    proof (cases "lc_launched lc")
      case True
      then show thesis using that(2) Inr assms(1) by (simp add: launch_def)
    next
      case False
      show thesis
      proof (cases q)
        case (Inl e)
        then show thesis using that(3) [OF False, of e lc1] \<open>conductor_config_of _ = _\<close> False assms(1) q by (simp add: launch_def)
      next
        case (Inr u)
        then show thesis using that(4) [OF False, of config u] \<open>conductor_config_of _ = _\<close> False assms(1) q by (simp add: launch_def)
      qed
    qed
  qed
  note cases = this
  show "lifecycle_ok ctx lc'"
  proof (cases rule: cases)
    case succeeded
    from launch_steps_run(2-4) [OF succeeded(4)] succeeded(1,2) assms(2) show ?thesis
      by (auto simp: lifecycle_ok_def split: option.splits)
  qed (use assms(2) in \<open>simp_all add: lifecycle_ok_shutdown\<close>)
  show "lc_launched lc \<Longrightarrow> lc' = lc \<and> (\<exists>e. r = Inl e)"
    by (cases rule: cases) simp_all
  show "r = Inl e \<Longrightarrow> lc_launched lc' = lc_launched lc \<and> lc_tasks lc' = lc_tasks lc \<and> lc_conductor lc' = lc_conductor lc \<and>
      (lc' = lc \<or> app_spawned (lc_app lc') = [])"
    using assms(2) by (cases rule: cases) (simp_all add: shutdown_def lifecycle_ok_def)
  show "r = Inr u \<Longrightarrow> \<not> lc_launched lc \<and> lc_launched lc' \<and>
      (\<exists>a1 ids. on_store (initialize_system_database db ctx now) (lc_app lc) = (Inr (), a1) \<and>
        recover_pending_workflows db [executor_id ctx] a1 = (Inr ids, lc_app lc'))"
  proof (cases rule: cases)
    case succeeded
    then show ?thesis using launch_steps_run(1,2) [OF succeeded(4)] by simp
  qed simp_all
qed

lemma reachable_ok: "lifecycle_reachable db feature ctx lc \<Longrightarrow> lifecycle_ok ctx lc"
  by (induction rule: lifecycle_reachable.induct) (auto simp: lifecycle_ok_new lifecycle_ok_shutdown dest: launch_run(1))

text \<open>C31: Whatever has been launched, shut down and run before, with any answers of the database: a launched context has its
  queue and its schedule supervisor, each once, and a conductor connection exactly if the configuration names one; any
  other context has none of them. A launch of a launched context fails and changes nothing. A launch that fails leaves as
  many supervisors behind as it found, and unless it was refused before it began, every execution spawned so far is aborted. A launch that succeeds was of a context that was not launched, has initialised the
  database, and has then recovered the pending workflows of the executor.\<close>

theorem launch_all_or_nothing:
  assumes "lifecycle_reachable db feature ctx lc" "launch db feature ctx now lc = (r, lc')"
  shows "(if lc_launched lc
      then lc_tasks lc = [QueueSupervisor, ScheduleSupervisor] \<and>
        conductor_config_of (cx_config ctx) = Inr (map_option ch_config (lc_conductor lc)) \<and>
        lc' = lc \<and> (\<exists>e. r = Inl e)
      else lc_tasks lc = [] \<and> lc_conductor lc = None \<and>
        (case r of
           Inl e \<Rightarrow> \<not> lc_launched lc' \<and> lc_tasks lc' = [] \<and> lc_conductor lc' = None \<and>
             (lc' = lc \<or> app_spawned (lc_app lc') = [])
         | Inr _ \<Rightarrow> lc_launched lc' \<and> lc_tasks lc' = [QueueSupervisor, ScheduleSupervisor] \<and>
             conductor_config_of (cx_config ctx) = Inr (map_option ch_config (lc_conductor lc')) \<and>
             (\<exists>a1 ids. on_store (initialize_system_database db ctx now) (lc_app lc) = (Inr (), a1) \<and>
               recover_pending_workflows db [executor_id ctx] a1 = (Inr ids, lc_app lc'))))"
proof -
  note ok = reachable_ok [OF assms(1)]
  note run = launch_run [OF assms(2) ok]
  show ?thesis
  proof (cases "lc_launched lc")
    case True
    with ok run(2) show ?thesis by (simp add: lifecycle_ok_def)
  next
    case False
    then show ?thesis
      using ok run(1) run(3,4) by (cases r) (auto simp: lifecycle_ok_def)
  qed
qed

theorem launch_all_or_nothing_witness:
  "\<exists>lc'. launch memory_store False tiny_context 5 (new_lifecycle \<lparr>app_store = empty_memory, app_spawned = []\<rparr>) = (Inr (), lc') \<and>
     lc_launched lc' \<and> lc_tasks lc' = [QueueSupervisor, ScheduleSupervisor]"
proof -
  let ?lc = "new_lifecycle \<lparr>app_store = empty_memory, app_spawned = []\<rparr>"
  obtain r lc' where run: "launch memory_store False tiny_context 5 ?lc = (r, lc')" by fastforce
  have none: "conductor_config_of (cx_config tiny_context) = Inr None"
    by (simp add: tiny_context_def new_config_def conductor_config_of_def nonempty_def)
  have empty: "select_workflows recovery_filter (hm_values []) = []"
    by code_simp
  have "fst (launch memory_store False tiny_context 5 ?lc) = Inr ()"
    by (simp add: launch_def none new_lifecycle_def launch_steps_def act_bind_def on_app_def on_store_def
        initialize_system_database_def memory_store_def mem_migrate_def mem_create_application_version_def
        start_supervisors_def start_conductor_def recover_pending_workflows_def list_workflows_def
        mem_list_workflows_def empty_memory_def empty)
  with run have r: "r = Inr ()" by simp
  have "\<not> lc_launched ?lc" by (simp add: new_lifecycle_def)
  with launch_all_or_nothing [OF lifecycle_reachable.built run] run r show ?thesis by auto
qed

section \<open>Cancelling\<close>

text \<open>
  What a program does with the flags: it derives contexts, which makes a cell, and cancels through handles, with or
  without a cause.
\<close>

datatype cancel_op = MakeCell | CancelCell nat | CancelCause nat string

fun cancel_op_run :: "cancel_op \<Rightarrow> cancel_cells \<Rightarrow> cancel_cells" where
  "cancel_op_run MakeCell cells = snd (fresh_cell cells)"
| "cancel_op_run (CancelCell h) cells = cancel h cells"
| "cancel_op_run (CancelCause h cause) cells = cancel_with_cause h cause cells"

fun cancels :: "nat \<Rightarrow> cancel_op \<Rightarrow> bool" where
  "cancels h MakeCell \<longleftrightarrow> False"
| "cancels h (CancelCell h') \<longleftrightarrow> h' = h"
| "cancels h (CancelCause h' _) \<longleftrightarrow> h' = h"

lemma cancel_op_length: "length cells \<le> length (cancel_op_run op cells)"
  by (cases op) (simp_all add: fresh_cell_def cancel_def cancel_with_cause_def)

lemma cancel_op_flag:
  "h < length cells \<Longrightarrow> handle_is_cancelled h (cancel_op_run op cells) \<longleftrightarrow> handle_is_cancelled h cells \<or> cancels h op"
  by (cases op; cases "cancels h op")
     (simp_all add: handle_is_cancelled_def fresh_cell_def cancel_def cancel_with_cause_def nth_append)

lemma cancel_ops_flag:
  assumes "h < length cells"
  shows "handle_is_cancelled h (fold cancel_op_run ops cells) \<longleftrightarrow>
    handle_is_cancelled h cells \<or> (\<exists>op \<in> set ops. cancels h op)"
  using assms
proof (induction ops arbitrary: cells)
  case (Cons op ops)
  then show ?case using cancel_op_flag [of h cells op] cancel_op_length [of cells op] by simp
qed simp

text \<open>C32: A cancel handle cancels the context it was made with and the contexts derived from that one by a value, and no
  others: a context derived with \<open>with_timeout\<close> (or \<open>with_cancel\<close>, which it calls) has a flag of its own. Whatever is
  derived and cancelled afterwards, it is cancelled exactly if its own handle was used, and its parent exactly if the
  parent's was or it already had been: cancelling a parent does not reach its children, and the deadline cancels
  nothing.\<close>

theorem cancellation_scoped:
  assumes "sc_cell sc < length cells" "with_timeout_scope now timeout sc cells = ((child, h), cells')"
    and "with_value key v child = Inr grandchild"
  shows "sc_deadline child = map_option (\<lambda>d. now + d) (chrono_from_std timeout) \<and> sc_values child = sc_values sc \<and>
    (is_cancelled child (fold cancel_op_run ops cells') \<longleftrightarrow> (\<exists>op \<in> set ops. cancels h op)) \<and>
    (is_cancelled grandchild (fold cancel_op_run ops cells') \<longleftrightarrow> (\<exists>op \<in> set ops. cancels h op)) \<and>
    (is_cancelled sc (fold cancel_op_run ops cells') \<longleftrightarrow>
      is_cancelled sc cells \<or> (\<exists>op \<in> set ops. cancels (sc_cell sc) op)) \<and> h \<noteq> sc_cell sc"
proof -
  have c: "h = length cells" "cells' = cells @ [(False, None)]" "sc_cell child = h"
    "sc_deadline child = map_option (\<lambda>d. now + d) (chrono_from_std timeout)" "sc_values child = sc_values sc"
    using assms(2) by (auto simp: with_timeout_scope_def with_cancel_def fresh_cell_def)
  moreover have "sc_cell grandchild = h"
    using assms(3) c(3) by (auto simp: with_value_def res_map_def split: sum.splits)
  moreover have "handle_is_cancelled h cells' = False" "handle_is_cancelled (sc_cell sc) cells' = handle_is_cancelled (sc_cell sc) cells"
    using assms(1) c(1,2) by (simp_all add: handle_is_cancelled_def nth_append)
  moreover note cancel_ops_flag [of h cells' ops] cancel_ops_flag [of "sc_cell sc" cells' ops]
  ultimately show ?thesis
    using assms(1) by (simp add: is_cancelled_def)
qed

theorem cancellation_scoped_witness:
  "let (root, cells) = root_scope tiny_context [];
       ((child, h), cells') = with_timeout_scope 5 (from_secs 1) root cells
   in \<not> is_cancelled child (cancel (sc_cell root) cells') \<and> is_cancelled root (cancel (sc_cell root) cells')"
proof -
  obtain root cells where root: "root_scope tiny_context [] = (root, cells)" by fastforce
  then have cell: "sc_cell root < length cells" by (auto simp: root_scope_def fresh_cell_def)
  obtain child h cells' where child: "with_timeout_scope 5 (from_secs 1) root cells = ((child, h), cells')"
    by (metis prod.exhaust)
  obtain grandchild where "with_value ''k'' (Inr JNull) child = Inr grandchild" by (simp add: with_value_def res_map_def)
  from cancellation_scoped [OF cell child this, of "[CancelCell (sc_cell root)]"] root child
  show ?thesis by simp
qed

end
