(* ===== verification/Session.thy ===== *)
theory Session
  imports Conductor Lifecycle
begin

text \<open>
  The websocket transport of the conductor, \<open>src/src/conductor.rs\<close>: a session as a fold over what its \<open>select!\<close> loop
  meets, the loop that reconnects, and the shutdown of the handle. The socket is what arrives on it and
  which sends fail; what is sent is recorded. A string is its bytes, so a text is a string that is valid UTF-8.
\<close>

section \<open>UTF-8\<close>

text \<open>
  \<open>String::from_utf8\<close>: the position of the first byte that is not part of a character, with the number of bytes to
  skip, or without one where the input ends inside a character.
\<close>

definition utf8_width :: "nat \<Rightarrow> nat" where
  "utf8_width b =
     (if b < 128 then 1 else if 194 \<le> b \<and> b \<le> 223 then 2 else if 224 \<le> b \<and> b \<le> 239 then 3
      else if 240 \<le> b \<and> b \<le> 244 then 4 else 0)"

definition utf8_continues :: "nat \<Rightarrow> bool" where
  "utf8_continues b \<longleftrightarrow> 128 \<le> b \<and> b < 192"

definition utf8_second :: "nat \<Rightarrow> nat \<Rightarrow> bool" where
  "utf8_second b c \<longleftrightarrow>
     (if b = 224 then 160 \<le> c \<and> c \<le> 191
      else if b = 237 then 128 \<le> c \<and> c \<le> 159
      else if b = 240 then 144 \<le> c \<and> c \<le> 191
      else if b = 244 then 128 \<le> c \<and> c \<le> 143
      else utf8_continues c)"

fun utf8_tail :: "nat \<Rightarrow> nat \<Rightarrow> nat list \<Rightarrow> nat option + nat list" where
  "utf8_tail seen 0 bs = Inr bs"
| "utf8_tail seen (Suc n) [] = Inl None"
| "utf8_tail seen (Suc n) (b # bs) = (if utf8_continues b then utf8_tail (Suc seen) n bs else Inl (Some seen))"

lemma utf8_tail_shrinks: "utf8_tail seen n bs = Inr rest \<Longrightarrow> length rest \<le> length bs"
  by (induction seen n bs rule: utf8_tail.induct) (auto split: if_splits)

function (sequential) utf8_error :: "nat \<Rightarrow> nat list \<Rightarrow> (nat \<times> nat option) option" where
  "utf8_error i [] = None"
| "utf8_error i (b # bs) =
     (if b < 128 then utf8_error (Suc i) bs
      else if utf8_width b = 0 then Some (i, Some 1)
      else (case bs of
              [] \<Rightarrow> Some (i, None)
            | c # cs \<Rightarrow>
                if \<not> utf8_second b c then Some (i, Some 1)
                else (case utf8_tail 2 (utf8_width b - 2) cs of
                        Inl skip \<Rightarrow> Some (i, skip)
                      | Inr rest \<Rightarrow> utf8_error (i + utf8_width b) rest)))"
  by pat_completeness auto

termination
  by (relation "measure (\<lambda>(_, bs). length bs)") (auto dest: utf8_tail_shrinks)

definition utf8_message :: "nat \<times> nat option \<Rightarrow> string" where
  "utf8_message e =
     (case e of
        (i, Some n) \<Rightarrow> ''invalid utf-8 sequence of '' @ show_nat n @ '' bytes from index '' @ show_nat i
      | (i, None) \<Rightarrow> ''incomplete utf-8 byte sequence from index '' @ show_nat i)"

definition from_utf8 :: "string \<Rightarrow> string + string" where
  "from_utf8 bytes =
     (case utf8_error 0 (map of_char bytes) of
        None \<Rightarrow> Inr bytes
      | Some e \<Rightarrow> Inl (utf8_message e))"

section \<open>A session\<close>

datatype ws_message =
    WsText string
  | WsBinary string
  | WsPing string
  | WsPong string
  | WsFrame string
  | WsClose

text \<open>
  What the loop meets next: the shutdown signal (or the loss of its sender), the tick of the ping timer, a message, a
  read error or the end of the stream. The last argument of a tick or message is the failure of the send
  that it leads to; a message comes with the environment it is served in.
\<close>

datatype 'c socket_event =
    ShutdownChanged
  | PingTick "string option"
  | Received "'c environment" ws_message "string option"
  | ReadFailed string
  | ReadEnded

type_synonym conductor_alert = "string \<times> string \<times> (string \<times> string) list"

record 's session =
  ss_app :: "'s app"
  ss_sent :: "ws_message list"
  ss_alerts :: "conductor_alert list"

text \<open>\<open>Some None\<close>: the loop goes on; \<open>Some (Some r)\<close>: the session returned; \<open>None\<close>: an operation does not end.\<close>

type_synonym 's session_result = "(unit res option \<times> 's session) option"

definition socket_send :: "string \<Rightarrow> ws_message \<Rightarrow> string option \<Rightarrow> 's session \<Rightarrow> 's session_result" where
  "socket_send what message failure ss =
     (case failure of
        None \<Rightarrow> Some (None, ss\<lparr>ss_sent := ss_sent ss @ [message]\<rparr>)
      | Some err \<Rightarrow> Some (Some (Inl (with_source Initialization what err)), ss))"

definition answer_message ::
    "'c environment \<Rightarrow> json_lib \<Rightarrow> 's system_database \<Rightarrow> dbos_context \<Rightarrow> bool \<Rightarrow> string \<Rightarrow> string option \<Rightarrow> 's session \<Rightarrow>
     's session_result" where
  "answer_message env lib db ctx alerts input failure ss =
     (case process_websocket_conductor_message env lib db ctx alerts input (ss_app ss) of
        None \<Rightarrow> None
      | Some (Inl e, a') \<Rightarrow> Some (Some (Inl e), ss\<lparr>ss_app := a'\<rparr>)
      | Some (Inr (reply, raised), a') \<Rightarrow>
          socket_send ''failed to send DBOS conductor response'' (WsText reply) failure
            (ss\<lparr>ss_app := a', ss_alerts := ss_alerts ss @ raised\<rparr>))"

definition session_event ::
    "json_lib \<Rightarrow> 's system_database \<Rightarrow> dbos_context \<Rightarrow> bool \<Rightarrow> 'c socket_event \<Rightarrow> 's session \<Rightarrow> 's session_result" where
  "session_event lib db ctx alerts event ss =
     (case event of
        ShutdownChanged \<Rightarrow> Some (Some (Inr ()), ss\<lparr>ss_sent := ss_sent ss @ [WsClose]\<rparr>)
      | PingTick failure \<Rightarrow> socket_send ''failed to send DBOS conductor websocket ping'' (WsPing '''') failure ss
      | Received env message failure \<Rightarrow>
          (case message of
             WsText input \<Rightarrow> answer_message env lib db ctx alerts input failure ss
           | WsBinary bytes \<Rightarrow>
               (case from_utf8 bytes of
                  Inl err \<Rightarrow> Some (Some (Inl (with_source Serialization ''DBOS conductor sent invalid UTF-8 binary payload'' err)), ss)
                | Inr input \<Rightarrow> answer_message env lib db ctx alerts input failure ss)
           | WsPing payload \<Rightarrow> socket_send ''failed to send DBOS conductor websocket pong'' (WsPong payload) failure ss
           | WsPong _ \<Rightarrow> Some (None, ss)
           | WsFrame _ \<Rightarrow> Some (None, ss)
           | WsClose \<Rightarrow> Some (Some (Inr ()), ss))
      | ReadFailed err \<Rightarrow>
          Some (Some (Inl (with_source Initialization ''failed to read DBOS conductor websocket message'' err)), ss)
      | ReadEnded \<Rightarrow> Some (Some (Inr ()), ss))"

fun session_loop ::
    "json_lib \<Rightarrow> 's system_database \<Rightarrow> dbos_context \<Rightarrow> bool \<Rightarrow> 'c socket_event list \<Rightarrow> 's session \<Rightarrow> 's session_result" where
  "session_loop lib db ctx alerts [] ss = Some (None, ss)"
| "session_loop lib db ctx alerts (event # events) ss =
     (case session_event lib db ctx alerts event ss of
        None \<Rightarrow> None
      | Some (Some r, ss') \<Rightarrow> Some (Some r, ss')
      | Some (None, ss') \<Rightarrow> session_loop lib db ctx alerts events ss')"

text \<open>\<open>connected\<close> is the failure of \<open>connect_async\<close>, if any.\<close>

definition run_websocket_conductor_session ::
    "json_lib \<Rightarrow> (string \<Rightarrow> string) \<Rightarrow> 's system_database \<Rightarrow> dbos_context \<Rightarrow> conductor_config \<Rightarrow> bool \<Rightarrow> string option \<Rightarrow>
     'c socket_event list \<Rightarrow> 's session \<Rightarrow> 's session_result" where
  "run_websocket_conductor_session lib url_encode db ctx config alerts connected events ss =
     (case connected of
        Some err \<Rightarrow>
          Some (Some (Inl (with_source Initialization
            (''failed to connect DBOS conductor websocket at '' @ conductor_websocket_url_redacted url_encode config) err)), ss)
      | None \<Rightarrow> session_loop lib db ctx alerts events ss)"

section \<open>Reconnecting\<close>

text \<open>
  A round of \<open>WebSocketConductorTransport::run\<close>: the shutdown flag as it is read at the top, how connecting goes, what the session
  meets, the flag as it is read when the session returned, and whether the flag changes before the pause is over.
\<close>

record 'c transport_round =
  tr_stop :: bool
  tr_connected :: "string option"
  tr_events :: "'c socket_event list"
  tr_stop_after :: bool
  tr_woken :: bool

definition reconnect_pause :: "conductor_config \<Rightarrow> duration" where
  "reconnect_pause config = max (cc_reconnect_interval config) (from_millis 100)"

fun transport_run ::
    "json_lib \<Rightarrow> (string \<Rightarrow> string) \<Rightarrow> 's system_database \<Rightarrow> dbos_context \<Rightarrow> conductor_config \<Rightarrow> bool \<Rightarrow>
     'c transport_round list \<Rightarrow> 's session \<Rightarrow> 's session_result" where
  "transport_run lib url_encode db ctx config alerts [] ss = Some (None, ss)"
| "transport_run lib url_encode db ctx config alerts (round # rounds) ss =
     (if tr_stop round then Some (Some (Inr ()), ss)
      else case run_websocket_conductor_session lib url_encode db ctx config alerts
                  (tr_connected round) (tr_events round) ss of
             None \<Rightarrow> None
           | Some (None, ss') \<Rightarrow> Some (None, ss')
           | Some (Some r, ss') \<Rightarrow>
               if r = Inr () \<and> tr_stop_after round then Some (Some (Inr ()), ss')
               else if tr_woken round then Some (Some (Inr ()), ss')
               else transport_run lib url_encode db ctx config alerts rounds ss')"

text \<open>\<open>ConductorHandle::shutdown\<close>: the task returned in time, panicked, or is aborted after the time.\<close>

datatype task_end = TaskReturned "unit res" | TaskFailed string | TaskAborted

definition conductor_shutdown :: "task_end option \<Rightarrow> unit res" where
  "conductor_shutdown task =
     (case task of
        None \<Rightarrow> Inr ()
      | Some (TaskReturned r) \<Rightarrow> r
      | Some (TaskFailed err) \<Rightarrow> Inl (with_source Initialization ''conductor task failed while shutting down'' err)
      | Some TaskAborted \<Rightarrow> Inr ())"

end
