(* ===== verification/Session_Properties.thy ===== *)
theory Session_Properties
  imports Session Console_Properties
begin

text \<open>
  Properties of \<open>Session\<close>: a session of the conductor is the service of its requests one after the other, whatever
  control traffic comes between them; what ends it; and the reconnecting loop around it.
\<close>

section \<open>The requests of a session\<close>

fun handle_all ::
    "json_lib \<Rightarrow> 's system_database \<Rightarrow> dbos_context \<Rightarrow> ('c environment \<times> conductor_request) list \<Rightarrow> 's app \<Rightarrow>
     (conductor_response list \<times> 's app) option" where
  "handle_all lib db ctx [] a = Some ([], a)"
| "handle_all lib db ctx ((env, request) # requests) a =
     (case handle_conductor_request env lib db ctx request a of
        None \<Rightarrow> None
      | Some (response, a') \<Rightarrow>
          map_option (\<lambda>(responses, a''). (response # responses, a'')) (handle_all lib db ctx requests a'))"

text \<open>The text of a message that carries one.\<close>

fun message_text :: "ws_message \<Rightarrow> string option" where
  "message_text (WsText input) = Some input"
| "message_text (WsBinary bytes) = (case from_utf8 bytes of Inr input \<Rightarrow> Some input | Inl _ \<Rightarrow> None)"
| "message_text _ = None"

fun event_requests :: "json_lib \<Rightarrow> 'c socket_event \<Rightarrow> ('c environment \<times> conductor_request) list" where
  "event_requests lib (Received env message failure) =
     (case message_text message of
        None \<Rightarrow> []
      | Some input \<Rightarrow> (case decode_conductor_wire_request lib input of Inl _ \<Rightarrow> [] | Inr request \<Rightarrow> [(env, request)]))"
| "event_requests lib _ = []"

definition session_requests :: "json_lib \<Rightarrow> 'c socket_event list \<Rightarrow> ('c environment \<times> conductor_request) list" where
  "session_requests lib events = concat (map (event_requests lib) events)"

lemma session_requests_simps [simp]:
  "session_requests lib [] = []"
  "session_requests lib (e # es) = event_requests lib e @ session_requests lib es"
  by (simp_all add: session_requests_def)

text \<open>The events that a working connection brings: every send succeeds and every text is a request.\<close>

fun goes_on :: "json_lib \<Rightarrow> 'c socket_event \<Rightarrow> bool" where
  "goes_on lib (PingTick failure) = (failure = None)"
| "goes_on lib (Received env (WsPong _) failure) = True"
| "goes_on lib (Received env (WsFrame _) failure) = True"
| "goes_on lib (Received env (WsPing _) failure) = (failure = None)"
| "goes_on lib (Received env message failure) =
     (failure = None \<and> event_requests lib (Received env message failure) \<noteq> [])"
| "goes_on lib _ = False"

definition reply_texts :: "ws_message list \<Rightarrow> string list" where
  "reply_texts sent = concat (map (\<lambda>m. case m of WsText t \<Rightarrow> [t] | _ \<Rightarrow> []) sent)"

lemma reply_texts_simps [simp]:
  "reply_texts [] = []"
  "reply_texts (m # ms) = (case m of WsText t \<Rightarrow> [t] | _ \<Rightarrow> []) @ reply_texts ms"
  "reply_texts (ms @ ns) = reply_texts ms @ reply_texts ns"
  by (simp_all add: reply_texts_def)

section \<open>A session serves its requests\<close>

lemma session_loop_append:
  "session_loop lib db ctx alerts (es @ fs) ss =
     (case session_loop lib db ctx alerts es ss of
        Some (None, ss') \<Rightarrow> session_loop lib db ctx alerts fs ss'
      | r \<Rightarrow> r)"
  by (induction es arbitrary: ss) (auto split: option.splits)

lemma answer_run:
  assumes "decode_conductor_wire_request lib input = Inr request"
  shows "answer_message env lib db ctx alerts input failure ss =
    (case handle_conductor_request env lib db ctx request (ss_app ss) of
       None \<Rightarrow> None
     | Some (response, a') \<Rightarrow>
         socket_send ''failed to send DBOS conductor response'' (WsText (encode_conductor_wire_response lib response)) failure
           (ss\<lparr>ss_app := a', ss_alerts := ss_alerts ss @ alert_of lib alerts request\<rparr>))"
  using assms by (auto simp: answer_message_def processed_message split: option.splits)

text \<open>One event, served: nothing but a request touches the application or is answered with a text.\<close>

lemma event_served:
  assumes "goes_on lib e"
  shows "(case handle_all lib db ctx (event_requests lib e) (ss_app ss) of
      None \<Rightarrow> session_event lib db ctx alerts e ss = None
    | Some (responses, a') \<Rightarrow> \<exists>ss'. session_event lib db ctx alerts e ss = Some (None, ss') \<and> ss_app ss' = a' \<and>
        reply_texts (ss_sent ss') = reply_texts (ss_sent ss) @ map (encode_conductor_wire_response lib) responses \<and>
        ss_alerts ss' = ss_alerts ss @ concat (map (\<lambda>(_, r). alert_of lib alerts r) (event_requests lib e)))"
proof (cases e)
  case (Received env message failure)
  with assms show ?thesis
    by (cases message)
       (auto simp: session_event_def answer_run socket_send_def split: sum.splits option.splits)
qed (use assms in \<open>auto simp: session_event_def socket_send_def\<close>)

lemma handle_all_append:
  "handle_all lib db ctx (rs @ qs) a =
     (case handle_all lib db ctx rs a of
        None \<Rightarrow> None
      | Some (responses, a') \<Rightarrow>
          map_option (\<lambda>(more, a''). (responses @ more, a'')) (handle_all lib db ctx qs a'))"
proof (induction rs arbitrary: a)
  case Nil
  show ?case by (cases "handle_all lib db ctx qs a") auto
next
  case (Cons r rs)
  then show ?case by (cases r) (auto simp: case_prod_beta option.map_comp comp_def split: option.splits)
qed

lemma session_served:
  assumes "\<forall>e \<in> set events. goes_on lib e"
  shows "(case handle_all lib db ctx (session_requests lib events) (ss_app ss) of
      None \<Rightarrow> session_loop lib db ctx alerts events ss = None
    | Some (responses, a') \<Rightarrow> \<exists>ss'. session_loop lib db ctx alerts events ss = Some (None, ss') \<and> ss_app ss' = a' \<and>
        reply_texts (ss_sent ss') = reply_texts (ss_sent ss) @ map (encode_conductor_wire_response lib) responses \<and>
        ss_alerts ss' = ss_alerts ss @ concat (map (\<lambda>(_, r). alert_of lib alerts r) (session_requests lib events)))"
  using assms
proof (induction events arbitrary: ss)
  case (Cons e es)
  note served = event_served [where lib = lib and e = e and db = db and ctx = ctx and ss = ss and alerts = alerts]
  show ?case
  proof (cases "handle_all lib db ctx (event_requests lib e) (ss_app ss)")
    case None
    with served Cons.prems show ?thesis by (simp add: handle_all_append)
  next
    case (Some p)
    then obtain rs a1 where p: "handle_all lib db ctx (event_requests lib e) (ss_app ss) = Some (rs, a1)" by (cases p) auto
    with served Cons.prems obtain t where t: "session_event lib db ctx alerts e ss = Some (None, t)" "ss_app t = a1"
      "reply_texts (ss_sent t) = reply_texts (ss_sent ss) @ map (encode_conductor_wire_response lib) rs"
      "ss_alerts t = ss_alerts ss @ concat (map (\<lambda>(_, r). alert_of lib alerts r) (event_requests lib e))"
      by auto
    from Cons.IH [of t] Cons.prems t p show ?thesis
      by (auto simp: handle_all_append split: option.splits)
  qed
qed simp

lemma handle_all_answers:
  "handle_all lib db ctx requests a = Some (responses, a') \<Longrightarrow>
   map (\<lambda>r. (crs_request_id r, crs_kind r)) responses = map (\<lambda>(_, q). (crq_request_id q, crq_kind q)) requests"
proof (induction requests arbitrary: a responses)
  case (Cons q qs)
  then show ?case
    by (cases q)
       (auto simp: handle_conductor_request_def response_to_def split: option.splits prod.splits sum.splits)
qed simp

text \<open>C36:
  A session of the conductor serves its requests one after the other. While the socket works and every text is a
  request, the session goes on: the application is the one that handles the requests in order, each is
  answered by one text with its id and its kind, an operation that fails included, and the control traffic between
  them changes nothing. Then a shutdown closes the socket and returns; a text that is no request ends the session with
  its error, unserved like all that follows; and a request whose reply cannot be sent has been carried out.\<close>

theorem conductor_session_serves:
  assumes "\<forall>e \<in> set events. goes_on lib e"
    and "handle_all lib db ctx (session_requests lib events) (ss_app ss) = Some (responses, a')"
  shows "\<exists>ss'. session_loop lib db ctx alerts events ss = Some (None, ss') \<and> ss_app ss' = a' \<and>
    reply_texts (ss_sent ss') = reply_texts (ss_sent ss) @ map (encode_conductor_wire_response lib) responses \<and>
    map (\<lambda>r. (crs_request_id r, crs_kind r)) responses =
      map (\<lambda>(_, q). (crq_request_id q, crq_kind q)) (session_requests lib events) \<and>
    session_loop lib db ctx alerts (events @ ShutdownChanged # rest) ss =
      Some (Some (Inr ()), ss'\<lparr>ss_sent := ss_sent ss' @ [WsClose]\<rparr>) \<and>
    (\<forall>e. decode_conductor_wire_request lib input = Inl e \<longrightarrow>
      session_loop lib db ctx alerts (events @ Received env (WsText input) failure # rest) ss = Some (Some (Inl e), ss')) \<and>
    (\<forall>q r a''. decode_conductor_wire_request lib input = Inr q \<longrightarrow>
      handle_conductor_request env lib db ctx q a' = Some (r, a'') \<longrightarrow>
      (\<exists>e ss''. session_loop lib db ctx alerts (events @ Received env (WsText input) (Some err) # rest) ss =
         Some (Some (Inl e), ss'') \<and> ss_app ss'' = a'' \<and> ss_sent ss'' = ss_sent ss'))"
proof -
  from session_served [OF assms(1), where db = db and ctx = ctx and ss = ss and alerts = alerts] assms(2) obtain ss' where
    run: "session_loop lib db ctx alerts events ss = Some (None, ss')" "ss_app ss' = a'"
      "reply_texts (ss_sent ss') = reply_texts (ss_sent ss) @ map (encode_conductor_wire_response lib) responses"
    by auto
  have refused: "answer_message env lib db ctx alerts input failure ss' = Some (Some (Inl e), ss')"
    if "decode_conductor_wire_request lib input = Inl e" for e
    using that by (simp add: answer_message_def processed_message)
  show ?thesis
    using run handle_all_answers [OF assms(2)] refused
    by (intro exI [of _ ss']) (auto simp: session_loop_append session_event_def answer_run socket_send_def)
qed

definition quiet_session :: "memory_data session" where
  "quiet_session = \<lparr>ss_app = \<lparr>app_store = orders_store orders_row, app_spawned = []\<rparr>, ss_sent = [], ss_alerts = []\<rparr>"

definition sample_events :: "unit socket_event list" where
  "sample_events = [PingTick None, Received plain_env (WsText ''cancel it'') None, Received plain_env (WsPing ''p'') None]"

lemma cancel_decoded: "\<exists>q. decode_conductor_wire_request cancel_lib input = Inr q \<and> crq_kind q = KCancelWorkflow"
  by (rule exI, rule conjI, rule cancel_message_decoded) (simp_all add: cancel_lib_def)

lemma cancel_ends:
  "crq_kind q = KCancelWorkflow \<Longrightarrow> \<exists>r a'. handle_conductor_request env lib db ctx q a = Some (r, a')"
  by (simp add: handle_conductor_request_def dispatch_conductor_request_def Let_def ending_def reading_kinds_def
      prod.case_eq_if)

theorem conductor_session_serves_witness:
  "\<exists>ss'. session_loop cancel_lib memory_store tiny_context False (sample_events @ [ShutdownChanged, ReadEnded]) quiet_session =
      Some (Some (Inr ()), ss') \<and> length (reply_texts (ss_sent ss')) = 1"
proof -
  obtain q where q: "decode_conductor_wire_request cancel_lib ''cancel it'' = Inr q" "crq_kind q = KCancelWorkflow"
    using cancel_decoded by blast
  then have reqs: "session_requests cancel_lib sample_events = [(plain_env, q)]"
    by (simp add: sample_events_def)
  have on: "\<forall>e \<in> set sample_events. goes_on cancel_lib e" using q by (simp add: sample_events_def)
  obtain r a' where "handle_conductor_request plain_env cancel_lib memory_store tiny_context q (ss_app quiet_session) = Some (r, a')"
    using cancel_ends [OF q(2)] by blast
  then have "handle_all cancel_lib memory_store tiny_context (session_requests cancel_lib sample_events) (ss_app quiet_session) =
      Some ([r], a')" by (simp add: reqs)
  from conductor_session_serves [OF on this, where alerts = False and rest = "[ReadEnded]" and input = "''x''"
      and failure = None and err = "''e''" and env = plain_env] obtain ss' where
    "session_loop cancel_lib memory_store tiny_context False (sample_events @ [ShutdownChanged, ReadEnded]) quiet_session =
      Some (Some (Inr ()), ss'\<lparr>ss_sent := ss_sent ss' @ [WsClose]\<rparr>)"
    "reply_texts (ss_sent ss') = reply_texts (ss_sent quiet_session) @ [encode_conductor_wire_response cancel_lib r]"
    by (elim exE conjE) (simp only: list.map)
  then show ?thesis by (simp add: quiet_session_def)
qed

section \<open>Reconnecting\<close>

definition gives_way :: "'c transport_round \<Rightarrow> bool" where
  "gives_way round \<longleftrightarrow> tr_connected round \<noteq> None \<and> \<not> tr_stop round \<and> \<not> tr_woken round"

lemma transport_skips:
  assumes "\<forall>round \<in> set failing. gives_way round"
  shows "transport_run lib url_encode db ctx config alerts (failing @ rounds) ss =
    transport_run lib url_encode db ctx config alerts rounds ss"
  using assms by (induction failing) (auto simp: gives_way_def run_websocket_conductor_session_def)

lemma transport_returns:
  assumes "transport_run lib url_encode db ctx config alerts rounds ss = Some (Some r, ss')"
  shows "r = Inr () \<and> (\<exists>round \<in> set rounds. tr_stop round \<or> tr_stop_after round \<or> tr_woken round)"
  using assms
proof (induction rounds arbitrary: ss)
  case (Cons round rounds)
  show ?case
  proof (cases "run_websocket_conductor_session lib url_encode db ctx config alerts (tr_connected round) (tr_events round) ss")
    case None
    with Cons.prems show ?thesis by (auto split: if_splits)
  next
    case (Some p)
    then show ?thesis
      using Cons.prems Cons.IH [of "snd p"] by (cases p) (auto split: if_splits option.splits)
  qed
qed simp

lemma transport_stops:
  assumes "tr_stop stop"
  shows "transport_run lib url_encode db ctx config alerts (rounds @ stop # later) ss =
    transport_run lib url_encode db ctx config alerts (rounds @ [stop]) ss"
  using assms by (induction rounds arbitrary: ss) (auto split: option.splits)

text \<open>C37:
  The transport of the conductor never gives up and stops when told. A server that cannot be reached any number of
  times leaves the application alone, and the next connection is served as if it was the first; the transport
  returns only with success and only when the handle asked for it; and once the flag is up at the top of a
  round, no session follows. Between two sessions it waits for at least 100 ms.\<close>

theorem conductor_reconnects:
  assumes "\<forall>round \<in> set failing. gives_way round" "tr_stop stop"
  shows "transport_run lib url_encode db ctx config alerts (failing @ rounds) ss =
      transport_run lib url_encode db ctx config alerts rounds ss \<and>
    (\<forall>r ss'. transport_run lib url_encode db ctx config alerts rounds ss = Some (Some r, ss') \<longrightarrow>
      r = Inr () \<and> (\<exists>round \<in> set rounds. tr_stop round \<or> tr_stop_after round \<or> tr_woken round)) \<and>
    transport_run lib url_encode db ctx config alerts (rounds @ stop # later) ss =
      transport_run lib url_encode db ctx config alerts (rounds @ [stop]) ss \<and>
    from_millis 100 \<le> reconnect_pause config"
proof (intro conjI allI impI)
  fix r ss'
  assume "transport_run lib url_encode db ctx config alerts rounds ss = Some (Some r, ss')"
  then show "r = Inr ()" "\<exists>round \<in> set rounds. tr_stop round \<or> tr_stop_after round \<or> tr_woken round"
    by (blast dest: transport_returns)+
qed (rule transport_skips [OF assms(1)], rule transport_stops [OF assms(2)], simp add: reconnect_pause_def)

definition sample_round :: "string option \<Rightarrow> bool \<Rightarrow> unit transport_round" where
  "sample_round connected stop =
     \<lparr>tr_stop = stop, tr_connected = connected, tr_events = [ReadEnded], tr_stop_after = False, tr_woken = False\<rparr>"

theorem conductor_reconnects_witness:
  "transport_run cancel_lib (\<lambda>s. s) memory_store tiny_context
      \<lparr>cc_url = ''ws://h'', cc_api_key = ''k'', cc_app_name = ''orders'', cc_executor_metadata = None, cc_reconnect_interval = from_secs 5\<rparr>
      False (replicate 3 (sample_round (Some ''refused'') False) @ [sample_round None False, sample_round None True]) quiet_session =
    Some (Some (Inr ()), quiet_session)"
  using conductor_reconnects [of "replicate 3 (sample_round (Some ''refused'') False)" "sample_round None True"
      cancel_lib "\<lambda>s. s" memory_store tiny_context
      "\<lparr>cc_url = ''ws://h'', cc_api_key = ''k'', cc_app_name = ''orders'', cc_executor_metadata = None, cc_reconnect_interval = from_secs 5\<rparr>"
      False "[sample_round None False, sample_round None True]" quiet_session]
  by (simp add: gives_way_def sample_round_def run_websocket_conductor_session_def session_event_def)

end
