(* ===== verification/Queue_Pipeline.thy ===== *)
theory Queue_Pipeline
  imports Client_Properties Supervisor Execution_Properties
begin

text \<open>
  A workflow from the client that enqueues it to the result it waits for, through the store, the queue supervisor of a
  worker and an execution there: \<open>Client\<close>, \<open>Workflow_Ops\<close> and \<open>Execution\<close> put together as the processes of a deployment
  are.
\<close>

section \<open>The row of an enqueued workflow\<close>

lemma enqueued_row_simps:
  assumes "eo_delay opts = None"
  shows "wf_workflow_uuid (initial_workflow_status ctx now i name enc (enqueue_workflow_options q opts)) = i"
    "wf_name (initial_workflow_status ctx now i name enc (enqueue_workflow_options q opts)) = name"
    "wf_config_name (initial_workflow_status ctx now i name enc (enqueue_workflow_options q opts)) = eo_config_name opts"
    "wf_input (initial_workflow_status ctx now i name enc (enqueue_workflow_options q opts)) = encoded_to_stored_value enc"
    "wf_serialization (initial_workflow_status ctx now i name enc (enqueue_workflow_options q opts)) = enc_serialization enc"
    "wf_status (initial_workflow_status ctx now i name enc (enqueue_workflow_options q opts)) = Enqueued"
    "wf_queue_name (initial_workflow_status ctx now i name enc (enqueue_workflow_options q opts)) = Some q"
    "claimable xid (initial_workflow_status ctx now i name enc (enqueue_workflow_options q opts)\<lparr>wf_timeout := d\<rparr>)"
  using assms
  by (simp_all add: initial_workflow_status_def new_workflow_status_def Let_def claimable_def enqueue_workflow_options_def)

text \<open>The workflows that the round at \<open>now\<close> finds on a queue.\<close>

definition queued_at :: "datetime \<Rightarrow> (string \<rightharpoonup> workflow_status) \<Rightarrow> string \<Rightarrow> string set" where
  "queued_at now rows q =
     {k. \<exists>w. rows k = Some w \<and> wf_queue_name w = Some q \<and>
        (wf_status w = Enqueued \<or> wf_status w = Delayed \<and> due now w)}"

lemma waiting_after_round:
  assumes "\<forall>k. case rows k of
       None \<Rightarrow> rows' k = None
     | Some w \<Rightarrow>
         if wf_status w = Delayed \<and> due now w
         then \<exists>d. rows' k = Some (w\<lparr>wf_output := None, wf_error := None, wf_status := Enqueued, wf_updated_at := now,
           wf_timeout := d\<rparr>)
         else rows' k = Some w"
  shows "waiting_on rows' q \<subseteq> queued_at now rows q"
proof
  fix k
  assume "k \<in> waiting_on rows' q"
  then obtain w' where w': "rows' k = Some w'" "wf_status w' = Enqueued" "wf_queue_name w' = Some q"
    by (auto simp: waiting_on_def)
  with assms [rule_format, of k] obtain w where "rows k = Some w" "wf_queue_name w = Some q"
    "wf_status w = Enqueued \<or> wf_status w = Delayed \<and> due now w"
    by (auto split: option.splits if_splits)
  then show "k \<in> queued_at now rows q" by (auto simp: queued_at_def)
qed

lemma queued_at_insert:
  "queued_at now (rows(i \<mapsto> w)) q \<subseteq> insert i (queued_at now rows q)"
  by (auto simp: queued_at_def)

section \<open>From the client to the result\<close>

context workflow_store
begin

text \<open>A store holds finitely many workflows.\<close>

lemma finite_queued:
  assumes "inv s"
  shows "finite (queued_at now (a_workflows (abs s)) q)"
proof -
  obtain r s' where "db_list_workflows db default_list_options s = (r, s')" by fastforce
  from list_rows [OF assms this] obtain stored where st: "set stored = ran (a_workflows (abs s))" by blast
  have "queued_at now (a_workflows (abs s)) q \<subseteq> wf_workflow_uuid ` set stored"
    using keyed [OF assms] unfolding st queued_at_def by (force simp: ran_def)
  then show ?thesis by (rule finite_subset) simp
qed

end

context supervised_store
begin

text \<open>The round that follows an enqueue spawns the workflow, if its queue is not too long.\<close>

lemma round_spawns:
  assumes "inv (app_store a)" "a_workflows (abs (app_store a)) i = Some w" "wf_status w = Enqueued" "wf_queue_name w = Some q"
    and "queue \<in> ran (a_queues (abs (app_store a)))" "q_name queue = q" "served listened queue"
    and "card (queued_at now (a_workflows (abs (app_store a))) q) \<le> q_max_tasks_per_iteration queue"
  shows "\<exists>a'. transition_and_run_queued_workflows db now listened a = (Inr (), a') \<and> inv (app_store a') \<and>
    a_workflows (abs (app_store a')) i = Some w \<and> (\<exists>added. app_spawned a' = app_spawned a @ added \<and> (i, False) \<in> set added)"
proof -
  obtain r a' where run: "transition_and_run_queued_workflows db now listened a = (r, a')" by fastforce
  let ?rows' = "a_workflows (abs (app_store a'))"
  note round = round_run [OF assms(1) run]
  then have rows: "\<forall>k. case a_workflows (abs (app_store a)) k of
       None \<Rightarrow> ?rows' k = None
     | Some w \<Rightarrow>
         if wf_status w = Delayed \<and> due now w
         then \<exists>d. ?rows' k = Some (w\<lparr>wf_output := None, wf_error := None, wf_status := Enqueued, wf_updated_at := now,
           wf_timeout := d\<rparr>)
         else ?rows' k = Some w" by blast
  from rows [rule_format, of i] assms(2,3) have row: "?rows' i = Some w" by simp
  from row assms(3,4) have on: "i \<in> waiting_on ?rows' q" by (simp add: waiting_on_def)
  have "card (waiting_on ?rows' q) \<le> q_max_tasks_per_iteration queue"
    using card_mono [OF finite_queued [OF assms(1)] waiting_after_round [OF rows]] assms(8) by (rule le_trans)
  with round assms(5-7) on obtain added where "app_spawned a' = app_spawned a @ added" "(i, False) \<in> set added" by blast
  with round run row show ?thesis by blast
qed

end

lemma client_enqueue_stores:
  assumes "workflow_store db ok view nd dedup" "ok (app_store a)" "a_workflows (view (app_store a)) i = None"
    and "\<And>enc. \<not> dedup (app_store a) (initial_workflow_status client now i name enc (enqueue_workflow_options q opts))"
    and "eo_workflow_id opts = Some i" "to_value ty x = Inr v"
    and "encode_value (cx_codec client) v (eo_portable opts \<or> is_portable client) = Inr enc"
    and "client_enqueue db client now fresh q name ty x opts a = (r, a1)"
  shows "\<exists>d. r = Inr i \<and> ok (app_store a1) \<and> app_spawned a1 = app_spawned a \<and>
    view (app_store a1) = (view (app_store a))\<lparr>a_workflows := (a_workflows (view (app_store a)))
      (i \<mapsto> (initial_workflow_status client now i name enc (enqueue_workflow_options q opts))\<lparr>wf_timeout := d\<rparr>)\<rparr>"
proof -
  let ?opts = "enqueue_workflow_options q opts"
  have o: "wo_workflow_id ?opts = Some i" "wo_queue_name ?opts \<noteq> None \<or> wo_delay ?opts \<noteq> None"
    "wo_portable ?opts = eo_portable opts"
    using assms(5) by (simp_all add: enqueue_workflow_options_def)
  have "run_workflow_value db client now fresh name v ?opts a = (r, a1)"
    using assms(6,8) by (simp add: client_enqueue_def run_workflow_def act_bind_def act_lift_def)
  from workflow_store.queued_start [OF assms(1-3) o(1,2) _ this] assms(4,7) o(3) show ?thesis by auto
qed

lemma card_queued_insert:
  assumes "workflow_store db ok view nd dedup" "ok s"
  shows "card (queued_at now ((a_workflows (view s))(i \<mapsto> w)) q) \<le> Suc (card (queued_at now (a_workflows (view s)) q))"
proof -
  note finite = workflow_store.finite_queued [OF assms, of now q]
  have "card (queued_at now ((a_workflows (view s))(i \<mapsto> w)) q) \<le> card (insert i (queued_at now (a_workflows (view s)) q))"
    using finite by (intro card_mono queued_at_insert) simp
  also have "\<dots> \<le> Suc (card (queued_at now (a_workflows (view s)) q))"
    using finite by (simp add: card_insert_if)
  finally show ?thesis .
qed

text \<open>C38:
  A workflow that a client enqueues is run by a worker and its result reaches the client. The enqueue stores the row and
  runs nothing. The next round of the supervisor of a process that has registered the queue and serves it spawns an
  execution, when the queue holds fewer workflows than its tasks per iteration. That execution calls the handler with the
  client's input and leaves a row from which the client's handle reads the handler's value or its error.\<close>

theorem queued_workflow_runs:
  assumes "supervised_store db ok view nd dedup" "ok (app_store a)" "a_workflows (view (app_store a)) i = None"
    and "\<And>enc. \<not> dedup (app_store a) (initial_workflow_status client now i name enc (enqueue_workflow_options q opts))"
    and "eo_workflow_id opts = Some i" "eo_delay opts = None" "to_value ty x = Inr v"
    and "encodes (cx_codec client) (eo_portable opts \<or> is_portable client) v"
    and "queue \<in> ran (a_queues (view (app_store a)))" "q_name queue = q" "served listened queue"
    and "card (queued_at later (a_workflows (view (app_store a))) q) < q_max_tasks_per_iteration queue"
    and "cx_codec ctx = cx_codec client" "resolve_workflow reg name (eo_config_name opts) = Inr h"
    and "proper_handler ok view (cx_codec ctx) i v h"
  shows "\<exists>a1 a2 s' c s1 res s2 row.
    client_enqueue db client now fresh q name ty x opts a = (Inr i, a1) \<and> app_spawned a1 = app_spawned a \<and>
    transition_and_run_queued_workflows db later listened a1 = (Inr (), a2) \<and>
    (\<exists>added. app_spawned a2 = app_spawned a @ added \<and> (i, False) \<in> set added) \<and>
    execute_workflow db t \<lparr>ex_context = ctx, ex_registry = reg, ex_workflow_id = i, ex_resume_claim = False,
      ex_execution_id = xid\<rparr> (app_store a2) = (Inr (), s') \<and>
    h c v s1 = (res, s2) \<and> a_workflows (view s') i = Some row \<and>
    wf_status row = (case res of Inr _ \<Rightarrow> Success | Inl _ \<Rightarrow> Error) \<and>
    get_result_with_options (cx_codec client) ty' i gopts ((Inr row, elapsed) # rounds) = (Some (reported ty' i res), [])"
proof -
  note store = supervised_store.axioms(1) [OF assms(1)]
  let ?c = "cx_codec client" and ?opts = "enqueue_workflow_options q opts"
  obtain enc where enc: "encode_value ?c v (eo_portable opts \<or> is_portable client) = Inr enc" "codec_ok_at ?c v"
    using assms(8) by (auto simp: encodes_def)
  let ?w = "initial_workflow_status client now i name enc ?opts"
  note row = enqueued_row_simps [OF assms(6), where ctx = client and now = now and i = i and name = name and enc = enc and q = q]
  obtain r a1 where en: "client_enqueue db client now fresh q name ty x opts a = (r, a1)" by fastforce
  from client_enqueue_stores [OF store assms(2-5,7) enc(1) this] obtain d where
    a1: "ok (app_store a1)" "app_spawned a1 = app_spawned a" "r = Inr i"
    "view (app_store a1) = (view (app_store a))\<lparr>a_workflows := (a_workflows (view (app_store a)))(i \<mapsto> ?w\<lparr>wf_timeout := d\<rparr>)\<rparr>"
    by blast
  let ?row = "?w\<lparr>wf_timeout := d\<rparr>"
  have stored: "a_workflows (view (app_store a1)) i = Some ?row" by (simp add: a1(4))
  have "card (queued_at later (a_workflows (view (app_store a1))) q) \<le> q_max_tasks_per_iteration queue"
    using card_queued_insert [OF store assms(2), of later i ?row q] assms(12) by (simp add: a1(4))
  from supervised_store.round_spawns [OF assms(1) a1(1) stored _ _ _ assms(10,11) this] assms(9) row(6,7) obtain a2 where
    a2: "transition_and_run_queued_workflows db later listened a1 = (Inr (), a2)" "ok (app_store a2)"
    "a_workflows (view (app_store a2)) i = Some ?row"
    "\<exists>added. app_spawned a2 = app_spawned a1 @ added \<and> (i, False) \<in> set added"
    by (auto simp: a1(4))
  let ?x = "\<lparr>ex_context = ctx, ex_registry = reg, ex_workflow_id = i, ex_resume_claim = False, ex_execution_id = xid\<rparr>"
  have "decode_stored_value (cx_codec (ex_context ?x)) json_serde (wf_input ?row) (wf_serialization ?row) = Inr v"
    using decode_encode_value [OF enc(2,1), of json_serde] row(4,5) assms(13) by (simp add: json_serde_def)
  moreover have "resolve_workflow (ex_registry ?x) (wf_name ?row) (wf_config_name ?row) = Inr h"
    using assms(14) row(2,3) by simp
  moreover have "ok s' \<and> a_workflows (view s') i = a_workflows (view s) i \<and>
      (\<forall>u. p = Inr u \<longrightarrow> encodes (cx_codec (ex_context ?x)) (wf_serialization ?row = PORTABLE_JSON) u)"
    if "ok s" "h (with_run_state (ex_context ?x) (run_state_of_row ?row)) v s = (p, s')" for s p s'
    using assms(15) that unfolding proper_handler_def by fastforce
  moreover have "claimable (ex_execution_id ?x) ?row" using row(8) by simp
  ultimately obtain s1 res s2 s' fin where fin:
    "h (with_run_state (ex_context ?x) (run_state_of_row ?row)) v s1 = (res, s2)"
    "execute_workflow db t ?x (app_store a2) = (Inr (), s')" "a_workflows (view s') i = Some fin"
    "wf_status fin = (case res of Inr _ \<Rightarrow> Success | Inl _ \<Rightarrow> Error)"
    "finished_result (cx_codec ctx) ty' i fin = Some (reported ty' i res)"
    using workflow_store.execution_run [OF store a2(2,3), of ?x h v t ty'] by auto
  have "get_result_with_options ?c ty' i gopts ((Inr fin, elapsed) # rounds) = (Some (reported ty' i res), [])"
    using fin(5) assms(13) by (simp add: get_result_with_options_def)
  with en a1(2,3) a2(1,4) fin show ?thesis by auto
qed

definition tiny_enqueue :: enqueue_options where
  "tiny_enqueue =
     \<lparr>eo_workflow_id = Some ''w9'', eo_application_version = None, eo_deduplication_id = None,
      eo_deduplication_policy = Reject, eo_priority = None, eo_timeout = None, eo_queue_partition_key = None,
      eo_class_name = None, eo_config_name = None, eo_delay = None, eo_authenticated_user = None, eo_assumed_role = None,
      eo_authenticated_roles = [], eo_portable = False\<rparr>"

definition queue_store :: memory_data where
  "queue_store = empty_memory\<lparr>md_queues := [(''q'', tiny_queue)]\<rparr>"

theorem queued_workflow_runs_witness:
  "\<exists>a1 a2 s' row. client_enqueue memory_store tiny_context 5 ''u'' ''q'' ''orders'' json_serde (JBool False) tiny_enqueue
      \<lparr>app_store = queue_store, app_spawned = []\<rparr> = (Inr ''w9'', a1) \<and>
    transition_and_run_queued_workflows memory_store 6 {} a1 = (Inr (), a2) \<and> (''w9'', False) \<in> set (app_spawned a2) \<and>
    execute_workflow memory_store (\<lambda>n. 9) \<lparr>ex_context = tiny_context, ex_registry = tiny_registry, ex_workflow_id = ''w9'',
      ex_resume_claim = False, ex_execution_id = ''x''\<rparr> (app_store a2) = (Inr (), s') \<and>
    get_result_with_options (cx_codec tiny_context) json_serde ''w9'' default_get_result_options [(Inr row, 0)] =
      (Some (Inr (JBool False)), []) \<and> wf_status row = Success"
proof -
  let ?a = "\<lparr>app_store = queue_store, app_spawned = []\<rparr>"
  have codec: "cx_codec tiny_context = tiny_codec" by (simp add: tiny_context_def)
  have inv: "mem_inv (app_store ?a)" by (simp add: queue_store_def mem_inv_def empty_memory_def hm_ok_def hm_keyed_def hm_get_def)
  have none: "a_workflows (mem_abs (app_store ?a)) k = None" for k by (simp add: queue_store_def empty_memory_def)
  have dedup: "\<not> mem_dedup (app_store ?a) (initial_workflow_status tiny_context 5 ''w9'' ''orders'' enc (enqueue_workflow_options ''q'' tiny_enqueue))" for enc
    by (simp add: mem_dedup_def mem_duplicate_def queue_store_def empty_memory_def hm_values_def)
  have opts: "eo_workflow_id tiny_enqueue = Some ''w9''" "eo_delay tiny_enqueue = None" "eo_config_name tiny_enqueue = None"
    by (simp_all add: tiny_enqueue_def)
  have v: "to_value json_serde (JBool False) = Inr (JBool False)" by (simp add: json_serde_def)
  have enc: "encodes (cx_codec tiny_context) (eo_portable tiny_enqueue \<or> is_portable tiny_context) (JBool False)"
    by (rule tiny_encodes [folded codec]) simp
  have queue: "tiny_queue \<in> ran (a_queues (mem_abs (app_store ?a)))" "q_name tiny_queue = ''q''"
    by (auto simp: queue_store_def hm_get_def tiny_queue_def new_queue_def ran_def)
  have few: "card (queued_at 6 (a_workflows (mem_abs (app_store ?a))) ''q'') < q_max_tasks_per_iteration tiny_queue"
    using none by (simp add: queued_at_def tiny_queue_def new_queue_def)
  have proper: "proper_handler mem_inv mem_abs (cx_codec tiny_context) ''w9'' (JBool False) echo"
    using tiny_encodes [folded codec] by (auto simp: proper_handler_def echo_def)
  have res: "resolve_workflow tiny_registry ''orders'' (eo_config_name tiny_enqueue) = Inr echo"
    by (simp add: opts resolve_tiny)
  from queued_workflow_runs [OF mem_sup.supervised_store_axioms inv none dedup opts(1,2) v enc queue _ few refl res proper,
      where fresh = "''u''" and listened = "{}" and t = "\<lambda>n. 9" and xid = "''x''" and ty' = json_serde
      and gopts = default_get_result_options and elapsed = 0 and rounds = "[]"]
  show ?thesis by (fastforce simp: served_def echo_def reported_def json_serde_def codec)
qed

end
