(* ===== verification/Spawned_Steps.thy ===== *)
theory Spawned_Steps
  imports Step_Properties
begin

text \<open>
  Steps that run as tasks of their own, \<open>spawn_step\<close> of \<open>src/src/context.rs\<close>, and \<open>run_as_transaction\<close>. The task of a spawned
  step takes its step number when it first runs, so that the numbers follow the schedule and not the program; the
  property says what a recovery with another schedule does.
\<close>

section \<open>Spawning\<close>

text \<open>The body of the spawned task; the shared counter is part of the state it runs on.\<close>

definition spawn_step ::
    "'s system_database \<Rightarrow> dbos_context \<Rightarrow> 'a serde \<Rightarrow> (int \<Rightarrow> datetime \<times> datetime) \<Rightarrow> string \<Rightarrow>
     ('s, 'w, 'a) task_act \<Rightarrow> ('s, 'w, 'a) task_act" where
  "spawn_step db ctx ty clock name operation = run_as_step db ctx ty clock name operation"

definition run_as_transaction ::
    "'s system_database \<Rightarrow> dbos_context \<Rightarrow> 'a serde \<Rightarrow> (int \<Rightarrow> datetime \<times> datetime) \<Rightarrow> string \<Rightarrow>
     (dbos_context \<times> transaction_isolation_level option \<Rightarrow> ('s, 'w, 'a) task_act) \<Rightarrow> ('s, 'w, 'a) task_act" where
  "run_as_transaction db ctx ty clock name operation =
     run_as_transaction_with_options db ctx ty clock name None operation"

text \<open>
  The tasks of a program that spawned the given steps, run in the order of the schedule; a result comes with
  the position of its handle.
\<close>

fun run_spawned ::
    "'s system_database \<Rightarrow> dbos_context \<Rightarrow> (int \<Rightarrow> datetime \<times> datetime) \<Rightarrow> (string \<times> ('w \<Rightarrow> json res \<times> 'w)) list \<Rightarrow>
     nat list \<Rightarrow> ('s, 'w) task \<Rightarrow> (nat \<times> json res) list \<times> ('s, 'w) task" where
  "run_spawned db ctx clock steps [] t = ([], t)"
| "run_spawned db ctx clock steps (i # schedule) t =
     (case spawn_step db ctx json_serde clock (fst (steps ! i)) (world_op (snd (steps ! i))) t of
        (r, t') \<Rightarrow> (case run_spawned db ctx clock steps schedule t' of (rs, t'') \<Rightarrow> ((i, r) # rs, t'')))"

section \<open>Recovery with another schedule\<close>

context step_store
begin

text \<open>The next step when its number is recorded as a success, under this name or another.\<close>

lemma numbered_step:
  assumes "cx_run_state ctx = Some rs" "inv (tk_store t)" "wrap_i32 (tk_step_id t + 1) = tk_step_id t + 1"
    and "a_steps (abs (tk_store t)) (rs_workflow_id rs, tk_step_id t + 1) =
      Some (success_row (cx_codec ctx) rs clock (tk_step_id t + 1) recorded v)"
    and "encodes (cx_codec ctx) (rs_portable rs) v"
  shows "\<exists>r t'. run_as_step db ctx json_serde clock name operation t = (r, t') \<and>
    (if name = recorded then r = Inr v else \<exists>e. r = Inl e \<and> err_code e = UnexpectedStep) \<and>
    tk_world t' = tk_world t \<and> tk_step_id t' = tk_step_id t + 1 \<and> inv (tk_store t') \<and> abs (tk_store t') = abs (tk_store t)"
proof -
  let ?n = "tk_step_id t + 1"
  obtain r t' where q: "run_step_at db (cx_codec ctx) rs json_serde clock ?n name operation (t\<lparr>tk_step_id := ?n\<rparr>) = (r, t')"
    by fastforce
  have row: "a_steps (abs (tk_store (t\<lparr>tk_step_id := ?n\<rparr>))) (rs_workflow_id rs, ?n) =
      Some (success_row (cx_codec ctx) rs clock ?n recorded v)" using assms(4) by simp
  note rec = recorded_step [OF _ row q]
  have name: "step_name (success_row (cx_codec ctx) rs clock ?n recorded v) = recorded"
    using assms(5) by (auto simp: success_row_def step_row_def encodes_def)
  have "if name = recorded then r = Inr v else \<exists>e. r = Inl e \<and> err_code e = UnexpectedStep"
  proof (cases "name = recorded")
    case True
    with rec(1) assms(2) replay_success [OF assms(5)] show ?thesis by simp
  next
    case False
    with rec(1) assms(2) name show ?thesis by (simp add: replay_step_def unexpected_step_error_def new_error_def)
  qed
  with rec(2-5) assms(2) q show ?thesis by (simp add: run_as_step_at [OF assms(1) refl assms(3)])
qed

lemma spawned_pair:
  assumes "cx_run_state ctx = Some rs" "inv s" "\<And>j. 1 \<le> j \<Longrightarrow> a_steps (abs s) (rs_workflow_id rs, j) = None"
    and "f w = (Inr v, w1)" "g w1 = (Inr u, w2)"
    and "encodes (cx_codec ctx) (rs_portable rs) v" "encodes (cx_codec ctx) (rs_portable rs) u"
  shows "\<exists>t. run_spawned db ctx clock [(a, f), (b, g)] [0, 1] \<lparr>tk_step_id = 0, tk_store = s, tk_world = w\<rparr> =
      ([(0, Inr v), (1, Inr u)], t) \<and> tk_world t = w2 \<and> inv (tk_store t) \<and>
      a_steps (abs (tk_store t)) (rs_workflow_id rs, 1) = Some (success_row (cx_codec ctx) rs clock 1 a v) \<and>
      a_steps (abs (tk_store t)) (rs_workflow_id rs, 2) = Some (success_row (cx_codec ctx) rs clock 2 b u)"
proof -
  let ?c = "cx_codec ctx" and ?t0 = "\<lparr>tk_step_id = 0, tk_store = s, tk_world = w\<rparr>"
  have ok: "result_ok ?c (rs_portable rs) (Inr v)" "result_ok ?c (rs_portable rs) (Inr u)"
    using assms(6,7) by (simp_all add: result_ok_def)
  have small: "wrap_i32 1 = 1" "wrap_i32 2 = 2" by (simp_all add: wrap_i32_def)
  have cp: "checkpoint ?c rs clock 0 [] (a_steps (abs (tk_store ?t0)))" using assms(3) by (simp add: checkpoint_def)
  have f: "f (tk_world ?t0) = (Inr v, w1)" using assms(4) by simp
  from next_step_fresh [where t = ?t0 and n = 0 and f = f and name = a, OF assms(1) _ _ _ f ok(1) cp] assms(2) small
  obtain t1 where t1: "run_as_step db ctx json_serde clock a (world_op f) ?t0 = (Inr v, t1)" "tk_world t1 = w1"
    "tk_step_id t1 = 1" "inv (tk_store t1)"
    "a_steps (abs (tk_store t1)) = (a_steps (abs s))((rs_workflow_id rs, 1) \<mapsto> success_row ?c rs clock 1 a v)"
    "checkpoint ?c rs clock 1 [] (a_steps (abs (tk_store t1)))"
    by (auto simp: told_def result_row_def)
  have g: "g (tk_world t1) = (Inr u, w2)" using assms(5) t1(2) by simp
  from next_step_fresh [where t = t1 and n = 1 and f = g and name = b, OF assms(1) t1(4,3) _ g ok(2) t1(6)] small
  obtain t2 where t2: "run_as_step db ctx json_serde clock b (world_op g) t1 = (Inr u, t2)" "tk_world t2 = w2"
    "inv (tk_store t2)"
    "a_steps (abs (tk_store t2)) = (a_steps (abs (tk_store t1)))((rs_workflow_id rs, 2) \<mapsto> success_row ?c rs clock 2 b u)"
    by (auto simp: told_def result_row_def)
  from t1 t2 show ?thesis by (simp add: spawn_step_def)
qed

lemma spawned_again:
  assumes "cx_run_state ctx = Some rs" "inv s"
    and "a_steps (abs s) (rs_workflow_id rs, 1) = Some (success_row (cx_codec ctx) rs clock 1 a v)"
    and "a_steps (abs s) (rs_workflow_id rs, 2) = Some (success_row (cx_codec ctx) rs clock 2 b u)"
    and "encodes (cx_codec ctx) (rs_portable rs) v" "encodes (cx_codec ctx) (rs_portable rs) u"
  shows "\<exists>x y t. run_spawned db ctx clock [(a, f), (b, g)] [1, 0] \<lparr>tk_step_id = 0, tk_store = s, tk_world = w\<rparr> =
      ([(1, x), (0, y)], t) \<and> tk_world t = w \<and> abs (tk_store t) = abs s \<and>
      (if a = b then x = Inr v \<and> y = Inr u
       else (\<exists>e. x = Inl e \<and> err_code e = UnexpectedStep) \<and> (\<exists>e. y = Inl e \<and> err_code e = UnexpectedStep))"
proof -
  let ?t0 = "\<lparr>tk_step_id = 0, tk_store = s, tk_world = w\<rparr>"
  have small: "wrap_i32 1 = 1" "wrap_i32 2 = 2" by (simp_all add: wrap_i32_def)
  from numbered_step [where t = ?t0 and name = b and clock = clock and recorded = a and operation = "world_op g", OF assms(1) _ _ _ assms(5)] assms(2,3) small
  obtain x t1 where t1: "run_as_step db ctx json_serde clock b (world_op g) ?t0 = (x, t1)"
    "if b = a then x = Inr v else \<exists>e. x = Inl e \<and> err_code e = UnexpectedStep"
    "tk_world t1 = w" "tk_step_id t1 = 1" "inv (tk_store t1)" "abs (tk_store t1) = abs s"
    by auto
  from numbered_step [where t = t1 and name = a and clock = clock and recorded = b and operation = "world_op f", OF assms(1) t1(5) _ _ assms(6)] t1(4,6) assms(4) small
  obtain y t2 where t2: "run_as_step db ctx json_serde clock a (world_op f) t1 = (y, t2)"
    "if a = b then y = Inr u else \<exists>e. y = Inl e \<and> err_code e = UnexpectedStep"
    "tk_world t2 = tk_world t1" "abs (tk_store t2) = abs (tk_store t1)"
    by auto
  from t1 t2 show ?thesis by (auto simp: spawn_step_def)
qed

end

text \<open>C39:
  Spawned steps are not replayed by handle. Two steps are spawned, run in the order of their spawning and are recorded;
  the workflow crashes and is run again, and now the second task is scheduled first. Nothing is run twice, but if the
  steps have the same name each handle gets the other's result, and if they have different names both fail
  with \<open>UnexpectedStep\<close> although the program is deterministic.\<close>

theorem spawned_steps_swap:
  assumes "step_store db ok view" "cx_run_state ctx = Some rs" "ok s"
    and "\<And>j. 1 \<le> j \<Longrightarrow> a_steps (view s) (rs_workflow_id rs, j) = None"
    and "f w = (Inr v, w1)" "g w1 = (Inr u, w2)"
    and "encodes (cx_codec ctx) (rs_portable rs) v" "encodes (cx_codec ctx) (rs_portable rs) u"
  shows "\<exists>t1 t2 x y.
    run_spawned db ctx clock [(a, f), (b, g)] [0, 1] \<lparr>tk_step_id = 0, tk_store = s, tk_world = w\<rparr> =
      ([(0, Inr v), (1, Inr u)], t1) \<and>
    run_spawned db ctx clock [(a, f), (b, g)] [1, 0] \<lparr>tk_step_id = 0, tk_store = tk_store t1, tk_world = tk_world t1\<rparr> =
      ([(1, x), (0, y)], t2) \<and>
    tk_world t2 = w2 \<and> view (tk_store t2) = view (tk_store t1) \<and>
    (if a = b then x = Inr v \<and> y = Inr u
     else (\<exists>e. x = Inl e \<and> err_code e = UnexpectedStep) \<and> (\<exists>e. y = Inl e \<and> err_code e = UnexpectedStep))"
proof -
  from step_store.spawned_pair [where f = f and g = g, OF assms(1-3), OF assms(4-8), of clock a b] obtain t1 where t1:
    "run_spawned db ctx clock [(a, f), (b, g)] [0, 1] \<lparr>tk_step_id = 0, tk_store = s, tk_world = w\<rparr> =
      ([(0, Inr v), (1, Inr u)], t1)" "tk_world t1 = w2" "ok (tk_store t1)"
    "a_steps (view (tk_store t1)) (rs_workflow_id rs, 1) = Some (success_row (cx_codec ctx) rs clock 1 a v)"
    "a_steps (view (tk_store t1)) (rs_workflow_id rs, 2) = Some (success_row (cx_codec ctx) rs clock 2 b u)"
    by blast
  from step_store.spawned_again [OF assms(1,2) t1(3-5) assms(7,8), of f g "tk_world t1"] t1 show ?thesis by blast
qed

theorem spawned_steps_swap_witness:
  "\<exists>t1 t2. run_spawned memory_store tiny_context tiny_clock
        [(''ask'', \<lambda>w. (Inr (JBool True), w @ [''left''])), (''ask'', \<lambda>w. (Inr (JBool False), w @ [''right'']))] [0, 1]
        \<lparr>tk_step_id = 0, tk_store = empty_memory, tk_world = []\<rparr> = ([(0, Inr (JBool True)), (1, Inr (JBool False))], t1) \<and>
     run_spawned memory_store tiny_context tiny_clock
        [(''ask'', \<lambda>w. (Inr (JBool True), w @ [''left''])), (''ask'', \<lambda>w. (Inr (JBool False), w @ [''right'']))] [1, 0]
        \<lparr>tk_step_id = 0, tk_store = tk_store t1, tk_world = tk_world t1\<rparr> = ([(1, Inr (JBool True)), (0, Inr (JBool False))], t2)"
proof -
  have run: "cx_run_state tiny_context = Some tiny_run" by (simp add: tiny_context_def)
  have enc: "encodes (cx_codec tiny_context) (rs_portable tiny_run) (JBool True)"
    "encodes (cx_codec tiny_context) (rs_portable tiny_run) (JBool False)"
    using tiny_encodes by (simp_all add: tiny_context_def)
  have none: "a_steps (mem_abs empty_memory) (rs_workflow_id tiny_run, j) = None" for j by (simp add: empty_memory_def)
  from spawned_steps_swap [OF mem.step_store_axioms run mem_inv_empty none,
      of "\<lambda>w. (Inr (JBool True), w @ [''left''])" "[]" "JBool True" "[''left'']"
        "\<lambda>w. (Inr (JBool False), w @ [''right''])" "JBool False" "[''left'', ''right'']" tiny_clock "''ask''" "''ask''"] enc
  show ?thesis by auto
qed

end
