(* ===== verification/Builders.thy ===== *)
theory Builders
  imports Lifecycle Steps Sql_Refinement Memory_Store Observability
begin

text \<open>
  How an application sets things up: the builder methods of \<open>DbosConfig\<close> and of the options of steps, results and
  streams, and the handles of the system databases with the functions that connect them (\<open>src/src/context.rs\<close>,
  \<open>src/src/types.rs\<close>, \<open>src/src/store.rs\<close>). A handle is the store and the state it starts in. A configuration with its serializer,
  observability, alert handler and transport is \<open>config_parts\<close>; the last two are code of the application, of any type.
\<close>

section \<open>The configuration\<close>

definition with_database_url :: "string \<Rightarrow> dbos_config \<Rightarrow> dbos_config" where
  "with_database_url database_url config = config\<lparr>cfg_database_url := Some database_url\<rparr>"

definition with_turso_path :: "string \<Rightarrow> dbos_config \<Rightarrow> dbos_config" where
  "with_turso_path turso_path config = config\<lparr>cfg_turso_path := Some turso_path\<rparr>"

definition with_system_database :: "dbos_config \<Rightarrow> dbos_config" where
  "with_system_database config = config\<lparr>cfg_system_database := True\<rparr>"

definition with_conductor :: "string \<Rightarrow> string \<Rightarrow> dbos_config \<Rightarrow> dbos_config" where
  "with_conductor url api_key config = config\<lparr>cfg_conductor_url := Some url, cfg_conductor_api_key := Some api_key\<rparr>"

definition with_conductor_executor_metadata :: "json res \<Rightarrow> dbos_config \<Rightarrow> dbos_config res" where
  "with_conductor_executor_metadata metadata config =
     res_map (\<lambda>v. config\<lparr>cfg_conductor_executor_metadata := Some v\<rparr>) metadata"

record ('h, 't) config_parts =
  cp_config :: dbos_config
  cp_serializer :: "custom_serializer option"
  cp_observability :: "metrics option option"
  cp_alert_handler :: "'h option"
  cp_transport :: "'t option"

definition new_parts :: "string \<Rightarrow> ('h, 't) config_parts" where
  "new_parts app_name =
     \<lparr>cp_config = new_config app_name, cp_serializer = None, cp_observability = None, cp_alert_handler = None,
      cp_transport = None\<rparr>"

definition with_serializer :: "custom_serializer \<Rightarrow> ('h, 't) config_parts \<Rightarrow> ('h, 't) config_parts" where
  "with_serializer serializer parts = parts\<lparr>cp_serializer := Some serializer\<rparr>"

definition with_observability :: "metrics option \<Rightarrow> ('h, 't) config_parts \<Rightarrow> ('h, 't) config_parts" where
  "with_observability handle parts = parts\<lparr>cp_observability := Some handle\<rparr>"

definition with_conductor_alert_handler :: "'h \<Rightarrow> ('h, 't) config_parts \<Rightarrow> ('h, 't) config_parts" where
  "with_conductor_alert_handler alert_handler parts = parts\<lparr>cp_alert_handler := Some alert_handler\<rparr>"

definition with_conductor_transport :: "'t \<Rightarrow> ('h, 't) config_parts \<Rightarrow> ('h, 't) config_parts" where
  "with_conductor_transport transport parts = parts\<lparr>cp_transport := Some transport\<rparr>"

text \<open>The context of a configuration with its parts: the serializer is in its codec, the observability beside it.\<close>

definition context_of_parts ::
    "(string \<Rightarrow> string option) \<Rightarrow> bool \<Rightarrow> bool \<Rightarrow> (store_choice \<Rightarrow> 's system_database res) \<Rightarrow> json_lib \<Rightarrow>
     ('h, 't) config_parts \<Rightarrow> ('s system_database \<times> dbos_context \<times> metrics option) res" where
  "context_of_parts env turso postgres open_store lib parts =
     res_map (\<lambda>(db, ctx). (db, ctx, case cp_observability parts of Some handle \<Rightarrow> handle | None \<Rightarrow> new_observability))
       (new_context env turso postgres open_store \<lparr>cdc_lib = lib, cdc_serializer = cp_serializer parts\<rparr> (cp_config parts))"

definition chosen_transport :: "'t \<Rightarrow> ('h, 't) config_parts \<Rightarrow> 't" where
  "chosen_transport websocket parts = (case cp_transport parts of Some transport \<Rightarrow> transport | None \<Rightarrow> websocket)"

section \<open>Options\<close>

definition with_max_retries :: "nat \<Rightarrow> 'f step_options \<Rightarrow> 'f step_options" where
  "with_max_retries max_retries opts = opts\<lparr>so_max_retries := max_retries\<rparr>"

definition with_next_step_id :: "int \<Rightarrow> 'f step_options \<Rightarrow> 'f step_options" where
  "with_next_step_id sid opts = opts\<lparr>so_next_step_id := Some sid\<rparr>"

definition with_retry_predicate :: "(dbos_error \<Rightarrow> bool) \<Rightarrow> 'f step_options \<Rightarrow> 'f step_options" where
  "with_retry_predicate retry_predicate opts = opts\<lparr>so_retry_predicate := Some retry_predicate\<rparr>"

definition result_with_timeout :: "duration \<Rightarrow> get_result_options \<Rightarrow> get_result_options" where
  "result_with_timeout timeout opts = opts\<lparr>gr_timeout := Some timeout\<rparr>"

definition result_with_polling_interval :: "duration \<Rightarrow> get_result_options \<Rightarrow> get_result_options" where
  "result_with_polling_interval polling_interval opts =
     (if polling_interval \<noteq> 0 then opts\<lparr>gr_polling_interval := polling_interval\<rparr> else opts)"

definition snapshot_from_offset :: "int \<Rightarrow> read_stream_options" where
  "snapshot_from_offset from_offset = \<lparr>rs_snapshot = True, rs_from_offset = from_offset\<rparr>"

text \<open>The option of a message, an event or a stream value is whether it is portable.\<close>

definition portable_option :: bool where
  "portable_option = True"

section \<open>System databases\<close>

definition memory_handle :: "memory_data system_database \<times> memory_data" where
  "memory_handle = (memory_store, empty_memory)"

text \<open>\<open>PostgresStore::connect\<close>: the schema is checked, then the first connection is opened.\<close>

definition postgres_connect :: "nat option \<Rightarrow> string \<Rightarrow> (sql_state, sql_state system_database) dbact" where
  "postgres_connect configured_timeout schema =
     (let reconnect_timeout = pg_reconnect_timeout configured_timeout in
      act_bind (act_lift (validate_schema_name schema)) (\<lambda>_.
      act_bind (\<lambda>s. ensure_connected_locked reconnect_timeout (s\<lparr>sql_connected := False\<rparr>)) (\<lambda>_.
        act_return (pg_store reconnect_timeout))))"

text \<open>\<open>TursoStore::connect\<close>, with how building and connecting fail, if they do.\<close>

definition turso_connect :: "string option \<Rightarrow> string option \<Rightarrow> string \<Rightarrow> sql_state system_database res" where
  "turso_connect build_failure connect_failure path =
     (if path = '''' then Inl (invalid_argument ''turso database path is required'')
      else case build_failure of
        Some err \<Rightarrow> Inl (from_turso_error err)
      | None \<Rightarrow> (case connect_failure of Some err \<Rightarrow> Inl (from_turso_error err) | None \<Rightarrow> Inr turso_store))"

section \<open>What the builders keep\<close>

text \<open>Whatever is built from the defaults, the intervals of the options stay positive.\<close>

datatype 'f step_builder =
    BMaxRetries nat
  | BBackoffFactor 'f
  | BBaseInterval duration
  | BMaxInterval duration
  | BNextStepId int
  | BRetryPredicate "dbos_error \<Rightarrow> bool"

fun build_step :: "'f f64_ops \<Rightarrow> 'f step_builder \<Rightarrow> 'f step_options \<Rightarrow> 'f step_options" where
  "build_step fl (BMaxRetries n) opts = with_max_retries n opts"
| "build_step fl (BBackoffFactor x) opts = with_backoff_factor fl x opts"
| "build_step fl (BBaseInterval d) opts = with_base_interval d opts"
| "build_step fl (BMaxInterval d) opts = with_max_interval d opts"
| "build_step fl (BNextStepId n) opts = with_next_step_id n opts"
| "build_step fl (BRetryPredicate p) opts = with_retry_predicate p opts"

definition sane_options :: "'f f64_ops \<Rightarrow> 'f step_options \<Rightarrow> bool" where
  "sane_options fl opts \<longleftrightarrow>
     0 < so_base_interval opts \<and> 0 < so_max_interval opts \<and>
     f_is_finite fl (so_backoff_factor opts) \<and> f_less fl (f_zero fl) (so_backoff_factor opts)"

lemma built_options_sane:
  assumes "f_is_finite fl (f_two fl)" "f_less fl (f_zero fl) (f_two fl)"
  shows "sane_options fl (fold (build_step fl) builders (default_step_options fl))"
proof -
  have "sane_options fl (fold (build_step fl) builders opts)" if "sane_options fl opts" for opts
    using that
  proof (induction builders arbitrary: opts)
    case (Cons b bs)
    have "sane_options fl (build_step fl b opts)"
      using Cons.prems
      by (cases b) (simp_all add: sane_options_def with_max_retries_def with_backoff_factor_def with_base_interval_def
          with_max_interval_def with_next_step_id_def with_retry_predicate_def)
    with Cons.IH show ?case by simp
  qed simp
  moreover have "sane_options fl (default_step_options fl)"
    using assms by (simp add: sane_options_def default_step_options_def from_millis_def from_secs_def nanos_per_milli_def)
  ultimately show ?thesis .
qed

text \<open>
  A context encodes with the serializer it was given last, and is observed unless it was told not to be; the parts decide
  nothing about whether it can be built.
\<close>

lemma context_of_parts_cases:
  "(\<exists>e. new_context env turso postgres open_store \<lparr>cdc_lib = lib, cdc_serializer = cp_serializer parts\<rparr> (cp_config parts) = Inl e \<and>
      context_of_parts env turso postgres open_store lib parts = Inl e) \<or>
   (\<exists>db config. context_of_parts env turso postgres open_store lib parts =
      Inr (db, \<lparr>cx_config = config, cx_codec = \<lparr>cdc_lib = lib, cdc_serializer = cp_serializer parts\<rparr>, cx_run_state = None\<rparr>,
        case cp_observability parts of Some handle \<Rightarrow> handle | None \<Rightarrow> new_observability))"
proof (cases "new_context env turso postgres open_store \<lparr>cdc_lib = lib, cdc_serializer = cp_serializer parts\<rparr> (cp_config parts)")
  case (Inl e)
  then show ?thesis by (simp add: context_of_parts_def)
next
  case (Inr x)
  then obtain db config where "x = (db, \<lparr>cx_config = config, cx_codec = \<lparr>cdc_lib = lib, cdc_serializer = cp_serializer parts\<rparr>, cx_run_state = None\<rparr>)"
    by (auto simp: new_context_def res_bind_def split: sum.splits)
  with Inr show ?thesis by (simp add: context_of_parts_def)
qed

lemma context_of_parts_run:
  assumes "context_of_parts env turso postgres open_store lib parts = Inr (db, ctx, handle)"
  shows "cdc_serializer (cx_codec ctx) = cp_serializer parts" "cx_run_state ctx = None"
    "is_enabled handle \<longleftrightarrow> cp_observability parts \<noteq> Some disabled_observability"
  using context_of_parts_cases [of env turso postgres open_store lib parts] assms
  by (auto simp: is_enabled_def disabled_observability_def new_observability_def split: option.splits)

lemma postgres_connect_run:
  assumes "postgres_connect configured schema s = (Inr db, s')"
  shows "db = pg_store (pg_reconnect_timeout configured)" "sql_connected s'" "sql_table s' = sql_table s"
    "schema \<noteq> []" "list_all (\<lambda>ch. ascii_alphanumeric ch \<or> ch = CHR ''_'') schema"
  using assms
  by (auto simp: postgres_connect_def validate_schema_name_def ensure_connected_locked_def act_bind_def Let_def
      split: sum.splits prod.splits if_splits list.splits)

end
