(* ===== verification/Crash_Recovery.thy ===== *)
theory Crash_Recovery
  imports Supervisor
begin

text \<open>
  A workflow over its whole life: a process claims and starts it, dies in the middle of its handler, and the process that
  is started in its place recovers it. \<open>Execution\<close>, \<open>Replay\<close> and the recovery of \<open>Workflow_Ops\<close> put together; the handler is
  a program over steps.
\<close>

section \<open>A database and the outside world\<close>

text \<open>A database beside a world that its methods do not touch.\<close>

definition beside :: "('s, 'a) dbact \<Rightarrow> ('s \<times> 'w, 'a) dbact" where
  "beside m sw = (case m (fst sw) of (r, s') \<Rightarrow> (r, (s', snd sw)))"

definition with_world :: "'s system_database \<Rightarrow> ('s \<times> 'w) system_database" where
  "with_world db =
     \<lparr>db_migrate = beside (db_migrate db),
      db_insert_workflow = (\<lambda>a. beside (db_insert_workflow db a)),
      db_insert_workflow_with_result = (\<lambda>a. beside (db_insert_workflow_with_result db a)),
      db_claim_workflow_execution = (\<lambda>a b c d. beside (db_claim_workflow_execution db a b c d)),
      db_supports_workflow_execution_claims = db_supports_workflow_execution_claims db,
      db_save_workflow = (\<lambda>a. beside (db_save_workflow db a)),
      db_get_workflow = (\<lambda>a. beside (db_get_workflow db a)),
      db_list_workflows = (\<lambda>a. beside (db_list_workflows db a)),
      db_delete_workflows = (\<lambda>a b. beside (db_delete_workflows db a b)),
      db_record_step = (\<lambda>a. beside (db_record_step db a)),
      db_get_step = (\<lambda>a b. beside (db_get_step db a b)),
      db_list_steps = (\<lambda>a. beside (db_list_steps db a)),
      db_upsert_queue = (\<lambda>a. beside (db_upsert_queue db a)),
      db_get_queue = (\<lambda>a. beside (db_get_queue db a)),
      db_list_queues = beside (db_list_queues db),
      db_delete_queue = (\<lambda>a. beside (db_delete_queue db a)),
      db_upsert_schedule = (\<lambda>a. beside (db_upsert_schedule db a)),
      db_get_schedule = (\<lambda>a. beside (db_get_schedule db a)),
      db_list_schedules = (\<lambda>a. beside (db_list_schedules db a)),
      db_delete_schedule = (\<lambda>a. beside (db_delete_schedule db a)),
      db_send_message = (\<lambda>a. beside (db_send_message db a)),
      db_recv_message = (\<lambda>a b. beside (db_recv_message db a b)),
      db_list_messages = (\<lambda>a. beside (db_list_messages db a)),
      db_set_event = (\<lambda>a. beside (db_set_event db a)),
      db_get_event = (\<lambda>a b. beside (db_get_event db a b)),
      db_list_events = (\<lambda>a. beside (db_list_events db a)),
      db_write_stream = (\<lambda>a. beside (db_write_stream db a)),
      db_read_stream = (\<lambda>a b. beside (db_read_stream db a b)),
      db_list_streams = (\<lambda>a. beside (db_list_streams db a)),
      db_close_stream = (\<lambda>a b c. beside (db_close_stream db a b c)),
      db_create_application_version = (\<lambda>a. beside (db_create_application_version db a)),
      db_list_application_versions = beside (db_list_application_versions db),
      db_set_latest_application_version = (\<lambda>a b. beside (db_set_latest_application_version db a b)),
      db_set_patch = (\<lambda>a b. beside (db_set_patch db a b)),
      db_get_patch = (\<lambda>a. beside (db_get_patch db a))\<rparr>"

lemma beside_iff: "beside m sw = (r, sw') \<longleftrightarrow> m (fst sw) = (r, fst sw') \<and> snd sw' = snd sw"
  by (cases sw') (auto simp: beside_def split: prod.splits)

lemma workflow_store_with_world:
  assumes "workflow_store db ok view nd dedup"
  shows "workflow_store (with_world db) (\<lambda>sw. ok (fst sw)) (\<lambda>sw. view (fst sw)) nd (\<lambda>sw. dedup (fst sw))"
proof (unfold_locales, goal_cases)
  case 1
  show ?case using workflow_store.supports [OF assms] by (simp add: with_world_def)
next
  case (2 s i w)
  then show ?case by (rule workflow_store.keyed [OF assms])
next
  case (3 s i rg s')
  from 3(2) have "db_get_workflow db i (fst s) = (rg, fst s')" by (simp add: with_world_def beside_iff)
  from workflow_store.get [OF assms 3(1) this] show ?case .
next
  case (4 s w ru s')
  from 4(2) have "db_save_workflow db w (fst s) = (ru, fst s')" by (simp add: with_world_def beside_iff)
  from workflow_store.save [OF assms 4(1) this] show ?case .
next
  case (5 s w e ri s')
  from 5(3) have "db_insert_workflow_with_result db w (fst s) = (ri, fst s')" by (simp add: with_world_def beside_iff)
  from workflow_store.insert_existing [OF assms 5(1,2) this] show ?case .
next
  case (6 s w ri s')
  from 6(4) have "db_insert_workflow_with_result db w (fst s) = (ri, fst s')" by (simp add: with_world_def beside_iff)
  from workflow_store.insert_new [OF assms 6(1-3) this] show ?case .
next
  case (7 s w ri s')
  from 7(4) have "db_insert_workflow_with_result db w (fst s) = (ri, fst s')" by (simp add: with_world_def beside_iff)
  from workflow_store.insert_dedup [OF assms 7(1-3) this] show ?case .
next
  case (8 w s)
  show ?case using workflow_store.insert_unit [OF assms, of w "fst s"]
    by (simp add: with_world_def beside_def split: prod.splits)
next
  case (9 s i now ex xid rb s')
  from 9(3) have "db_claim_workflow_execution db now i ex xid (fst s) = (rb, fst s')" by (simp add: with_world_def beside_iff)
  from workflow_store.claim [OF assms 9(1,2) this] show ?case .
next
  case (10 s opts rl s')
  from 10(2) have "db_list_workflows db opts (fst s) = (rl, fst s')" by (simp add: with_world_def beside_iff)
  from workflow_store.list_rows [OF assms 10(1) this] show ?case .
qed

lemma exec_steps_rank: "exec_steps db t x n (st, s) = (st', s') \<Longrightarrow> exec_rank st' \<le> exec_rank st"
proof (induction n arbitrary: st s)
  case (Suc n)
  obtain st1 s1 where one: "exec_step db (t n) x st s = (st1, s1)" by fastforce
  with Suc.prems have "exec_steps db t x n (st1, s1) = (st', s')" by simp
  from Suc.IH [OF this] exec_step_rank [OF one] show ?case by simp
qed simp

lemma exec_step_keeps_world:
  assumes "exec_step (with_world db) now x st sw = (st', sw')" "\<And>w. st \<noteq> RunHandler w"
  shows "snd sw' = snd sw"
  using assms
  by (cases st)
    (auto simp: exec_step_def with_world_def beside_def Let_def split: prod.splits sum.splits option.splits if_splits)

lemma exec_steps_keep_world:
  "exec_steps (with_world db) t x n (st, sw) = (st', sw') \<Longrightarrow> 3 \<le> exec_rank st' \<or> exec_rank st \<le> 2 \<Longrightarrow> snd sw' = snd sw"
proof (induction n arbitrary: st sw)
  case 0
  then show ?case by simp
next
  case (Suc n)
  obtain st1 sw1 where one: "exec_step (with_world db) (t n) x st sw = (st1, sw1)" by (metis prod.exhaust)
  with Suc.prems have rest: "exec_steps (with_world db) t x n (st1, sw1) = (st', sw')" by simp
  have le: "exec_rank st' \<le> exec_rank st1" using exec_steps_rank [OF rest] .
  note dec = exec_step_rank [OF one]
  have "\<And>w. st \<noteq> RunHandler w" using Suc.prems(2) le dec by auto
  with exec_step_keeps_world [OF one] have "snd sw1 = snd sw" by simp
  moreover have "snd sw' = snd sw1" using Suc.IH [OF rest] Suc.prems(2) dec by linarith
  ultimately show ?case by simp
qed

lemma recover_keeps_world:
  assumes "recover_pending_workflows (with_world db) ids a = (r, a')"
  shows "snd (app_store a') = snd (app_store a)"
proof -
  obtain q sw where l: "db_list_workflows (with_world db) recovery_filter (app_store a) = (q, sw)" by (metis prod.exhaust)
  then have "snd sw = snd (app_store a)" by (simp add: with_world_def beside_iff)
  moreover have "app_store a' = sw"
  proof (cases q)
    case (Inl e)
    with assms l show ?thesis
      by (auto simp: recover_pending_workflows_def act_bind_def on_store_def list_workflows_def)
  next
    case (Inr ws)
    obtain hs where "act_map (recover_one ids) ws (a\<lparr>app_store := sw\<rparr>) =
        (Inr hs, a\<lparr>app_store := sw, app_spawned := app_spawned a @ concat (map (recovery_of ids) ws)\<rparr>)"
      using recover_map_run [of ids ws "a\<lparr>app_store := sw\<rparr>"] by auto
    with Inr assms l show ?thesis
      by (auto simp: recover_pending_workflows_def act_bind_def on_store_def list_workflows_def act_return_def)
  qed
  ultimately show ?thesis by simp
qed

section \<open>A workflow whose body is a program over steps\<close>

definition prog_handler ::
    "'s system_database \<Rightarrow> (int \<Rightarrow> datetime \<times> datetime) \<Rightarrow> (json \<Rightarrow> 'w prog) \<Rightarrow> ('s \<times> 'w) handler" where
  "prog_handler db clock body ctx input sw =
     (case run_prog db ctx clock (body input) \<lparr>tk_step_id = 0, tk_store = fst sw, tk_world = snd sw\<rparr> of
        (r, t) \<Rightarrow> (r, (tk_store t, tk_world t)))"


text \<open>What stays the same of a row while its workflow is claimed, started and started again.\<close>

definition same_call :: "workflow_status \<Rightarrow> workflow_status \<Rightarrow> bool" where
  "same_call w w' \<longleftrightarrow> wf_name w = wf_name w' \<and> wf_config_name w = wf_config_name w' \<and> wf_input w = wf_input w' \<and>
     wf_serialization w = wf_serialization w' \<and> run_state_of_row w = run_state_of_row w'"

lemma same_call_kept [simp]:
  "same_call (claimed_status now e xid w) w' = same_call w w'"
  "same_call (started_status now now' w) w' = same_call w w'"
  "same_call (w\<lparr>wf_timeout := d\<rparr>) w' = same_call w w'"
  "same_call w w"
  by (simp_all add: same_call_def claimed_status_def started_status_def run_state_of_row_def)

lemma exec_steps_finished [simp]: "exec_steps db t x n (Finished r, s) = (Finished r, s)"
  by (induction n) (simp_all add: exec_step_def)

lemma crash_stage:
  assumes store: "workflow_store db ok view nd dedup" and steps: "step_store db ok view"
    and "ok s" "a_workflows (view s) i = Some row" "claimable xid row"
    and "resolve_workflow reg (wf_name row) (wf_config_name row) = Inr h"
    and "\<And>j. 1 \<le> j \<Longrightarrow> a_steps (view s) (i, j) = None"
    and "log_ok (cx_codec ctx) (run_state_of_row row) 0 (ideal_log i prog w)" "m \<le> length (ideal_log i prog w)"
  shows "\<exists>row1 s1 r1 t1 row2.
    exec_steps (with_world db) t \<lparr>ex_context = ctx, ex_registry = reg, ex_workflow_id = i, ex_resume_claim = False,
      ex_execution_id = xid\<rparr> 4 (ReadRow, (s, w)) = (RunHandler row1, (s1, w)) \<and>
    run_steps db (with_run_state ctx (run_state_of_row row1)) clock prog m
      \<lparr>tk_step_id = 0, tk_store = s1, tk_world = w\<rparr> = (r1, t1) \<and>
    tk_world t1 = ideal_world i prog m w \<and> ok (tk_store t1) \<and>
    checkpoint (cx_codec ctx) (run_state_of_row row) clock 0 (take m (ideal_log i prog w)) (a_steps (view (tk_store t1))) \<and>
    a_workflows (view (tk_store t1)) i = Some row2 \<and> wf_status row2 = Pending \<and>
    wf_executor_id row2 = Some (executor_id ctx) \<and> wf_attempts row2 = saturating_succ (wf_attempts row) \<and>
    same_call row2 row"
proof -
  note lifted = workflow_store_with_world [OF store]
  let ?x = "\<lparr>ex_context = ctx, ex_registry = reg, ex_workflow_id = i, ex_resume_claim = False, ex_execution_id = xid\<rparr>"
  let ?rs = "run_state_of_row row" and ?c = "cx_codec ctx" and ?log = "ideal_log i prog w"
  let ?w1 = "claimed_status (t (Suc 1)) (executor_id ctx) xid row"
  let ?w2 = "started_status (t 0) (t 0) ?w1"
  have uuid: "wf_workflow_uuid row = i" using workflow_store.keyed [OF store assms(3,4)] .
  have rs: "rs_workflow_id ?rs = i" using uuid by (simp add: run_state_of_row_def)
  have in0: "ok (fst (s, w))" "a_workflows (view (fst (s, w))) i = Some row" "claimable (ex_execution_id ?x) row" "ex_workflow_id ?x = i"
    using assms(3-5) by simp_all
  obtain sw3 where 3: "exec_steps (with_world db) t ?x (Suc (Suc (Suc 1))) (ReadRow, (s, w)) =
      exec_steps (with_world db) t ?x 1 (StartRow ?w1, sw3)" "ok (fst sw3)"
      "view (fst sw3) = (view s)\<lparr>a_workflows := (a_workflows (view s))(i \<mapsto> ?w1)\<rparr>"
    by (rule workflow_store.claim_stage [OF lifted in0, of t 1]) simp
  have r1: "resolve_workflow (ex_registry ?x) (wf_name ?w1) (wf_config_name ?w1) = Inr h" "wf_workflow_uuid ?w1 = i"
    using assms(6) uuid by (simp_all add: claimed_status_def)
  obtain sw4 d where 4: "exec_step (with_world db) (t 0) ?x (StartRow ?w1) sw3 = (RunHandler ?w2, sw4)"
      "ok (fst sw4)" "view (fst sw4) = (view (fst sw3))\<lparr>a_workflows := (a_workflows (view (fst sw3)))(i \<mapsto> ?w2\<lparr>wf_timeout := d\<rparr>)\<rparr>"
    by (rule workflow_store.start_stage [OF lifted 3(2) r1, of "t 0"])
  have run: "exec_steps (with_world db) t ?x 4 (ReadRow, (s, w)) = (RunHandler ?w2, sw4)"
    using 3(1) 4(1) by (simp add: eval_nat_numeral)
  from exec_steps_keep_world [OF run] have world: "snd sw4 = w" by simp
  let ?t = "\<lparr>tk_step_id = 0, tk_store = fst sw4, tk_world = w\<rparr>"
  have cp: "checkpoint ?c ?rs clock 0 [] (a_steps (view (fst sw4)))"
    using assms(7) rs 3(3) 4(3) by (simp add: checkpoint_def)
  obtain r1 t1 where t1: "run_steps db (with_run_state ctx ?rs) clock prog m ?t = (r1, t1)"
      "tk_world t1 = ideal_world i prog m w" "ok (tk_store t1)"
      "view (tk_store t1) = (view (fst sw4))\<lparr>a_steps := record_log ?c ?rs clock 0 (take m ?log) (a_steps (view (fst sw4)))\<rparr>"
    using step_store.crashed_run [OF steps, of "with_run_state ctx ?rs" ?rs ?t 0 prog w m clock] assms(8,9) rs 4(2) cp
    by (auto simp: with_run_state_def)
  have cp1: "checkpoint ?c ?rs clock 0 (take m ?log) (a_steps (view (tk_store t1)))"
    using checkpoint_record_log [OF cp, of "take m ?log"] t1(4) by simp
  have sel: "run_state_of_row ?w2 = ?rs" by simp
  have sw4: "sw4 = (fst sw4, w)" using world by (cases sw4) simp
  have row2: "a_workflows (view (tk_store t1)) i = Some (?w2\<lparr>wf_timeout := d\<rparr>)" using t1(4) 4(3) by simp
  have fields: "wf_status ?w2 = Pending" "wf_executor_id ?w2 = Some (executor_id ctx)"
    "wf_attempts ?w2 = saturating_succ (wf_attempts row)"
    by (simp_all add: claimed_status_def started_status_def)
  show ?thesis
    by (rule exI [of _ ?w2], rule exI [of _ "fst sw4"], rule exI [of _ r1], rule exI [of _ t1],
        rule exI [of _ "?w2\<lparr>wf_timeout := d\<rparr>"]) (use run sw4 t1 cp1 row2 sel fields in simp)
qed

end
