(* ===== verification/Crashes.thy ===== *)
theory Crashes
  imports Crash_Recovery
begin

text \<open>
  Any number of crashes. A process dies in the handler of a workflow after some steps, or in the middle of one: after
  its operation was done and before its row was written. Its successor recovers the workflow, and may die in the
  same way, while it replays recorded steps as well as later.
\<close>

section \<open>A run that dies\<close>

text \<open>
  A crash \<open>(m, True)\<close> happens in step \<open>m + 1\<close>, just before its row is written: the database of the dying process does not
  record any more. \<open>(m, False)\<close> is a crash between two steps.
\<close>

type_synonym crash = "nat \<times> bool"

definition dying :: "'s system_database \<Rightarrow> 's system_database" where
  "dying db = db\<lparr>db_record_step := (\<lambda>st. act_fail (new_error Database ''crash''))\<rparr>"

primrec crash_run ::
    "'s system_database \<Rightarrow> dbos_context \<Rightarrow> (int \<Rightarrow> datetime \<times> datetime) \<Rightarrow> 'w prog \<Rightarrow> nat \<Rightarrow> bool \<Rightarrow>
     ('s, 'w) task \<Rightarrow> ('s, 'w) task" where
  "crash_run db ctx clock (Return v) m inside t = t"
| "crash_run db ctx clock (Throw e) m inside t = t"
| "crash_run db ctx clock (Step name f k) m inside t =
     (if m = 0
      then (if inside then snd (run_as_step (dying db) ctx json_serde clock name (world_op f) t) else t)
      else (case run_as_step db ctx json_serde clock name (world_op f) t of
              (r, t') \<Rightarrow> crash_run db ctx clock (k r) (m - 1) inside t'))"

section \<open>What it leaves\<close>

text \<open>The program after the steps of a log, whether the log is one of the program, and the world after its next operation.\<close>

fun after_log :: "string \<Rightarrow> 'w prog \<Rightarrow> (string \<times> json res) list \<Rightarrow> 'w prog" where
  "after_log i (Step name f k) ((name', r) # log) = after_log i (k (told i name r)) log"
| "after_log i prog log = prog"

fun log_of :: "string \<Rightarrow> 'w prog \<Rightarrow> (string \<times> json res) list \<Rightarrow> bool" where
  "log_of i prog [] \<longleftrightarrow> True"
| "log_of i (Step name f k) ((name', r) # log) \<longleftrightarrow> name' = name \<and> log_of i (k (told i name r)) log"
| "log_of i prog (x # log) \<longleftrightarrow> False"

fun next_world :: "'w prog \<Rightarrow> 'w \<Rightarrow> 'w" where
  "next_world (Step name f k) w = snd (f w)"
| "next_world prog w = w"

text \<open>The steps recorded so far and the world, after a crash.\<close>

fun ideal_crash :: "string \<Rightarrow> 'w prog \<Rightarrow> crash \<Rightarrow> (string \<times> json res) list \<times> 'w \<Rightarrow> (string \<times> json res) list \<times> 'w" where
  "ideal_crash i prog (m, inside) (log, w) =
     (let k = m - length log;
          done_log = log @ take k (ideal_log i (after_log i prog log) w);
          w' = ideal_world i (after_log i prog log) k w
      in (done_log, if inside \<and> length log \<le> m then next_world (after_log i prog done_log) w' else w'))"

lemma ideal_crash_unfold [simp]:
  "ideal_crash i prog (m, inside) (log, w) =
     (log @ take (m - length log) (ideal_log i (after_log i prog log) w),
      if inside \<and> length log \<le> m
      then next_world (after_log i prog (log @ take (m - length log) (ideal_log i (after_log i prog log) w)))
             (ideal_world i (after_log i prog log) (m - length log) w)
      else ideal_world i (after_log i prog log) (m - length log) w)"
  by (simp add: Let_def)

declare ideal_crash.simps [simp del]

lemma log_of_ideal: "log_of i prog (take m (ideal_log i prog w))"
  by (induction prog arbitrary: m w) (auto simp: take_Cons split: prod.splits nat.splits)

lemma log_of_append: "log_of i prog log \<Longrightarrow> log_of i (after_log i prog log) rest \<Longrightarrow> log_of i prog (log @ rest)"
  by (induction i prog log rule: log_of.induct) auto

lemma after_log_append: "log_of i prog log \<Longrightarrow> after_log i prog (log @ rest) = after_log i (after_log i prog log) rest"
  by (induction i prog log rule: log_of.induct) auto

text \<open>Running on from the middle is the rest of the run.\<close>

lemma ideal_run_split:
  "ideal_run i (after_log i prog (take m (ideal_log i prog w))) (ideal_world i prog m w) = ideal_run i prog w"
  by (induction prog arbitrary: m w) (auto simp: take_Cons split: prod.splits nat.splits)

lemma ideal_log_split:
  "take m (ideal_log i prog w) @ ideal_log i (after_log i prog (take m (ideal_log i prog w))) (ideal_world i prog m w) =
     ideal_log i prog w"
  by (induction prog arbitrary: m w) (auto simp: take_Cons split: prod.splits nat.splits)


lemma checkpoint_append:
  "checkpoint c rs clock n log steps \<Longrightarrow>
   checkpoint c rs clock n (log @ rest) (record_log c rs clock (n + int (length log)) rest steps)"
proof (induction rest arbitrary: log steps)
  case Nil
  then show ?case by simp
next
  case (Cons x rest)
  obtain name r where x: "x = (name, r)" by (cases x)
  let ?k = "n + int (length log) + 1"
  let ?s = "steps((rs_workflow_id rs, ?k) \<mapsto> result_row c rs clock ?k name r)"
  have "checkpoint c rs clock n (log @ [x]) ?s"
    unfolding checkpoint_def
  proof
    fix j
    show "?s (rs_workflow_id rs, n + 1 + int j) =
        (if j < length (log @ [x])
         then Some (result_row c rs clock (n + 1 + int j) (fst ((log @ [x]) ! j)) (snd ((log @ [x]) ! j))) else None)"
      using Cons.prems [unfolded checkpoint_def, rule_format, of j] x
      by (auto simp: nth_append less_Suc_eq algebra_simps)
  qed
  from Cons.IH [OF this] x show ?case by (simp add: fun_upd_def algebra_simps)
qed

context step_store
begin

text \<open>A step of a process that dies before the row is written: a recorded one is replayed, any other is only done.\<close>

lemma dying_step:
  assumes "cx_run_state ctx = Some rs" "inv (tk_store t)" "tk_step_id t = n" "wrap_i32 (n + 1) = n + 1"
    and "run_as_step (dying db) ctx json_serde clock name (world_op f) t = (q, t')"
  shows "inv (tk_store t')" "abs (tk_store t') = abs (tk_store t)"
    and "tk_world t' = (if a_steps (abs (tk_store t)) (rs_workflow_id rs, n + 1) = None then snd (f (tk_world t)) else tk_world t)"
proof -
  obtain s1 where s1: "db_get_step db (rs_workflow_id rs) (n + 1) (tk_store t) = (Inr (a_steps (abs (tk_store t)) (rs_workflow_id rs, n + 1)), s1)"
    "inv s1" "abs s1 = abs (tk_store t)"
    using get_step_run [OF assms(2)] by metis
  obtain r w where f: "f (tk_world t) = (r, w)" by fastforce
  from assms(5) have "tk_store t' = s1 \<and>
      tk_world t' = (if a_steps (abs (tk_store t)) (rs_workflow_id rs, n + 1) = None then w else tk_world t)"
    by (auto simp: run_as_step_def next_step_id_def assms(1,3,4) run_step_at_def act_bind_def act_fail_def act_lift_def
        in_store_def dying_def s1(1) world_op_def f split: option.splits sum.splits prod.splits)
  with s1(2,3) f show "inv (tk_store t')" "abs (tk_store t') = abs (tk_store t)"
    "tk_world t' = (if a_steps (abs (tk_store t)) (rs_workflow_id rs, n + 1) = None then snd (f (tk_world t)) else tk_world t)"
    by simp_all
qed

lemma crash_run_spec:
  assumes "cx_run_state ctx = Some rs" "inv (tk_store t)" "tk_step_id t = n"
    and "log_of (rs_workflow_id rs) prog log" "list_all (\<lambda>(name, r). succeeds r) log"
    and "log_ok (cx_codec ctx) rs n (log @ ideal_log (rs_workflow_id rs) (after_log (rs_workflow_id rs) prog log) (tk_world t))"
    and "checkpoint (cx_codec ctx) rs clock n log (a_steps (abs (tk_store t)))"
    and "crash_run db ctx clock prog m inside t = t1"
  shows "tk_world t1 = snd (ideal_crash (rs_workflow_id rs) prog (m, inside) (log, tk_world t)) \<and> inv (tk_store t1) \<and>
    abs (tk_store t1) = (abs (tk_store t))\<lparr>a_steps := record_log (cx_codec ctx) rs clock (n + int (length log))
      (take (m - length log) (ideal_log (rs_workflow_id rs) (after_log (rs_workflow_id rs) prog log) (tk_world t)))
      (a_steps (abs (tk_store t)))\<rparr>"
  using assms(2-8)
proof (induction prog arbitrary: t n m log)
  case (Return v)
  then show ?case by (cases log) simp_all
next
  case (Throw e)
  then show ?case by (cases log) simp_all
next
  case (Step name f k)
  let ?i = "rs_workflow_id rs" and ?c = "cx_codec ctx"
  note run = Step.prems(7)
  show ?case
  proof (cases log)
    case Nil
    obtain r w where f: "f (tk_world t) = (r, w)" by fastforce
    let ?p = "k (told ?i name r)"
    have lok: "log_ok ?c rs n ((name, r) # ideal_log ?i ?p w)" using Step.prems(5) Nil f by simp
    note lok1 = log_ok_Cons [OF lok]
    have cp: "checkpoint ?c rs clock n [] (a_steps (abs (tk_store t)))" using Step.prems(6) Nil by simp
    show ?thesis
    proof (cases m)
      case 0
      have none: "a_steps (abs (tk_store t)) (?i, n + 1) = None" using checkpoint_Nil [OF cp] .
      show ?thesis
      proof (cases inside)
        case True
        obtain q t' where d: "run_as_step (dying db) ctx json_serde clock name (world_op f) t = (q, t')" by fastforce
        from dying_step [OF assms(1) Step.prems(1,2) _ d] lok1 none f run 0 True Nil d show ?thesis by simp
      next
        case False
        with run 0 Nil Step.prems(1) show ?thesis by simp
      qed
    next
      case (Suc m')
      from next_step_fresh [where f = f and t = t and name = name, OF assms(1) Step.prems(1,2) _ f _ cp] lok1 obtain t2 where t2:
        "run_as_step db ctx json_serde clock name (world_op f) t = (told ?i name r, t2)" "tk_world t2 = w"
        "tk_step_id t2 = n + 1" "inv (tk_store t2)"
        "abs (tk_store t2) = (abs (tk_store t))\<lparr>a_steps := (a_steps (abs (tk_store t)))
          ((?i, n + 1) \<mapsto> result_row ?c rs clock (n + 1) name r)\<rparr>"
        "checkpoint ?c rs clock (n + 1) [] (a_steps (abs (tk_store t2)))" by blast
      from run Suc t2(1) have rest: "crash_run db ctx clock ?p m' inside t2 = t1" by simp
      from Step.IH [OF _ t2(4,3) _ _ _ t2(6) rest] lok1 t2(2,5) f Suc Nil show ?thesis by (simp add: fun_upd_def)
    qed
  next
    case (Cons x log')
    obtain name' r where x: "x = (name', r)" by (cases x)
    let ?p = "k (told ?i name r)"
    have name: "name' = name" "log_of ?i ?p log'" "succeeds r" "list_all (\<lambda>(name, r). succeeds r) log'"
      using Step.prems(3,4) Cons x by simp_all
    have lok: "log_ok ?c rs n ((name, r) # log' @ ideal_log ?i (after_log ?i ?p log') (tk_world t))"
      using Step.prems(5) Cons x name(1) by simp
    note lok1 = log_ok_Cons [OF lok]
    have cp: "checkpoint ?c rs clock n ((name, r) # log') (a_steps (abs (tk_store t)))"
      using Step.prems(6) Cons x name(1) by simp
    show ?thesis
    proof (cases m)
      case 0
      have some: "a_steps (abs (tk_store t)) (?i, n + 1) \<noteq> None" using checkpoint_Cons(1) [OF cp] by simp
      obtain q t' where d: "run_as_step (dying db) ctx json_serde clock name (world_op f) t = (q, t')" by fastforce
      from dying_step [OF assms(1) Step.prems(1,2) _ d] lok1 some run 0 Cons d Step.prems(1)
      show ?thesis by (cases inside) simp_all
    next
      case (Suc m')
      from next_step_recorded [OF assms(1) Step.prems(1,2) _ _ name(3) cp, of "world_op f"] lok1 obtain t2 where t2:
        "run_as_step db ctx json_serde clock name (world_op f) t = (told ?i name r, t2)" "tk_world t2 = tk_world t"
        "tk_step_id t2 = n + 1" "inv (tk_store t2)" "abs (tk_store t2) = abs (tk_store t)"
        "checkpoint ?c rs clock (n + 1) log' (a_steps (abs (tk_store t2)))" by blast
      from run Suc t2(1) have rest: "crash_run db ctx clock ?p m' inside t2 = t1" by simp
      from Step.IH [OF _ t2(4,3) name(2,4) _ t2(6) rest] lok1 t2(2,5) Suc Cons x name(1)
      show ?thesis by (simp add: algebra_simps)
    qed
  qed
qed

text \<open>A run that is not cut off replays the recorded steps and does the rest, whatever the world is by then.\<close>

lemma replay_run:
  assumes "cx_run_state ctx = Some rs" "inv (tk_store t)" "tk_step_id t = n"
    and "log_of (rs_workflow_id rs) prog log" "list_all (\<lambda>(name, r). succeeds r) log"
    and "log_ok (cx_codec ctx) rs n (log @ ideal_log (rs_workflow_id rs) (after_log (rs_workflow_id rs) prog log) (tk_world t))"
    and "checkpoint (cx_codec ctx) rs clock n log (a_steps (abs (tk_store t)))"
  shows "\<exists>t'. run_prog db ctx clock prog t =
      (fst (ideal_run (rs_workflow_id rs) (after_log (rs_workflow_id rs) prog log) (tk_world t)), t') \<and>
    tk_world t' = snd (ideal_run (rs_workflow_id rs) (after_log (rs_workflow_id rs) prog log) (tk_world t)) \<and>
    inv (tk_store t') \<and> a_workflows (abs (tk_store t')) = a_workflows (abs (tk_store t))"
  using assms(2-7)
proof (induction prog arbitrary: t n log)
  case (Return v)
  then show ?case by (cases log) simp_all
next
  case (Throw e)
  then show ?case by (cases log) simp_all
next
  case (Step name f k)
  let ?i = "rs_workflow_id rs" and ?c = "cx_codec ctx"
  show ?case
  proof (cases log)
    case Nil
    obtain r w where f: "f (tk_world t) = (r, w)" by fastforce
    let ?p = "k (told ?i name r)"
    have "log_ok ?c rs n ((name, r) # ideal_log ?i ?p w)" using Step.prems(5) Nil f by simp
    note lok = log_ok_Cons [OF this]
    have cp: "checkpoint ?c rs clock n [] (a_steps (abs (tk_store t)))" using Step.prems(6) Nil by simp
    from next_step_fresh [where f = f and t = t and name = name, OF assms(1) Step.prems(1,2) _ f _ cp] lok obtain t2 where t2:
      "run_as_step db ctx json_serde clock name (world_op f) t = (told ?i name r, t2)" "tk_world t2 = w"
      "tk_step_id t2 = n + 1" "inv (tk_store t2)" "a_workflows (abs (tk_store t2)) = a_workflows (abs (tk_store t))"
      "checkpoint ?c rs clock (n + 1) [] (a_steps (abs (tk_store t2)))" by fastforce
    from Step.IH [OF _ t2(4,3) _ _ _ t2(6)] lok t2(1,2,5) f Nil show ?thesis by auto
  next
    case (Cons x log')
    obtain name' r where x: "x = (name', r)" by (cases x)
    let ?p = "k (told ?i name r)"
    have name: "name' = name" "log_of ?i ?p log'" "succeeds r" "list_all (\<lambda>(name, r). succeeds r) log'"
      using Step.prems(3,4) Cons x by simp_all
    have "log_ok ?c rs n ((name, r) # log' @ ideal_log ?i (after_log ?i ?p log') (tk_world t))"
      using Step.prems(5) Cons x name(1) by simp
    note lok = log_ok_Cons [OF this]
    have cp: "checkpoint ?c rs clock n ((name, r) # log') (a_steps (abs (tk_store t)))"
      using Step.prems(6) Cons x name(1) by simp
    from next_step_recorded [OF assms(1) Step.prems(1,2) _ _ name(3) cp, of "world_op f"] lok obtain t2 where t2:
      "run_as_step db ctx json_serde clock name (world_op f) t = (told ?i name r, t2)" "tk_world t2 = tk_world t"
      "tk_step_id t2 = n + 1" "inv (tk_store t2)" "abs (tk_store t2) = abs (tk_store t)"
      "checkpoint ?c rs clock (n + 1) log' (a_steps (abs (tk_store t2)))" by blast
    from Step.IH [OF _ t2(4,3) name(2,4) _ t2(6)] lok t2(1,2,5) Cons x name(1) show ?thesis by auto
  qed
qed

end

section \<open>The lives of a workflow\<close>

text \<open>
  An execution that dies in the handler: it reads the row, claims it unless it resumes a claim, starts it and enters the
  handler, which stops at the crash. Nothing after that is done.
\<close>

definition dying_handler ::
    "'s system_database \<Rightarrow> (int \<Rightarrow> datetime \<times> datetime) \<Rightarrow> (json \<Rightarrow> 'w prog) \<Rightarrow> crash \<Rightarrow> ('s \<times> 'w) handler" where
  "dying_handler db clock body c ctx input sw =
     (let t = crash_run db ctx clock (body input) (fst c) (snd c) \<lparr>tk_step_id = 0, tk_store = fst sw, tk_world = snd sw\<rparr>
      in (Inl (new_error Database ''crash''), (tk_store t, tk_world t)))"

definition worker :: "dbos_context \<Rightarrow> 's registry \<Rightarrow> string \<Rightarrow> bool \<Rightarrow> string \<Rightarrow> 's execution" where
  "worker ctx reg i resume xid =
     \<lparr>ex_context = ctx, ex_registry = reg, ex_workflow_id = i, ex_resume_claim = resume, ex_execution_id = xid\<rparr>"

definition die :: "'s system_database \<Rightarrow> (nat \<Rightarrow> datetime) \<Rightarrow> ('s \<times> 'w) execution \<Rightarrow> 's \<times> 'w \<Rightarrow> 's \<times> 'w" where
  "die db t x sw = snd (exec_steps (with_world db) t x (if ex_resume_claim x then 3 else 5) (ReadRow, sw))"

text \<open>
  The crashes after the first, each in a process of its own: it recovers the workflows of its executor id, and runs the
  execution that recovery has spawned. \<open>reg h\<close> is the registry of a process whose handler of the workflow is \<open>h\<close>.
\<close>

primrec survive ::
    "'s system_database \<Rightarrow> (nat \<Rightarrow> datetime) \<Rightarrow> (int \<Rightarrow> datetime \<times> datetime) \<Rightarrow> dbos_context \<Rightarrow>
     (('s \<times> 'w) handler \<Rightarrow> ('s \<times> 'w) registry) \<Rightarrow> (json \<Rightarrow> 'w prog) \<Rightarrow> string \<Rightarrow> string \<Rightarrow> crash list \<Rightarrow>
     's \<times> 'w \<Rightarrow> 's \<times> 'w" where
  "survive db t clock ctx reg body i xid [] sw = sw"
| "survive db t clock ctx reg body i xid (c # cs) sw =
     (case recover_pending_workflows (with_world db) [executor_id ctx] \<lparr>app_store = sw, app_spawned = []\<rparr> of
        (_, a) \<Rightarrow> survive db t clock ctx reg body i xid cs
          (if (i, True) \<in> set (app_spawned a)
           then die db t (worker ctx (reg (dying_handler db clock body c)) i True xid) (app_store a)
           else app_store a))"

text \<open>Every result that is to be recorded can be, and the steps recorded so far succeeded.\<close>

definition recordable :: "codec \<Rightarrow> run_state \<Rightarrow> 'w prog \<Rightarrow> (string \<times> json res) list \<times> 'w \<Rightarrow> bool" where
  "recordable c rs prog st \<longleftrightarrow> list_all (\<lambda>(name, r). succeeds r) (fst st) \<and>
     log_ok c rs 0 (fst st @ ideal_log (rs_workflow_id rs) (after_log (rs_workflow_id rs) prog (fst st)) (snd st))"

primrec crashes_ok :: "codec \<Rightarrow> run_state \<Rightarrow> 'w prog \<Rightarrow> crash list \<Rightarrow> (string \<times> json res) list \<times> 'w \<Rightarrow> bool" where
  "crashes_ok c rs prog [] st \<longleftrightarrow> recordable c rs prog st"
| "crashes_ok c rs prog (x # xs) st \<longleftrightarrow>
     recordable c rs prog st \<and> crashes_ok c rs prog xs (ideal_crash (rs_workflow_id rs) prog x st)"

text \<open>A workflow between two lives.\<close>

definition interrupted ::
    "('s \<Rightarrow> bool) \<Rightarrow> ('s \<Rightarrow> abstract_db) \<Rightarrow> dbos_context \<Rightarrow> (int \<Rightarrow> datetime \<times> datetime) \<Rightarrow> 'w prog \<Rightarrow> workflow_status \<Rightarrow>
     nat \<Rightarrow> (string \<times> json res) list \<times> 'w \<Rightarrow> 's \<times> 'w \<Rightarrow> bool" where
  "interrupted ok view ctx clock prog row n st sw \<longleftrightarrow>
     ok (fst sw) \<and> snd sw = snd st \<and> log_of (wf_workflow_uuid row) prog (fst st) \<and>
     checkpoint (cx_codec ctx) (run_state_of_row row) clock 0 (fst st) (a_steps (view (fst sw))) \<and>
     (\<exists>w. a_workflows (view (fst sw)) (wf_workflow_uuid row) = Some w \<and> wf_status w = Pending \<and>
        wf_executor_id w = Some (executor_id ctx) \<and> wf_attempts w = (saturating_succ ^^ n) (wf_attempts row) \<and>
        same_call w row)"


lemma dying_stage:
  fixes sw :: "'s \<times> 'w"
  assumes steps: "step_store db ok view" and "ok (fst sw)" "wf_workflow_uuid row = i"
    and "a_workflows (view (fst sw)) i = Some (u\<lparr>wf_timeout := d\<rparr>)" "wf_status u = Pending"
    and "wf_executor_id u = Some (executor_id ctx)" "wf_attempts u = (saturating_succ ^^ n) (wf_attempts row)" "same_call u row"
    and "resolve_workflow reg (wf_name row) (wf_config_name row) = Inr (dying_handler db clock body c)"
    and "decode_stored_value (cx_codec ctx) json_serde (wf_input row) (wf_serialization row) = Inr v"
    and "snd sw = snd st" "log_of i (body v) (fst st)" "recordable (cx_codec ctx) (run_state_of_row row) (body v) st"
    and "checkpoint (cx_codec ctx) (run_state_of_row row) clock 0 (fst st) (a_steps (view (fst sw)))"
  shows "\<exists>r sw'. exec_step (with_world db) now (worker ctx reg i b xid) (RunHandler u) sw = (ReloadRow r, sw') \<and>
    interrupted ok view ctx clock (body v) row n (ideal_crash i (body v) c st) sw'"
proof -
  let ?rs = "run_state_of_row row" and ?c = "cx_codec ctx" and ?ctx = "with_run_state ctx (run_state_of_row row)"
  obtain log w where st: "st = (log, w)" by (cases st)
  obtain m inside where c: "c = (m, inside)" by (cases c)
  have rs: "rs_workflow_id ?rs = i" using assms(3) by (simp add: run_state_of_row_def)
  have call: "wf_name u = wf_name row" "wf_config_name u = wf_config_name row" "wf_input u = wf_input row"
    "wf_serialization u = wf_serialization row" "run_state_of_row u = ?rs"
    using assms(8) by (simp_all add: same_call_def)
  let ?t = "\<lparr>tk_step_id = 0, tk_store = fst sw, tk_world = snd sw\<rparr>"
  let ?k = "take (m - length log) (ideal_log i (after_log i (body v) log) w)"
  obtain t1 where t1: "crash_run db ?ctx clock (body v) m inside ?t = t1" by blast
  have in_run: "cx_run_state ?ctx = Some ?rs" "cx_codec ?ctx = ?c" by (simp_all add: with_run_state_def)
  from step_store.crash_run_spec [OF steps in_run(1), of ?t 0 "body v" log clock m inside t1] assms(2,11-14) t1 st rs in_run(2)
  have left: "tk_world t1 = snd (ideal_crash i (body v) c st)" "ok (tk_store t1)"
    "view (tk_store t1) = (view (fst sw))\<lparr>a_steps := record_log ?c ?rs clock (int (length log)) ?k (a_steps (view (fst sw)))\<rparr>"
    by (simp_all add: recordable_def c)
  have "checkpoint ?c ?rs clock 0 (log @ ?k) (a_steps (view (tk_store t1)))"
    using checkpoint_append [of ?c ?rs clock 0 log] assms(14) left(3) st by simp
  moreover have "log_of i (body v) (log @ ?k)" using assms(12) st by (simp add: log_of_append log_of_ideal)
  moreover have "exec_step (with_world db) now (worker ctx reg i b xid) (RunHandler u) sw =
      (ReloadRow (Inl (new_error Database ''crash'')), (tk_store t1, tk_world t1))"
    using assms(9,10) call t1 by (simp add: exec_step_def worker_def dying_handler_def c)
  ultimately show ?thesis using assms(3-8) left by (simp add: interrupted_def c st)
qed

lemma exec_steps_add:
  "exec_steps db t x (k + n) p = exec_steps db t x n (exec_steps db (\<lambda>j. t (j + n)) x k p)"
proof (induction k arbitrary: p)
  case (Suc k)
  obtain st s where "p = (st, s)" by (cases p)
  with Suc show ?case by simp
next
  case 0
  then show ?case by (cases p) simp
qed

lemma first_life:
  assumes store: "workflow_store db ok view nd dedup" and steps: "step_store db ok view"
    and "ok s" "a_workflows (view s) i = Some row" "claimable xid row" "\<And>j. 1 \<le> j \<Longrightarrow> a_steps (view s) (i, j) = None"
    and "resolve_workflow reg (wf_name row) (wf_config_name row) = Inr (dying_handler db clock body c)"
    and "decode_stored_value (cx_codec ctx) json_serde (wf_input row) (wf_serialization row) = Inr v"
    and "recordable (cx_codec ctx) (run_state_of_row row) (body v) ([], w)"
  shows "interrupted ok view ctx clock (body v) row 1 (ideal_crash i (body v) c ([], w))
    (die db t (worker ctx reg i False xid) (s, w))"
proof -
  note lifted = workflow_store_with_world [OF store]
  let ?x = "worker ctx reg i False xid" and ?rs = "run_state_of_row row" and ?c = "cx_codec ctx"
  let ?w1 = "claimed_status (t (Suc 0 + 2)) (executor_id ctx) xid row"
  let ?w2 = "started_status (t 1) (t 1) ?w1"
  have uuid: "wf_workflow_uuid row = i" using workflow_store.keyed [OF store assms(3,4)] .
  have x: "ex_context ?x = ctx" "ex_registry ?x = reg" "ex_workflow_id ?x = i" "\<not> ex_resume_claim ?x" "ex_execution_id ?x = xid"
    by (simp_all add: worker_def)
  have in0: "ok (fst (s, w))" "a_workflows (view (fst (s, w))) i = Some row" "claimable (ex_execution_id ?x) row" "ex_workflow_id ?x = i"
    using assms(3-5) by (simp_all add: x)
  obtain sw3 where 3: "exec_steps (with_world db) (\<lambda>j. t (j + 2)) ?x (Suc (Suc (Suc 0))) (ReadRow, (s, w)) = (StartRow ?w1, sw3)"
      "ok (fst sw3)" "view (fst sw3) = (view s)\<lparr>a_workflows := (a_workflows (view s))(i \<mapsto> ?w1)\<rparr>"
    by (rule workflow_store.claim_stage [OF lifted in0, of "\<lambda>j. t (j + 2)" 0]) (simp add: x)
  have r1: "resolve_workflow (ex_registry ?x) (wf_name ?w1) (wf_config_name ?w1) = Inr (dying_handler db clock body c)" "wf_workflow_uuid ?w1 = i"
    using assms(7) uuid by (simp_all add: claimed_status_def x)
  obtain sw4 d where 4: "exec_step (with_world db) (t 1) ?x (StartRow ?w1) sw3 = (RunHandler ?w2, sw4)"
      "ok (fst sw4)" "view (fst sw4) = (view (fst sw3))\<lparr>a_workflows := (a_workflows (view (fst sw3)))(i \<mapsto> ?w2\<lparr>wf_timeout := d\<rparr>)\<rparr>"
    by (rule workflow_store.start_stage [OF lifted 3(2) r1, of "t 1"])
  have world: "snd sw4 = w"
    using exec_steps_keep_world [OF 3(1)] exec_step_keeps_world [OF 4(1)] by simp
  have fields: "wf_status ?w2 = Pending" "wf_executor_id ?w2 = Some (executor_id ctx)"
    "wf_attempts ?w2 = (saturating_succ ^^ 1) (wf_attempts row)" "same_call ?w2 row"
    by (simp_all add: claimed_status_def started_status_def same_call_def run_state_of_row_def)
  have fresh: "checkpoint ?c ?rs clock 0 (fst ([], w)) (a_steps (view (fst sw4)))"
    using assms(6) uuid 3(3) 4(3) by (simp add: checkpoint_def run_state_of_row_def)
  have row4: "a_workflows (view (fst sw4)) i = Some (?w2\<lparr>wf_timeout := d\<rparr>)" using 4(3) by simp
  obtain r sw5 where 5: "exec_step (with_world db) (t 0) ?x (RunHandler ?w2) sw4 = (ReloadRow r, sw5)"
      "interrupted ok view ctx clock (body v) row 1 (ideal_crash i (body v) c ([], w)) sw5"
    using dying_stage [OF steps 4(2) uuid row4 fields assms(7,8) _ _ assms(9) fresh, of "t 0" False xid] world by auto
  have "exec_steps (with_world db) t ?x (Suc (Suc (Suc 0)) + 2) (ReadRow, (s, w)) = (ReloadRow r, sw5)"
    unfolding exec_steps_add 3(1) using 4(1) 5(1) by (simp add: eval_nat_numeral)
  moreover have "Suc (Suc (Suc 0)) + 2 = (5::nat)" by simp
  ultimately have "exec_steps (with_world db) t ?x 5 (ReadRow, (s, w)) = (ReloadRow r, sw5)" by (simp only:)
  with 5(2) show ?thesis by (simp add: die_def x)
qed


text \<open>Recovery spawns the interrupted workflow and changes nothing else.\<close>

lemma recovery_stage:
  assumes "workflow_store db ok view nd dedup" "interrupted ok view ctx clock prog row n st sw"
  shows "\<exists>ids a. recover_pending_workflows (with_world db) [executor_id ctx] \<lparr>app_store = sw, app_spawned = []\<rparr> = (Inr ids, a) \<and>
    (wf_workflow_uuid row, True) \<in> set (app_spawned a) \<and> interrupted ok view ctx clock prog row n st (app_store a)"
proof -
  let ?a = "\<lparr>app_store = sw, app_spawned = []\<rparr>"
  obtain r a where rec: "recover_pending_workflows (with_world db) [executor_id ctx] ?a = (r, a)" by fastforce
  from assms(2) obtain w where w: "ok (fst sw)" "a_workflows (view (fst sw)) (wf_workflow_uuid row) = Some w" "wf_status w = Pending"
    "wf_executor_id w = Some (executor_id ctx)" by (auto simp: interrupted_def)
  obtain added where spawned: "r = Inr (map fst added)" "app_spawned a = added" "ok (fst (app_store a))"
    "view (fst (app_store a)) = view (fst sw)" "set added = recoverable [executor_id ctx] (a_workflows (view (fst sw)))"
    by (rule recovery_run [OF workflow_store_with_world [OF assms(1)] _ rec]) (use w(1) in auto)
  have "(wf_workflow_uuid row, True) \<in> set added" using spawned(5) w(2-4) by (simp add: recoverable_def)
  with rec spawned recover_keeps_world [OF rec] assms(2) show ?thesis by (simp add: interrupted_def)
qed

lemma next_life:
  fixes sw :: "'s \<times> 'w"
  assumes store: "workflow_store db ok view nd dedup" and steps: "step_store db ok view"
    and "interrupted ok view ctx clock (body v) row n st sw" "wf_workflow_uuid row = i"
    and "resolve_workflow reg (wf_name row) (wf_config_name row) = Inr (dying_handler db clock body c)"
    and "decode_stored_value (cx_codec ctx) json_serde (wf_input row) (wf_serialization row) = Inr v"
    and "recordable (cx_codec ctx) (run_state_of_row row) (body v) st"
  shows "interrupted ok view ctx clock (body v) row (Suc n) (ideal_crash i (body v) c st)
    (die db t (worker ctx reg i True xid) sw)"
proof -
  note lifted = workflow_store_with_world [OF store]
  let ?x = "worker ctx reg i True xid"
  have x: "ex_context ?x = ctx" "ex_registry ?x = reg" "ex_workflow_id ?x = i" "ex_resume_claim ?x"
    by (simp_all add: worker_def)
  from assms(3,4) obtain u where u: "ok (fst sw)" "a_workflows (view (fst sw)) i = Some u" "wf_status u = Pending"
    "wf_executor_id u = Some (executor_id ctx)" "wf_attempts u = (saturating_succ ^^ n) (wf_attempts row)" "same_call u row"
    and st: "snd sw = snd st" "log_of i (body v) (fst st)"
      "checkpoint (cx_codec ctx) (run_state_of_row row) clock 0 (fst st) (a_steps (view (fst sw)))"
    by (auto simp: interrupted_def)
  have uuid: "wf_workflow_uuid u = i" using workflow_store.keyed [OF store u(1,2)] .
  have resolved: "resolve_workflow (ex_registry ?x) (wf_name u) (wf_config_name u) = Inr (dying_handler db clock body c)"
    using assms(5) u(6) by (simp add: same_call_def x)
  obtain sw1 where 1: "exec_step (with_world db) (t 2) ?x ReadRow sw = (StartRow u, sw1)" "ok (fst sw1)" "view (fst sw1) = view (fst sw)"
    by (rule workflow_store.resume_stage [OF lifted u(1,2), of ?x "t 2"]) (simp_all add: x u(3,4))
  let ?u = "started_status (t 1) (t 1) u"
  obtain sw2 d where 2: "exec_step (with_world db) (t 1) ?x (StartRow u) sw1 = (RunHandler ?u, sw2)" "ok (fst sw2)"
      "view (fst sw2) = (view (fst sw1))\<lparr>a_workflows := (a_workflows (view (fst sw1)))(i \<mapsto> ?u\<lparr>wf_timeout := d\<rparr>)\<rparr>"
    by (rule workflow_store.start_stage [OF lifted 1(2) resolved uuid, of "t 1"])
  have world: "snd sw2 = snd st"
    using exec_step_keeps_world [OF 1(1)] exec_step_keeps_world [OF 2(1)] st(1) by simp
  have fields: "wf_status ?u = Pending" "wf_executor_id ?u = Some (executor_id ctx)"
    "wf_attempts ?u = (saturating_succ ^^ Suc n) (wf_attempts row)" "same_call ?u row"
    using u by (simp_all add: started_status_def same_call_def run_state_of_row_def)
  have row2: "a_workflows (view (fst sw2)) i = Some (?u\<lparr>wf_timeout := d\<rparr>)" using 2(3) by simp
  have cp: "checkpoint (cx_codec ctx) (run_state_of_row row) clock 0 (fst st) (a_steps (view (fst sw2)))" using st(3) 1(3) 2(3) by simp
  obtain r sw3 where "exec_step (with_world db) (t 0) ?x (RunHandler ?u) sw2 = (ReloadRow r, sw3)"
      "interrupted ok view ctx clock (body v) row (Suc n) (ideal_crash i (body v) c st) sw3"
    using dying_stage [OF steps 2(2) assms(4) row2 fields assms(5,6) world st(2) assms(7) cp, of "t 0" True xid] by auto
  with 1(1) 2(1) show ?thesis by (simp add: die_def x eval_nat_numeral)
qed

lemma survived:
  assumes "workflow_store db ok view nd dedup" "step_store db ok view" "wf_workflow_uuid row = i"
    and "\<And>h. resolve_workflow (reg h) (wf_name row) (wf_config_name row) = Inr h"
    and "decode_stored_value (cx_codec ctx) json_serde (wf_input row) (wf_serialization row) = Inr v"
    and "interrupted ok view ctx clock (body v) row n st sw" "crashes_ok (cx_codec ctx) (run_state_of_row row) (body v) cs st"
  shows "interrupted ok view ctx clock (body v) row (n + length cs) (fold (ideal_crash i (body v)) cs st)
      (survive db t clock ctx reg body i xid cs sw) \<and>
    recordable (cx_codec ctx) (run_state_of_row row) (body v) (fold (ideal_crash i (body v)) cs st)"
  using assms(6,7)
proof (induction cs arbitrary: n st sw)
  case Nil
  then show ?case by simp
next
  case (Cons c cs)
  have rs: "rs_workflow_id (run_state_of_row row) = i" using assms(3) by (simp add: run_state_of_row_def)
  obtain ids a where a: "recover_pending_workflows (with_world db) [executor_id ctx] \<lparr>app_store = sw, app_spawned = []\<rparr> = (Inr ids, a)"
    "(i, True) \<in> set (app_spawned a)" "interrupted ok view ctx clock (body v) row n st (app_store a)"
    using recovery_stage [OF assms(1) Cons.prems(1)] assms(3) by auto
  have "recordable (cx_codec ctx) (run_state_of_row row) (body v) st" using Cons.prems(2) by simp
  note life = next_life [where body = body and v = v and c = c and reg = "reg (dying_handler db clock body c)" and t = t and xid = xid,
      OF assms(1,2) a(3) assms(3,4,5) this]
  have "crashes_ok (cx_codec ctx) (run_state_of_row row) (body v) cs (ideal_crash i (body v) c st)" using Cons.prems(2) rs by simp
  from Cons.IH [OF life this] a show ?case by simp
qed


lemma last_life:
  fixes sw :: "'s \<times> 'w"
  assumes store: "workflow_store db ok view nd dedup" and steps: "step_store db ok view"
    and "interrupted ok view ctx clock (body v) row n st sw" "wf_workflow_uuid row = i"
    and "resolve_workflow reg (wf_name row) (wf_config_name row) = Inr (prog_handler db clock body)"
    and "decode_stored_value (cx_codec ctx) json_serde (wf_input row) (wf_serialization row) = Inr v"
    and "recordable (cx_codec ctx) (run_state_of_row row) (body v) st"
    and "ideal_run i (after_log i (body v) (fst st)) (snd st) = (res, w')"
    and "\<And>u. res = Inr u \<Longrightarrow> encodes (cx_codec ctx) (wf_serialization row = PORTABLE_JSON) u"
  shows "\<exists>s' fin. execute_workflow (with_world db) t (worker ctx reg i True xid) sw = (Inr (), (s', w')) \<and>
    a_workflows (view s') i = Some fin \<and> wf_status fin = (case res of Inr _ \<Rightarrow> Success | Inl _ \<Rightarrow> Error) \<and>
    wf_attempts fin = (saturating_succ ^^ Suc n) (wf_attempts row) \<and>
    (\<forall>ty :: 'b serde. finished_result (cx_codec ctx) ty i fin = Some (reported ty i res))"
proof -
  note lifted = workflow_store_with_world [OF store]
  let ?x = "worker ctx reg i True xid" and ?rs = "run_state_of_row row"
  have x: "ex_context ?x = ctx" "ex_registry ?x = reg" "ex_workflow_id ?x = i" "ex_resume_claim ?x"
    by (simp_all add: worker_def)
  from assms(3,4) obtain u where u: "ok (fst sw)" "a_workflows (view (fst sw)) i = Some u" "wf_status u = Pending"
    "wf_executor_id u = Some (executor_id ctx)" "wf_attempts u = (saturating_succ ^^ n) (wf_attempts row)" "same_call u row"
    and st: "snd sw = snd st" "log_of i (body v) (fst st)"
      "checkpoint (cx_codec ctx) ?rs clock 0 (fst st) (a_steps (view (fst sw)))"
    by (auto simp: interrupted_def)
  have uuid: "wf_workflow_uuid u = i" using workflow_store.keyed [OF store u(1,2)] .
  have rs: "rs_workflow_id ?rs = i" using assms(4) by (simp add: run_state_of_row_def)
  have resolved: "resolve_workflow (ex_registry ?x) (wf_name u) (wf_config_name u) = Inr (prog_handler db clock body)"
    using assms(5) u(6) by (simp add: same_call_def x)
  obtain sw1 where 1: "exec_step (with_world db) (t 6) ?x ReadRow sw = (StartRow u, sw1)" "ok (fst sw1)" "view (fst sw1) = view (fst sw)"
    by (rule workflow_store.resume_stage [OF lifted u(1,2), of ?x "t 6"]) (simp_all add: x u(3,4))
  let ?u = "started_status (t 5) (t 5) u"
  have call: "same_call ?u row" using u(6) by simp
  obtain sw2 d where 2: "exec_step (with_world db) (t 5) ?x (StartRow u) sw1 = (RunHandler ?u, sw2)" "ok (fst sw2)"
      "view (fst sw2) = (view (fst sw1))\<lparr>a_workflows := (a_workflows (view (fst sw1)))(i \<mapsto> ?u\<lparr>wf_timeout := d\<rparr>)\<rparr>"
    by (rule workflow_store.start_stage [OF lifted 1(2) resolved uuid, of "t 5"])
  have world: "snd sw2 = snd st"
    using exec_step_keeps_world [OF 1(1)] exec_step_keeps_world [OF 2(1)] st(1) by simp
  let ?t = "\<lparr>tk_step_id = 0, tk_store = fst sw2, tk_world = snd sw2\<rparr>"
  have in_run: "cx_run_state (with_run_state ctx ?rs) = Some ?rs" "cx_codec (with_run_state ctx ?rs) = cx_codec ctx"
    by (simp_all add: with_run_state_def)
  from step_store.replay_run [OF steps in_run(1), of ?t 0 "body v" "fst st" clock] assms(7,8) st(2,3) world rs 1(3) 2(2,3) in_run(2)
  obtain t3 where 3: "run_prog db (with_run_state ctx ?rs) clock (body v) ?t = (res, t3)" "tk_world t3 = w'" "ok (tk_store t3)"
      "a_workflows (view (tk_store t3)) i = Some (?u\<lparr>wf_timeout := d\<rparr>)"
    by (auto simp: recordable_def)
  have "exec_step (with_world db) (t 4) ?x (RunHandler ?u) sw2 = (ReloadRow res, (tk_store t3, tk_world t3))"
    by (rule workflow_store.handler_stage [OF lifted, where h = "prog_handler db clock body" and input = v])
      (use assms(5,6) call 3(1) in \<open>simp_all add: same_call_def prog_handler_def x\<close>)
  with 1(1) 2(1) have run: "exec_steps (with_world db) t ?x 7 (ReadRow, sw) =
      exec_steps (with_world db) t ?x (2 + 2) (ReloadRow res, (tk_store t3, tk_world t3))"
    by (simp add: eval_nat_numeral)
  have enc: "encodes (cx_codec (ex_context ?x)) (wf_serialization (?u\<lparr>wf_timeout := d\<rparr>) = PORTABLE_JSON) y" if "res = Inr y" for y
    using assms(9) [OF that] call by (simp add: same_call_def x)
  have at_end: "ok (fst (tk_store t3, tk_world t3))" "ex_workflow_id ?x = i"
    "a_workflows (view (fst (tk_store t3, tk_world t3))) i = Some (?u\<lparr>wf_timeout := d\<rparr>)" "wf_status (?u\<lparr>wf_timeout := d\<rparr>) \<noteq> Cancelled"
    using 3(3,4) by (simp_all add: started_status_def x)
  obtain sw4 fin where 4: "exec_steps (with_world db) t ?x (Suc (Suc 2)) (ReloadRow res, (tk_store t3, tk_world t3)) =
      exec_steps (with_world db) t ?x 2 (Finished (Inr ()), sw4)"
      "a_workflows (view (fst sw4)) i = Some fin" "wf_status fin = (case res of Inr _ \<Rightarrow> Success | Inl _ \<Rightarrow> Error)"
      "wf_attempts fin = wf_attempts (?u\<lparr>wf_timeout := d\<rparr>)"
      "\<And>ty :: 'b serde. finished_result (cx_codec (ex_context ?x)) ty i fin = Some (reported ty i res)"
    by (rule workflow_store.finish_stage [OF lifted at_end enc, of res t 2]) (assumption | blast)+
  have "(2::nat) + 2 = Suc (Suc 2)" by simp
  then have four: "exec_steps (with_world db) t ?x (2 + 2) (ReloadRow res, (tk_store t3, tk_world t3)) = (Finished (Inr ()), sw4)"
    by (simp only: 4(1) exec_steps_finished)
  with exec_steps_keep_world [OF four] 3(2) have "sw4 = (fst sw4, w')" by (cases sw4) simp
  with run four have "execute_workflow (with_world db) t ?x sw = (Inr (), (fst sw4, w'))"
    by (simp add: execute_workflow_def)
  with 4(2-5) u(5) show ?thesis
    by (intro exI [of _ "fst sw4"] exI [of _ fin]) (simp add: started_status_def x)
qed


lemma lives_end:
  fixes ty :: "'b serde"
  assumes "workflow_store db ok view nd dedup" "step_store db ok view" "ok s"
    and "a_workflows (view s) i = Some row" "claimable xid row" "\<And>j. 1 \<le> j \<Longrightarrow> a_steps (view s) (i, j) = None"
    and "\<And>h. resolve_workflow (reg h) (wf_name row) (wf_config_name row) = Inr h"
    and "decode_stored_value (cx_codec ctx) json_serde (wf_input row) (wf_serialization row) = Inr v"
    and "crashes_ok (cx_codec ctx) (run_state_of_row row) (body v) (c # cs) ([], w)"
    and "fold (ideal_crash i (body v)) (c # cs) ([], w) = (log, w1)" "ideal_run i (after_log i (body v) log) w1 = (res, w')"
    and "\<And>u. res = Inr u \<Longrightarrow> encodes (cx_codec ctx) (wf_serialization row = PORTABLE_JSON) u"
  shows "\<exists>ids a s' fin.
    recover_pending_workflows (with_world db) [executor_id ctx]
      \<lparr>app_store = survive db t clock ctx reg body i xid' cs
         (die db t (worker ctx (reg (dying_handler db clock body c)) i False xid) (s, w)), app_spawned = []\<rparr> = (Inr ids, a) \<and>
    (i, True) \<in> set (app_spawned a) \<and>
    execute_workflow (with_world db) t (worker ctx (reg (prog_handler db clock body)) i True xid') (app_store a) = (Inr (), (s', w')) \<and>
    a_workflows (view s') i = Some fin \<and> wf_status fin = (case res of Inr _ \<Rightarrow> Success | Inl _ \<Rightarrow> Error) \<and>
    wf_attempts fin = (saturating_succ ^^ (length cs + 2)) (wf_attempts row) \<and>
    get_result_with_options (cx_codec ctx) ty i gopts ((Inr fin, elapsed) # rounds) = (Some (reported ty i res), [])"
proof -
  have uuid: "wf_workflow_uuid row = i" using workflow_store.keyed [OF assms(1,3,4)] .
  have rs: "rs_workflow_id (run_state_of_row row) = i" using uuid by (simp add: run_state_of_row_def)
  have start: "recordable (cx_codec ctx) (run_state_of_row row) (body v) ([], w)"
    and later: "crashes_ok (cx_codec ctx) (run_state_of_row row) (body v) cs (ideal_crash i (body v) c ([], w))"
    using assms(9) rs by (simp_all del: ideal_crash_unfold)
  note one = first_life [where body = body and v = v and c = c and reg = "reg (dying_handler db clock body c)" and t = t,
      OF assms(1-6,7,8) start]
  note all = survived [where body = body and v = v and t = t and xid = xid' and clock = clock, OF assms(1,2) uuid assms(7,8) one later]
  let ?sw = "survive db t clock ctx reg body i xid' cs
    (die db t (worker ctx (reg (dying_handler db clock body c)) i False xid) (s, w))"
  have left: "interrupted ok view ctx clock (body v) row (1 + length cs) (log, w1) ?sw"
    and good: "recordable (cx_codec ctx) (run_state_of_row row) (body v) (log, w1)"
    using all assms(10) by simp_all
  obtain ids a where a: "recover_pending_workflows (with_world db) [executor_id ctx] \<lparr>app_store = ?sw, app_spawned = []\<rparr> = (Inr ids, a)"
    "(i, True) \<in> set (app_spawned a)" "interrupted ok view ctx clock (body v) row (1 + length cs) (log, w1) (app_store a)"
    using recovery_stage [OF assms(1) left] uuid by auto
  have run: "ideal_run i (after_log i (body v) (fst (log, w1))) (snd (log, w1)) = (res, w')" using assms(11) by simp
  from last_life [where body = body and v = v and t = t and xid = xid' and ?'b = 'b and reg = "reg (prog_handler db clock body)",
      OF assms(1,2) a(3) uuid assms(7,8) good run assms(12)]
  obtain s' fin where
    "execute_workflow (with_world db) t (worker ctx (reg (prog_handler db clock body)) i True xid') (app_store a) = (Inr (), (s', w'))"
    "a_workflows (view s') i = Some fin" "wf_status fin = (case res of Inr _ \<Rightarrow> Success | Inl _ \<Rightarrow> Error)"
    "wf_attempts fin = (saturating_succ ^^ (length cs + 2)) (wf_attempts row)"
    "finished_result (cx_codec ctx) ty i fin = Some (reported ty i res)"
    by auto
  with a(1,2) show ?thesis by (fastforce simp: get_result_with_options_def)
qed


section \<open>Crashes between steps\<close>

lemma after_log_take:
  "m \<le> length (ideal_log i prog w) \<Longrightarrow>
   ideal_log i (after_log i prog (take m (ideal_log i prog w))) (ideal_world i prog m w) = drop m (ideal_log i prog w)"
  using ideal_log_split [of m i prog w] by (metis append_eq_conv_conj length_take min.absorb2)

lemma ideal_world_add:
  "ideal_world i (after_log i prog (take m (ideal_log i prog w))) k (ideal_world i prog m w) = ideal_world i prog (m + k) w"
  by (induction prog arbitrary: m w) (auto simp: take_Cons split: prod.splits nat.splits)

lemma clean_crash:
  assumes "n \<le> length (ideal_log i prog w)"
  shows "ideal_crash i prog (m, False) (take n (ideal_log i prog w), ideal_world i prog n w) =
    (take (max m n) (ideal_log i prog w), ideal_world i prog (max m n) w)"
  using assms by (simp add: after_log_take ideal_world_add max_def take_add [symmetric])

lemma clean_crashes:
  assumes "n \<le> length (ideal_log i prog w)" "\<forall>m \<in> set ms. m \<le> length (ideal_log i prog w)"
  shows "fold (ideal_crash i prog) (map (\<lambda>m. (m, False)) ms) (take n (ideal_log i prog w), ideal_world i prog n w) =
    (take (fold max ms n) (ideal_log i prog w), ideal_world i prog (fold max ms n) w)"
  using assms by (induction ms arbitrary: n) (simp_all add: clean_crash del: ideal_crash_unfold)

lemma clean_crashes_ok:
  assumes "n \<le> length (ideal_log (rs_workflow_id rs) prog w)" "log_ok c rs 0 (ideal_log (rs_workflow_id rs) prog w)"
    and "\<forall>m \<in> set (n # ms). m \<le> length (ideal_log (rs_workflow_id rs) prog w) \<and>
      list_all (\<lambda>(name, r). succeeds r) (take m (ideal_log (rs_workflow_id rs) prog w))"
  shows "crashes_ok c rs prog (map (\<lambda>m. (m, False)) ms)
    (take n (ideal_log (rs_workflow_id rs) prog w), ideal_world (rs_workflow_id rs) prog n w)"
  using assms
proof (induction ms arbitrary: n)
  case Nil
  then show ?case by (simp add: recordable_def ideal_log_split)
next
  case (Cons m ms)
  have "max m n \<le> length (ideal_log (rs_workflow_id rs) prog w)"
    "list_all (\<lambda>(name, r). succeeds r) (take (max m n) (ideal_log (rs_workflow_id rs) prog w))"
    using Cons.prems by (auto simp: max_def)
  with Cons.IH [of "max m n"] Cons.prems clean_crash [OF Cons.prems(1), of m] show ?case
    by (simp add: recordable_def ideal_log_split del: ideal_crash_unfold)
qed

text \<open>C1:
  A workflow survives any number of crashes of its process. The first process claims and starts the workflow and dies in the
  handler after some steps; each of its successors recovers the workflow and dies in the handler too, earlier or later. The
  process after the last crash recovers the workflow and finishes it: the world is that of one uninterrupted run, so no
  step was done twice, the row holds the result of that run, which is what a waiting handle gets, and every life is
  counted as an attempt. The steps done before a crash must have succeeded; a later step may fail.\<close>

theorem crashes_survived:
  fixes ty :: "'b serde"
  assumes "workflow_store db ok view nd dedup" "step_store db ok view" "ok s"
    and "a_workflows (view s) i = Some row" "claimable xid row" "\<And>j. 1 \<le> j \<Longrightarrow> a_steps (view s) (i, j) = None"
    and "\<And>h. resolve_workflow (reg h) (wf_name row) (wf_config_name row) = Inr h"
    and "decode_stored_value (cx_codec ctx) json_serde (wf_input row) (wf_serialization row) = Inr v"
    and "log_ok (cx_codec ctx) (run_state_of_row row) 0 (ideal_log i (body v) w)"
    and "\<forall>m \<in> set (m0 # ms). m \<le> length (ideal_log i (body v) w) \<and>
      list_all (\<lambda>(name, r). succeeds r) (take m (ideal_log i (body v) w))"
    and "ideal_run i (body v) w = (res, w')"
    and "\<And>u. res = Inr u \<Longrightarrow> encodes (cx_codec ctx) (wf_serialization row = PORTABLE_JSON) u"
  shows "\<exists>ids a s' fin.
    recover_pending_workflows (with_world db) [executor_id ctx]
      \<lparr>app_store = survive db t clock ctx reg body i xid' (map (\<lambda>m. (m, False)) ms)
         (die db t (worker ctx (reg (dying_handler db clock body (m0, False))) i False xid) (s, w)), app_spawned = []\<rparr> = (Inr ids, a) \<and>
    (i, True) \<in> set (app_spawned a) \<and>
    execute_workflow (with_world db) t (worker ctx (reg (prog_handler db clock body)) i True xid') (app_store a) = (Inr (), (s', w')) \<and>
    a_workflows (view s') i = Some fin \<and> wf_status fin = (case res of Inr _ \<Rightarrow> Success | Inl _ \<Rightarrow> Error) \<and>
    wf_attempts fin = (saturating_succ ^^ (length ms + 2)) (wf_attempts row) \<and>
    get_result_with_options (cx_codec ctx) ty i gopts ((Inr fin, elapsed) # rounds) = (Some (reported ty i res), [])"
proof -
  let ?log = "ideal_log i (body v) w" and ?cs = "map (\<lambda>m. (m, False)) ms"
  let ?n = "fold max (m0 # ms) 0"
  have rs: "rs_workflow_id (run_state_of_row row) = i"
    using workflow_store.keyed [OF assms(1,3,4)] by (simp add: run_state_of_row_def)
  have ok: "crashes_ok (cx_codec ctx) (run_state_of_row row) (body v) ((m0, False) # ?cs) ([], w)"
    using clean_crashes_ok [of 0 "run_state_of_row row" "body v" w "cx_codec ctx" "m0 # ms"] assms(9,10) rs by simp
  have st: "fold (ideal_crash i (body v)) ((m0, False) # ?cs) ([], w) = (take ?n ?log, ideal_world i (body v) ?n w)"
    using clean_crashes [of 0 i "body v" w "m0 # ms"] assms(10) by simp
  have run: "ideal_run i (after_log i (body v) (take ?n ?log)) (ideal_world i (body v) ?n w) = (res, w')"
    using assms(11) by (simp only: ideal_run_split)
  from lives_end [where body = body and v = v and reg = reg, OF assms(1-8) ok st run assms(12)] show ?thesis by simp
qed


section \<open>A crash inside a step\<close>

text \<open>C2:
  A step whose process dies between its operation and its row is done again. The process dies in the step \<open>name\<close>
  after the operation \<open>f\<close> has acted on the world and before the row is written. The recovered execution does not repeat the
  steps before it, but it does \<open>f\<close> a second time, in the world the first time left, and the workflow goes on with
  the result of the second time. Operations are done at least once, not exactly once, and no more than one of them is
  repeated.\<close>

theorem interrupted_step_repeated:
  fixes ty :: "'b serde"
  assumes "workflow_store db ok view nd dedup" "step_store db ok view" "ok s"
    and "a_workflows (view s) i = Some row" "claimable xid row" "\<And>j. 1 \<le> j \<Longrightarrow> a_steps (view s) (i, j) = None"
    and "\<And>h. resolve_workflow (reg h) (wf_name row) (wf_config_name row) = Inr h"
    and "decode_stored_value (cx_codec ctx) json_serde (wf_input row) (wf_serialization row) = Inr v"
    and "log_ok (cx_codec ctx) (run_state_of_row row) 0 (ideal_log i (body v) w)"
    and "m \<le> length (ideal_log i (body v) w)" "list_all (\<lambda>(name, r). succeeds r) (take m (ideal_log i (body v) w))"
    and "after_log i (body v) (take m (ideal_log i (body v) w)) = Step name f k"
    and "f (ideal_world i (body v) m w) = (r1, w1)" "f w1 = (r2, w2)" "ideal_run i (k (told i name r2)) w2 = (res, w')"
    and "log_ok (cx_codec ctx) (run_state_of_row row) 0
      (take m (ideal_log i (body v) w) @ (name, r2) # ideal_log i (k (told i name r2)) w2)"
    and "\<And>u. res = Inr u \<Longrightarrow> encodes (cx_codec ctx) (wf_serialization row = PORTABLE_JSON) u"
  shows "\<exists>ids a s' fin.
    recover_pending_workflows (with_world db) [executor_id ctx]
      \<lparr>app_store = die db t (worker ctx (reg (dying_handler db clock body (m, True))) i False xid) (s, w), app_spawned = []\<rparr> = (Inr ids, a) \<and>
    (i, True) \<in> set (app_spawned a) \<and>
    execute_workflow (with_world db) t (worker ctx (reg (prog_handler db clock body)) i True xid') (app_store a) = (Inr (), (s', w')) \<and>
    a_workflows (view s') i = Some fin \<and> wf_status fin = (case res of Inr _ \<Rightarrow> Success | Inl _ \<Rightarrow> Error) \<and>
    get_result_with_options (cx_codec ctx) ty i gopts ((Inr fin, elapsed) # rounds) = (Some (reported ty i res), [])"
proof -
  let ?log = "take m (ideal_log i (body v) w)"
  have rs: "rs_workflow_id (run_state_of_row row) = i"
    using workflow_store.keyed [OF assms(1,3,4)] by (simp add: run_state_of_row_def)
  have crash: "ideal_crash i (body v) (m, True) ([], w) = (?log, w1)"
    using assms(12,13) by simp
  have st: "fold (ideal_crash i (body v)) [(m, True)] ([], w) = (?log, w1)" using crash by (simp del: ideal_crash_unfold)
  have run: "ideal_run i (after_log i (body v) ?log) w1 = (res, w')" using assms(12,14,15) by simp
  have "recordable (cx_codec ctx) (run_state_of_row row) (body v) (?log, w1)"
    using assms(11,12,14,16) rs by (simp add: recordable_def)
  moreover have "recordable (cx_codec ctx) (run_state_of_row row) (body v) ([], w)"
    using assms(9) rs by (simp add: recordable_def)
  ultimately have ok: "crashes_ok (cx_codec ctx) (run_state_of_row row) (body v) [(m, True)] ([], w)"
    using crash rs by (simp del: ideal_crash_unfold)
  from lives_end [where body = body and v = v and reg = reg, OF assms(1-8) ok st run assms(17)] show ?thesis by fastforce
qed

section \<open>One crash, in full\<close>

text \<open>
  A workflow that crashes is finished as if it had not. A process claims and starts the workflow and dies in its handler
  after \<open>m\<close> steps, which succeeded. The process that takes its place under the same executor id recovers it: recovery
  spawns an execution that resumes the claim, and that execution finishes the workflow. The world is then that of
  one uninterrupted run, so no step was done twice; the row holds the result of that run, which is what a
  waiting handle gets, and both attempts are counted.\<close>

theorem crashed_workflow_recovered:
  fixes ty :: "'b serde" and w :: 'w
  assumes "workflow_store db ok view nd dedup" "step_store db ok view" "ok s"
    and "a_workflows (view s) i = Some row" "claimable xid row" "\<And>j. 1 \<le> j \<Longrightarrow> a_steps (view s) (i, j) = None"
    and "resolve_workflow reg (wf_name row) (wf_config_name row) = Inr (prog_handler db clock body)"
    and "decode_stored_value (cx_codec ctx) json_serde (wf_input row) (wf_serialization row) = Inr v"
    and "log_ok (cx_codec ctx) (run_state_of_row row) 0 (ideal_log i (body v) w)" "m \<le> length (ideal_log i (body v) w)"
    and "list_all (\<lambda>(name, r). succeeds r) (take m (ideal_log i (body v) w))"
    and "\<And>u. fst (ideal_run i (body v) w) = Inr u \<Longrightarrow> encodes (cx_codec ctx) (wf_serialization row = PORTABLE_JSON) u"
  shows "\<exists>row1 s1 r1 t1 ids a s' fin.
    exec_steps (with_world db) t \<lparr>ex_context = ctx, ex_registry = reg, ex_workflow_id = i, ex_resume_claim = False,
      ex_execution_id = xid\<rparr> 4 (ReadRow, (s, w)) = (RunHandler row1, (s1, w)) \<and>
    run_steps db (with_run_state ctx (run_state_of_row row1)) clock (body v) m
      \<lparr>tk_step_id = 0, tk_store = s1, tk_world = w\<rparr> = (r1, t1) \<and>
    recover_pending_workflows (with_world db) [executor_id ctx]
      \<lparr>app_store = (tk_store t1, tk_world t1), app_spawned = []\<rparr> = (Inr ids, a) \<and> (i, True) \<in> set (app_spawned a) \<and>
    execute_workflow (with_world db) t' \<lparr>ex_context = ctx, ex_registry = reg, ex_workflow_id = i, ex_resume_claim = True,
      ex_execution_id = xid'\<rparr> (app_store a) = (Inr (), (s', snd (ideal_run i (body v) w))) \<and>
    a_workflows (view s') i = Some fin \<and>
    wf_status fin = (case fst (ideal_run i (body v) w) of Inr _ \<Rightarrow> Success | Inl _ \<Rightarrow> Error) \<and>
    wf_attempts fin = saturating_succ (saturating_succ (wf_attempts row)) \<and>
    get_result_with_options (cx_codec ctx) ty i gopts ((Inr fin, elapsed) # rounds) =
      (Some (reported ty i (fst (ideal_run i (body v) w))), [])"
proof -
  from crash_stage [OF assms(1-5,7,6,9,10), where t = t and clock = clock] obtain row1 s1 r1 t1 row2 where
    crash: "exec_steps (with_world db) t \<lparr>ex_context = ctx, ex_registry = reg, ex_workflow_id = i, ex_resume_claim = False,
        ex_execution_id = xid\<rparr> 4 (ReadRow, (s, w)) = (RunHandler row1, (s1, w))"
      "run_steps db (with_run_state ctx (run_state_of_row row1)) clock (body v) m
        \<lparr>tk_step_id = 0, tk_store = s1, tk_world = w\<rparr> = (r1, t1)"
    and left: "tk_world t1 = ideal_world i (body v) m w" "ok (tk_store t1)"
      "checkpoint (cx_codec ctx) (run_state_of_row row) clock 0 (take m (ideal_log i (body v) w)) (a_steps (view (tk_store t1)))"
      "a_workflows (view (tk_store t1)) i = Some row2" "wf_status row2 = Pending"
      "wf_executor_id row2 = Some (executor_id ctx)" "wf_attempts row2 = saturating_succ (wf_attempts row)" "same_call row2 row"
    by blast
  have uuid: "wf_workflow_uuid row = i" using workflow_store.keyed [OF assms(1,3,4)] .
  let ?st = "(take m (ideal_log i (body v) w), ideal_world i (body v) m w)"
  have "interrupted ok view ctx clock (body v) row 1 ?st (tk_store t1, tk_world t1)"
    using left uuid by (simp add: interrupted_def log_of_ideal)
  from recovery_stage [OF assms(1) this] uuid obtain ids a where
    a: "recover_pending_workflows (with_world db) [executor_id ctx] \<lparr>app_store = (tk_store t1, tk_world t1), app_spawned = []\<rparr> = (Inr ids, a)"
      "(i, True) \<in> set (app_spawned a)" "interrupted ok view ctx clock (body v) row 1 ?st (app_store a)" by auto
  have good: "recordable (cx_codec ctx) (run_state_of_row row) (body v) ?st"
    using assms(9,11) uuid by (simp add: recordable_def ideal_log_split run_state_of_row_def)
  have run: "ideal_run i (after_log i (body v) (fst ?st)) (snd ?st) =
      (fst (ideal_run i (body v) w), snd (ideal_run i (body v) w))" by (simp add: ideal_run_split)
  from last_life [where body = body and v = v and t = t' and xid = xid' and ?'b = 'b and reg = reg,
      OF assms(1,2) a(3) uuid assms(7,8) good run assms(12)]
  obtain s' fin where
    "execute_workflow (with_world db) t' (worker ctx reg i True xid') (app_store a) = (Inr (), (s', snd (ideal_run i (body v) w)))"
    "a_workflows (view s') i = Some fin" "wf_status fin = (case fst (ideal_run i (body v) w) of Inr _ \<Rightarrow> Success | Inl _ \<Rightarrow> Error)"
    "wf_attempts fin = saturating_succ (saturating_succ (wf_attempts row))"
    "finished_result (cx_codec ctx) ty i fin = Some (reported ty i (fst (ideal_run i (body v) w)))"
    by auto
  with crash a(1,2) show ?thesis by (fastforce simp: get_result_with_options_def worker_def)
qed

section \<open>A shop for the witnesses\<close>

definition shop :: "(memory_data \<times> string list) handler \<Rightarrow> (memory_data \<times> string list) registry" where
  "shop h = \<lparr>reg_workflows = [(''orders'', h)], reg_aliases = [(''orders'', ''orders'')], reg_entries = [], reg_launched = True\<rparr>"

definition shop_registry :: "(memory_data \<times> string list) registry" where
  "shop_registry = shop (prog_handler memory_store tiny_clock (\<lambda>_. tiny_prog))"

lemma shop_resolves: "resolve_workflow (shop h) (wf_name orders_row) (wf_config_name orders_row) = Inr h"
  by (simp add: orders_row_simps resolve_workflow_def shop_def hm_get_def alias_name_def nonempty_def ok_or_def)

lemma shop_context: "cx_codec tiny_context = tiny_codec" "executor_id tiny_context = ''local''"
  by (simp_all add: tiny_context_def executor_id_def new_config_def)

lemma shop_row:
  "mem_inv (orders_store orders_row)" "claimable ''x'' orders_row" "wf_attempts orders_row = 0"
  "a_steps (mem_abs (orders_store orders_row)) (''w1'', j) = None"
  "decode_stored_value (cx_codec tiny_context) json_serde (wf_input orders_row) (wf_serialization orders_row) = Inr (JBool True)"
proof -
  show "mem_inv (orders_store orders_row)" by (rule orders_store_inv) (rule orders_row_simps)
  show "claimable ''x'' orders_row" by (simp add: claimable_def orders_row_simps)
  show "wf_attempts orders_row = 0" by (simp add: orders_row_def new_workflow_status_def)
  show "a_steps (mem_abs (orders_store orders_row)) (''w1'', j) = None" by (simp add: orders_store_def empty_memory_def)
  show "decode_stored_value (cx_codec tiny_context) json_serde (wf_input orders_row) (wf_serialization orders_row) = Inr (JBool True)"
    using tiny_decodes by (simp add: orders_row_simps)
qed

lemma attempts_counted: "n + k < 2 ^ 32 \<Longrightarrow> (saturating_succ ^^ k) n = n + k"
  by (induction k) (simp_all add: saturating_succ_def)

lemma shop_reported: "reported json_serde ''w1'' (Inr (JBool False)) = Inr (JBool False)"
  by (simp add: reported_def json_serde_def)

lemma shop_log: "log_ok (cx_codec tiny_context) (run_state_of_row orders_row) 0 (ideal_log ''w1'' tiny_prog w)"
  using tiny_encodes by (simp add: tiny_prog_def told_def log_ok_def result_ok_def shop_context)

lemma shop_run: "ideal_run ''w1'' tiny_prog [] = (Inr (JBool False), [''charge'', ''ship''])"
  by (simp add: tiny_prog_def told_def)

lemma shop_encodes: "Inr (JBool False) = Inr u \<Longrightarrow> encodes (cx_codec tiny_context) portable u"
  using tiny_encodes by (auto simp: shop_context)

text \<open>Four processes die, after one step, before any, after both and after one; the fifth one finishes.\<close>

theorem crashes_survived_witness:
  "\<exists>ids a s' fin.
    recover_pending_workflows (with_world memory_store) [''local'']
      \<lparr>app_store = survive memory_store (\<lambda>n. 7) tiny_clock tiny_context shop (\<lambda>_. tiny_prog) ''w1'' ''y'' (map (\<lambda>m. (m, False)) [0, 2, 1])
         (die memory_store (\<lambda>n. 7) (worker tiny_context (shop (dying_handler memory_store tiny_clock (\<lambda>_. tiny_prog) (1, False))) ''w1'' False ''x'')
           (orders_store orders_row, [])), app_spawned = []\<rparr> = (Inr ids, a) \<and>
    execute_workflow (with_world memory_store) (\<lambda>n. 7) (worker tiny_context shop_registry ''w1'' True ''y'') (app_store a) =
      (Inr (), (s', [''charge'', ''ship''])) \<and>
    a_workflows (mem_abs s') ''w1'' = Some fin \<and> wf_status fin = Success \<and> wf_attempts fin = 5 \<and>
    get_result_with_options (cx_codec tiny_context) json_serde ''w1'' default_get_result_options [(Inr fin, 0)] =
      (Some (Inr (JBool False)), [])"
proof -
  have points: "\<forall>m \<in> set (1 # [0, 2, 1]). m \<le> length (ideal_log ''w1'' tiny_prog []) \<and>
      list_all (\<lambda>(name, r). succeeds r) (take m (ideal_log ''w1'' tiny_prog []))"
    by (simp add: tiny_log succeeds_def)
  have five: "(saturating_succ ^^ (length [0::nat, 2, 1] + 2)) 0 = 5" by (subst attempts_counted) simp_all
  from crashes_survived [where body = "\<lambda>_. tiny_prog" and reg = shop and t = "\<lambda>n. 7" and clock = tiny_clock and ty = json_serde and xid' = "''y''"
      and gopts = default_get_result_options and elapsed = 0 and rounds = "[]",
      OF mem.workflow_store_axioms mem.step_store_axioms shop_row(1) orders_store_row shop_row(2,4) shop_resolves shop_row(5)
        shop_log points shop_run shop_encodes]
  show ?thesis unfolding shop_context(2) shop_row(3) five shop_registry_def [symmetric] shop_reported sum.case by blast
qed

text \<open>The process dies while the card is charged, before that is recorded: the card is charged twice.\<close>

theorem interrupted_step_repeated_witness:
  "\<exists>ids a s' fin.
    recover_pending_workflows (with_world memory_store) [''local'']
      \<lparr>app_store = die memory_store (\<lambda>n. 7) (worker tiny_context (shop (dying_handler memory_store tiny_clock (\<lambda>_. tiny_prog) (0, True))) ''w1'' False ''x'')
         (orders_store orders_row, []), app_spawned = []\<rparr> = (Inr ids, a) \<and>
    execute_workflow (with_world memory_store) (\<lambda>n. 7) (worker tiny_context shop_registry ''w1'' True ''y'') (app_store a) =
      (Inr (), (s', [''charge'', ''charge'', ''ship''])) \<and>
    a_workflows (mem_abs s') ''w1'' = Some fin \<and> wf_status fin = Success"
proof -
  let ?f = "\<lambda>w. (Inr (JBool True), w @ [''charge''])"
  let ?k = "\<lambda>r. case r of Inl e \<Rightarrow> Throw e
    | Inr v \<Rightarrow> Step ''ship'' (\<lambda>w. (Inr (JBool False), w @ [''ship''])) (\<lambda>r. case r of Inl e \<Rightarrow> Throw e | Inr u \<Rightarrow> Return u)"
  have none: "0 \<le> length (ideal_log ''w1'' tiny_prog [])" "list_all (\<lambda>(name, r). succeeds r) (take 0 (ideal_log ''w1'' tiny_prog []))" by simp_all
  have step: "after_log ''w1'' tiny_prog (take 0 (ideal_log ''w1'' tiny_prog [])) = Step ''charge'' ?f ?k" by (simp add: tiny_prog_def)
  have first: "?f (ideal_world ''w1'' tiny_prog 0 []) = (Inr (JBool True), [''charge''])" by simp
  have second: "?f [''charge''] = (Inr (JBool True), [''charge'', ''charge''])" by simp
  have run: "ideal_run ''w1'' (?k (told ''w1'' ''charge'' (Inr (JBool True)))) [''charge'', ''charge''] =
      (Inr (JBool False), [''charge'', ''charge'', ''ship''])" by (simp add: told_def)
  have log: "log_ok (cx_codec tiny_context) (run_state_of_row orders_row) 0 (take 0 (ideal_log ''w1'' tiny_prog []) @
      (''charge'', Inr (JBool True)) # ideal_log ''w1'' (?k (told ''w1'' ''charge'' (Inr (JBool True)))) [''charge'', ''charge''])"
    using tiny_encodes by (simp add: told_def log_ok_def result_ok_def shop_context)
  from interrupted_step_repeated [where body = "\<lambda>_. tiny_prog" and reg = shop and t = "\<lambda>n. 7" and clock = tiny_clock and ty = json_serde and xid' = "''y''"
      and gopts = default_get_result_options and elapsed = 0 and rounds = "[]",
      OF mem.workflow_store_axioms mem.step_store_axioms shop_row(1) orders_store_row shop_row(2,4) shop_resolves shop_row(5)
        shop_log none step first second run log shop_encodes]
  show ?thesis unfolding shop_context(2) shop_registry_def [symmetric] sum.case by blast
qed

text \<open>The process dies after the card was charged; the order is shipped after the recovery, and the card is charged once.\<close>

theorem crashed_workflow_recovered_witness:
  "\<exists>row1 s1 r1 t1 ids a s' fin.
    exec_steps (with_world memory_store) (\<lambda>n. 7) \<lparr>ex_context = tiny_context, ex_registry = shop_registry, ex_workflow_id = ''w1'',
      ex_resume_claim = False, ex_execution_id = ''x''\<rparr> 4 (ReadRow, (orders_store orders_row, [])) = (RunHandler row1, (s1, [])) \<and>
    run_steps memory_store (with_run_state tiny_context (run_state_of_row row1)) tiny_clock tiny_prog 1
      \<lparr>tk_step_id = 0, tk_store = s1, tk_world = []\<rparr> = (r1, t1) \<and>
    recover_pending_workflows (with_world memory_store) [''local'']
      \<lparr>app_store = (tk_store t1, tk_world t1), app_spawned = []\<rparr> = (Inr ids, a) \<and>
    execute_workflow (with_world memory_store) (\<lambda>n. 9) \<lparr>ex_context = tiny_context, ex_registry = shop_registry,
      ex_workflow_id = ''w1'', ex_resume_claim = True, ex_execution_id = ''y''\<rparr> (app_store a) = (Inr (), (s', [''charge'', ''ship''])) \<and>
    a_workflows (mem_abs s') ''w1'' = Some fin \<and> wf_status fin = Success \<and> wf_attempts fin = 2 \<and>
    get_result_with_options (cx_codec tiny_context) json_serde ''w1'' default_get_result_options [(Inr fin, 0)] =
      (Some (Inr (JBool False)), [])"
proof -
  have one: "1 \<le> length (ideal_log ''w1'' tiny_prog [])" "list_all (\<lambda>(name, r). succeeds r) (take 1 (ideal_log ''w1'' tiny_prog []))"
    by (simp_all add: tiny_log succeeds_def)
  have enc: "encodes (cx_codec tiny_context) (wf_serialization orders_row = PORTABLE_JSON) u" if "fst (ideal_run ''w1'' tiny_prog []) = Inr u" for u
    using that shop_encodes by (simp add: shop_run)
  note res = shop_resolves [of "prog_handler memory_store tiny_clock (\<lambda>_. tiny_prog)", folded shop_registry_def]
  from crashed_workflow_recovered [where body = "\<lambda>_. tiny_prog" and w = "[]" and t = "\<lambda>n. 7" and t' = "\<lambda>n. 9" and xid' = "''y''" and ty = json_serde
      and gopts = default_get_result_options and elapsed = 0 and rounds = "[]",
      OF mem.workflow_store_axioms mem.step_store_axioms shop_row(1) orders_store_row shop_row(2,4) res shop_row(5) shop_log one enc]
  show ?thesis unfolding shop_run shop_context(2) shop_row(3) by (fastforce simp: reported_def json_serde_def saturating_succ_def)
qed

end
