(* ===== verification/Unrecorded_Calls.thy ===== *)
theory Unrecorded_Calls
  imports Crashes Messaging_Properties
begin

text \<open>
  What a recovery does to calls that a workflow makes outside a step. \<open>recv\<close> and \<open>write_stream\<close> of \<open>src/src/context.rs\<close>
  change the database and record nothing for the workflow, so the execution that resumes it makes the call again, on a
  database that has seen it. The workflow methods of a store leave its messages and streams alone; the locale \<open>side_store\<close>
  says so for any part of the state.
\<close>

section \<open>A part of the state beside the workflows\<close>

locale side_store =
  fixes db :: "'s system_database"
    and ok :: "'s \<Rightarrow> bool"
    and view :: "'s \<Rightarrow> abstract_db"
    and nd :: "duration \<Rightarrow> duration"
    and dedup :: "'s \<Rightarrow> workflow_status \<Rightarrow> bool"
    and side :: "'s \<Rightarrow> 'x"
  assumes workflows: "workflow_store db (\<lambda>s. ok s \<and> side s = X) view nd dedup"

lemma side_storeI:
  assumes "workflow_store db ok view nd dedup"
    and "\<And>s i. ok s \<Longrightarrow> side (snd (db_get_workflow db i s)) = side s"
    and "\<And>s w. ok s \<Longrightarrow> side (snd (db_save_workflow db w s)) = side s"
    and "\<And>s w. ok s \<Longrightarrow> side (snd (db_insert_workflow_with_result db w s)) = side s"
    and "\<And>s now i ex xid. ok s \<Longrightarrow> side (snd (db_claim_workflow_execution db now i ex xid s)) = side s"
    and "\<And>s opts. ok s \<Longrightarrow> side (snd (db_list_workflows db opts s)) = side s"
  shows "side_store db ok view nd dedup side"
proof (unfold_locales, goal_cases)
  case (1 X)
  then show ?case by (rule workflow_store.supports [OF assms(1)])
next
  case (2 X s i w)
  then show ?case using workflow_store.keyed [OF assms(1)] by blast
next
  case (3 X s i rg s')
  with workflow_store.get [OF assms(1) _ 3(2)] assms(2) [of s i] show ?case by simp
next
  case (4 X s w ru s')
  with workflow_store.save [OF assms(1) _ 4(2)] assms(3) [of s w] show ?case by simp
next
  case (5 X s w e ri s')
  with workflow_store.insert_existing [OF assms(1) _ 5(2,3)] assms(4) [of s w] show ?case by simp
next
  case (6 X s w ri s')
  with workflow_store.insert_new [OF assms(1) _ 6(2-4)] assms(4) [of s w] show ?case by simp
next
  case (7 X s w ri s')
  with workflow_store.insert_dedup [OF assms(1) _ 7(2-4)] assms(4) [of s w] show ?case by simp
next
  case (8 X w s)
  then show ?case by (rule workflow_store.insert_unit [OF assms(1)])
next
  case (9 X s i now ex xid rb s')
  with workflow_store.claim [OF assms(1) _ 9(2,3)] assms(5) [of s now i ex xid] show ?case by simp
next
  case (10 X s opts rl s')
  with workflow_store.list_rows [OF assms(1) _ 10(2)] assms(6) [of s opts] show ?case by simp
qed

section \<open>One call, one crash\<close>

text \<open>
  The handler makes a single call: on a database with the side \<open>X\<close> it returns \<open>r\<close>, leaves the side \<open>Y\<close> and does not touch the
  workflows; \<open>call_of\<close> is this for the rows of the workflow.
\<close>

definition calls ::
    "('s \<Rightarrow> bool) \<Rightarrow> ('s \<Rightarrow> abstract_db) \<Rightarrow> ('s \<Rightarrow> 'x) \<Rightarrow> ('s, dbos_error, json) act \<Rightarrow> 'x \<Rightarrow> json res \<Rightarrow> 'x \<Rightarrow> bool" where
  "calls ok view side call X r Y \<longleftrightarrow>
     (\<forall>s. ok s \<and> side s = X \<longrightarrow> (\<exists>s'. call s = (r, s') \<and> ok s' \<and> side s' = Y \<and> view s' = view s))"

context side_store
begin

text \<open>From the claim to the handler.\<close>

lemma to_handler:
  assumes "ok s" "a_workflows (view s) i = Some row" "claimable xid row"
    and "resolve_workflow reg (wf_name row) (wf_config_name row) = Inr h"
  obtains u s1 d where
    "exec_steps db t (worker ctx reg i False xid) 4 (ReadRow, s) = (RunHandler u, s1)" "ok s1" "side s1 = side s"
    "a_workflows (view s1) i = Some (u\<lparr>wf_timeout := d\<rparr>)" "wf_status u = Pending"
    "wf_executor_id u = Some (executor_id ctx)" "same_call u row" "wf_workflow_uuid u = i"
proof -
  let ?x = "worker ctx reg i False xid" and ?w1 = "claimed_status (t (Suc 1)) (executor_id ctx) xid row"
  note ws = workflows [of "side s"]
  have x: "ex_context ?x = ctx" "ex_registry ?x = reg" "ex_workflow_id ?x = i" "ex_execution_id ?x = xid"
    by (simp_all add: worker_def)
  have in0: "ok s \<and> side s = side s" "a_workflows (view s) i = Some row" "claimable (ex_execution_id ?x) row" "ex_workflow_id ?x = i"
    using assms(1-3) by (simp_all add: x)
  obtain s3 where 3: "exec_steps db t ?x (Suc (Suc (Suc 1))) (ReadRow, s) = exec_steps db t ?x 1 (StartRow ?w1, s3)"
      "ok s3 \<and> side s3 = side s" "view s3 = (view s)\<lparr>a_workflows := (a_workflows (view s))(i \<mapsto> ?w1)\<rparr>"
    by (rule workflow_store.claim_stage [OF ws in0, of t 1]) (simp add: x)
  have r1: "resolve_workflow (ex_registry ?x) (wf_name ?w1) (wf_config_name ?w1) = Inr h" "wf_workflow_uuid ?w1 = i"
    using assms(4) workflow_store.keyed [OF ws in0(1,2)] by (simp_all add: claimed_status_def x)
  obtain s4 d where 4: "exec_step db (t 0) ?x (StartRow ?w1) s3 = (RunHandler (started_status (t 0) (t 0) ?w1), s4)"
      "ok s4 \<and> side s4 = side s" "view s4 = (view s3)\<lparr>a_workflows := (a_workflows (view s3))(i \<mapsto> (started_status (t 0) (t 0) ?w1)\<lparr>wf_timeout := d\<rparr>)\<rparr>"
    by (rule workflow_store.start_stage [OF ws 3(2) r1, of "t 0"])
  have "exec_steps db t ?x 4 (ReadRow, s) = (RunHandler (started_status (t 0) (t 0) ?w1), s4)"
    using 3(1) 4(1) by (simp add: eval_nat_numeral)
  moreover have "a_workflows (view s4) i = Some ((started_status (t 0) (t 0) ?w1)\<lparr>wf_timeout := d\<rparr>)" using 4(3) by simp
  moreover have "wf_status (started_status (t 0) (t 0) ?w1) = Pending"
    "wf_executor_id (started_status (t 0) (t 0) ?w1) = Some (executor_id ctx)"
    "same_call (started_status (t 0) (t 0) ?w1) row" "wf_workflow_uuid (started_status (t 0) (t 0) ?w1) = i"
    using r1(2) by (simp_all add: started_status_def claimed_status_def same_call_def run_state_of_row_def)
  ultimately show thesis using 4(2) that by blast
qed

text \<open>From the handler to the end.\<close>

lemma from_handler:
  assumes "ok s" "a_workflows (view s) i = Some (u\<lparr>wf_timeout := d\<rparr>)" "wf_status u = Pending" "same_call u row"
    and "resolve_workflow reg (wf_name row) (wf_config_name row) = Inr h"
    and "decode_stored_value (cx_codec ctx) json_serde (wf_input row) (wf_serialization row) = Inr input"
    and "calls ok view side (h (with_run_state ctx (run_state_of_row row)) input) (side s) r Y"
    and "\<And>v. r = Inr v \<Longrightarrow> encodes (cx_codec ctx) (wf_serialization row = PORTABLE_JSON) v"
  obtains s' fin where
    "exec_steps db t (worker ctx reg i b xid) (Suc (Suc (Suc n))) (RunHandler u, s) = (Finished (Inr ()), s')"
    "ok s'" "side s' = Y" "a_workflows (view s') i = Some fin" "wf_status fin = (case r of Inr _ \<Rightarrow> Success | Inl _ \<Rightarrow> Error)"
    "finished_result (cx_codec ctx) (ty :: 'b serde) i fin = Some (reported ty i r)"
proof -
  let ?x = "worker ctx reg i b xid"
  have x: "ex_context ?x = ctx" "ex_registry ?x = reg" "ex_workflow_id ?x = i" by (simp_all add: worker_def)
  have call: "wf_name u = wf_name row" "wf_config_name u = wf_config_name row" "wf_input u = wf_input row"
    "wf_serialization u = wf_serialization row" "run_state_of_row u = run_state_of_row row"
    using assms(4) by (simp_all add: same_call_def)
  from assms(1,7) obtain s1 where h: "h (with_run_state ctx (run_state_of_row u)) input s = (r, s1)" "ok s1 \<and> side s1 = Y" "view s1 = view s"
    by (auto simp: calls_def call)
  have run: "exec_step db (t (Suc (Suc n))) ?x (RunHandler u) s = (ReloadRow r, s1)"
    using assms(5,6) h(1) by (simp add: exec_step_def x call)
  have fin: "a_workflows (view s1) i = Some (u\<lparr>wf_timeout := d\<rparr>)" "wf_status (u\<lparr>wf_timeout := d\<rparr>) \<noteq> Cancelled"
    "\<And>v. r = Inr v \<Longrightarrow> encodes (cx_codec (ex_context ?x)) (wf_serialization (u\<lparr>wf_timeout := d\<rparr>) = PORTABLE_JSON) v"
    using assms(2,3,8) h(3) by (simp_all add: x call)
  obtain s2 row' where "exec_steps db t ?x (Suc (Suc n)) (ReloadRow r, s1) = exec_steps db t ?x n (Finished (Inr ()), s2)"
    "ok s2 \<and> side s2 = Y" "a_workflows (view s2) i = Some row'" "wf_status row' = (case r of Inr _ \<Rightarrow> Success | Inl _ \<Rightarrow> Error)"
    "finished_result (cx_codec (ex_context ?x)) ty i row' = Some (reported ty i r)"
    by (rule workflow_store.finish_stage [OF workflows h(2) x(3) fin, of r t n]) (assumption | blast)+
  with run that show thesis by (simp add: x)
qed

text \<open>From the recovery of an execution that died after its call to the end.\<close>

lemma recovered_again:
  assumes "ok s" "a_workflows (view s) i = Some (u\<lparr>wf_timeout := d\<rparr>)" "wf_status u = Pending"
    and "wf_executor_id u = Some (executor_id ctx)" "same_call u row"
    and "resolve_workflow reg (wf_name row) (wf_config_name row) = Inr h"
    and "decode_stored_value (cx_codec ctx) json_serde (wf_input row) (wf_serialization row) = Inr input"
    and "calls ok view side (h (with_run_state ctx (run_state_of_row row)) input) (side s) r Y"
    and "\<And>v. r = Inr v \<Longrightarrow> encodes (cx_codec ctx) (wf_serialization row = PORTABLE_JSON) v"
  obtains ids a s' fin where
    "recover_pending_workflows db [executor_id ctx] \<lparr>app_store = s, app_spawned = []\<rparr> = (Inr ids, a)"
    "(i, True) \<in> set (app_spawned a)"
    "execute_workflow db t (worker ctx reg i True xid) (app_store a) = (Inr (), s')" "side s' = Y"
    "a_workflows (view s') i = Some fin" "wf_status fin = (case r of Inr _ \<Rightarrow> Success | Inl _ \<Rightarrow> Error)"
    "finished_result (cx_codec ctx) (ty :: 'b serde) i fin = Some (reported ty i r)"
proof -
  let ?a = "\<lparr>app_store = s, app_spawned = []\<rparr>" and ?w = "u\<lparr>wf_timeout := d\<rparr>" and ?x = "worker ctx reg i True xid"
  note ws = workflows [of "side s"]
  have x: "ex_context ?x = ctx" "ex_registry ?x = reg" "ex_workflow_id ?x = i" "ex_resume_claim ?x" by (simp_all add: worker_def)
  have ok: "ok s \<and> side s = side s" using assms(1) by simp
  have uuid: "wf_workflow_uuid ?w = i" using workflow_store.keyed [OF ws ok assms(2)] .
  obtain q a where rec: "recover_pending_workflows db [executor_id ctx] ?a = (q, a)" by fastforce
  obtain added where spawned: "q = Inr (map fst added)" "app_spawned a = added" "ok (app_store a) \<and> side (app_store a) = side s"
    "view (app_store a) = view s" "set added = recoverable [executor_id ctx] (a_workflows (view s))"
    by (rule recovery_run [OF ws _ rec]) (use ok in auto)
  have mine: "(i, True) \<in> set added" using spawned(5) assms(2-4) by (simp add: recoverable_def)
  have row: "a_workflows (view (app_store a)) i = Some ?w" using assms(2) spawned(4) by simp
  have res: "resolve_workflow (ex_registry ?x) (wf_name ?w) (wf_config_name ?w) = Inr h"
    using assms(5,6) by (simp add: same_call_def x)
  obtain s1 where 1: "exec_step db (t 6) ?x ReadRow (app_store a) = (StartRow ?w, s1)" "ok s1 \<and> side s1 = side s"
      "view s1 = view (app_store a)"
    by (rule workflow_store.resume_stage [OF ws spawned(3) row, of ?x "t 6"]) (simp_all add: x assms(3,4))
  let ?u = "started_status (t 5) (t 5) ?w"
  obtain s2 d' where 2: "exec_step db (t 5) ?x (StartRow ?w) s1 = (RunHandler ?u, s2)" "ok s2 \<and> side s2 = side s"
      "view s2 = (view s1)\<lparr>a_workflows := (a_workflows (view s1))(i \<mapsto> ?u\<lparr>wf_timeout := d'\<rparr>)\<rparr>"
    by (rule workflow_store.start_stage [OF ws 1(2) res uuid, of "t 5"])
  have u: "a_workflows (view s2) i = Some (?u\<lparr>wf_timeout := d'\<rparr>)" "wf_status ?u = Pending" "same_call ?u row"
    using 2(3) assms(5) by (simp_all add: started_status_def same_call_def run_state_of_row_def)
  have ok2: "ok s2" using 2(2) by simp
  have again: "calls ok view side (h (with_run_state ctx (run_state_of_row row)) input) (side s2) r Y" using assms(8) 2(2) by simp
  obtain s' fin where fini: "exec_steps db t ?x (Suc (Suc (Suc 2))) (RunHandler ?u, s2) = (Finished (Inr ()), s')" "side s' = Y"
    "a_workflows (view s') i = Some fin" "wf_status fin = (case r of Inr _ \<Rightarrow> Success | Inl _ \<Rightarrow> Error)"
    "finished_result (cx_codec ctx) ty i fin = Some (reported ty i r)"
    by (rule from_handler [OF ok2 u assms(6,7) again assms(9), of t True xid 2 ty]) (assumption | blast)+
  have "execute_workflow db t ?x (app_store a) = (Inr (), s')"
    using 1(1) 2(1) fini(1) unfolding execute_workflow_def by (simp add: eval_nat_numeral)
  with that rec spawned mine fini(2-5) show thesis by simp
qed

text \<open>
  Without a crash the call is made once. After a crash it is made on a database that has seen it.
\<close>

lemma crashed_call:
  fixes ty :: "'b serde"
  assumes "ok s" "a_workflows (view s) i = Some row" "claimable xid row"
    and "resolve_workflow reg (wf_name row) (wf_config_name row) = Inr h"
    and "decode_stored_value (cx_codec ctx) json_serde (wf_input row) (wf_serialization row) = Inr input"
    and "calls ok view side (h (with_run_state ctx (run_state_of_row row)) input) (side s) r1 Y"
    and "resolve_workflow reg' (wf_name row) (wf_config_name row) = Inr h'"
    and "calls ok view side (h' (with_run_state ctx (run_state_of_row row)) input) Y r2 Z"
    and "\<And>v. r1 = Inr v \<or> r2 = Inr v \<Longrightarrow> encodes (cx_codec ctx) (wf_serialization row = PORTABLE_JSON) v"
  shows "(\<exists>s' fin. execute_workflow db t (worker ctx reg i False xid) s = (Inr (), s') \<and> side s' = Y \<and>
      a_workflows (view s') i = Some fin \<and> finished_result (cx_codec ctx) ty i fin = Some (reported ty i r1)) \<and>
    (\<exists>s2 ids a s' fin. exec_steps db t' (worker ctx reg i False xid) 5 (ReadRow, s) = (ReloadRow r1, s2) \<and>
      recover_pending_workflows db [executor_id ctx] \<lparr>app_store = s2, app_spawned = []\<rparr> = (Inr ids, a) \<and>
      (i, True) \<in> set (app_spawned a) \<and>
      execute_workflow db t (worker ctx reg' i True xid') (app_store a) = (Inr (), s') \<and> side s' = Z \<and>
      a_workflows (view s') i = Some fin \<and> finished_result (cx_codec ctx) ty i fin = Some (reported ty i r2))"
proof (rule conjI)
  let ?x = "worker ctx reg i False xid"
  have enc: "\<And>v. r1 = Inr v \<Longrightarrow> encodes (cx_codec ctx) (wf_serialization row = PORTABLE_JSON) v"
    "\<And>v. r2 = Inr v \<Longrightarrow> encodes (cx_codec ctx) (wf_serialization row = PORTABLE_JSON) v"
    using assms(9) by simp_all
  obtain u s1 d where 1: "exec_steps db (\<lambda>j. t (j + 3)) ?x 4 (ReadRow, s) = (RunHandler u, s1)" "ok s1" "side s1 = side s"
    "a_workflows (view s1) i = Some (u\<lparr>wf_timeout := d\<rparr>)" "wf_status u = Pending" "same_call u row"
    by (rule to_handler [OF assms(1-4), of "\<lambda>j. t (j + 3)" ctx])
  have first: "calls ok view side (h (with_run_state ctx (run_state_of_row row)) input) (side s1) r1 Y" using assms(6) 1(3) by simp
  obtain s' fin where 2: "exec_steps db t ?x (Suc (Suc (Suc 0))) (RunHandler u, s1) = (Finished (Inr ()), s')" "side s' = Y"
    "a_workflows (view s') i = Some fin" "finished_result (cx_codec ctx) ty i fin = Some (reported ty i r1)"
    by (rule from_handler [OF 1(2,4-6) assms(4,5) first enc(1), of t False xid 0 ty]) (assumption | blast)+
  have "exec_steps db t ?x (4 + 3) (ReadRow, s) = (Finished (Inr ()), s')"
    unfolding exec_steps_add 1(1) using 2(1) by (simp add: numeral_3_eq_3)
  with 2 show "\<exists>s' fin. execute_workflow db t ?x s = (Inr (), s') \<and> side s' = Y \<and>
      a_workflows (view s') i = Some fin \<and> finished_result (cx_codec ctx) ty i fin = Some (reported ty i r1)"
    by (simp add: execute_workflow_def)
next
  let ?x = "worker ctx reg i False xid"
  obtain u s1 d where 1: "exec_steps db (\<lambda>j. t' (j + 1)) ?x 4 (ReadRow, s) = (RunHandler u, s1)" "ok s1" "side s1 = side s"
    "a_workflows (view s1) i = Some (u\<lparr>wf_timeout := d\<rparr>)" "wf_status u = Pending" "wf_executor_id u = Some (executor_id ctx)"
    "same_call u row"
    by (rule to_handler [OF assms(1-4), of "\<lambda>j. t' (j + 1)" ctx])
  from assms(6) 1(2,3) obtain s2 where 2: "h (with_run_state ctx (run_state_of_row row)) input s1 = (r1, s2)" "ok s2" "side s2 = Y"
    "view s2 = view s1" by (auto simp: calls_def)
  have "exec_step db (t' 0) ?x (RunHandler u) s1 = (ReloadRow r1, s2)"
    using 1(7) 2(1) assms(4,5) by (simp add: exec_step_def worker_def same_call_def)
  then have "exec_steps db t' ?x (4 + 1) (ReadRow, s) = (ReloadRow r1, s2)"
    unfolding exec_steps_add 1(1) by simp
  then have died: "exec_steps db t' ?x 5 (ReadRow, s) = (ReloadRow r1, s2)" by simp
  have row2: "a_workflows (view s2) i = Some (u\<lparr>wf_timeout := d\<rparr>)" using 1(4) 2(4) by simp
  have again: "calls ok view side (h' (with_run_state ctx (run_state_of_row row)) input) (side s2) r2 Z" using assms(8) 2(3) by simp
  have enc: "\<And>v. r2 = Inr v \<Longrightarrow> encodes (cx_codec ctx) (wf_serialization row = PORTABLE_JSON) v" using assms(9) by simp
  obtain ids a s' fin where 3:
    "recover_pending_workflows db [executor_id ctx] \<lparr>app_store = s2, app_spawned = []\<rparr> = (Inr ids, a)"
    "(i, True) \<in> set (app_spawned a)" "execute_workflow db t (worker ctx reg' i True xid') (app_store a) = (Inr (), s')" "side s' = Z"
    "a_workflows (view s') i = Some fin" "finished_result (cx_codec ctx) ty i fin = Some (reported ty i r2)"
    by (rule recovered_again [OF 2(2) row2 1(5-7) assms(7,5) again enc, of t xid' ty]) (assumption | blast)+
  with died show "\<exists>s2 ids a s' fin. exec_steps db t' ?x 5 (ReadRow, s) = (ReloadRow r1, s2) \<and>
      recover_pending_workflows db [executor_id ctx] \<lparr>app_store = s2, app_spawned = []\<rparr> = (Inr ids, a) \<and>
      (i, True) \<in> set (app_spawned a) \<and>
      execute_workflow db t (worker ctx reg' i True xid') (app_store a) = (Inr (), s') \<and> side s' = Z \<and>
      a_workflows (view s') i = Some fin \<and> finished_result (cx_codec ctx) ty i fin = Some (reported ty i r2)" by blast
qed

end


section \<open>Messages and streams\<close>

locale inbox_store = mail_store db ok mailbox
  for db :: "'s system_database" and ok :: "'s \<Rightarrow> bool" and mailbox :: "'s \<Rightarrow> string \<Rightarrow> string \<Rightarrow> workflow_message multiset" +
  fixes view :: "'s \<Rightarrow> abstract_db"
    and nd :: "duration \<Rightarrow> duration"
    and dedup :: "'s \<Rightarrow> workflow_status \<Rightarrow> bool"
  assumes mail_beside: "side_store db ok view nd dedup (\<lambda>s. mailbox s d t)"
    and recv_rows: "ok s \<Longrightarrow> db_recv_message db d t s = (r, s') \<Longrightarrow> view s' = view s"

locale feed_store = stream_store db ok stream_at
  for db :: "'s system_database" and ok :: "'s \<Rightarrow> bool" and stream_at :: "'s \<Rightarrow> string \<Rightarrow> string \<Rightarrow> stream_entry list" +
  fixes view :: "'s \<Rightarrow> abstract_db"
    and nd :: "duration \<Rightarrow> duration"
    and dedup :: "'s \<Rightarrow> workflow_status \<Rightarrow> bool"
  assumes streams_beside: "side_store db ok view nd dedup (\<lambda>s. stream_at s i k)"
    and write_rows: "ok s \<Longrightarrow> db_write_stream db e s = (r, s') \<Longrightarrow> view s' = view s"

text \<open>A workflow that returns the message it receives; it polls \<open>n\<close> times before its deadline has passed.\<close>

definition inbox_handler :: "'s system_database \<Rightarrow> string \<Rightarrow> nat \<Rightarrow> 's handler" where
  "inbox_handler db topic n ctx input s =
     (case recv db ctx json_serde topic (replicate n (False, id) @ [(True, id)]) s of (answer, s') \<Rightarrow> (the answer, s'))"

text \<open>A workflow that writes its input to a stream.\<close>

definition feed_handler :: "'s system_database \<Rightarrow> datetime \<Rightarrow> string \<Rightarrow> 's handler" where
  "feed_handler db now key ctx input s =
     (case write_stream db ctx now json_serde key input s of (r, s') \<Rightarrow> (res_map (\<lambda>_. JNull) r, s'))"

definition feed_entry :: "string \<Rightarrow> string \<Rightarrow> datetime \<Rightarrow> encoded_value \<Rightarrow> nat \<Rightarrow> stream_entry" where
  "feed_entry i key now enc n =
     \<lparr>se_workflow_uuid = i, se_key = key, se_offset = int n, se_value = map_option JString (enc_data enc),
      se_serialization = enc_serialization enc, se_closed = False, se_created_at = now\<rparr>"

context inbox_store
begin

lemma inbox_takes:
  assumes "cx_run_state ctx = Some rs" "rs_workflow_id rs = i"
  shows "calls ok view (\<lambda>s. mailbox s i topic) (inbox_handler db topic n ctx input) {#m#} (received (cx_codec ctx) json_serde m) {#}"
  unfolding calls_def
proof (intro allI impI)
  fix s assume s: "ok s \<and> mailbox s i topic = {#m#}"
  obtain r s' where r: "db_recv_message db i topic s = (r, s')" by fastforce
  from recv_some [OF _ _ r] s have "r = Inr (Some (m\<lparr>msg_consumed := True\<rparr>))" "ok s'" "mailbox s' i topic = {#}" by auto
  moreover have "received c ty (m\<lparr>msg_consumed := True\<rparr>) = received c ty m" for c and ty :: "'x serde" by (simp add: received_def)
  ultimately show "\<exists>s'. inbox_handler db topic n ctx input s = (received (cx_codec ctx) json_serde m, s') \<and> ok s' \<and>
      mailbox s' i topic = {#} \<and> view s' = view s"
    using assms r recv_rows [OF _ r] s by (cases n) (simp_all add: inbox_handler_def recv_def current_workflow_id_def)
qed

lemma inbox_starves:
  assumes "cx_run_state ctx = Some rs" "rs_workflow_id rs = i"
  shows "calls ok view (\<lambda>s. mailbox s i topic) (inbox_handler db topic n ctx input) {#}
    (Inl (timeout_error (''timed out receiving topic '' @ topic))) {#}"
  unfolding calls_def
proof (intro allI impI)
  fix s assume s: "ok s \<and> mailbox s i topic = {#}"
  let ?P = "\<lambda>s'. ok s' \<and> mailbox s' i topic = {#} \<and> view s' = view s"
  have ask: "\<exists>s2. db_recv_message db i topic s1 = (Inr None, s2) \<and> ?P s2" if "?P s1" for s1
  proof -
    obtain r s2 where r: "db_recv_message db i topic s1 = (r, s2)" by fastforce
    from recv_none [OF _ _ r] recv_rows [OF _ r] that r show ?thesis by simp
  qed
  from poll_waits [of ?P "db_recv_message db i topic" s "timeout_error (''timed out receiving topic '' @ topic)" n "[(True, id)]", OF ask] s
  obtain s1 where 1: "?P s1" "poll_rounds (db_recv_message db i topic) (timeout_error (''timed out receiving topic '' @ topic))
      (replicate n (False, id) @ [(True, id)]) s =
    poll_rounds (db_recv_message db i topic) (timeout_error (''timed out receiving topic '' @ topic)) [(True, id)] s1" by blast
  from ask [OF 1(1)] obtain s2 where "db_recv_message db i topic s1 = (Inr None, s2)" "?P s2" by blast
  with 1(2) assms show "\<exists>s'. inbox_handler db topic n ctx input s = (Inl (timeout_error (''timed out receiving topic '' @ topic)), s') \<and>
      ok s' \<and> mailbox s' i topic = {#} \<and> view s' = view s"
    by (simp add: inbox_handler_def recv_def current_workflow_id_def)
qed

end

context feed_store
begin

lemma feed_writes:
  assumes "cx_run_state ctx = Some rs" "rs_workflow_id rs = i" "encode_serializable (cx_codec ctx) json_serde input False = Inr enc"
    and "\<forall>e \<in> set entries. se_offset e < int (length entries)" "length entries < 2 ^ 63"
  shows "calls ok view (\<lambda>s. stream_at s i key) (feed_handler db now key ctx input) entries (Inr JNull)
    (entries @ [feed_entry i key now enc (length entries)])"
  unfolding calls_def
proof (intro allI impI)
  fix s assume s: "ok s \<and> stream_at s i key = entries"
  let ?e = "feed_entry i key now enc (length entries)"
  obtain r s1 where r: "db_read_stream db i key s = (r, s1)" by fastforce
  from stream_read [OF _ r] s have read: "r = Inr entries" "s1 = s" by auto
  obtain u s' where u: "db_write_stream db ?e s = (u, s')" by fastforce
  have e: "se_workflow_uuid ?e = i" "se_key ?e = key" "se_offset ?e = int (length entries)" by (simp_all add: feed_entry_def)
  from stream_write [OF _ _ u] s e assms(4) have "u = Inr ()" "ok s'" "stream_at s' i key = entries @ [?e]" by auto
  moreover have "view s' = view s" using write_rows [OF _ u] s by blast
  moreover have "stream_offset (length entries) = Inr (int (length entries))" using assms(5) by (simp add: stream_offset_def)
  moreover from this have "write_stream db ctx now json_serde key input s = (u, s')"
    using assms(1-3) r read u by (simp add: write_stream_def write_stream_with_options_def act_bind_def current_workflow_id_def feed_entry_def)
  ultimately show "\<exists>s'. feed_handler db now key ctx input s = (Inr JNull, s') \<and> ok s' \<and> stream_at s' i key = entries @ [?e] \<and> view s' = view s"
    by (simp add: feed_handler_def)
qed

end

section \<open>The three stores\<close>

lemma mem_side:
  assumes "\<And>s ws. side (s\<lparr>md_workflows := ws\<rparr>) = side s"
  shows "side_store memory_store mem_inv mem_abs (\<lambda>d. d) mem_dedup side"
  by (rule side_storeI [OF mem.workflow_store_axioms])
    (simp_all add: memory_store_def mem_get_workflow_def mem_save_workflow_def mem_insert_workflow_with_result_def
      mem_claim_workflow_execution_def mem_list_workflows_def assms split: option.splits prod.splits)

interpretation mem_inbox: inbox_store memory_store mem_inv mem_mailbox mem_abs "\<lambda>d. d" mem_dedup
proof (rule inbox_store.intro [OF mem_mail.mail_store_axioms inbox_store_axioms.intro], goal_cases)
  case (1 d t)
  show ?case
    by (rule mem_side) (simp add: mem_mailbox_def waiting_def)
next
  case (2 s d t r s')
  then show ?case by (auto simp: memory_store_def mem_recv_message_def mem_abs_def split: option.splits prod.splits)
qed

interpretation mem_feed: feed_store memory_store mem_inv "\<lambda>s i k. stream_entries s (i, k)" mem_abs "\<lambda>d. d" mem_dedup
proof (rule feed_store.intro [OF mem_streams.stream_store_axioms feed_store_axioms.intro], goal_cases)
  case (1 i k)
  show ?case
    by (rule mem_side) (simp add: stream_entries_def)
next
  case (2 s e r s')
  then show ?case by (auto simp: memory_store_def mem_write_stream_def mem_abs_def Let_def)
qed

text \<open>In a table, the rows of another kind.\<close>

lemma rows_of_insert: "kind \<noteq> kind' \<Longrightarrow> rows_of kind (hm_insert (kind', i) p t) = rows_of kind t"
  unfolding hm_insert_def rows_of_def by (induction t) auto

context healthy_methods
begin

lemma rows_side:
  assumes "kind \<noteq> ''workflow''"
  shows "side_store (sql_methods kv migrate insertion claiming) sql_inv sql_abs wire_duration (\<lambda>_ _. False)
    (\<lambda>s. f (rows_of kind (sql_table s)))"
proof (rule side_storeI [OF workflow_store_axioms], simp_all only: sql_methods_def system_database.simps, goal_cases)
  case (1 s i)
  then show ?case by (simp add: get_workflow_law)
next
  case (2 s w)
  then show ?case using assms by (simp add: sql_save_workflow_def kv_put sql_inv_def rows_of_insert)
next
  case (3 s w)
  then show ?case
    using assms insertion [of s w] by (simp add: sql_inv_def healthy_insert_def rows_of_insert split: option.splits)
next
  case (4 s now i ex xid)
  then show ?case
    using assms claiming [of s now i ex xid]
    by (auto simp: sql_inv_def healthy_claim_def sql_claim_update_def rows_of_insert split: option.splits payload.splits if_splits)
next
  case (5 s opts)
  with list_workflows_law [OF 5, of opts] show ?case by auto
qed

lemma put_beside: "kind \<in> {''message'', ''stream''} \<Longrightarrow> sql_abs (s\<lparr>sql_table := hm_insert (kind, i) p (sql_table s)\<rparr>) = sql_abs s"
  by (auto simp: sql_abs_def Let_def sql_row_def fun_eq_iff)

lemma methods_inbox: "inbox_store (sql_methods kv migrate insertion claiming) sql_inv sql_mailbox sql_abs wire_duration (\<lambda>_ _. False)"
proof (rule inbox_store.intro [OF methods_mail inbox_store_axioms.intro], goal_cases)
  case (1 d t)
  show ?case
    unfolding sql_mailbox_def typed_rows_def by (rule rows_side) simp
next
  case (2 s d t r s')
  then have r: "sql_recv_message kv d t s = (r, s')" "healthy s" by (simp_all add: sql_methods_def sql_inv_def)
  then show ?case
    by (auto simp: sql_recv_message_def sql_recv_read_def sql_recv_consume_def act_bind_def act_return_def list_as_healthy kv_put
        put_beside Let_def split: sum.splits list.splits prod.splits)
qed

lemma methods_feed: "feed_store (sql_methods kv migrate insertion claiming) sql_inv sql_stream_at sql_abs wire_duration (\<lambda>_ _. False)"
proof (rule feed_store.intro [OF methods_streams feed_store_axioms.intro], goal_cases)
  case (1 i k)
  show ?case
    unfolding sql_stream_at_def typed_rows_def by (rule rows_side) simp
next
  case (2 s e r s')
  then show ?case by (auto simp: sql_methods_def sql_write_stream_def kv_put sql_inv_def put_beside)
qed

end

sublocale healthy_methods \<subseteq> inbox_store "sql_methods kv migrate insertion claiming" sql_inv sql_mailbox sql_abs wire_duration "\<lambda>_ _. False"
  by (rule methods_inbox)

sublocale healthy_methods \<subseteq> feed_store "sql_methods kv migrate insertion claiming" sql_inv sql_stream_at sql_abs wire_duration "\<lambda>_ _. False"
  by (rule methods_feed)

section \<open>Received once, written twice\<close>

text \<open>C3: A message that a workflow received is gone when the workflow is recovered. Without a crash the workflow that receives the one
  message waiting for it finishes with it. If the process dies after \<open>recv\<close> has returned, the execution that resumes the
  workflow calls \<open>recv\<close> again: the message is consumed, nothing was recorded, and the workflow waits until its deadline and
  fails with a timeout.\<close>

theorem received_message_lost:
  fixes ty :: "'b serde"
  assumes "inbox_store db ok mailbox view nd dedup" "ok s" "a_workflows (view s) i = Some row" "claimable xid row"
    and "resolve_workflow reg (wf_name row) (wf_config_name row) = Inr (inbox_handler db topic n)"
    and "decode_stored_value (cx_codec ctx) json_serde (wf_input row) (wf_serialization row) = Inr input"
    and "mailbox s i topic = {#m#}" "received (cx_codec ctx) json_serde m = Inr v"
    and "encodes (cx_codec ctx) (wf_serialization row = PORTABLE_JSON) v"
  shows "(\<exists>s' fin. execute_workflow db t (worker ctx reg i False xid) s = (Inr (), s') \<and> mailbox s' i topic = {#} \<and>
      a_workflows (view s') i = Some fin \<and> finished_result (cx_codec ctx) ty i fin = Some (from_value ty v)) \<and>
    (\<exists>s2 ids a s' fin. exec_steps db t' (worker ctx reg i False xid) 5 (ReadRow, s) = (ReloadRow (Inr v), s2) \<and>
      recover_pending_workflows db [executor_id ctx] \<lparr>app_store = s2, app_spawned = []\<rparr> = (Inr ids, a) \<and>
      (i, True) \<in> set (app_spawned a) \<and>
      execute_workflow db t (worker ctx reg i True xid') (app_store a) = (Inr (), s') \<and> mailbox s' i topic = {#} \<and>
      a_workflows (view s') i = Some fin \<and> finished_result (cx_codec ctx) ty i fin =
        Some (Inl (workflow_execution_error i (error_to_string (timeout_error (''timed out receiving topic '' @ topic))))))"
proof -
  note st = inbox_store.mail_beside [OF assms(1), of i topic]
  let ?ctx = "with_run_state ctx (run_state_of_row row)"
  have "wf_workflow_uuid row = i"
    using workflow_store.keyed [OF side_store.workflows [OF st] _ assms(3)] assms(2) by blast
  then have in_run: "cx_run_state ?ctx = Some (run_state_of_row row)" "rs_workflow_id (run_state_of_row row) = i" "cx_codec ?ctx = cx_codec ctx"
    by (simp_all add: with_run_state_def run_state_of_row_def)
  have first: "calls ok view (\<lambda>s. mailbox s i topic) (inbox_handler db topic n ?ctx input) (mailbox s i topic) (Inr v) {#}"
    using inbox_store.inbox_takes [OF assms(1) in_run(1,2)] assms(7,8) in_run(3) by metis
  note again = inbox_store.inbox_starves [OF assms(1) in_run(1,2)]
  from side_store.crashed_call [OF st assms(2-6) first assms(5) again, where t = t and t' = t' and xid' = xid' and ty = ty] assms(9)
  show ?thesis by (simp add: reported_def)
qed

text \<open>A value that a workflow writes to a stream is written again when the workflow is recovered: without a crash the stream
  has one new entry, and after a crash and a recovery the same value twice.\<close>

theorem replayed_write_doubles:
  assumes "feed_store db ok stream_at view nd dedup" "ok s" "a_workflows (view s) i = Some row" "claimable xid row"
    and "resolve_workflow reg (wf_name row) (wf_config_name row) = Inr (feed_handler db now key)"
    and "decode_stored_value (cx_codec ctx) json_serde (wf_input row) (wf_serialization row) = Inr input"
    and "resolve_workflow reg' (wf_name row) (wf_config_name row) = Inr (feed_handler db now' key)"
    and "encode_serializable (cx_codec ctx) json_serde input False = Inr enc"
    and "\<forall>e \<in> set (stream_at s i key). se_offset e < int (length (stream_at s i key))" "Suc (length (stream_at s i key)) < 2 ^ 63"
    and "encodes (cx_codec ctx) (wf_serialization row = PORTABLE_JSON) JNull"
  shows "(\<exists>s'. execute_workflow db t (worker ctx reg i False xid) s = (Inr (), s') \<and>
      stream_at s' i key = stream_at s i key @ [feed_entry i key now enc (length (stream_at s i key))]) \<and>
    (\<exists>s2 ids a s'. exec_steps db t' (worker ctx reg i False xid) 5 (ReadRow, s) = (ReloadRow (Inr JNull), s2) \<and>
      recover_pending_workflows db [executor_id ctx] \<lparr>app_store = s2, app_spawned = []\<rparr> = (Inr ids, a) \<and>
      (i, True) \<in> set (app_spawned a) \<and>
      execute_workflow db t (worker ctx reg' i True xid') (app_store a) = (Inr (), s') \<and>
      stream_at s' i key = stream_at s i key @ [feed_entry i key now enc (length (stream_at s i key)),
        feed_entry i key now' enc (Suc (length (stream_at s i key)))])"
proof -
  note st = feed_store.streams_beside [OF assms(1), of i key]
  let ?ctx = "with_run_state ctx (run_state_of_row row)" and ?X = "stream_at s i key"
  let ?Y = "?X @ [feed_entry i key now enc (length ?X)]"
  have "wf_workflow_uuid row = i"
    using workflow_store.keyed [OF side_store.workflows [OF st] _ assms(3)] assms(2) by blast
  then have in_run: "cx_run_state ?ctx = Some (run_state_of_row row)" "rs_workflow_id (run_state_of_row row) = i"
      "encode_serializable (cx_codec ?ctx) json_serde input False = Inr enc"
    using assms(8) by (simp_all add: with_run_state_def run_state_of_row_def)
  have "length ?X < 2 ^ 63" using assms(10) by linarith
  note first = feed_store.feed_writes [OF assms(1) in_run assms(9) this, where now = now]
  have offsets: "\<forall>e \<in> set ?Y. se_offset e < int (length ?Y)" using assms(9) by (auto simp: feed_entry_def)
  have "length ?Y < 2 ^ 63" using assms(10) by simp
  note again = feed_store.feed_writes [OF assms(1) in_run offsets this, where now = now']
  have enc: "\<And>v. Inr JNull = Inr v \<or> Inr JNull = Inr v \<Longrightarrow> encodes (cx_codec ctx) (wf_serialization row = PORTABLE_JSON) v"
    using assms(11) by auto
  from side_store.crashed_call [OF st assms(2-6) first assms(7) again enc, where t = t and t' = t' and xid' = xid' and ty = json_serde]
  show ?thesis by auto
qed

section \<open>An inbox for the witness\<close>

definition parcel :: workflow_message where
  "parcel = \<lparr>msg_destination_id = ''w1'', msg_topic = ''parcels'', msg_message = JBool True, msg_serialization = ''DBOS_JSON'',
             msg_created_at = 3, msg_consumed = False\<rparr>"

definition parcel_store :: memory_data where
  "parcel_store = (orders_store orders_row)\<lparr>md_messages := [parcel]\<rparr>"

definition serving :: "memory_data handler \<Rightarrow> memory_data registry" where
  "serving h = tiny_registry\<lparr>reg_workflows := [(''orders'', h)]\<rparr>"

lemma serving_resolves: "resolve_workflow (serving h) (wf_name orders_row) (wf_config_name orders_row) = Inr h"
  by (simp add: orders_row_simps resolve_workflow_def serving_def tiny_registry_def hm_get_def alias_name_def nonempty_def ok_or_def)

lemma parcel_store_facts:
  "mem_inv parcel_store" "a_workflows (mem_abs parcel_store) ''w1'' = Some orders_row"
  "mem_mailbox parcel_store ''w1'' ''parcels'' = {#parcel#}" "stream_entries parcel_store (''w1'', ''out'') = []"
  "received (cx_codec tiny_context) json_serde parcel = Inr (JBool True)"
proof -
  show "mem_inv parcel_store" using shop_row(1) by (simp add: parcel_store_def mem_inv_def)
  show "a_workflows (mem_abs parcel_store) ''w1'' = Some orders_row" by (simp add: parcel_store_def orders_store_def hm_get_def)
  show "mem_mailbox parcel_store ''w1'' ''parcels'' = {#parcel#}"
    by (simp add: mem_mailbox_def waiting_def awaits_def parcel_store_def parcel_def)
  show "stream_entries parcel_store (''w1'', ''out'') = []"
    by (simp add: stream_entries_def parcel_store_def orders_store_def empty_memory_def)
  show "received (cx_codec tiny_context) json_serde parcel = Inr (JBool True)" using tiny_decodes by (simp add: received_def parcel_def)
qed

text \<open>The process dies after the workflow received its parcel: the recovered workflow polls four times and fails.\<close>

theorem received_message_lost_witness:
  "(\<exists>s' fin. execute_workflow memory_store (\<lambda>n. 7)
        (worker tiny_context (serving (inbox_handler memory_store ''parcels'' 3)) ''w1'' False ''x'') parcel_store = (Inr (), s') \<and>
      a_workflows (mem_abs s') ''w1'' = Some fin \<and>
      finished_result (cx_codec tiny_context) json_serde ''w1'' fin = Some (Inr (JBool True))) \<and>
   (\<exists>s2 ids a s' fin. exec_steps memory_store (\<lambda>n. 7)
        (worker tiny_context (serving (inbox_handler memory_store ''parcels'' 3)) ''w1'' False ''x'') 5 (ReadRow, parcel_store) =
          (ReloadRow (Inr (JBool True)), s2) \<and>
      recover_pending_workflows memory_store [''local''] \<lparr>app_store = s2, app_spawned = []\<rparr> = (Inr ids, a) \<and>
      execute_workflow memory_store (\<lambda>n. 7)
        (worker tiny_context (serving (inbox_handler memory_store ''parcels'' 3)) ''w1'' True ''y'') (app_store a) = (Inr (), s') \<and>
      a_workflows (mem_abs s') ''w1'' = Some fin \<and>
      finished_result (cx_codec tiny_context) json_serde ''w1'' fin = Some (Inl (workflow_execution_error ''w1''
        (error_to_string (timeout_error ''timed out receiving topic parcels'')))))"
proof -
  have enc: "encodes (cx_codec tiny_context) (wf_serialization orders_row = PORTABLE_JSON) (JBool True)"
    using tiny_encodes by (simp add: shop_context)
  from received_message_lost [where t = "\<lambda>n. 7" and t' = "\<lambda>n. 7" and xid' = "''y''" and ty = json_serde and db = memory_store
        and ok = mem_inv and mailbox = mem_mailbox and view = mem_abs and s = parcel_store and i = "''w1''" and row = orders_row
        and xid = "''x''" and reg = "serving (inbox_handler memory_store ''parcels'' 3)" and topic = "''parcels''" and n = 3
        and ctx = tiny_context and input = "JBool True" and v = "JBool True",
      OF mem_inbox.inbox_store_axioms parcel_store_facts(1,2) shop_row(2) serving_resolves shop_row(5) parcel_store_facts(3,5) enc]
  show ?thesis by (simp add: shop_context(2) json_serde_def) blast
qed

text \<open>The process dies after the workflow wrote its input: the stream has it twice.\<close>

theorem replayed_write_doubles_witness:
  "\<exists>s2 ids a s' enc. exec_steps memory_store (\<lambda>n. 7)
        (worker tiny_context (serving (feed_handler memory_store 8 ''out'')) ''w1'' False ''x'') 5 (ReadRow, parcel_store) =
          (ReloadRow (Inr JNull), s2) \<and>
      recover_pending_workflows memory_store [''local''] \<lparr>app_store = s2, app_spawned = []\<rparr> = (Inr ids, a) \<and>
      execute_workflow memory_store (\<lambda>n. 7)
        (worker tiny_context (serving (feed_handler memory_store 9 ''out'')) ''w1'' True ''y'') (app_store a) = (Inr (), s') \<and>
      stream_entries s' (''w1'', ''out'') = [feed_entry ''w1'' ''out'' 8 enc 0, feed_entry ''w1'' ''out'' 9 enc 1]"
proof -
  have enc: "encodes (cx_codec tiny_context) (wf_serialization orders_row = PORTABLE_JSON) JNull"
    using tiny_encodes by (simp add: shop_context)
  obtain e where e: "encode_serializable (cx_codec tiny_context) json_serde (JBool True) False = Inr e"
    using carries_encoded [OF tiny_carries, of False] unfolding shop_context(1) by blast
  have none: "\<forall>e \<in> set (stream_entries parcel_store (''w1'', ''out'')). se_offset e < int (length (stream_entries parcel_store (''w1'', ''out'')))"
    "Suc (length (stream_entries parcel_store (''w1'', ''out''))) < 2 ^ 63"
    by (simp_all add: parcel_store_facts(4))
  from replayed_write_doubles [where t = "\<lambda>n. 7" and t' = "\<lambda>n. 7" and xid' = "''y''" and now = 8 and now' = 9
        and db = memory_store and ok = mem_inv and stream_at = "\<lambda>s i k. stream_entries s (i, k)" and view = mem_abs and s = parcel_store
        and i = "''w1''" and row = orders_row and xid = "''x''" and reg = "serving (feed_handler memory_store 8 ''out'')" and key = "''out''"
        and reg' = "serving (feed_handler memory_store 9 ''out'')" and ctx = tiny_context and input = "JBool True" and enc = e,
      OF mem_feed.feed_store_axioms parcel_store_facts(1,2) shop_row(2) serving_resolves shop_row(5) serving_resolves e none enc]
  show ?thesis by (simp add: shop_context(2) parcel_store_facts(4)) blast
qed

end
