(* ===== verification/Admin_Server.thy ===== *)
theory Admin_Server
  imports Admin Session
begin

text \<open>
  The listener of the admin server, \<open>src/src/admin.rs\<close>: binding, the accept loop, a connection from its first read
  to its last write, and the shutdown of the handle. The sockets are parameters: what \<open>bind\<close> and \<open>accept\<close>
  give, the bytes of the first read of a connection, and the failure of its writes. The tasks of the connections run one after
  the other, in the order of a list.
\<close>

section \<open>Starting\<close>

record admin_server_config =
  ac_host :: string
  ac_port :: nat

definition default_admin_server_config :: admin_server_config where
  "default_admin_server_config = \<lparr>ac_host = ''127.0.0.1'', ac_port = 3001\<rparr>"

record admin_server_handle =
  ah_port :: nat
  ah_task :: bool

text \<open>\<open>bind\<close> gives a listener, here the port in its local address (or the failure to read it).\<close>

definition start_admin_server ::
    "(string \<Rightarrow> string + (string + nat)) \<Rightarrow> admin_server_config \<Rightarrow> admin_server_handle res" where
  "start_admin_server bind config =
     (let bind_addr = ac_host config @ '':'' @ show_nat (ac_port config)
      in case bind bind_addr of
           Inl err \<Rightarrow> Inl (with_source Initialization (''failed to bind DBOS admin server at '' @ bind_addr) err)
         | Inr (Inl err) \<Rightarrow> Inl (with_source Initialization ''failed to read DBOS admin server address'' err)
         | Inr (Inr port) \<Rightarrow> Inr \<lparr>ah_port = port, ah_task = True\<rparr>)"

definition admin_port :: "admin_server_handle \<Rightarrow> nat" where
  "admin_port h = ah_port h"

text \<open>Without the feature \<open>admin\<close>.\<close>

definition start_admin_server_disabled :: "admin_server_handle res" where
  "start_admin_server_disabled = Inl (unsupported ''admin server requires the admin feature'')"

text \<open>
  The handle sends the signal and waits for the task; neither a missing receiver, a panic nor the end of the time is
  reported. The result is the event the loop gets, if it still runs, and what the call returns.
\<close>

definition admin_shutdown :: "admin_server_handle \<Rightarrow> task_end option \<Rightarrow> unit res" where
  "admin_shutdown h task = Inr ()"

section \<open>A connection\<close>

text \<open>
  \<open>String::from_utf8_lossy\<close>: each run of bytes that is no character becomes the replacement character.
\<close>

definition replacement_character :: string where
  "replacement_character = map char_of [239, 191, 189 :: nat]"

lemma utf8_error_index: "utf8_error i bs = Some (j, skip) \<Longrightarrow> i \<le> j"
  by (induction i bs rule: utf8_error.induct) (fastforce split: if_splits list.splits sum.splits)+

lemma utf8_tail_skips: "utf8_tail seen n bs = Inl (Some k) \<Longrightarrow> seen \<le> k"
  by (induction seen n bs rule: utf8_tail.induct) (auto split: if_splits)

lemma utf8_error_skips: "utf8_error i bs = Some (j, Some n) \<Longrightarrow> 0 < n"
  by (induction i bs rule: utf8_error.induct)
    (auto split: if_splits list.splits sum.splits dest: utf8_tail_skips)

lemma utf8_error_Nil_iff: "utf8_error i bs = Some e \<Longrightarrow> bs \<noteq> []"
  by auto

lemma lossy_shrinks:
  "utf8_error 0 (map of_char bytes) = Some (i, Some n) \<Longrightarrow> length (drop (i + n) bytes) < length bytes"
  using utf8_error_skips [of 0 "map of_char bytes" i n] utf8_error_Nil_iff [of 0 "map of_char bytes" "(i, Some n)"]
  by (cases bytes) auto

function from_utf8_lossy :: "string \<Rightarrow> string" where
  "from_utf8_lossy bytes =
     (case utf8_error 0 (map of_char bytes) of
        None \<Rightarrow> bytes
      | Some (i, None) \<Rightarrow> take i bytes @ replacement_character
      | Some (i, Some n) \<Rightarrow> take i bytes @ replacement_character @ from_utf8_lossy (drop (i + n) bytes))"
  by pat_completeness auto

termination
  by (relation "measure length") (simp_all only: wf_measure in_measure lossy_shrinks)

declare from_utf8_lossy.simps [simp del]

lemma from_utf8_lossy_valid: "from_utf8 bytes = Inr s \<Longrightarrow> from_utf8_lossy bytes = bytes"
  by (subst from_utf8_lossy.simps) (simp add: from_utf8_def split: option.splits)

lemma from_utf8_lossy_Nil: "from_utf8_lossy bytes = [] \<longleftrightarrow> bytes = []"
  by (subst from_utf8_lossy.simps)
    (auto simp: replacement_character_def split: option.splits)

text \<open>
  A connection: the environment and telemetry it is served with, the bytes of its one read or its failure, and the failure of
  the write of the header or of the body.
\<close>

datatype write_failure = HeaderFails string | BodyFails string

record 'c admin_stream =
  as_env :: "'c environment"
  as_telemetry :: telemetry
  as_read :: "string + string"
  as_write :: "write_failure option"

definition admin_buffer :: nat where
  "admin_buffer = 16 * 1024"

text \<open>The answer on the connection, if one was sent whole, and what the task returns.\<close>

definition serve_stream ::
    "json_lib \<Rightarrow> 's system_database \<Rightarrow> dbos_context \<Rightarrow> 'c admin_stream \<Rightarrow> 's app \<Rightarrow> (string option \<times> unit res) \<times> 's app" where
  "serve_stream lib db ctx stream a =
     (case as_read stream of
        Inl err \<Rightarrow> ((None, Inl (with_source Database ''failed to read admin request'' err)), a)
      | Inr bytes \<Rightarrow>
          (case handle_admin_connection (as_env stream) (as_telemetry stream) lib db ctx
                  (from_utf8_lossy (take admin_buffer bytes)) a of
             (None, a') \<Rightarrow> ((None, Inr ()), a')
           | (Some response, a') \<Rightarrow>
               (case as_write stream of
                  None \<Rightarrow> ((Some response, Inr ()), a')
                | Some (HeaderFails err) \<Rightarrow> ((None, Inl (with_source Database ''failed to write admin response'' err)), a')
                | Some (BodyFails err) \<Rightarrow> ((None, Inl (with_source Database ''failed to write admin response'' err)), a'))))"

section \<open>The accept loop\<close>

datatype 'c accept_event =
    ShutdownSent
  | Accepted "'c admin_stream"
  | AcceptFailed string

text \<open>The connections whose tasks were started, the warnings logged, and whether the loop still runs.\<close>

fun accept_loop :: "'c accept_event list \<Rightarrow> 'c admin_stream list \<times> string list \<times> bool" where
  "accept_loop [] = ([], [], True)"
| "accept_loop (event # events) =
     (case event of
        ShutdownSent \<Rightarrow> ([], [], False)
      | Accepted stream \<Rightarrow> (case accept_loop events of (streams, warnings, runs) \<Rightarrow> (stream # streams, warnings, runs))
      | AcceptFailed err \<Rightarrow> ([], [''DBOS admin accept failed''], False))"

text \<open>The tasks: the answers of the connections, and the warnings of the ones that failed.\<close>

fun serve_streams ::
    "json_lib \<Rightarrow> 's system_database \<Rightarrow> dbos_context \<Rightarrow> 'c admin_stream list \<Rightarrow> 's app \<Rightarrow>
     (string option list \<times> string list) \<times> 's app" where
  "serve_streams lib db ctx [] a = (([], []), a)"
| "serve_streams lib db ctx (stream # streams) a =
     (case serve_stream lib db ctx stream a of
        ((answer, result), a') \<Rightarrow>
          (case serve_streams lib db ctx streams a' of
             ((answers, warnings), a'') \<Rightarrow>
               ((answer # answers,
                 (case result of Inl _ \<Rightarrow> [''DBOS admin request failed''] | Inr _ \<Rightarrow> []) @ warnings), a'')))"

definition admin_server ::
    "json_lib \<Rightarrow> 's system_database \<Rightarrow> dbos_context \<Rightarrow> 'c accept_event list \<Rightarrow> 's app \<Rightarrow>
     (string option list \<times> string list \<times> bool) \<times> 's app" where
  "admin_server lib db ctx events a =
     (case accept_loop events of
        (streams, warnings, runs) \<Rightarrow>
          (case serve_streams lib db ctx streams a of
             ((answers, failed), a') \<Rightarrow> ((answers, warnings @ failed, runs), a')))"

section \<open>Every request is answered\<close>

definition answer_of :: "json_lib \<Rightarrow> string option \<Rightarrow> bool" where
  "answer_of lib answer \<longleftrightarrow>
     (\<exists>status body. answer = Some (write_json_response lib status body) \<and> status \<in> {200, 202, 400, 404, 500, 501, 504})"

lemma status_for_error_known: "status_for_error e \<in> {400, 404, 500, 501, 504}"
  by (simp add: status_for_error_def split: dbos_error_code.split)

lemma act_then_result: "act_then m f s = (Inr y, s') \<Longrightarrow> \<exists>x. y = f x"
  by (auto simp: act_then_def act_bind_def act_return_def split: prod.splits sum.splits)

lemma routed_status:
  assumes "route_admin_request env telemetry db ctx verb path query a = (Inr (status, body), a')"
  shows "status \<in> {200, 202}"
  using assms
  by (auto simp: route_admin_request_def Let_def act_fail_def map_option_case
      split: if_splits option.splits dest!: act_then_result)

lemma connection_answered:
  assumes "request \<noteq> []"
  shows "answer_of lib (fst (handle_admin_connection env telemetry lib db ctx request a))"
proof -
  have bad: "answer_of lib (Some (write_json_response lib 400 body))" for body
    unfolding answer_of_def by blast
  have failed: "answer_of lib (Some (write_json_response lib (status_for_error e) body))" for e body
    using status_for_error_known [of e] unfolding answer_of_def by blast
  have routed: "answer_of lib (Some (write_json_response lib status body))"
    if "route_admin_request env telemetry db ctx verb path query a = (Inr (status, body), a')" for verb path query status body a'
    using routed_status [OF that] unfolding answer_of_def by blast
  show ?thesis
    using assms
    by (auto simp: handle_admin_connection_def bad failed Let_def intro: routed
        split: option.split list.split prod.split sum.split)
qed

definition answerable :: "'c admin_stream \<Rightarrow> bool" where
  "answerable stream \<longleftrightarrow> (\<exists>bytes. as_read stream = Inr bytes \<and> bytes \<noteq> []) \<and> as_write stream = None"

lemma nothing_sent_unanswered: "handle_admin_connection env telemetry lib db ctx [] a = (None, a)"
  by (simp add: handle_admin_connection_def)

lemma stream_answered:
  assumes "serve_stream lib db ctx stream a = ((answer, result), a')"
  shows "(answerable stream \<longrightarrow> answer_of lib answer) \<and> (\<not> answerable stream \<longrightarrow> answer = None)"
proof (cases "as_read stream")
  case (Inl err)
  with assms show ?thesis by (simp add: serve_stream_def answerable_def)
next
  case (Inr bytes)
  let ?request = "from_utf8_lossy (take admin_buffer bytes)"
  obtain r b where run: "handle_admin_connection (as_env stream) (as_telemetry stream) lib db ctx ?request a = (r, b)"
    by fastforce
  show ?thesis
  proof (cases "bytes = []")
    case True
    with Inr assms show ?thesis
      by (simp add: serve_stream_def answerable_def from_utf8_lossy_Nil [THEN iffD2] nothing_sent_unanswered)
  next
    case False
    then have "?request \<noteq> []" by (simp add: from_utf8_lossy_Nil admin_buffer_def)
    then have "answer_of lib r" using connection_answered [of ?request lib] run by (metis fst_conv)
    with False Inr assms run show ?thesis
      by (auto simp: serve_stream_def answerable_def answer_of_def split: option.splits write_failure.splits)
  qed
qed

lemma streams_answered:
  "serve_streams lib db ctx streams a = ((answers, warnings), a') \<Longrightarrow>
   list_all2 (\<lambda>stream answer. (answerable stream \<longrightarrow> answer_of lib answer) \<and> (\<not> answerable stream \<longrightarrow> answer = None))
     streams answers"
proof (induction streams arbitrary: a answers warnings a')
  case Nil
  then show ?case by simp
next
  case (Cons stream streams)
  obtain answer result b where one: "serve_stream lib db ctx stream a = ((answer, result), b)"
    by (metis surj_pair)
  obtain rest failed c where others: "serve_streams lib db ctx streams b = ((rest, failed), c)"
    by (metis surj_pair)
  from Cons.prems one others have "answers = answer # rest" by simp
  with stream_answered [OF one] Cons.IH [OF others] show ?case by simp
qed

lemma accept_loop_accepts:
  "(\<forall>stream. stop \<noteq> Accepted stream) \<Longrightarrow>
   \<exists>warnings. accept_loop (map Accepted streams @ stop # events) = (streams, warnings, False)"
  by (induction streams) (cases stop; auto)+

text \<open>
  Until the shutdown, or the first accept that fails, the server takes every connection; each that sends anything gets one
  answer, with a status of the list, whatever the other connections sent and however they failed.
\<close>

theorem admin_server_answers:
  assumes "\<forall>stream. stop \<noteq> Accepted stream"
  shows "\<exists>answers warnings a'.
      admin_server lib db ctx (map Accepted streams @ stop # events) a = ((answers, warnings, False), a')
      \<and> list_all2 (\<lambda>stream answer. (answerable stream \<longrightarrow> answer_of lib answer) \<and> (\<not> answerable stream \<longrightarrow> answer = None))
          streams answers"
proof -
  obtain warnings where loop: "accept_loop (map Accepted streams @ stop # events) = (streams, warnings, False)"
    using accept_loop_accepts [OF assms] by blast
  obtain answers failed a' where served: "serve_streams lib db ctx streams a = ((answers, failed), a')"
    by (metis surj_pair)
  from loop served streams_answered [OF served] show ?thesis by (simp add: admin_server_def)
qed

end
