(* ===== verification/Redaction.thy ===== *)
theory Redaction
  imports Builders Client Admin_Server
begin

text \<open>
  What the \<open>Debug\<close> implementations written by hand print: \<open>DbosConfig\<close> (\<open>src/src/context.rs\<close>), \<open>ConductorConfig\<close> and
  \<open>ConductorHandle\<close> (\<open>src/src/conductor.rs\<close>), \<open>ClientConfig\<close> (\<open>src/src/client.rs\<close>), \<open>DbosObservability\<close>
  (\<open>src/src/observability.rs\<close>), \<open>SystemDatabaseHandle\<close> (\<open>src/src/store.rs\<close>) and \<open>AdminServerHandle\<close>
  (\<open>src/src/admin.rs\<close>). They are there to keep secrets out of logs: the API key of the conductor is, the credentials in a
  database URL are not. How \<open>serde_json\<close> prints a value is an argument.
\<close>

section \<open>Printing a struct\<close>

definition debug_fields :: "(string \<times> string) list \<Rightarrow> string" where
  "debug_fields fs =
     (case map (\<lambda>(f, v). f @ '': '' @ v) fs of
        [] \<Rightarrow> ''''
      | x # xs \<Rightarrow> x @ concat (map (\<lambda>y. '', '' @ y) xs))"

definition debug_struct :: "string \<Rightarrow> (string \<times> string) list \<Rightarrow> string" where
  "debug_struct name fs = (if fs = [] then name else name @ '' { '' @ debug_fields fs @ '' }'')"

definition debug_struct_open :: "string \<Rightarrow> (string \<times> string) list \<Rightarrow> string" where
  "debug_struct_open name fs =
     (if fs = [] then name @ '' { .. }'' else name @ '' { '' @ debug_fields fs @ '', .. }'')"

definition debug_option :: "('a \<Rightarrow> string) \<Rightarrow> 'a option \<Rightarrow> string" where
  "debug_option show x = (case x of None \<Rightarrow> ''None'' | Some v \<Rightarrow> ''Some('' @ show v @ '')'')"

definition debug_bool :: "bool \<Rightarrow> string" where
  "debug_bool b = (if b then ''true'' else ''false'')"

text \<open>An optional value of which only the presence is printed.\<close>

definition debug_presence :: "string \<Rightarrow> bool \<Rightarrow> string" where
  "debug_presence label present = (if present then ''Some('' @ debug_str label @ '')'' else ''None'')"

section \<open>The implementations\<close>

definition debug_system_database_handle :: string where
  "debug_system_database_handle = debug_struct_open ''SystemDatabaseHandle'' []"

definition debug_observability :: "metrics option \<Rightarrow> string" where
  "debug_observability handle = debug_struct_open ''DbosObservability'' [(''enabled'', debug_bool (is_enabled handle))]"

definition debug_admin_server_handle :: "admin_server_handle \<Rightarrow> string" where
  "debug_admin_server_handle h = debug_struct ''AdminServerHandle'' [(''port'', show_nat (ah_port h))]"

text \<open>\<open>system_database\<close> of a configuration is whether it is there.\<close>

definition debug_database_option :: "bool \<Rightarrow> string" where
  "debug_database_option present = (if present then ''Some('' @ debug_system_database_handle @ '')'' else ''None'')"

definition debug_dbos_config :: "(json \<Rightarrow> string) \<Rightarrow> ('h, 't) config_parts \<Rightarrow> string" where
  "debug_dbos_config debug_json parts =
     (let c = cp_config parts in debug_struct ''DbosConfig''
        [(''app_name'', debug_str (cfg_app_name c)),
         (''database_url'', debug_option debug_str (cfg_database_url c)),
         (''turso_path'', debug_option debug_str (cfg_turso_path c)),
         (''database_schema'', debug_str (cfg_database_schema c)),
         (''system_database'', debug_database_option (cfg_system_database c)),
         (''admin_server'', debug_bool (cfg_admin_server c)),
         (''admin_server_port'', show_nat (cfg_admin_server_port c)),
         (''conductor_url'', debug_option debug_str (cfg_conductor_url c)),
         (''conductor_api_key'', debug_presence ''<redacted>'' (cfg_conductor_api_key c \<noteq> None)),
         (''conductor_executor_metadata'', debug_option debug_json (cfg_conductor_executor_metadata c)),
         (''conductor_alert_handler'', debug_presence ''<handler>'' (cp_alert_handler parts \<noteq> None)),
         (''conductor_transport'', debug_presence ''<transport>'' (cp_transport parts \<noteq> None)),
         (''application_version'', debug_option debug_str (cfg_application_version c)),
         (''executor_id'', debug_option debug_str (cfg_executor_id c)),
         (''application_id'', debug_option debug_str (cfg_application_id c)),
         (''enable_patching'', debug_bool (cfg_enable_patching c)),
         (''scheduler_polling_interval'', debug_duration (cfg_scheduler_polling_interval c)),
         (''serializer'', debug_option (\<lambda>ser. debug_str (cs_name ser)) (cp_serializer parts)),
         (''observability'', debug_option debug_observability (cp_observability parts))])"

text \<open>Whether the configuration of the conductor has a handler and a transport comes with it.\<close>

definition debug_conductor_config :: "(json \<Rightarrow> string) \<Rightarrow> bool \<Rightarrow> bool \<Rightarrow> conductor_config \<Rightarrow> string" where
  "debug_conductor_config debug_json has_handler has_transport config =
     debug_struct ''ConductorConfig''
       [(''url'', debug_str (cc_url config)), (''api_key'', debug_str ''<redacted>''),
        (''app_name'', debug_str (cc_app_name config)),
        (''executor_metadata'', debug_option debug_json (cc_executor_metadata config)),
        (''alert_handler'', debug_presence ''<handler>'' has_handler),
        (''transport'', debug_presence ''<transport>'' has_transport),
        (''reconnect_interval'', debug_duration (cc_reconnect_interval config))]"

definition debug_conductor_handle :: "(json \<Rightarrow> string) \<Rightarrow> bool \<Rightarrow> bool \<Rightarrow> bool \<Rightarrow> conductor_handle \<Rightarrow> string" where
  "debug_conductor_handle debug_json has_handler has_transport has_task h =
     debug_struct ''ConductorHandle''
       [(''url'', debug_str (ch_url h)),
        (''config'', debug_conductor_config debug_json has_handler has_transport (ch_config h)),
        (''task'', debug_presence ''<task>'' has_task)]"

definition debug_client_config :: "custom_serializer option \<Rightarrow> client_config \<Rightarrow> string" where
  "debug_client_config serializer config =
     debug_struct ''ClientConfig''
       [(''database_url'', debug_option debug_str (cl_database_url config)),
        (''turso_path'', debug_option debug_str (cl_turso_path config)),
        (''database_schema'', debug_str (cl_database_schema config)),
        (''system_database'', debug_database_option (cl_system_database config)),
        (''serializer'', debug_option (\<lambda>ser. debug_str (cs_name ser)) serializer)]"

section \<open>What they hide\<close>

text \<open>
  The text of a configuration, of a handle, the redacted URL, and with it the error of a connection that fails, do not depend on
  the key: from all of them together nothing about the key can be learnt, except whether there is one.
\<close>

theorem api_key_not_printed:
  "debug_dbos_config dj (p\<lparr>cp_config := c\<lparr>cfg_conductor_api_key := Some k\<rparr>\<rparr>) =
     debug_dbos_config dj (p\<lparr>cp_config := c\<lparr>cfg_conductor_api_key := Some k'\<rparr>\<rparr>) \<and>
   debug_conductor_handle dj b b' b'' \<lparr>ch_url = u, ch_config = cc\<lparr>cc_api_key := k\<rparr>\<rparr> =
     debug_conductor_handle dj b b' b'' \<lparr>ch_url = u, ch_config = cc\<lparr>cc_api_key := k'\<rparr>\<rparr> \<and>
   run_websocket_conductor_session lib url_encode db ctx (cc\<lparr>cc_api_key := k\<rparr>) alerts connected events ss =
     run_websocket_conductor_session lib url_encode db ctx (cc\<lparr>cc_api_key := k'\<rparr>) alerts connected events ss"
  by (simp add: debug_dbos_config_def debug_conductor_handle_def debug_conductor_config_def
      run_websocket_conductor_session_def conductor_websocket_url_redacted_def conductor_websocket_url_with_key_def
      split: option.split)

text \<open>The URL of the database is printed as it is, with the password it may contain.\<close>

theorem database_url_printed:
  assumes "cfg_database_url (cp_config p) = Some url" "cl_database_url config = Some url"
  shows "(\<exists>before after. debug_dbos_config dj p = before @ debug_str url @ after) \<and>
    (\<exists>before after. debug_client_config ser config = before @ debug_str url @ after)"
proof
  show "\<exists>before after. debug_dbos_config dj p = before @ debug_str url @ after"
    by (rule exI [of _ "''DbosConfig { app_name: '' @ debug_str (cfg_app_name (cp_config p)) @ '', database_url: Some(''"])
      (simp add: debug_dbos_config_def debug_struct_def debug_fields_def debug_option_def assms(1) Let_def)
  show "\<exists>before after. debug_client_config ser config = before @ debug_str url @ after"
    by (rule exI [of _ "''ClientConfig { database_url: Some(''"])
      (simp add: debug_client_config_def debug_struct_def debug_fields_def debug_option_def assms(2))
qed

end
